(* ===== verification/Prelude.thy ===== *)
theory Prelude
  imports Main
begin

text \<open>
  Shared vocabulary of the development: fallible results, the fragment of Rust's
  standard library on strings that the modelled crates use, and the generic lemmas the
  component theories rely on.

  \<^item> \<open>Result<T, E>\<close> is the sum type \<open>'e + 'a\<close>: \<open>Inl\<close> is \<open>Err\<close>, \<open>Inr\<close> is \<open>Ok\<close>, and
    the operator \<open>?\<close> is \<open>try_bind\<close>.
  \<^item> A Rust \<open>String\<close> is the list of its \<open>char\<close>s. The type \<open>char\<close> of HOL has the code points
    U+0000 to U+00FF, so text with larger code points is outside the model. \<open>utf8_len\<close> is
    the byte length that Rust's \<open>len\<close> returns.
  \<^item> \<open>usize\<close> counters that only count pushed parameters, tokens or visited nodes are \<open>nat\<close>.
\<close>

section \<open>Collections of facts\<close>

named_theorems result_simps \<open>evaluation of fallible computations\<close>
named_theorems text_simps \<open>string operations\<close>
named_theorems dialect_defs \<open>definitions of the SQL dialects\<close>
named_theorems no_panic \<open>absence of out-of-range accesses\<close>

section \<open>Fallible computations\<close>

definition try_bind :: "'e + 'a \<Rightarrow> ('a \<Rightarrow> 'e + 'b) \<Rightarrow> 'e + 'b" where
  "try_bind r f = (case r of Inl e \<Rightarrow> Inl e | Inr x \<Rightarrow> f x)"

lemma try_bind_simps [simp, result_simps]:
  "try_bind (Inl e) f = Inl e"
  "try_bind (Inr x) f = f x"
  by (simp_all add: try_bind_def)

lemma try_bind_cong [fundef_cong]:
  "r = r' \<Longrightarrow> (\<And>x. r' = Inr x \<Longrightarrow> f x = f' x) \<Longrightarrow> try_bind r f = try_bind r' f'"
  by (auto simp: try_bind_def split: sum.splits)

lemma try_bind_eq_Inr:
  "try_bind r f = Inr y \<longleftrightarrow> (\<exists>x. r = Inr x \<and> f x = Inr y)"
  by (auto simp: try_bind_def split: sum.splits)

lemma try_bind_eq_Inl:
  "try_bind r f = Inl e \<longleftrightarrow> r = Inl e \<or> (\<exists>x. r = Inr x \<and> f x = Inl e)"
  by (auto simp: try_bind_def split: sum.splits)

lemma try_bind_assoc:
  "try_bind (try_bind r f) g = try_bind r (\<lambda>x. try_bind (f x) g)"
  by (simp add: try_bind_def split: sum.splits)

text \<open>\<open>iter().map(f).collect::<Result<Vec<_>>>()\<close>: the first error wins.\<close>

fun collect_results :: "('a \<Rightarrow> 'e + 'b) \<Rightarrow> 'a list \<Rightarrow> 'e + 'b list" where
  "collect_results f [] = Inr []"
| "collect_results f (x # xs) =
     try_bind (f x) (\<lambda>y. try_bind (collect_results f xs) (\<lambda>ys. Inr (y # ys)))"

lemma collect_results_cong [fundef_cong]:
  "xs = ys \<Longrightarrow> (\<And>x. x \<in> set ys \<Longrightarrow> f x = g x) \<Longrightarrow> collect_results f xs = collect_results g ys"
  by (induction xs arbitrary: ys) auto

lemma collect_results_Inr_iff:
  "collect_results f xs = Inr ys \<longleftrightarrow> list_all2 (\<lambda>x y. f x = Inr y) xs ys"
  by (induction xs arbitrary: ys) (auto simp: try_bind_eq_Inr list_all2_Cons1)

lemma set_map_filter: "set (List.map_filter f xs) = {y. \<exists>x \<in> set xs. f x = Some y}"
  by (force simp: List.map_filter_def image_iff)

lemma collect_results_all:
  assumes "collect_results f xs = Inr ys" and "\<And>x y. x \<in> set xs \<Longrightarrow> f x = Inr y \<Longrightarrow> P y"
  shows "list_all P ys"
proof -
  from assms(1) have "list_all2 (\<lambda>x y. f x = Inr y) xs ys"
    by (simp add: collect_results_Inr_iff)
  then have "list_all2 (\<lambda>x y. P y) xs ys"
    by (rule list.rel_mono_strong) (rule assms(2))
  then show ?thesis by (induction rule: list_all2_induct) simp_all
qed

section \<open>Strings\<close>

text \<open>\<open>s.replace(c, r)\<close> for a \<open>char\<close> pattern, \<open>parts.join(sep)\<close>, \<open>s.split(c)\<close>.\<close>

definition replace_char :: "char \<Rightarrow> string \<Rightarrow> string \<Rightarrow> string" where
  "replace_char c r s = concat (map (\<lambda>x. if x = c then r else [x]) s)"

lemma replace_char_simps [simp, text_simps]:
  "replace_char c r [] = []"
  "replace_char c r (x # s) = (if x = c then r else [x]) @ replace_char c r s"
  by (simp_all add: replace_char_def)

lemma replace_char_append [simp, text_simps]:
  "replace_char c r (s @ t) = replace_char c r s @ replace_char c r t"
  by (simp add: replace_char_def)

lemma replace_char_id: "c \<notin> set s \<Longrightarrow> replace_char c r s = s"
  by (induction s) auto

fun join :: "string \<Rightarrow> string list \<Rightarrow> string" where
  "join sep [] = []"
| "join sep [x] = x"
| "join sep (x # y # xs) = x @ sep @ join sep (y # xs)"

lemma join_Cons: "join sep (x # xs) = (if xs = [] then x else x @ sep @ join sep xs)"
  by (cases xs) auto

fun split_on :: "char \<Rightarrow> string \<Rightarrow> string list" where
  "split_on c [] = [[]]"
| "split_on c (x # s) =
     (if x = c then [] # split_on c s
      else (case split_on c s of [] \<Rightarrow> [[x]] | p # ps \<Rightarrow> (x # p) # ps))"

lemma split_on_ne [simp]: "split_on c s \<noteq> []"
  by (induction s) (auto split: list.splits)

lemma split_on_no_sep: "p \<in> set (split_on c s) \<Longrightarrow> c \<notin> set p"
  by (induction s arbitrary: p) (auto split: if_splits list.splits)

lemma split_on_no_occ: "c \<notin> set p \<Longrightarrow> split_on c p = [p]"
  by (induction p) auto

lemma split_on_append: "c \<notin> set p \<Longrightarrow> split_on c (p @ c # s) = p # split_on c s"
  by (induction p) (auto split: list.splits)

lemma join_split_on: "join [c] (split_on c s) = s"
proof (induction s)
  case (Cons x s)
  obtain p ps where "split_on c s = p # ps"
    by (cases "split_on c s") auto
  with Cons show ?case by (auto simp: join_Cons)
qed simp

lemma split_on_join:
  "ps \<noteq> [] \<Longrightarrow> \<forall>p \<in> set ps. c \<notin> set p \<Longrightarrow> split_on c (join [c] ps) = ps"
proof (induction ps)
  case (Cons p ps)
  then show ?case
    by (cases ps) (auto simp: split_on_no_occ split_on_append)
qed simp

text \<open>Decimal rendering of an unsigned integer, \<open>format!("{n}")\<close>.\<close>

definition digit_char :: "nat \<Rightarrow> char" where
  "digit_char n = char_of (48 + n)"

fun show_nat :: "nat \<Rightarrow> string" where
  "show_nat n = (if n < 10 then [digit_char n] else show_nat (n div 10) @ [digit_char (n mod 10)])"

declare show_nat.simps [simp del]

lemma of_digit_char [simp]: "n < 10 \<Longrightarrow> (of_char (digit_char n) :: nat) = 48 + n"
  by (simp add: digit_char_def)

definition parse_nat :: "string \<Rightarrow> nat" where
  "parse_nat s = foldl (\<lambda>a c. 10 * a + (of_char c - 48)) 0 s"

lemma parse_show_nat: "parse_nat (show_nat n) = n"
proof (induction n rule: show_nat.induct)
  case (1 n)
  show ?case
  proof (cases "n < 10")
    case True
    then show ?thesis by (simp add: show_nat.simps [of n] parse_nat_def)
  next
    case False
    with 1 have "parse_nat (show_nat (n div 10)) = n div 10" by simp
    with False show ?thesis
      by (simp add: show_nat.simps [of n] parse_nat_def)
  qed
qed

lemma show_nat_inj [simp]: "show_nat m = show_nat n \<longleftrightarrow> m = n"
  by (metis parse_show_nat)

lemma show_nat_ne [simp]: "show_nat n \<noteq> []"
  by (simp add: show_nat.simps [of n])

lemma show_nat_digits: "c \<in> set (show_nat n) \<Longrightarrow> 48 \<le> (of_char c :: nat) \<and> of_char c < (58 :: nat)"
proof (induction n rule: show_nat.induct)
  case (1 n)
  show ?case
  proof (cases "n < 10")
    case True
    with 1 show ?thesis by (simp add: show_nat.simps [of n])
  next
    case False
    with "1.prems" consider "c \<in> set (show_nat (n div 10))" | "c = digit_char (n mod 10)"
      by (auto simp: show_nat.simps [of n])
    then show ?thesis
      using False "1.IH" by cases simp_all
  qed
qed

section \<open>Character classes (U+0000 to U+00FF)\<close>

abbreviation code :: "char \<Rightarrow> nat" where
  "code c \<equiv> of_char c"

definition is_uppercase :: "char \<Rightarrow> bool" where
  "is_uppercase c \<longleftrightarrow> (65 \<le> code c \<and> code c \<le> 90) \<or>
     (192 \<le> code c \<and> code c \<le> 222 \<and> code c \<noteq> 215)"

definition to_lowercase_char :: "char \<Rightarrow> char" where
  "to_lowercase_char c = (if is_uppercase c then char_of (code c + 32) else c)"

definition is_alphabetic :: "char \<Rightarrow> bool" where
  "is_alphabetic c \<longleftrightarrow> (65 \<le> code c \<and> code c \<le> 90) \<or> (97 \<le> code c \<and> code c \<le> 122) \<or>
     code c = 170 \<or> code c = 181 \<or> code c = 186 \<or>
     (192 \<le> code c \<and> code c \<noteq> 215 \<and> code c \<noteq> 247)"

definition is_numeric :: "char \<Rightarrow> bool" where
  "is_numeric c \<longleftrightarrow> (48 \<le> code c \<and> code c \<le> 57) \<or> code c = 178 \<or> code c = 179 \<or> code c = 185 \<or>
     (188 \<le> code c \<and> code c \<le> 190)"

definition is_alphanumeric :: "char \<Rightarrow> bool" where
  "is_alphanumeric c \<longleftrightarrow> is_alphabetic c \<or> is_numeric c"

definition is_whitespace :: "char \<Rightarrow> bool" where
  "is_whitespace c \<longleftrightarrow> (9 \<le> code c \<and> code c \<le> 13) \<or> code c = 32 \<or> code c = 133 \<or> code c = 160"

lemmas char_class_defs =
  is_uppercase_def to_lowercase_char_def is_alphabetic_def is_numeric_def
  is_alphanumeric_def is_whitespace_def

lemma code_less_256 [simp]: "code c < 256"
  using of_char_mod_256 [of c, where 'a = nat] by (metis mod_less_divisor zero_less_numeral)

lemma lowercase_not_uppercase [simp]: "\<not> is_uppercase (to_lowercase_char c)"
  using code_less_256 [of c] by (auto simp: to_lowercase_char_def is_uppercase_def)

text \<open>\<open>str::to_lowercase\<close>, and \<open>str::len\<close> in bytes of UTF-8.\<close>

definition to_lowercase :: "string \<Rightarrow> string" where
  "to_lowercase s = map to_lowercase_char s"

definition utf8_len :: "string \<Rightarrow> nat" where
  "utf8_len s = sum_list (map (\<lambda>c. if code c < 128 then 1 else 2) s)"

lemma utf8_len_simps [simp]:
  "utf8_len [] = 0"
  "utf8_len (c # s) = (if code c < 128 then 1 else 2) + utf8_len s"
  by (simp_all add: utf8_len_def)

lemma utf8_len_append [simp]: "utf8_len (s @ t) = utf8_len s + utf8_len t"
  by (simp add: utf8_len_def)

lemma length_le_utf8_len: "length s \<le> utf8_len s"
  by (induction s) auto

section \<open>Effects\<close>

text \<open>
  An operation on a state: its result or its error, and the state after it. An error stops what
  follows and keeps what was already done.
\<close>

type_synonym ('s, 'e, 'a) effect = "'s \<Rightarrow> ('e + 'a) \<times> 's"

definition lift_result :: "'e + 'a \<Rightarrow> ('s, 'e, 'a) effect" where
  "lift_result r = (\<lambda>s. (r, s))"

definition and_then :: "('s, 'e, 'a) effect \<Rightarrow> ('a \<Rightarrow> ('s, 'e, 'b) effect) \<Rightarrow> ('s, 'e, 'b) effect" where
  "and_then m f = (\<lambda>s. case m s of (Inl e, s') \<Rightarrow> (Inl e, s') | (Inr v, s') \<Rightarrow> f v s')"

lemma lift_result_app [simp]: "lift_result r s = (r, s)"
  by (simp add: lift_result_def)

lemma and_then_lift [simp]: "and_then (lift_result r) f s = (case r of Inl e \<Rightarrow> (Inl e, s) | Inr v \<Rightarrow> f v s)"
  by (simp add: and_then_def split: sum.splits)

lemma and_then_Inr: "and_then m f s = (Inr v, s') \<longleftrightarrow> (\<exists>u s1. m s = (Inr u, s1) \<and> f u s1 = (Inr v, s'))"
  by (auto simp: and_then_def split: prod.splits sum.splits)

lemma and_then_step: "m s = (Inr u, s1) \<Longrightarrow> and_then m f s = f u s1"
  by (simp add: and_then_def)

lemma and_then_stop: "m s = (Inl e, s1) \<Longrightarrow> and_then m f s = (Inl e, s1)"
  by (simp add: and_then_def)

end
