(* ===== verification/Json.thy ===== *)
theory Json
  imports Prelude "HOL-Library.Word"
begin

text \<open>
  JSON values as \<open>serde_json::Value\<close> has them. A number is one of the three cases of
  \<open>serde_json::Number\<close>; a float is kept as its IEEE-754 bit pattern, which only
  \<open>Condition_Eval\<close> interprets, for the comparisons of the condition language. An object is the list of its entries in the order the map
  iterates over them; the crates build \<open>serde_json\<close> without \<open>preserve_order\<close>, so in the
  program that is the order of the keys.
\<close>

type_synonym u64 = "64 word"
type_synonym u32 = "32 word"
type_synonym u8 = "8 word"

datatype jnumber = PosInt u64 | NegInt u64 | Float u64

datatype json =
    JNull
  | JBool bool
  | JNumber jnumber
  | JString string
  | JArray "json list"
  | JObject "(string \<times> json) list"

fun is_number :: "json \<Rightarrow> bool" where
  "is_number (JNumber _) = True"
| "is_number _ = False"

fun is_boolean :: "json \<Rightarrow> bool" where
  "is_boolean (JBool _) = True"
| "is_boolean _ = False"

fun is_object :: "json \<Rightarrow> bool" where
  "is_object (JObject _) = True"
| "is_object _ = False"

fun as_array :: "json \<Rightarrow> json list option" where
  "as_array (JArray xs) = Some xs"
| "as_array _ = None"

fun as_object :: "json \<Rightarrow> (string \<times> json) list option" where
  "as_object (JObject es) = Some es"
| "as_object _ = None"

fun as_str :: "json \<Rightarrow> string option" where
  "as_str (JString s) = Some s"
| "as_str _ = None"

fun as_bool :: "json \<Rightarrow> bool option" where
  "as_bool (JBool b) = Some b"
| "as_bool _ = None"

fun as_i64 :: "json \<Rightarrow> int option" where
  "as_i64 (JNumber (PosInt n)) = (if unat n < 2 ^ 63 then Some (uint n) else None)"
| "as_i64 (JNumber (NegInt w)) = Some (sint w)"
| "as_i64 _ = None"

fun as_u64 :: "json \<Rightarrow> nat option" where
  "as_u64 (JNumber (PosInt n)) = Some (unat n)"
| "as_u64 _ = None"

lemma as_array_Some [simp]: "as_array v = Some xs \<longleftrightarrow> v = JArray xs"
  by (cases v) auto

lemma as_object_Some [simp]: "as_object v = Some es \<longleftrightarrow> v = JObject es"
  by (cases v) auto

lemma as_str_Some [simp]: "as_str v = Some s \<longleftrightarrow> v = JString s"
  by (cases v) auto

text \<open>\<open>value.get(key)\<close>: present only on objects.\<close>

definition json_get :: "json \<Rightarrow> string \<Rightarrow> json option" where
  "json_get v k = (case v of JObject es \<Rightarrow> map_of es k | _ \<Rightarrow> None)"

text \<open>
  A node count that strictly decreases from a container to what it holds; an entry of an
  object weighs three more than its value, so that an object rebuilt around one entry of a
  nested object is still smaller than the outer one.
\<close>

fun json_nodes :: "json \<Rightarrow> nat" where
  "json_nodes (JArray xs) = Suc (sum_list (map json_nodes xs))"
| "json_nodes (JObject es) = Suc (sum_list (map (\<lambda>(k, v). 3 + json_nodes v) es))"
| "json_nodes _ = 1"

lemma json_nodes_pos [simp]: "0 < json_nodes v"
  by (cases v) auto

end
