(* ===== verification/Sql_Escape.thy ===== *)
theory Sql_Escape
  imports Prelude
begin

text \<open>
  Identifier quoting (\<open>fraiseql-db/src/identifier.rs\<close>), JSON path escaping
  (\<open>fraiseql-db/src/path_escape.rs\<close>) and LIKE escaping (\<open>escape_like_literal\<close> of
  \<open>where_generator/generic.rs\<close>), with the scanners that say what a database reads back:
  \<open>scan_delimited\<close> reads a quoted identifier or string literal whose closing delimiter is
  escaped by doubling, and \<open>like_match\<close> is the meaning of a LIKE pattern whose escape
  character is the backslash.
\<close>

section \<open>Identifiers\<close>

abbreviation dquote :: char where "dquote \<equiv> CHR 34"
abbreviation squote :: char where "squote \<equiv> CHR 39"
abbreviation backtick :: char where "backtick \<equiv> CHR 96"
abbreviation backslash :: char where "backslash \<equiv> CHR 92"

definition quote_with :: "char \<Rightarrow> char \<Rightarrow> string \<Rightarrow> string" where
  "quote_with op cl name = [op] @ replace_char cl [cl, cl] name @ [cl]"

definition quote_postgres_identifier :: "string \<Rightarrow> string" where
  "quote_postgres_identifier ident =
     join ''.'' (map (\<lambda>part. quote_with dquote dquote part) (split_on CHR ''.'' ident))"

definition quote_mysql_identifier :: "string \<Rightarrow> string" where
  "quote_mysql_identifier ident =
     join ''.'' (map (\<lambda>part. quote_with backtick backtick part) (split_on CHR ''.'' ident))"

definition quote_sqlite_identifier :: "string \<Rightarrow> string" where
  "quote_sqlite_identifier ident =
     join ''.'' (map (\<lambda>part. quote_with dquote dquote part) (split_on CHR ''.'' ident))"

definition quote_sqlserver_identifier :: "string \<Rightarrow> string" where
  "quote_sqlserver_identifier ident =
     join ''.'' (map (\<lambda>part. quote_with CHR ''['' CHR '']'' part) (split_on CHR ''.'' ident))"

section \<open>JSON paths\<close>

definition escape_postgres_jsonb_segment :: "string \<Rightarrow> string" where
  "escape_postgres_jsonb_segment segment = replace_char squote [squote, squote] segment"

definition escape_postgres_jsonb_path :: "string list \<Rightarrow> string list" where
  "escape_postgres_jsonb_path path = map escape_postgres_jsonb_segment path"

definition escape_mysql_json_path :: "string list \<Rightarrow> string" where
  "escape_mysql_json_path path = ''$.'' @ replace_char squote [squote, squote] (join ''.'' path)"

definition escape_sqlite_json_path :: "string list \<Rightarrow> string" where
  "escape_sqlite_json_path path = ''$.'' @ replace_char squote [squote, squote] (join ''.'' path)"

definition escape_sqlserver_json_path :: "string list \<Rightarrow> string" where
  "escape_sqlserver_json_path path = ''$.'' @ replace_char squote [squote, squote] (join ''.'' path)"

section \<open>LIKE patterns\<close>

definition escape_like_literal :: "string \<Rightarrow> string" where
  "escape_like_literal s =
     replace_char CHR ''_'' [backslash, CHR ''_'']
       (replace_char CHR ''%'' [backslash, CHR ''%'']
         (replace_char backslash [backslash, backslash] s))"

section \<open>What a database reads back\<close>

text \<open>
  Reading after an opening delimiter: a doubled closing delimiter stands for itself, a single
  one ends the token. The result is the content and the unread input.
\<close>

fun scan_delimited :: "char \<Rightarrow> string \<Rightarrow> (string \<times> string) option" where
  "scan_delimited cl [] = None"
| "scan_delimited cl (c # s) =
     (if c \<noteq> cl then map_option (\<lambda>(t, r). (c # t, r)) (scan_delimited cl s)
      else (case s of
              [] \<Rightarrow> Some ([], [])
            | d # s' \<Rightarrow> if d = cl then map_option (\<lambda>(t, r). (cl # t, r)) (scan_delimited cl s')
                       else Some ([], s)))"

definition scan_quoted :: "char \<Rightarrow> char \<Rightarrow> string \<Rightarrow> (string \<times> string) option" where
  "scan_quoted op cl s =
     (case s of [] \<Rightarrow> None | c # s' \<Rightarrow> if c = op then scan_delimited cl s' else None)"

text \<open>A qualified name: quoted parts separated by dots, up to the end of the input.\<close>

fun scan_qualified :: "nat \<Rightarrow> char \<Rightarrow> char \<Rightarrow> string \<Rightarrow> string list option" where
  "scan_qualified 0 op cl s = None"
| "scan_qualified (Suc n) op cl s =
     (case scan_quoted op cl s of
        None \<Rightarrow> None
      | Some (p, []) \<Rightarrow> Some [p]
      | Some (p, c # r) \<Rightarrow>
          if c = CHR ''.'' then map_option ((#) p) (scan_qualified n op cl r) else None)"

text \<open>PostgreSQL path operators: literals behind arrows, the last one behind the text arrow.\<close>

fun scan_path :: "nat \<Rightarrow> string \<Rightarrow> string list option" where
  "scan_path 0 s = None"
| "scan_path (Suc n) s =
     (if take 3 s = ''->>'' then
        (case scan_quoted squote squote (drop 3 s) of Some (p, []) \<Rightarrow> Some [p] | _ \<Rightarrow> None)
      else if take 2 s = ''->'' then
        (case scan_quoted squote squote (drop 2 s) of
           Some (p, r) \<Rightarrow> map_option ((#) p) (scan_path n r)
         | None \<Rightarrow> None)
      else None)"

lemma scan_delimited_replace:
  "(\<forall>s. rest \<noteq> cl # s) \<Longrightarrow>
   scan_delimited cl (replace_char cl [cl, cl] name @ cl # rest) = Some (name, rest)"
proof (induction name)
  case Nil
  then show ?case by (cases rest) auto
qed auto

lemma scan_quoted_quote_with:
  "(\<forall>s. rest \<noteq> cl # s) \<Longrightarrow> scan_quoted op cl (quote_with op cl name @ rest) = Some (name, rest)"
  by (simp add: scan_quoted_def quote_with_def scan_delimited_replace)

lemma scan_qualified_join:
  assumes "cl \<noteq> CHR ''.''" and "ps \<noteq> []" and "length ps \<le> n"
  shows "scan_qualified n op cl (join ''.'' (map (quote_with op cl) ps)) = Some ps"
  using assms(2,3)
proof (induction ps arbitrary: n)
  case (Cons p ps)
  obtain m where n: "n = Suc m" using Cons.prems by (cases n) auto
  show ?case
  proof (cases ps)
    case Nil
    have "scan_quoted op cl (quote_with op cl p) = Some (p, [])"
      using scan_quoted_quote_with [of "[]"] by simp
    with Nil n show ?thesis by simp
  next
    case (Cons q qs)
    let ?rest = "join ''.'' (map (quote_with op cl) ps)"
    have "scan_quoted op cl (quote_with op cl p @ CHR ''.'' # ?rest) = Some (p, CHR ''.'' # ?rest)"
      using assms(1) by (intro scan_quoted_quote_with) auto
    moreover have "scan_qualified m op cl ?rest = Some ps"
      using Cons.prems n Cons by (intro Cons.IH) auto
    ultimately show ?thesis
      using n Cons by (simp add: join_Cons)
  qed
qed simp

text \<open>
  Quoting discipline as an interface: a dialect quotes each part of a qualified name with an
  opening and a closing delimiter, neither of them the dot that separates the parts.
\<close>

locale identifier_quoting =
  fixes quote :: "string \<Rightarrow> string" and op cl :: char
  assumes quote_parts: "quote ident = join ''.'' (map (quote_with op cl) (split_on CHR ''.'' ident))"
    and cl_not_dot: "cl \<noteq> CHR ''.''"
begin

lemma scan_quote:
  "scan_qualified (length (split_on CHR ''.'' ident)) op cl (quote ident) = Some (split_on CHR ''.'' ident)"
  unfolding quote_parts by (rule scan_qualified_join) (simp_all add: cl_not_dot)

lemma quote_inj: "quote a = quote b \<Longrightarrow> a = b"
proof -
  assume eq: "quote a = quote b"
  let ?pa = "split_on CHR ''.'' a" and ?pb = "split_on CHR ''.'' b"
  let ?n = "length ?pa + length ?pb"
  have "scan_qualified ?n op cl (quote a) = Some ?pa"
    unfolding quote_parts by (rule scan_qualified_join) (simp_all add: cl_not_dot)
  moreover have "scan_qualified ?n op cl (quote b) = Some ?pb"
    unfolding quote_parts by (rule scan_qualified_join) (simp_all add: cl_not_dot)
  ultimately have "?pa = ?pb" using eq by simp
  then show "a = b" by (metis join_split_on)
qed

end

interpretation pg_ident: identifier_quoting quote_postgres_identifier dquote dquote
  by unfold_locales (simp_all add: quote_postgres_identifier_def)

interpretation mysql_ident: identifier_quoting quote_mysql_identifier backtick backtick
  by unfold_locales (simp_all add: quote_mysql_identifier_def)

interpretation sqlite_ident: identifier_quoting quote_sqlite_identifier dquote dquote
  by unfold_locales (simp_all add: quote_sqlite_identifier_def)

interpretation mssql_ident: identifier_quoting quote_sqlserver_identifier "CHR ''[''" "CHR '']''"
  by unfold_locales (simp_all add: quote_sqlserver_identifier_def)

subsection \<open>LIKE\<close>

text \<open>
  The meaning of a LIKE pattern with the backslash as escape character: \<open>%\<close> stands for any
  text, \<open>_\<close> for one character, and an escaped character for itself.
\<close>

fun like_match :: "string \<Rightarrow> string \<Rightarrow> bool" where
  "like_match [] t = (t = [])"
| "like_match (p # ps) t =
     (if p = CHR ''%'' then
        like_match ps t \<or> (case t of [] \<Rightarrow> False | _ # t' \<Rightarrow> like_match (p # ps) t')
      else if p = CHR ''_'' then (case t of [] \<Rightarrow> False | _ # t' \<Rightarrow> like_match ps t')
      else if p = backslash then
        (case ps of
           [] \<Rightarrow> False
         | q # qs \<Rightarrow> (case t of [] \<Rightarrow> False | c # t' \<Rightarrow> c = q \<and> like_match qs t'))
      else (case t of [] \<Rightarrow> False | c # t' \<Rightarrow> c = p \<and> like_match ps t'))"

declare like_match.simps(2) [simp del]

lemma like_percent:
  "like_match (CHR ''%'' # ps) t \<longleftrightarrow> (\<exists>u v. t = u @ v \<and> like_match ps v)"
proof (induction t)
  case Nil
  then show ?case by (simp add: like_match.simps(2) [of _ _ "[]"])
next
  case (Cons c t)
  have "like_match (CHR ''%'' # ps) (c # t) \<longleftrightarrow> like_match ps (c # t) \<or> like_match (CHR ''%'' # ps) t"
    by (simp add: like_match.simps(2) [of _ _ "c # t"])
  then show ?case using Cons
    by (auto simp: Cons_eq_append_conv)
qed

lemma escape_like_Cons:
  "escape_like_literal (c # s) =
     (if c = backslash \<or> c = CHR ''%'' \<or> c = CHR ''_'' then [backslash, c] else [c]) @ escape_like_literal s"
  by (auto simp: escape_like_literal_def)

lemma escape_like_Nil [simp]: "escape_like_literal [] = []"
  by (simp add: escape_like_literal_def)

lemma like_escape_append:
  "like_match (escape_like_literal s @ ps) t \<longleftrightarrow> (\<exists>v. t = s @ v \<and> like_match ps v)"
proof (induction s arbitrary: t)
  case (Cons c s)
  show ?case
    by (cases t)
      (auto simp: escape_like_Cons Cons.IH like_match.simps(2) split: if_splits)
qed simp

lemma like_percent_only: "like_match ''%'' t"
  by (subst like_percent) simp

end
