(* ===== verification/Where_Clause.thy ===== *)
theory Where_Clause
  imports Json Sql_Escape
begin

text \<open>
  The WHERE clause AST, its operators and the parser from GraphQL input
  (\<open>fraiseql-db/src/where_clause.rs\<close>), with \<open>to_snake_case\<close> of \<open>utils.rs\<close>.

  \<^item> \<open>from_str\<close> is a table in the order of the arms of the source's \<open>match\<close>.
  \<^item> \<open>parse_where_object\<close> is the recursive parser; its loops over the entries of an object are
    \<open>parse_entries\<close> and \<open>parse_ops\<close>.
  \<^item> \<open>clause_to_json\<close> prints a clause in the documented input format; parsing it back is the
    round trip proved here.
\<close>

section \<open>Data\<close>

text \<open>
  \<open>ExtendedOperator\<close> has more than a hundred variants. The six that a dialect translates are
  constructors of their own; every other variant is rejected by every dialect with its
  \<open>Display\<close> text, which \<open>OtherExtended\<close> carries.
\<close>

datatype extended_operator =
    EmailDomainEq string
  | EmailDomainIn "string list"
  | EmailDomainEndswith string
  | EmailLocalPartStartswith string
  | IbanCountryEq string
  | VinWmiEq string
  | OtherExtended string

datatype (plugins only: size code) where_operator =
    Eq | Neq | Gt | Gte | Lt | Lte | In | Nin | Contains | Icontains | Startswith |
    Istartswith | Endswith | Iendswith | Like | Ilike | Nlike | Nilike | Regex | Iregex |
    Nregex | Niregex | IsNull | ArrayContains | ArrayContainedBy | ArrayOverlaps | LenEq |
    LenGt | LenLt | LenGte | LenLte | LenNeq | CosineDistance | L2Distance | L1Distance |
    HammingDistance | InnerProduct | JaccardDistance | Matches | PlainQuery | PhraseQuery |
    WebsearchQuery | IsIPv4 | IsIPv6 | IsPrivate | IsPublic | IsLoopback | InSubnet |
    ContainsSubnet | ContainsIP | Overlaps | StrictlyContains | AncestorOf | DescendantOf |
    MatchesLquery | MatchesLtxtquery | MatchesAnyLquery | DepthEq | DepthNeq | DepthGt |
    DepthGte | DepthLt | DepthLte | Lca | Extended extended_operator

datatype where_clause =
    Field "string list" where_operator json
  | WhereAnd "where_clause list"
  | WhereOr "where_clause list"
  | WhereNot where_clause
  | NativeField string string where_operator json

text \<open>
  \<open>FraiseQLError::Validation\<close>: the message; \<open>ValidationOp pre op post\<close> is the message in which
  the rendering of an operator stands between \<open>pre\<close> and \<open>post\<close>.
\<close>

datatype db_error = Validation string | ValidationOp string where_operator string

section \<open>Operators\<close>

definition operator_table :: "(string \<times> where_operator) list" where
  "operator_table = [
     (''eq'', Eq), (''neq'', Neq), (''gt'', Gt), (''gte'', Gte), (''lt'', Lt), (''lte'', Lte),
     (''in'', In), (''nin'', Nin), (''notin'', Nin), (''contains'', Contains),
     (''icontains'', Icontains), (''startswith'', Startswith), (''istartswith'', Istartswith),
     (''endswith'', Endswith), (''iendswith'', Iendswith), (''like'', Like),
     (''ilike'', Ilike), (''nlike'', Nlike), (''nilike'', Nilike), (''regex'', Regex),
     (''iregex'', Iregex), (''imatches'', Iregex), (''nregex'', Nregex),
     (''not_matches'', Nregex), (''niregex'', Niregex), (''isnull'', IsNull),
     (''array_contains'', ArrayContains), (''array_contained_by'', ArrayContainedBy),
     (''array_overlaps'', ArrayOverlaps), (''len_eq'', LenEq), (''len_gt'', LenGt),
     (''len_lt'', LenLt), (''len_gte'', LenGte), (''len_lte'', LenLte), (''len_neq'', LenNeq),
     (''cosine_distance'', CosineDistance), (''l2_distance'', L2Distance),
     (''l1_distance'', L1Distance), (''hamming_distance'', HammingDistance),
     (''inner_product'', InnerProduct), (''jaccard_distance'', JaccardDistance),
     (''matches'', Matches), (''plain_query'', PlainQuery), (''phrase_query'', PhraseQuery),
     (''websearch_query'', WebsearchQuery), (''is_ipv4'', IsIPv4), (''is_ipv6'', IsIPv6),
     (''is_private'', IsPrivate), (''is_public'', IsPublic), (''is_loopback'', IsLoopback),
     (''in_subnet'', InSubnet), (''inrange'', InSubnet),
     (''contains_subnet'', ContainsSubnet), (''contains_ip'', ContainsIP),
     (''overlaps'', Overlaps), (''strictly_contains'', StrictlyContains),
     (''ancestor_of'', AncestorOf), (''descendant_of'', DescendantOf),
     (''matches_lquery'', MatchesLquery), (''matches_ltxtquery'', MatchesLtxtquery),
     (''matches_any_lquery'', MatchesAnyLquery), (''depth_eq'', DepthEq),
     (''depth_neq'', DepthNeq), (''depth_gt'', DepthGt), (''depth_gte'', DepthGte),
     (''depth_lt'', DepthLt), (''depth_lte'', DepthLte), (''lca'', Lca)]"

definition from_str :: "string \<Rightarrow> db_error + where_operator" where
  "from_str s =
     (case map_of operator_table s of
        Some op \<Rightarrow> Inr op
      | None \<Rightarrow> Inl (Validation (''Unknown WHERE operator: '' @ s)))"

definition is_extended :: "where_operator \<Rightarrow> bool" where
  "is_extended op = (case op of Extended _ \<Rightarrow> True | _ \<Rightarrow> False)"

definition expects_array :: "where_operator \<Rightarrow> bool" where
  "expects_array op \<longleftrightarrow> op \<in> {In, Nin}"

definition is_case_insensitive :: "where_operator \<Rightarrow> bool" where
  "is_case_insensitive op \<longleftrightarrow>
     op \<in> {Icontains, Istartswith, Iendswith, Ilike, Nilike, Iregex, Niregex}"

definition is_string_operator :: "where_operator \<Rightarrow> bool" where
  "is_string_operator op \<longleftrightarrow>
     op \<in> {Contains, Icontains, Startswith, Istartswith, Endswith, Iendswith, Like, Ilike,
            Nlike, Nilike, Regex, Iregex, Nregex, Niregex}"

section \<open>Clauses\<close>

fun clause_is_empty :: "where_clause \<Rightarrow> bool" where
  "clause_is_empty (WhereAnd cs) = (cs = [])"
| "clause_is_empty (WhereOr cs) = (cs = [])"
| "clause_is_empty _ = False"

fun collect_native_column_names :: "where_clause \<Rightarrow> string list \<Rightarrow> string list" where
  "collect_native_column_names (WhereAnd cs) out = fold collect_native_column_names cs out"
| "collect_native_column_names (WhereOr cs) out = fold collect_native_column_names cs out"
| "collect_native_column_names (WhereNot c) out = collect_native_column_names c out"
| "collect_native_column_names (NativeField col _ _ _) out = out @ [col]"
| "collect_native_column_names (Field _ _ _) out = out"

definition native_column_names :: "where_clause \<Rightarrow> string list" where
  "native_column_names c = collect_native_column_names c []"

definition to_snake_case :: "string \<Rightarrow> string" where
  "to_snake_case name =
     (case name of
        [] \<Rightarrow> []
      | c # cs \<Rightarrow> c # concat (map (\<lambda>ch. if is_uppercase ch then [CHR ''_'', to_lowercase_char ch] else [ch]) cs))"

section \<open>Parsing GraphQL input\<close>

fun single_or_and :: "where_clause list \<Rightarrow> where_clause" where
  "single_or_and [c] = c"
| "single_or_and cs = WhereAnd cs"

definition entries_nodes :: "(string \<times> json) list \<Rightarrow> nat" where
  "entries_nodes es = sum_list (map (\<lambda>(k, v). 3 + json_nodes v) es)"

lemma entries_nodes_simps [simp]:
  "entries_nodes [] = 0"
  "entries_nodes (e # es) = 3 + json_nodes (snd e) + entries_nodes es"
  by (simp_all add: entries_nodes_def split: prod.splits)

lemma json_nodes_object [simp]: "json_nodes (JObject es) = Suc (entries_nodes es)"
  by (simp add: entries_nodes_def)

declare json_nodes.simps(2) [simp del]

lemma json_nodes_element: "v \<in> set xs \<Longrightarrow> json_nodes v < json_nodes (JArray xs)"
  by (induction xs) auto

text \<open>\<open>parse_entry\<close> is one round of the loop over the object: what the key contributes.\<close>

function (sequential)
  parse_clause_object :: "json \<Rightarrow> string list \<Rightarrow> db_error + where_clause" and
  parse_entries :: "(string \<times> json) list \<Rightarrow> string list \<Rightarrow> db_error + where_clause list" and
  parse_entry :: "string \<Rightarrow> json \<Rightarrow> string list \<Rightarrow> db_error + where_clause list" and
  parse_ops :: "(string \<times> json) list \<Rightarrow> string list \<Rightarrow> db_error + where_clause list"
where
  "parse_clause_object value prefix =
     (case value of
        JObject obj \<Rightarrow> try_bind (parse_entries obj prefix) (\<lambda>conditions. Inr (single_or_and conditions))
      | _ \<Rightarrow> Inl (Validation ''where clause must be a JSON object''))"
| "parse_entries [] prefix = Inr []"
| "parse_entries ((key, val) # rest) prefix =
     try_bind (parse_entry key val prefix)
       (\<lambda>cs. try_bind (parse_entries rest prefix) (\<lambda>ds. Inr (cs @ ds)))"
| "parse_entry key val prefix =
     (if key = ''_and'' then
        (case val of
           JArray arr \<Rightarrow>
             try_bind (collect_results (\<lambda>v. parse_clause_object v prefix) arr)
               (\<lambda>sub. Inr [WhereAnd sub])
         | _ \<Rightarrow> Inl (Validation ''_and must be an array''))
      else if key = ''_or'' then
        (case val of
           JArray arr \<Rightarrow>
             try_bind (collect_results (\<lambda>v. parse_clause_object v prefix) arr)
               (\<lambda>sub. Inr [WhereOr sub])
         | _ \<Rightarrow> Inl (Validation ''_or must be an array''))
      else if key = ''_not'' then
        try_bind (parse_clause_object val prefix) (\<lambda>sub. Inr [WhereNot sub])
      else
        (case val of
           JObject ops \<Rightarrow> parse_ops ops (prefix @ [to_snake_case key])
         | _ \<Rightarrow> Inl (Validation (''where field '' @ [squote] @ key @ [squote] @
                 '' must be an object of {operator: value}''))))"
| "parse_ops [] field_path = Inr []"
| "parse_ops ((op_str, op_val) # rest) field_path =
     try_bind
       (case from_str op_str of
          Inr oper \<Rightarrow> Inr (Field field_path oper op_val)
        | Inl e \<Rightarrow>
            if is_object op_val then parse_clause_object (JObject [(op_str, op_val)]) field_path
            else Inl e)
       (\<lambda>c. try_bind (parse_ops rest field_path) (\<lambda>ds. Inr (c # ds)))"
  by pat_completeness auto
termination
  by (relation "measure (\<lambda>x. case x of
        Inl (Inl (v, _)) \<Rightarrow> json_nodes v
      | Inl (Inr (es, _)) \<Rightarrow> entries_nodes es
      | Inr (Inl (_, v, _)) \<Rightarrow> 2 + json_nodes v
      | Inr (Inr (es, _)) \<Rightarrow> 2 + entries_nodes es)")
    (auto dest: json_nodes_element)

definition parse_where_object :: "json \<Rightarrow> string list \<Rightarrow> db_error + where_clause" where
  "parse_where_object value prefix = parse_clause_object value prefix"

definition from_graphql_json :: "json \<Rightarrow> db_error + where_clause" where
  "from_graphql_json value = parse_where_object value []"

declare parse_clause_object.simps [simp del] parse_entry.simps [simp del]
  parse_entries.simps(2) [simp del] parse_ops.simps(2) [simp del]

section \<open>HAVING clauses\<close>

datatype having_clause =
    Aggregate string where_operator json
  | HavingAnd "having_clause list"
  | HavingOr "having_clause list"
  | HavingNot having_clause

fun having_is_empty :: "having_clause \<Rightarrow> bool" where
  "having_is_empty (HavingAnd cs) = (cs = [])"
| "having_is_empty (HavingOr cs) = (cs = [])"
| "having_is_empty _ = False"

section \<open>The documented input format\<close>

text \<open>The canonical name of an operator: its first name in the table.\<close>

definition operator_name :: "where_operator \<Rightarrow> string" where
  "operator_name op =
     (case find (\<lambda>(n, o'). o' = op) operator_table of Some (n, _) \<Rightarrow> n | None \<Rightarrow> [])"

text \<open>A field condition nests one object per path segment around \<open>{operator: value}\<close>.\<close>

fun nest_path :: "string list \<Rightarrow> string \<Rightarrow> json \<Rightarrow> json" where
  "nest_path [] op v = JObject [(op, v)]"
| "nest_path (p # ps) op v = JObject [(p, nest_path ps op v)]"

fun clause_to_json :: "where_clause \<Rightarrow> json" where
  "clause_to_json (Field path op v) = nest_path path (operator_name op) v"
| "clause_to_json (WhereAnd cs) = JObject [(''_and'', JArray (map clause_to_json cs))]"
| "clause_to_json (WhereOr cs) = JObject [(''_or'', JArray (map clause_to_json cs))]"
| "clause_to_json (WhereNot c) = JObject [(''_not'', clause_to_json c)]"
| "clause_to_json (NativeField _ _ _ _) = JNull"

definition logical_keys :: "string list" where
  "logical_keys = [''_and'', ''_or'', ''_not'']"

text \<open>
  The clauses the format can express: segments are snake case and no combinator keys, and a
  segment below the first is no operator name.
\<close>

definition segment_ok :: "string \<Rightarrow> bool" where
  "segment_ok p \<longleftrightarrow> to_snake_case p = p \<and> p \<notin> set logical_keys"

definition is_operator_name :: "string \<Rightarrow> bool" where
  "is_operator_name s \<longleftrightarrow> s \<in> set (map fst operator_table)"

fun expressible :: "where_clause \<Rightarrow> bool" where
  "expressible (Field path op v) =
     (path \<noteq> [] \<and> list_all segment_ok path \<and> list_all (\<lambda>p. \<not> is_operator_name p) (tl path) \<and>
      \<not> is_extended op)"
| "expressible (WhereAnd cs) = list_all expressible cs"
| "expressible (WhereOr cs) = list_all expressible cs"
| "expressible (WhereNot c) = expressible c"
| "expressible (NativeField _ _ _ _) = False"

section \<open>Lemmas\<close>

lemma operator_table_distinct: "distinct (map fst operator_table)"
  by (simp add: operator_table_def)

lemma operator_table_total: "\<not> is_extended op \<Longrightarrow> op \<in> snd ` set operator_table"
  unfolding operator_table_def list.map snd_conv set_map [symmetric]
  by (cases op) (simp_all only: list.set insert_iff simp_thms is_extended_def where_operator.case)

lemma operator_table_not_extended: "(s, op) \<in> set operator_table \<Longrightarrow> \<not> is_extended op"
proof -
  have "list_all (\<lambda>(s, op). \<not> is_extended op) operator_table"
    by (simp add: operator_table_def is_extended_def)
  then show "(s, op) \<in> set operator_table \<Longrightarrow> \<not> is_extended op"
    by (auto simp: list_all_iff)
qed

lemma operator_name_in_table: "\<not> is_extended op \<Longrightarrow> (operator_name op, op) \<in> set operator_table"
proof -
  assume "\<not> is_extended op"
  then obtain n where "(n, op) \<in> set operator_table"
    using operator_table_total by force
  then have "find (\<lambda>(n, o'). o' = op) operator_table \<noteq> None"
    by (auto simp: find_None_iff)
  then obtain m o' where f: "find (\<lambda>(n, o'). o' = op) operator_table = Some (m, o')"
    by auto
  then have "(m, o') \<in> set operator_table" and "o' = op"
    by (auto simp: find_Some_iff) (metis nth_mem)
  with f show ?thesis by (simp add: operator_name_def)
qed

lemma from_str_operator_name: "\<not> is_extended op \<Longrightarrow> from_str (operator_name op) = Inr op"
  using map_of_is_SomeI [OF operator_table_distinct operator_name_in_table]
  by (simp add: from_str_def)

lemma from_str_Inr_iff: "from_str s = Inr op \<longleftrightarrow> (s, op) \<in> set operator_table"
  using map_of_eq_Some_iff [OF operator_table_distinct]
  by (simp add: from_str_def split: option.splits) (metis option.distinct(1) option.inject)

lemma from_str_Inl: "(\<exists>e. from_str s = Inl e) \<longleftrightarrow> \<not> is_operator_name s"
proof (cases "map_of operator_table s")
  case None
  then have "\<not> is_operator_name s" by (simp add: is_operator_name_def map_of_eq_None_iff)
  with None show ?thesis by (simp add: from_str_def)
next
  case (Some op)
  then show ?thesis
    by (auto simp: from_str_def is_operator_name_def dest: map_of_SomeD intro: rev_image_eqI)
qed

lemma to_snake_case_idem: "to_snake_case (to_snake_case s) = to_snake_case s"
proof (cases s)
  case (Cons c cs)
  let ?f = "\<lambda>ch. if is_uppercase ch then [CHR ''_'', to_lowercase_char ch] else [ch]"
  have "\<not> is_uppercase CHR ''_''" by (simp add: is_uppercase_def)
  then have "concat (map ?f (concat (map ?f cs))) = concat (map ?f cs)"
    by (induction cs) auto
  with Cons show ?thesis by (simp add: to_snake_case_def)
qed (simp add: to_snake_case_def)

lemma nest_path_is_object [simp]: "is_object (nest_path ps op v)"
  by (cases ps) auto

lemma parse_nest_path:
  assumes "from_str opn = Inr op"
  shows "ps \<noteq> [] \<Longrightarrow> list_all segment_ok ps \<Longrightarrow> list_all (\<lambda>p. \<not> is_operator_name p) (tl ps) \<Longrightarrow>
    parse_clause_object (nest_path ps opn v) prefix = Inr (Field (prefix @ ps) op v)"
proof (induction ps arbitrary: prefix)
  case (Cons p ps)
  have keys: "p \<noteq> ''_and''" "p \<noteq> ''_or''" "p \<noteq> ''_not''" and snake: "to_snake_case p = p"
    using Cons.prems by (auto simp: segment_ok_def logical_keys_def)
  show ?case
  proof (cases ps)
    case Nil
    then show ?thesis
      using keys snake assms
      by (simp add: parse_clause_object.simps parse_entries.simps(2) parse_entry.simps parse_ops.simps(2))
  next
    case (Cons q qs)
    then obtain e where "from_str q = Inl e"
      using Cons.prems from_str_Inl [of q] by auto
    moreover have "parse_clause_object (nest_path ps opn v) (prefix @ [p]) = Inr (Field ((prefix @ [p]) @ ps) op v)"
      using Cons.prems Cons by (intro Cons.IH) (auto intro: list.pred_mono_strong)
    ultimately show ?thesis
      using keys snake Cons
      by (simp add: parse_clause_object.simps [of "JObject [(p, _)]"] parse_entries.simps(2) parse_entry.simps parse_ops.simps(2))
  qed
qed simp

lemma parse_clause_to_json: "expressible c \<Longrightarrow> parse_clause_object (clause_to_json c) [] = Inr c"
proof (induction c)
  case (Field path op v)
  then show ?case
    by (simp add: parse_nest_path [OF from_str_operator_name])
next
  case (WhereAnd cs)
  then have "collect_results (\<lambda>v. parse_clause_object v []) (map clause_to_json cs) = Inr cs"
    by (auto simp: collect_results_Inr_iff list_all2_conv_all_nth list_all_length)
  then show ?case
    by (simp add: parse_clause_object.simps [of "JObject _"] parse_entries.simps(2) parse_entry.simps)
next
  case (WhereOr cs)
  then have "collect_results (\<lambda>v. parse_clause_object v []) (map clause_to_json cs) = Inr cs"
    by (auto simp: collect_results_Inr_iff list_all2_conv_all_nth list_all_length)
  then show ?case
    by (simp add: parse_clause_object.simps [of "JObject _"] parse_entries.simps(2) parse_entry.simps)
next
  case (WhereNot c)
  then show ?case
    by (simp add: parse_clause_object.simps [of "JObject _"] parse_entries.simps(2) parse_entry.simps)
qed simp

text \<open>What the parser can produce.\<close>

fun graphql_clause :: "where_clause \<Rightarrow> bool" where
  "graphql_clause (Field path op v) = (path \<noteq> [] \<and> \<not> is_extended op)"
| "graphql_clause (WhereAnd cs) = list_all graphql_clause cs"
| "graphql_clause (WhereOr cs) = list_all graphql_clause cs"
| "graphql_clause (WhereNot c) = graphql_clause c"
| "graphql_clause (NativeField _ _ _ _) = False"

lemma graphql_single_or_and: "list_all graphql_clause cs \<Longrightarrow> graphql_clause (single_or_and cs)"
  by (cases cs rule: single_or_and.cases) auto

lemma parse_graphql_clause:
  shows "parse_clause_object v prefix = Inr c \<Longrightarrow> graphql_clause c"
    and "parse_entries es prefix = Inr cs \<Longrightarrow> list_all graphql_clause cs"
    and "parse_entry key val prefix = Inr cs \<Longrightarrow> list_all graphql_clause cs"
    and "field_path \<noteq> [] \<Longrightarrow> parse_ops es field_path = Inr cs \<Longrightarrow> list_all graphql_clause cs"
proof (induction v prefix and es prefix and key val prefix and es field_path
    arbitrary: c and cs and cs and cs
    rule: parse_clause_object_parse_entries_parse_entry_parse_ops.induct)
  case (1 v prefix)
  then show ?case
    by (auto simp: parse_clause_object.simps [of v] try_bind_eq_Inr graphql_single_or_and split: json.splits)
next
  case (3 key val rest prefix)
  then show ?case
    by (auto simp: parse_entries.simps(2) try_bind_eq_Inr)
next
  case (4 key val prefix)
  from "4.prems" show ?case
    by (auto simp: parse_entry.simps try_bind_eq_Inr split: if_splits json.splits
        intro: "4.IH" elim!: collect_results_all)
next
  case (6 op_str op_val rest field_path)
  then show ?case
    by (auto simp: parse_ops.simps(2) try_bind_eq_Inr from_str_Inr_iff operator_table_not_extended
        split: if_splits sum.splits)
qed auto

section \<open>Properties\<close>

text \<open>
  C39. A clause the documented JSON format can express, printed in that format,
  is parsed back to the same clause by \<open>from_graphql_json\<close>: combinators, nested relation
  paths and every named operator are read as they were written.
\<close>

theorem from_graphql_json_round_trip:
  "expressible c \<Longrightarrow> from_graphql_json (clause_to_json c) = Inr c"
  by (simp add: from_graphql_json_def parse_where_object_def parse_clause_to_json)

theorem from_graphql_json_round_trip_witness:
  "from_graphql_json
     (clause_to_json (WhereAnd [Field [''machine'', ''id''] Gte (JString ''7''), WhereNot (WhereOr [])]))
   = Inr (WhereAnd [Field [''machine'', ''id''] Gte (JString ''7''), WhereNot (WhereOr [])])"
proof (rule from_graphql_json_round_trip)
  show "expressible (WhereAnd [Field [''machine'', ''id''] Gte (JString ''7''), WhereNot (WhereOr [])])"
    by (simp add: segment_ok_def to_snake_case_def is_uppercase_def logical_keys_def
        is_operator_name_def operator_table_def is_extended_def)
qed

text \<open>
  Whatever \<open>from_graphql_json\<close> accepts contains no native-column condition and no
  extended operator, and every field condition has a non-empty path: GraphQL input cannot
  reach the native-column or the rich-type code paths.
\<close>

theorem from_graphql_json_shape:
  "from_graphql_json v = Inr c \<Longrightarrow> graphql_clause c"
  by (simp add: from_graphql_json_def parse_where_object_def parse_graphql_clause(1))

theorem from_graphql_json_shape_witness:
  "graphql_clause (WhereNot (Field [''first_name''] Eq (JString ''x'')))"
proof (rule from_graphql_json_shape)
  show "from_graphql_json (JObject [(''_not'', JObject [(''firstName'', JObject [(''eq'', JString ''x'')])])])
      = Inr (WhereNot (Field [''first_name''] Eq (JString ''x'')))"
    by (simp add: from_graphql_json_def parse_where_object_def parse_clause_object.simps parse_entries.simps(2) parse_entry.simps
        parse_ops.simps(2) from_str_def operator_table_def to_snake_case_def char_class_defs char_of_eq_iff)
qed

end
