(* ===== verification/Sql_Dialect.thy ===== *)
theory Sql_Dialect
  imports Where_Clause
begin

text \<open>
  The trait \<open>SqlDialect\<close> (\<open>fraiseql-db/src/dialect/trait_def.rs\<close>) and its four
  implementations (\<open>postgres.rs\<close>, \<open>mysql.rs\<close>, \<open>sqlite.rs\<close>, \<open>sqlserver.rs\<close>).

  A dialect is the record of its methods. The trait's default methods are the \<open>default_\<close>
  functions, which take the dialect's name where the source calls \<open>self.name()\<close>; each
  implementation is a record value that names its own methods and takes the default for the
  rest, as the \<open>impl\<close> blocks do.
\<close>

section \<open>The trait\<close>

datatype row_view_column_type =
    Text | Int32 | Int64 | Float64 | Boolean | Uuid | Timestamptz | Json_col | Date

record unsupported_operator =
  uo_dialect :: string
  uo_operator :: string

definition unsupported_to_string :: "unsupported_operator \<Rightarrow> string" where
  "unsupported_to_string e =
     ''operator '' @ [backtick] @ uo_operator e @ [backtick] @ '' is not supported by the '' @
     uo_dialect e @ '' dialect''"

type_synonym dialect_result = "unsupported_operator + string"

record sql_dialect =
  dialect_name :: string
  quote_identifier :: "string \<Rightarrow> string"
  json_extract_scalar :: "string \<Rightarrow> string list \<Rightarrow> string"
  placeholder :: "nat \<Rightarrow> string"
  cast_to_numeric :: "string \<Rightarrow> string"
  cast_to_boolean :: "string \<Rightarrow> string"
  cast_param_numeric :: "string \<Rightarrow> string"
  cast_native_param :: "string \<Rightarrow> string \<Rightarrow> string"
  like_sql :: "string \<Rightarrow> string \<Rightarrow> string"
  ilike_sql :: "string \<Rightarrow> string \<Rightarrow> string"
  concat_sql :: "string list \<Rightarrow> string"
  always_false :: string
  always_true :: string
  neq_operator :: string
  json_array_length :: "string \<Rightarrow> string"
  array_contains_sql :: "string \<Rightarrow> string \<Rightarrow> dialect_result"
  array_contained_by_sql :: "string \<Rightarrow> string \<Rightarrow> dialect_result"
  array_overlaps_sql :: "string \<Rightarrow> string \<Rightarrow> dialect_result"
  fts_matches_sql :: "string \<Rightarrow> string \<Rightarrow> dialect_result"
  fts_plain_query_sql :: "string \<Rightarrow> string \<Rightarrow> dialect_result"
  fts_phrase_query_sql :: "string \<Rightarrow> string \<Rightarrow> dialect_result"
  fts_websearch_query_sql :: "string \<Rightarrow> string \<Rightarrow> dialect_result"
  regex_sql :: "string \<Rightarrow> string \<Rightarrow> bool \<Rightarrow> bool \<Rightarrow> dialect_result"
  vector_distance_sql :: "string \<Rightarrow> string \<Rightarrow> string \<Rightarrow> dialect_result"
  jaccard_distance_sql :: "string \<Rightarrow> string \<Rightarrow> dialect_result"
  inet_check_sql :: "string \<Rightarrow> string \<Rightarrow> dialect_result"
  inet_binary_sql :: "string \<Rightarrow> string \<Rightarrow> string \<Rightarrow> dialect_result"
  ltree_binary_sql :: "string \<Rightarrow> string \<Rightarrow> string \<Rightarrow> string \<Rightarrow> dialect_result"
  ltree_any_lquery_sql :: "string \<Rightarrow> string list \<Rightarrow> dialect_result"
  ltree_depth_sql :: "string \<Rightarrow> string \<Rightarrow> string \<Rightarrow> dialect_result"
  ltree_lca_sql :: "string \<Rightarrow> string list \<Rightarrow> dialect_result"
  row_view_column_expr :: "string \<Rightarrow> string \<Rightarrow> row_view_column_type \<Rightarrow> string"
  create_row_view_ddl :: "string \<Rightarrow> string \<Rightarrow> (string \<times> string) list \<Rightarrow> string"
  generate_extended_sql :: "extended_operator \<Rightarrow> string \<Rightarrow> json list \<Rightarrow> db_error + string \<times> json list"

section \<open>Default methods\<close>

definition unsupported :: "string \<Rightarrow> string \<Rightarrow> dialect_result" where
  "unsupported name oper = Inl \<lparr>uo_dialect = name, uo_operator = oper\<rparr>"

definition default_cast_to_numeric :: "string \<Rightarrow> string" where
  "default_cast_to_numeric expr = expr"

definition default_cast_to_boolean :: "string \<Rightarrow> string" where
  "default_cast_to_boolean expr = expr"

definition default_cast_param_numeric :: "string \<Rightarrow> string" where
  "default_cast_param_numeric p = p"

definition default_cast_native_param :: "string \<Rightarrow> string \<Rightarrow> string" where
  "default_cast_native_param p native_type = p"

definition default_like_sql :: "string \<Rightarrow> string \<Rightarrow> string" where
  "default_like_sql lhs rhs = lhs @ '' LIKE '' @ rhs"

definition default_ilike_sql :: "string \<Rightarrow> string \<Rightarrow> string" where
  "default_ilike_sql lhs rhs = ''LOWER('' @ lhs @ '') LIKE LOWER('' @ rhs @ '')''"

definition default_concat_sql :: "string list \<Rightarrow> string" where
  "default_concat_sql parts = join '' || '' parts"

definition default_always_false :: string where "default_always_false = ''FALSE''"
definition default_always_true :: string where "default_always_true = ''TRUE''"
definition default_neq_operator :: string where "default_neq_operator = ''!=''"

definition default_array_contains_sql :: "string \<Rightarrow> string \<Rightarrow> string \<Rightarrow> dialect_result" where
  "default_array_contains_sql name lhs rhs = unsupported name ''ArrayContains''"

definition default_array_contained_by_sql :: "string \<Rightarrow> string \<Rightarrow> string \<Rightarrow> dialect_result" where
  "default_array_contained_by_sql name lhs rhs = unsupported name ''ArrayContainedBy''"

definition default_array_overlaps_sql :: "string \<Rightarrow> string \<Rightarrow> string \<Rightarrow> dialect_result" where
  "default_array_overlaps_sql name lhs rhs = unsupported name ''ArrayOverlaps''"

definition default_fts_matches_sql :: "string \<Rightarrow> string \<Rightarrow> string \<Rightarrow> dialect_result" where
  "default_fts_matches_sql name lhs rhs = unsupported name ''Matches''"

definition default_fts_plain_query_sql :: "string \<Rightarrow> string \<Rightarrow> string \<Rightarrow> dialect_result" where
  "default_fts_plain_query_sql name lhs rhs = unsupported name ''PlainQuery''"

definition default_fts_phrase_query_sql :: "string \<Rightarrow> string \<Rightarrow> string \<Rightarrow> dialect_result" where
  "default_fts_phrase_query_sql name lhs rhs = unsupported name ''PhraseQuery''"

definition default_fts_websearch_query_sql :: "string \<Rightarrow> string \<Rightarrow> string \<Rightarrow> dialect_result" where
  "default_fts_websearch_query_sql name lhs rhs = unsupported name ''WebsearchQuery''"

definition default_regex_sql :: "string \<Rightarrow> string \<Rightarrow> string \<Rightarrow> bool \<Rightarrow> bool \<Rightarrow> dialect_result" where
  "default_regex_sql name lhs rhs ci neg = unsupported name ''Regex''"

definition default_vector_distance_sql :: "string \<Rightarrow> string \<Rightarrow> string \<Rightarrow> string \<Rightarrow> dialect_result" where
  "default_vector_distance_sql name oper lhs rhs = unsupported name ''VectorDistance''"

definition default_jaccard_distance_sql :: "string \<Rightarrow> string \<Rightarrow> string \<Rightarrow> dialect_result" where
  "default_jaccard_distance_sql name lhs rhs = unsupported name ''JaccardDistance''"

definition default_inet_check_sql :: "string \<Rightarrow> string \<Rightarrow> string \<Rightarrow> dialect_result" where
  "default_inet_check_sql name lhs check = unsupported name ''InetCheck''"

definition default_inet_binary_sql :: "string \<Rightarrow> string \<Rightarrow> string \<Rightarrow> string \<Rightarrow> dialect_result" where
  "default_inet_binary_sql name oper lhs rhs = unsupported name ''InetBinaryOp''"

definition default_ltree_binary_sql ::
  "string \<Rightarrow> string \<Rightarrow> string \<Rightarrow> string \<Rightarrow> string \<Rightarrow> dialect_result" where
  "default_ltree_binary_sql name oper lhs rhs rhs_type = unsupported name ''LTreeBinaryOp''"

definition default_ltree_any_lquery_sql :: "string \<Rightarrow> string \<Rightarrow> string list \<Rightarrow> dialect_result" where
  "default_ltree_any_lquery_sql name lhs ps = unsupported name ''MatchesAnyLquery''"

definition default_ltree_depth_sql :: "string \<Rightarrow> string \<Rightarrow> string \<Rightarrow> string \<Rightarrow> dialect_result" where
  "default_ltree_depth_sql name oper lhs rhs = unsupported name ''LTreeDepth''"

definition default_ltree_lca_sql :: "string \<Rightarrow> string \<Rightarrow> string list \<Rightarrow> dialect_result" where
  "default_ltree_lca_sql name lhs ps = unsupported name ''Lca''"

abbreviation newline :: char where "newline \<equiv> CHR 10"

definition row_view_body :: "(string \<Rightarrow> string) \<Rightarrow> string \<Rightarrow> (string \<times> string) list \<Rightarrow> string" where
  "row_view_body quote source_table columns =
     '' AS'' @ [newline] @ ''SELECT'' @ [newline] @ ''  '' @
     join ('','' @ [newline] @ ''  '') (map (\<lambda>(alias, expr). expr @ '' AS '' @ quote alias) columns) @
     [newline] @ ''FROM '' @ quote source_table @ '';''"

definition default_create_row_view_ddl ::
  "(string \<Rightarrow> string) \<Rightarrow> string \<Rightarrow> string \<Rightarrow> (string \<times> string) list \<Rightarrow> string" where
  "default_create_row_view_ddl quote view_name source_table columns =
     ''CREATE OR REPLACE VIEW '' @ quote view_name @ row_view_body quote source_table columns"

definition default_generate_extended_sql ::
  "string \<Rightarrow> extended_operator \<Rightarrow> string \<Rightarrow> json list \<Rightarrow> db_error + string \<times> json list" where
  "default_generate_extended_sql name oper field_sql params =
     Inl (ValidationOp ''Extended operator '' (Extended oper)
            ('' is not supported by the '' @ name @ '' dialect''))"

lemmas default_defs [dialect_defs] =
  unsupported_def default_cast_to_numeric_def default_cast_to_boolean_def
  default_cast_param_numeric_def default_cast_native_param_def default_like_sql_def
  default_ilike_sql_def default_concat_sql_def default_always_false_def default_always_true_def
  default_neq_operator_def default_array_contains_sql_def default_array_contained_by_sql_def
  default_array_overlaps_sql_def default_fts_matches_sql_def default_fts_plain_query_sql_def
  default_fts_phrase_query_sql_def default_fts_websearch_query_sql_def default_regex_sql_def
  default_vector_distance_sql_def default_jaccard_distance_sql_def default_inet_check_sql_def
  default_inet_binary_sql_def default_ltree_binary_sql_def default_ltree_any_lquery_sql_def
  default_ltree_depth_sql_def default_ltree_lca_sql_def default_generate_extended_sql_def

end
