(* ===== verification/Dialects.thy ===== *)
theory Dialects
  imports Sql_Dialect
begin

text \<open>
  The four implementations of the dialect record, and the contract \<open>sql_dialect_contract\<close>
  that the WHERE generator relies on: every method that receives a parameter placeholder
  copies it exactly once into the SQL it returns, so the text around the placeholder cannot
  depend on it.
\<close>

section \<open>PostgreSQL\<close>

definition pg_quote_identifier :: "string \<Rightarrow> string" where
  "pg_quote_identifier name = quote_with dquote dquote name"

fun pg_path_operators :: "string list \<Rightarrow> string" where
  "pg_path_operators [] = []"
| "pg_path_operators [segment] = ''->>'' @ [squote] @ segment @ [squote]"
| "pg_path_operators (segment # s # rest) =
     ''->'' @ [squote] @ segment @ [squote] @ pg_path_operators (s # rest)"

definition pg_json_extract_scalar :: "string \<Rightarrow> string list \<Rightarrow> string" where
  "pg_json_extract_scalar column path =
     (if length path = 1
      then column @ ''->>'' @ [squote] @ escape_postgres_jsonb_segment (path ! 0) @ [squote]
      else column @ pg_path_operators (escape_postgres_jsonb_path path))"

definition pg_placeholder :: "nat \<Rightarrow> string" where
  "pg_placeholder n = ''$'' @ show_nat n"

definition pg_cast_native_param :: "string \<Rightarrow> string \<Rightarrow> string" where
  "pg_cast_native_param p native_type =
     (let t = to_lowercase native_type in
      if t \<in> set [''boolean'', ''bool''] then p @ ''::bool''
      else if t \<in> set [''text'', ''varchar'', ''character varying'', ''char'', ''bpchar'', ''name''] then p
      else p @ ''::text::'' @ native_type)"

definition pg_regex_sql :: "string \<Rightarrow> string \<Rightarrow> bool \<Rightarrow> bool \<Rightarrow> dialect_result" where
  "pg_regex_sql lhs rhs case_insensitive negate =
     (let oper = (case (case_insensitive, negate) of
                  (False, False) \<Rightarrow> ''~''
                | (True, False) \<Rightarrow> ''~*''
                | (False, True) \<Rightarrow> ''!~''
                | (True, True) \<Rightarrow> ''!~*'')
      in Inr (lhs @ '' '' @ oper @ '' '' @ rhs))"

definition pg_private_ranges :: "string \<Rightarrow> string" where
  "pg_private_ranges lhs =
     ''('' @ lhs @ ''::inet << '' @ [squote] @ ''10.0.0.0/8'' @ [squote] @ ''::inet OR '' @
     lhs @ ''::inet << '' @ [squote] @ ''172.16.0.0/12'' @ [squote] @ ''::inet OR '' @
     lhs @ ''::inet << '' @ [squote] @ ''192.168.0.0/16'' @ [squote] @ ''::inet OR '' @
     lhs @ ''::inet << '' @ [squote] @ ''169.254.0.0/16'' @ [squote] @ ''::inet)''"

definition pg_inet_check_sql :: "string \<Rightarrow> string \<Rightarrow> dialect_result" where
  "pg_inet_check_sql lhs check_name =
     (if check_name = ''IsIPv4'' then Inr (''family('' @ lhs @ ''::inet) = 4'')
      else if check_name = ''IsIPv6'' then Inr (''family('' @ lhs @ ''::inet) = 6'')
      else if check_name = ''IsPrivate'' then Inr (pg_private_ranges lhs)
      else if check_name = ''IsPublic'' then Inr (''NOT '' @ pg_private_ranges lhs)
      else if check_name = ''IsLoopback'' then
        Inr (''(family('' @ lhs @ ''::inet) = 4 AND '' @ lhs @ ''::inet << '' @ [squote] @
             ''127.0.0.0/8'' @ [squote] @ ''::inet) OR (family('' @ lhs @ ''::inet) = 6 AND '' @ lhs @
             ''::inet << '' @ [squote] @ ''::1/128'' @ [squote] @ ''::inet)'')
      else unsupported ''PostgreSQL'' ''InetCheck'')"

fun pg_type_name :: "row_view_column_type \<Rightarrow> string" where
  "pg_type_name Text = ''text''"
| "pg_type_name Int32 = ''int''"
| "pg_type_name Int64 = ''bigint''"
| "pg_type_name Float64 = ''double precision''"
| "pg_type_name Boolean = ''boolean''"
| "pg_type_name Uuid = ''uuid''"
| "pg_type_name Timestamptz = ''timestamptz''"
| "pg_type_name Date = ''date''"
| "pg_type_name Json_col = ''jsonb''"

definition pg_row_view_column_expr :: "string \<Rightarrow> string \<Rightarrow> row_view_column_type \<Rightarrow> string" where
  "pg_row_view_column_expr json_column field_name col_type =
     ''('' @ json_column @ ''->>'' @ [squote] @ field_name @ [squote] @ '')::'' @ pg_type_name col_type"

text \<open>
  The extended operators number their placeholders by \<open>params.len()\<close>, not by the generator's
  counter.
\<close>

definition push_by_length :: "json list \<Rightarrow> string \<Rightarrow> string \<times> json list" where
  "push_by_length params s =
     (let params' = params @ [JString s] in (''$'' @ show_nat (length params'), params'))"

fun push_all_by_length :: "json list \<Rightarrow> string list \<Rightarrow> string list \<times> json list" where
  "push_all_by_length params [] = ([], params)"
| "push_all_by_length params (s # ss) =
     (let (p, params1) = push_by_length params s;
          (ps, params2) = push_all_by_length params1 ss
      in (p # ps, params2))"

fun pg_generate_extended_sql ::
  "extended_operator \<Rightarrow> string \<Rightarrow> json list \<Rightarrow> db_error + string \<times> json list" where
  "pg_generate_extended_sql (EmailDomainEq domain) field_sql params =
     (let (p, params') = push_by_length params domain
      in Inr (''SPLIT_PART('' @ field_sql @ '', '' @ [squote] @ ''@'' @ [squote] @ '', 2) = '' @ p, params'))"
| "pg_generate_extended_sql (EmailDomainIn domains) field_sql params =
     (let (ps, params') = push_all_by_length params domains
      in Inr (''SPLIT_PART('' @ field_sql @ '', '' @ [squote] @ ''@'' @ [squote] @ '', 2) IN ('' @ join '', '' ps @ '')'', params'))"
| "pg_generate_extended_sql (EmailDomainEndswith suffix) field_sql params =
     (let (p, params') = push_by_length params (escape_like_literal suffix)
      in Inr (''SPLIT_PART('' @ field_sql @ '', '' @ [squote] @ ''@'' @ [squote] @ '', 2) LIKE '' @
              [squote] @ ''%'' @ [squote] @ '' || '' @ p, params'))"
| "pg_generate_extended_sql (EmailLocalPartStartswith prefix) field_sql params =
     (let (p, params') = push_by_length params (escape_like_literal prefix)
      in Inr (''SPLIT_PART('' @ field_sql @ '', '' @ [squote] @ ''@'' @ [squote] @ '', 1) LIKE '' @ p @
              '' || '' @ [squote] @ ''%'' @ [squote], params'))"
| "pg_generate_extended_sql (VinWmiEq wmi) field_sql params =
     (let (p, params') = push_by_length params wmi
      in Inr (''SUBSTRING('' @ field_sql @ '' FROM 1 FOR 3) = '' @ p, params'))"
| "pg_generate_extended_sql (IbanCountryEq country) field_sql params =
     (let (p, params') = push_by_length params country
      in Inr (''SUBSTRING('' @ field_sql @ '' FROM 1 FOR 2) = '' @ p, params'))"
| "pg_generate_extended_sql (OtherExtended x) field_sql params =
     Inl (ValidationOp ''Extended operator not yet implemented for PostgreSQL: '' (Extended (OtherExtended x)) [])"

definition PostgresDialect :: sql_dialect where
  "PostgresDialect = \<lparr>
     dialect_name = ''PostgreSQL'',
     quote_identifier = pg_quote_identifier,
     json_extract_scalar = pg_json_extract_scalar,
     placeholder = pg_placeholder,
     cast_to_numeric = (\<lambda>expr. ''('' @ expr @ '')::numeric''),
     cast_to_boolean = (\<lambda>expr. ''('' @ expr @ '')::boolean''),
     cast_param_numeric = (\<lambda>p. ''('' @ p @ ''::text)::numeric''),
     cast_native_param = pg_cast_native_param,
     like_sql = default_like_sql,
     ilike_sql = (\<lambda>lhs rhs. lhs @ '' ILIKE '' @ rhs),
     concat_sql = default_concat_sql,
     always_false = default_always_false,
     always_true = default_always_true,
     neq_operator = default_neq_operator,
     json_array_length = (\<lambda>expr. ''jsonb_array_length('' @ expr @ ''::jsonb)''),
     array_contains_sql = (\<lambda>lhs rhs. Inr (lhs @ ''::jsonb @> '' @ rhs @ ''::jsonb'')),
     array_contained_by_sql = (\<lambda>lhs rhs. Inr (lhs @ ''::jsonb <@ '' @ rhs @ ''::jsonb'')),
     array_overlaps_sql = (\<lambda>lhs rhs. Inr (lhs @ ''::jsonb && '' @ rhs @ ''::jsonb'')),
     fts_matches_sql = (\<lambda>e p. Inr (''to_tsvector('' @ e @ '') @@ to_tsquery('' @ p @ '')'')),
     fts_plain_query_sql = (\<lambda>e p. Inr (''to_tsvector('' @ e @ '') @@ plainto_tsquery('' @ p @ '')'')),
     fts_phrase_query_sql = (\<lambda>e p. Inr (''to_tsvector('' @ e @ '') @@ phraseto_tsquery('' @ p @ '')'')),
     fts_websearch_query_sql = (\<lambda>e p. Inr (''to_tsvector('' @ e @ '') @@ websearch_to_tsquery('' @ p @ '')'')),
     regex_sql = pg_regex_sql,
     vector_distance_sql = (\<lambda>pg_op lhs rhs. Inr (lhs @ ''::vector '' @ pg_op @ '' '' @ rhs @ ''::vector'')),
     jaccard_distance_sql = (\<lambda>lhs rhs. Inr (''('' @ lhs @ '')::text[] <%> ('' @ rhs @ '')::text[]'')),
     inet_check_sql = pg_inet_check_sql,
     inet_binary_sql = (\<lambda>pg_op lhs rhs. Inr (lhs @ ''::inet '' @ pg_op @ '' '' @ rhs @ ''::inet'')),
     ltree_binary_sql = (\<lambda>pg_op lhs rhs rhs_type. Inr (lhs @ ''::ltree '' @ pg_op @ '' '' @ rhs @ ''::'' @ rhs_type)),
     ltree_any_lquery_sql = (\<lambda>lhs ps. Inr (lhs @ ''::ltree ? ARRAY['' @ join '', '' ps @ '']'')),
     ltree_depth_sql = (\<lambda>oper lhs rhs. Inr (''nlevel('' @ lhs @ ''::ltree) '' @ oper @ '' '' @ rhs)),
     ltree_lca_sql = (\<lambda>lhs ps. Inr (lhs @ ''::ltree = lca(ARRAY['' @ join '', '' ps @ ''])'')),
     row_view_column_expr = pg_row_view_column_expr,
     create_row_view_ddl = default_create_row_view_ddl pg_quote_identifier,
     generate_extended_sql = pg_generate_extended_sql\<rparr>"

section \<open>MySQL\<close>

definition mysql_quote_identifier :: "string \<Rightarrow> string" where
  "mysql_quote_identifier name = quote_with backtick backtick name"

definition mysql_json_extract_scalar :: "string \<Rightarrow> string list \<Rightarrow> string" where
  "mysql_json_extract_scalar column path =
     ''JSON_UNQUOTE(JSON_EXTRACT('' @ column @ '', '' @ [squote] @ escape_mysql_json_path path @ [squote] @ ''))''"

fun mysql_type_name :: "row_view_column_type \<Rightarrow> string" where
  "mysql_type_name Text = ''CHAR''"
| "mysql_type_name Uuid = ''CHAR''"
| "mysql_type_name Int32 = ''SIGNED''"
| "mysql_type_name Int64 = ''SIGNED''"
| "mysql_type_name Float64 = ''DOUBLE''"
| "mysql_type_name Boolean = ''UNSIGNED''"
| "mysql_type_name Timestamptz = ''DATETIME''"
| "mysql_type_name Date = ''DATE''"
| "mysql_type_name Json_col = ''JSON''"

definition mysql_row_view_column_expr :: "string \<Rightarrow> string \<Rightarrow> row_view_column_type \<Rightarrow> string" where
  "mysql_row_view_column_expr json_column field_name col_type =
     ''CAST(JSON_UNQUOTE(JSON_EXTRACT('' @ json_column @ '', '' @ [squote] @ ''$.'' @ field_name @
     [squote] @ '')) AS '' @ mysql_type_name col_type @ '')''"

definition mysql_regex_sql :: "string \<Rightarrow> string \<Rightarrow> bool \<Rightarrow> bool \<Rightarrow> dialect_result" where
  "mysql_regex_sql lhs rhs case_insensitive negate =
     (if negate then Inr (lhs @ '' NOT REGEXP '' @ rhs) else Inr (lhs @ '' REGEXP '' @ rhs))"

definition MySqlDialect :: sql_dialect where
  "MySqlDialect = \<lparr>
     dialect_name = ''MySQL'',
     quote_identifier = mysql_quote_identifier,
     json_extract_scalar = mysql_json_extract_scalar,
     placeholder = (\<lambda>n. ''?''),
     cast_to_numeric = (\<lambda>expr. ''CAST('' @ expr @ '' AS DECIMAL)''),
     cast_to_boolean = default_cast_to_boolean,
     cast_param_numeric = default_cast_param_numeric,
     cast_native_param = default_cast_native_param,
     like_sql = default_like_sql,
     ilike_sql = (\<lambda>lhs rhs. ''LOWER('' @ lhs @ '') LIKE LOWER('' @ rhs @ '')''),
     concat_sql = (\<lambda>parts. ''CONCAT('' @ join '', '' parts @ '')''),
     always_false = default_always_false,
     always_true = default_always_true,
     neq_operator = default_neq_operator,
     json_array_length = (\<lambda>expr. ''JSON_LENGTH('' @ expr @ '')''),
     array_contains_sql = (\<lambda>lhs rhs. Inr (''JSON_CONTAINS('' @ lhs @ '', '' @ rhs @ '')'')),
     array_contained_by_sql = default_array_contained_by_sql ''MySQL'',
     array_overlaps_sql = (\<lambda>lhs rhs. Inr (''JSON_OVERLAPS('' @ lhs @ '', '' @ rhs @ '')'')),
     fts_matches_sql = (\<lambda>e p. Inr (''MATCH('' @ e @ '') AGAINST('' @ p @ '' IN NATURAL LANGUAGE MODE)'')),
     fts_plain_query_sql = (\<lambda>e p. Inr (''MATCH('' @ e @ '') AGAINST('' @ p @ '' IN BOOLEAN MODE)'')),
     fts_phrase_query_sql = (\<lambda>e p. Inr (''MATCH('' @ e @ '') AGAINST('' @ p @ '' IN NATURAL LANGUAGE MODE)'')),
     fts_websearch_query_sql = default_fts_websearch_query_sql ''MySQL'',
     regex_sql = mysql_regex_sql,
     vector_distance_sql = default_vector_distance_sql ''MySQL'',
     jaccard_distance_sql = default_jaccard_distance_sql ''MySQL'',
     inet_check_sql = default_inet_check_sql ''MySQL'',
     inet_binary_sql = default_inet_binary_sql ''MySQL'',
     ltree_binary_sql = default_ltree_binary_sql ''MySQL'',
     ltree_any_lquery_sql = default_ltree_any_lquery_sql ''MySQL'',
     ltree_depth_sql = default_ltree_depth_sql ''MySQL'',
     ltree_lca_sql = default_ltree_lca_sql ''MySQL'',
     row_view_column_expr = mysql_row_view_column_expr,
     create_row_view_ddl = default_create_row_view_ddl mysql_quote_identifier,
     generate_extended_sql = default_generate_extended_sql ''MySQL''\<rparr>"

section \<open>SQLite\<close>

definition sqlite_quote_identifier :: "string \<Rightarrow> string" where
  "sqlite_quote_identifier name = quote_with dquote dquote name"

definition sqlite_json_extract_scalar :: "string \<Rightarrow> string list \<Rightarrow> string" where
  "sqlite_json_extract_scalar column path =
     ''json_extract('' @ column @ '', '' @ [squote] @ escape_sqlite_json_path path @ [squote] @ '')''"

fun sqlite_type_name :: "row_view_column_type \<Rightarrow> string" where
  "sqlite_type_name Text = ''TEXT''"
| "sqlite_type_name Uuid = ''TEXT''"
| "sqlite_type_name Timestamptz = ''TEXT''"
| "sqlite_type_name Date = ''TEXT''"
| "sqlite_type_name Int32 = ''INTEGER''"
| "sqlite_type_name Int64 = ''INTEGER''"
| "sqlite_type_name Boolean = ''INTEGER''"
| "sqlite_type_name Float64 = ''REAL''"
| "sqlite_type_name Json_col = ''TEXT''"

definition sqlite_row_view_column_expr :: "string \<Rightarrow> string \<Rightarrow> row_view_column_type \<Rightarrow> string" where
  "sqlite_row_view_column_expr json_column field_name col_type =
     ''CAST(json_extract('' @ json_column @ '', '' @ [squote] @ ''$.'' @ field_name @ [squote] @
     '') AS '' @ sqlite_type_name col_type @ '')''"

definition sqlite_create_row_view_ddl ::
  "string \<Rightarrow> string \<Rightarrow> (string \<times> string) list \<Rightarrow> string" where
  "sqlite_create_row_view_ddl view_name source_table columns =
     ''DROP VIEW IF EXISTS '' @ sqlite_quote_identifier view_name @ '';'' @ [newline] @
     ''CREATE VIEW '' @ sqlite_quote_identifier view_name @
     row_view_body sqlite_quote_identifier source_table columns"

definition SqliteDialect :: sql_dialect where
  "SqliteDialect = \<lparr>
     dialect_name = ''SQLite'',
     quote_identifier = sqlite_quote_identifier,
     json_extract_scalar = sqlite_json_extract_scalar,
     placeholder = (\<lambda>n. ''?''),
     cast_to_numeric = (\<lambda>expr. ''CAST('' @ expr @ '' AS REAL)''),
     cast_to_boolean = default_cast_to_boolean,
     cast_param_numeric = default_cast_param_numeric,
     cast_native_param = default_cast_native_param,
     like_sql = default_like_sql,
     ilike_sql = default_ilike_sql,
     concat_sql = default_concat_sql,
     always_false = ''1=0'',
     always_true = ''1=1'',
     neq_operator = default_neq_operator,
     json_array_length = (\<lambda>expr. ''json_array_length('' @ expr @ '')''),
     array_contains_sql =
       (\<lambda>lhs rhs. Inr (''EXISTS (SELECT 1 FROM json_each('' @ lhs @ '') WHERE value = json('' @ rhs @ ''))'')),
     array_contained_by_sql = default_array_contained_by_sql ''SQLite'',
     array_overlaps_sql = default_array_overlaps_sql ''SQLite'',
     fts_matches_sql = default_fts_matches_sql ''SQLite'',
     fts_plain_query_sql = default_fts_plain_query_sql ''SQLite'',
     fts_phrase_query_sql = default_fts_phrase_query_sql ''SQLite'',
     fts_websearch_query_sql = default_fts_websearch_query_sql ''SQLite'',
     regex_sql = default_regex_sql ''SQLite'',
     vector_distance_sql = default_vector_distance_sql ''SQLite'',
     jaccard_distance_sql = default_jaccard_distance_sql ''SQLite'',
     inet_check_sql = default_inet_check_sql ''SQLite'',
     inet_binary_sql = default_inet_binary_sql ''SQLite'',
     ltree_binary_sql = default_ltree_binary_sql ''SQLite'',
     ltree_any_lquery_sql = default_ltree_any_lquery_sql ''SQLite'',
     ltree_depth_sql = default_ltree_depth_sql ''SQLite'',
     ltree_lca_sql = default_ltree_lca_sql ''SQLite'',
     row_view_column_expr = sqlite_row_view_column_expr,
     create_row_view_ddl = sqlite_create_row_view_ddl,
     generate_extended_sql = default_generate_extended_sql ''SQLite''\<rparr>"

section \<open>SQL Server\<close>

definition mssql_quote_identifier :: "string \<Rightarrow> string" where
  "mssql_quote_identifier name = quote_with CHR ''['' CHR '']'' name"

definition mssql_json_extract_scalar :: "string \<Rightarrow> string list \<Rightarrow> string" where
  "mssql_json_extract_scalar column path =
     ''JSON_VALUE('' @ column @ '', '' @ [squote] @ escape_sqlserver_json_path path @ [squote] @ '')''"

definition mssql_placeholder :: "nat \<Rightarrow> string" where
  "mssql_placeholder n = ''@p'' @ show_nat n"

fun mssql_type_name :: "row_view_column_type \<Rightarrow> string" where
  "mssql_type_name Text = ''NVARCHAR(MAX)''"
| "mssql_type_name Int32 = ''INT''"
| "mssql_type_name Int64 = ''BIGINT''"
| "mssql_type_name Float64 = ''FLOAT''"
| "mssql_type_name Boolean = ''BIT''"
| "mssql_type_name Uuid = ''UNIQUEIDENTIFIER''"
| "mssql_type_name Timestamptz = ''DATETIMEOFFSET''"
| "mssql_type_name Date = ''DATE''"
| "mssql_type_name Json_col = ''NVARCHAR(MAX)''"

definition mssql_row_view_column_expr :: "string \<Rightarrow> string \<Rightarrow> row_view_column_type \<Rightarrow> string" where
  "mssql_row_view_column_expr json_column field_name col_type =
     ''CAST(JSON_VALUE('' @ json_column @ '', '' @ [squote] @ ''$.'' @ field_name @ [squote] @
     '') AS '' @ mssql_type_name col_type @ '')''"

definition mssql_create_row_view_ddl ::
  "string \<Rightarrow> string \<Rightarrow> (string \<times> string) list \<Rightarrow> string" where
  "mssql_create_row_view_ddl view_name source_table columns =
     ''CREATE OR ALTER VIEW '' @ mssql_quote_identifier view_name @
     row_view_body mssql_quote_identifier source_table columns"

definition SqlServerDialect :: sql_dialect where
  "SqlServerDialect = \<lparr>
     dialect_name = ''SQL Server'',
     quote_identifier = mssql_quote_identifier,
     json_extract_scalar = mssql_json_extract_scalar,
     placeholder = mssql_placeholder,
     cast_to_numeric = (\<lambda>expr. ''CAST('' @ expr @ '' AS FLOAT)''),
     cast_to_boolean = default_cast_to_boolean,
     cast_param_numeric = default_cast_param_numeric,
     cast_native_param = default_cast_native_param,
     like_sql = (\<lambda>lhs rhs. lhs @ '' LIKE '' @ rhs @ '' COLLATE Latin1_General_CS_AS''),
     ilike_sql = (\<lambda>lhs rhs. lhs @ '' LIKE '' @ rhs @ '' COLLATE Latin1_General_CI_AI''),
     concat_sql = (\<lambda>parts. join '' + '' parts),
     always_false = ''1=0'',
     always_true = ''1=1'',
     neq_operator = ''<>'',
     json_array_length = (\<lambda>expr. ''(SELECT COUNT(*) FROM OPENJSON('' @ expr @ ''))''),
     array_contains_sql =
       (\<lambda>lhs rhs. Inr (''EXISTS (SELECT 1 FROM OPENJSON('' @ lhs @ '') WHERE value = '' @ rhs @ '')'')),
     array_contained_by_sql = default_array_contained_by_sql ''SQL Server'',
     array_overlaps_sql = default_array_overlaps_sql ''SQL Server'',
     fts_matches_sql = (\<lambda>e p. Inr (''CONTAINS('' @ e @ '', '' @ p @ '')'')),
     fts_plain_query_sql = (\<lambda>e p. Inr (''CONTAINS('' @ e @ '', '' @ p @ '')'')),
     fts_phrase_query_sql = (\<lambda>e p. Inr (''FREETEXT('' @ e @ '', '' @ p @ '')'')),
     fts_websearch_query_sql = default_fts_websearch_query_sql ''SQL Server'',
     regex_sql = default_regex_sql ''SQL Server'',
     vector_distance_sql = default_vector_distance_sql ''SQL Server'',
     jaccard_distance_sql = default_jaccard_distance_sql ''SQL Server'',
     inet_check_sql = default_inet_check_sql ''SQL Server'',
     inet_binary_sql = default_inet_binary_sql ''SQL Server'',
     ltree_binary_sql = default_ltree_binary_sql ''SQL Server'',
     ltree_any_lquery_sql = default_ltree_any_lquery_sql ''SQL Server'',
     ltree_depth_sql = default_ltree_depth_sql ''SQL Server'',
     ltree_lca_sql = default_ltree_lca_sql ''SQL Server'',
     row_view_column_expr = mssql_row_view_column_expr,
     create_row_view_ddl = mssql_create_row_view_ddl,
     generate_extended_sql = default_generate_extended_sql ''SQL Server''\<rparr>"

section \<open>The contract\<close>

text \<open>
  \<open>affine f\<close>: the text \<open>f p\<close> is \<open>p\<close> between two fixed texts. \<open>affine_result\<close> is the same for a
  method that may be unsupported, and \<open>affine_list\<close> for one that receives a list of
  placeholders and writes them separated by commas.
\<close>

definition affine :: "(string \<Rightarrow> string) \<Rightarrow> bool" where
  "affine f \<longleftrightarrow> (\<exists>a b. \<forall>p. f p = a @ p @ b)"

definition affine_result :: "(string \<Rightarrow> 'e + string) \<Rightarrow> bool" where
  "affine_result f \<longleftrightarrow> (\<exists>e. \<forall>p. f p = Inl e) \<or> (\<exists>a b. \<forall>p. f p = Inr (a @ p @ b))"

definition affine_list :: "(string list \<Rightarrow> 'e + string) \<Rightarrow> bool" where
  "affine_list f \<longleftrightarrow> (\<exists>e. \<forall>ps. f ps = Inl e) \<or> (\<exists>a b. \<forall>ps. f ps = Inr (a @ join '', '' ps @ b))"

lemma affineI: "(\<And>p. f p = a @ p @ b) \<Longrightarrow> affine f"
  by (auto simp: affine_def)

lemma affine_id: "affine (\<lambda>p. p)"
  by (rule affineI [of _ "[]" "[]"]) simp

lemma affine_comp: "affine f \<Longrightarrow> affine g \<Longrightarrow> affine (\<lambda>p. f (g p))"
  unfolding affine_def by (metis append.assoc)

lemma affine_append_left: "affine f \<Longrightarrow> affine (\<lambda>p. a @ f p)"
  unfolding affine_def by (metis append.assoc)

lemma affine_append_right: "affine f \<Longrightarrow> affine (\<lambda>p. f p @ b)"
  unfolding affine_def by (metis append.assoc)

lemma affine_join: "affine (\<lambda>p. join sep (pre @ p # post))"
proof (induction pre)
  case Nil
  show ?case
    by (cases post) (auto intro: affine_id affine_append_right)
next
  case (Cons x pre)
  have "join sep ((x # pre) @ p # post) = (x @ sep) @ join sep (pre @ p # post)" for p
    by (cases pre) auto
  then show ?case using affine_append_left [OF Cons, of "x @ sep"] by simp
qed

lemma affine_result_Inl: "affine_result (\<lambda>p. Inl e)"
  by (auto simp: affine_result_def)

lemma affine_result_Inr: "affine f \<Longrightarrow> affine_result (\<lambda>p. Inr (f p))"
  by (auto simp: affine_result_def affine_def)

lemma affine_result_if: "affine_result f \<Longrightarrow> affine_result g \<Longrightarrow> affine_result (\<lambda>p. if b then f p else g p)"
  by (cases b) simp_all

lemmas affine_intros = affine_id affine_append_left affine_append_right affine_join
  affine_result_Inl affine_result_Inr

locale sql_dialect_contract =
  fixes d :: sql_dialect
  assumes cast_param_numeric_affine: "affine (cast_param_numeric d)"
    and cast_native_param_affine: "affine (\<lambda>p. cast_native_param d p t)"
    and like_affine: "affine (like_sql d lhs)"
    and ilike_affine: "affine (ilike_sql d lhs)"
    and concat_affine: "affine (\<lambda>p. concat_sql d (pre @ p # post))"
    and array_contains_affine: "affine_result (array_contains_sql d lhs)"
    and array_contained_by_affine: "affine_result (array_contained_by_sql d lhs)"
    and array_overlaps_affine: "affine_result (array_overlaps_sql d lhs)"
    and fts_matches_affine: "affine_result (fts_matches_sql d lhs)"
    and fts_plain_affine: "affine_result (fts_plain_query_sql d lhs)"
    and fts_phrase_affine: "affine_result (fts_phrase_query_sql d lhs)"
    and fts_websearch_affine: "affine_result (fts_websearch_query_sql d lhs)"
    and regex_affine: "affine_result (\<lambda>p. regex_sql d lhs p ci neg)"
    and vector_affine: "affine_result (vector_distance_sql d oper lhs)"
    and jaccard_affine: "affine_result (jaccard_distance_sql d lhs)"
    and inet_binary_affine: "affine_result (inet_binary_sql d oper lhs)"
    and ltree_binary_affine: "affine_result (\<lambda>p. ltree_binary_sql d oper lhs p t)"
    and ltree_depth_affine: "affine_result (ltree_depth_sql d oper lhs)"
    and ltree_any_affine: "affine_list (ltree_any_lquery_sql d lhs)"
    and ltree_lca_affine: "affine_list (ltree_lca_sql d lhs)"

lemma affine_list_Inl: "affine_list (\<lambda>ps. Inl e)"
  by (auto simp: affine_list_def)

lemma affine_list_join: "affine_list (\<lambda>ps. Inr (join '', '' ps @ b))"
  unfolding affine_list_def by (rule disjI2, rule exI [of _ "[]"]) auto

lemma affine_list_append:
  "affine_list (\<lambda>ps. Inr (g ps) :: 'e + string) \<Longrightarrow> affine_list (\<lambda>ps. Inr (a @ g ps) :: 'e + string)"
proof -
  assume "affine_list (\<lambda>ps. Inr (g ps) :: 'e + string)"
  then obtain c b where "\<And>ps. g ps = c @ join '', '' ps @ b"
    by (auto simp: affine_list_def)
  then have "\<forall>ps. (Inr (a @ g ps) :: 'e + string) = Inr ((a @ c) @ join '', '' ps @ b)"
    by simp
  then show "affine_list (\<lambda>ps. Inr (a @ g ps) :: 'e + string)"
    unfolding affine_list_def by blast
qed

lemma affine_if: "affine f \<Longrightarrow> affine g \<Longrightarrow> affine (\<lambda>p. if b then f p else g p)"
  by (cases b) simp_all

lemmas contract_intros = affine_intros affine_if affine_list_Inl affine_list_join affine_list_append

interpretation pg: sql_dialect_contract PostgresDialect
  by unfold_locales
    (simp_all add: PostgresDialect_def dialect_defs [abs_def] pg_cast_native_param_def pg_regex_sql_def
      Let_def contract_intros del: append.simps append_Cons)

interpretation mysql: sql_dialect_contract MySqlDialect
  by unfold_locales
    (simp_all add: MySqlDialect_def dialect_defs [abs_def] mysql_regex_sql_def contract_intros
      affine_result_if del: append.simps append_Cons)

interpretation sqlite: sql_dialect_contract SqliteDialect
  by unfold_locales
    (simp_all add: SqliteDialect_def dialect_defs [abs_def] contract_intros del: append.simps append_Cons)

interpretation mssql: sql_dialect_contract SqlServerDialect
  by unfold_locales
    (simp_all add: SqlServerDialect_def dialect_defs [abs_def] contract_intros del: append.simps append_Cons)

end
