(* ===== verification/Where_Generator.thy ===== *)
theory Where_Generator
  imports Dialects
begin

text \<open>
  The WHERE clause generator (\<open>fraiseql-db/src/where_generator/generic.rs\<close> and
  \<open>counter.rs\<close>). The generator's interior-mutable counter and the caller's parameter vector
  are the state \<open>(counter, params)\<close>, passed and returned by every visitor.
\<close>

section \<open>Regex patterns\<close>

definition MAX_REGEX_PATTERN_LEN :: nat where
  "MAX_REGEX_PATTERN_LEN = 1000"

definition is_quantifier :: "char \<Rightarrow> bool" where
  "is_quantifier c \<longleftrightarrow> c \<in> {CHR ''+'', CHR ''*'', CHR ''?'', CHR ''{''}"

fun set_top :: "bool list \<Rightarrow> bool list" where
  "set_top [] = []"
| "set_top (_ # fs) = True # fs"

text \<open>
  The loop over the bytes: the byte before, the depth, the stack of flags (top first) and
  what is left. The result is whether the loop returns the nested-quantifier error.
\<close>

fun nested_quantifier :: "char option \<Rightarrow> int \<Rightarrow> bool list \<Rightarrow> string \<Rightarrow> bool" where
  "nested_quantifier prev depth stack [] = False"
| "nested_quantifier prev depth stack (b # rest) =
     (if prev = Some backslash then nested_quantifier (Some b) depth stack rest
      else if b = CHR ''('' then nested_quantifier (Some b) (depth + 1) (False # stack) rest
      else if b = CHR '')'' then
        (let had_quantifier = (case stack of [] \<Rightarrow> False | f # _ \<Rightarrow> f);
             next_quantifier = (case rest of [] \<Rightarrow> False | q # _ \<Rightarrow> is_quantifier q)
         in if had_quantifier \<and> next_quantifier then True
            else nested_quantifier (Some b) (depth - 1) (tl stack) rest)
      else if b = CHR ''+'' \<or> b = CHR ''*'' \<or> b = CHR ''?'' then
        nested_quantifier (Some b) depth (set_top stack) rest
      else if b = CHR ''{'' \<and> depth > 0 then
        nested_quantifier (Some b) depth (set_top stack) rest
      else nested_quantifier (Some b) depth stack rest)"

definition validate_regex_pattern :: "string \<Rightarrow> db_error + unit" where
  "validate_regex_pattern pattern =
     (if utf8_len pattern > MAX_REGEX_PATTERN_LEN
      then Inl (Validation ''Regex pattern exceeds maximum length of 1000 bytes'')
      else if nested_quantifier None 0 [] pattern
      then Inl (Validation ''Regex pattern contains nested quantifiers (potential ReDoS).'')
      else Inr ())"

section \<open>Parameters\<close>

type_synonym gstate = "nat \<times> json list"

record where_generator =
  gen_dialect :: sql_dialect
  indexed_columns :: "string set option"

definition generator_new :: "sql_dialect \<Rightarrow> where_generator" where
  "generator_new d = \<lparr>gen_dialect = d, indexed_columns = None\<rparr>"

definition with_indexed_columns :: "where_generator \<Rightarrow> string set \<Rightarrow> where_generator" where
  "with_indexed_columns g cols = g\<lparr>indexed_columns := Some cols\<rparr>"

text \<open>\<open>ParamCounter::next\<close> increments and returns the new value.\<close>

definition counter_next :: "nat \<Rightarrow> nat \<times> nat" where
  "counter_next n = (n + 1, n + 1)"

definition push_param :: "sql_dialect \<Rightarrow> json \<Rightarrow> gstate \<Rightarrow> string \<times> gstate" where
  "push_param d v st =
     (case st of (n, params) \<Rightarrow>
        (let (k, n') = counter_next n in (placeholder d k, (n', params @ [v]))))"

fun push_params :: "sql_dialect \<Rightarrow> json list \<Rightarrow> gstate \<Rightarrow> string list \<times> gstate" where
  "push_params d [] st = ([], st)"
| "push_params d (v # vs) st =
     (let (p, st1) = push_param d v st; (ps, st2) = push_params d vs st1 in (p # ps, st2))"

text \<open>Push one value and render with its placeholder.\<close>

definition with_param ::
  "sql_dialect \<Rightarrow> json \<Rightarrow> gstate \<Rightarrow> (string \<Rightarrow> db_error + string) \<Rightarrow> db_error + string \<times> gstate" where
  "with_param d v st f =
     (let (p, st') = push_param d v st in try_bind (f p) (\<lambda>sql. Inr (sql, st')))"

definition lift_dialect :: "dialect_result \<Rightarrow> db_error + string" where
  "lift_dialect r = (case r of Inl e \<Rightarrow> Inl (Validation (unsupported_to_string e)) | Inr s \<Rightarrow> Inr s)"

definition require_str :: "json \<Rightarrow> string \<Rightarrow> db_error + string" where
  "require_str v oper =
     (case as_str v of
        Some s \<Rightarrow> Inr s
      | None \<Rightarrow> Inl (Validation (oper @ '' operator requires a string value'')))"

section \<open>Field conditions\<close>

definition resolve_field_expr :: "where_generator \<Rightarrow> string list \<Rightarrow> string" where
  "resolve_field_expr g path =
     (case indexed_columns g of
        Some indexed \<Rightarrow>
          (let col_name = join ''__'' path in
           if col_name \<in> indexed then quote_identifier (gen_dialect g) col_name
           else json_extract_scalar (gen_dialect g) ''data'' path)
      | None \<Rightarrow> json_extract_scalar (gen_dialect g) ''data'' path)"

abbreviation percent_literal :: string where
  "percent_literal \<equiv> [squote, CHR ''%'', squote]"

definition compare_sql :: "sql_dialect \<Rightarrow> string \<Rightarrow> string \<Rightarrow> json \<Rightarrow> gstate \<Rightarrow> db_error + string \<times> gstate" where
  "compare_sql d fe oper v st =
     with_param d v st (\<lambda>p.
       Inr (if is_number v then cast_to_numeric d fe @ '' '' @ oper @ '' '' @ cast_param_numeric d p
            else if is_boolean v then cast_to_boolean d fe @ '' '' @ oper @ '' '' @ p
            else fe @ '' '' @ oper @ '' '' @ p))"

definition order_sql :: "sql_dialect \<Rightarrow> string \<Rightarrow> string \<Rightarrow> json \<Rightarrow> gstate \<Rightarrow> db_error + string \<times> gstate" where
  "order_sql d fe oper v st =
     with_param d v st (\<lambda>p. Inr (cast_to_numeric d fe @ '' '' @ oper @ '' '' @ cast_param_numeric d p))"

definition in_sql :: "sql_dialect \<Rightarrow> string \<Rightarrow> bool \<Rightarrow> json \<Rightarrow> gstate \<Rightarrow> db_error + string \<times> gstate" where
  "in_sql d fe negate v st =
     (case as_array v of
        None \<Rightarrow> Inl (Validation ''IN operator requires an array value'')
      | Some arr \<Rightarrow>
          if arr = [] then Inr (if negate then always_true d else always_false d, st)
          else (let (ps, st') = push_params d arr st;
                    sql = fe @ '' IN ('' @ join '', '' ps @ '')''
                in Inr (if negate then ''NOT ('' @ sql @ '')'' else sql, st')))"

definition like_pattern_sql ::
  "sql_dialect \<Rightarrow> string \<Rightarrow> string \<Rightarrow> bool \<Rightarrow> (string \<Rightarrow> string list) \<Rightarrow> json \<Rightarrow> gstate \<Rightarrow>
   db_error + string \<times> gstate" where
  "like_pattern_sql d fe oper insensitive parts v st =
     try_bind (require_str v oper) (\<lambda>val_str.
       with_param d (JString (escape_like_literal val_str)) st (\<lambda>p.
         Inr ((if insensitive then ilike_sql d fe else like_sql d fe) (concat_sql d (parts p)))))"

definition regex_arm :: "sql_dialect \<Rightarrow> string \<Rightarrow> bool \<Rightarrow> bool \<Rightarrow> json \<Rightarrow> gstate \<Rightarrow> db_error + string \<times> gstate" where
  "regex_arm d fe case_insensitive negate v st =
     try_bind (case as_str v of Some s \<Rightarrow> validate_regex_pattern s | None \<Rightarrow> Inr ())
       (\<lambda>_. with_param d v st (\<lambda>p. lift_dialect (regex_sql d fe p case_insensitive negate)))"

definition array_arm ::
  "sql_dialect \<Rightarrow> string \<Rightarrow> string \<Rightarrow> string \<Rightarrow> (string list \<Rightarrow> dialect_result) \<Rightarrow> json \<Rightarrow> gstate \<Rightarrow>
   db_error + string \<times> gstate" where
  "array_arm d not_array is_empty suffix render v st =
     (case as_array v of
        None \<Rightarrow> Inl (Validation not_array)
      | Some arr \<Rightarrow>
          if arr = [] then Inl (Validation is_empty)
          else (let (ps, st') = push_params d arr st
                in try_bind (lift_dialect (render (map (\<lambda>p. p @ suffix) ps))) (\<lambda>sql. Inr (sql, st'))))"

definition len_sql :: "sql_dialect \<Rightarrow> string \<Rightarrow> string \<Rightarrow> json \<Rightarrow> gstate \<Rightarrow> db_error + string \<times> gstate" where
  "len_sql d fe oper v st =
     with_param d v st (\<lambda>p. Inr (json_array_length d fe @ '' '' @ oper @ '' '' @ p))"

definition render_arm ::
  "sql_dialect \<Rightarrow> json \<Rightarrow> gstate \<Rightarrow> (string \<Rightarrow> dialect_result) \<Rightarrow> db_error + string \<times> gstate" where
  "render_arm d v st f = with_param d v st (\<lambda>p. lift_dialect (f p))"

definition inet_check_arm :: "sql_dialect \<Rightarrow> string \<Rightarrow> string \<Rightarrow> gstate \<Rightarrow> db_error + string \<times> gstate" where
  "inet_check_arm d fe check st = try_bind (lift_dialect (inet_check_sql d fe check)) (\<lambda>sql. Inr (sql, st))"

definition visit_field ::
  "where_generator \<Rightarrow> string list \<Rightarrow> where_operator \<Rightarrow> json \<Rightarrow> gstate \<Rightarrow> db_error + string \<times> gstate" where
  "visit_field g path operator v st =
     (let d = gen_dialect g; fe = resolve_field_expr g path in
      case operator of
        Eq \<Rightarrow> compare_sql d fe ''='' v st
      | Neq \<Rightarrow> compare_sql d fe (neq_operator d) v st
      | Gt \<Rightarrow> order_sql d fe ''>'' v st
      | Gte \<Rightarrow> order_sql d fe ''>='' v st
      | Lt \<Rightarrow> order_sql d fe ''<'' v st
      | Lte \<Rightarrow> order_sql d fe ''<='' v st
      | In \<Rightarrow> in_sql d fe False v st
      | Nin \<Rightarrow> in_sql d fe True v st
      | IsNull \<Rightarrow>
          Inr (fe @ '' '' @ (if (case as_bool v of Some b \<Rightarrow> b | None \<Rightarrow> True)
                            then ''IS NULL'' else ''IS NOT NULL''), st)
      | Contains \<Rightarrow> like_pattern_sql d fe ''Contains'' False (\<lambda>p. [percent_literal, p, percent_literal]) v st
      | Icontains \<Rightarrow> like_pattern_sql d fe ''Icontains'' True (\<lambda>p. [percent_literal, p, percent_literal]) v st
      | Startswith \<Rightarrow> like_pattern_sql d fe ''Startswith'' False (\<lambda>p. [p, percent_literal]) v st
      | Istartswith \<Rightarrow> like_pattern_sql d fe ''Istartswith'' True (\<lambda>p. [p, percent_literal]) v st
      | Endswith \<Rightarrow> like_pattern_sql d fe ''Endswith'' False (\<lambda>p. [percent_literal, p]) v st
      | Iendswith \<Rightarrow> like_pattern_sql d fe ''Iendswith'' True (\<lambda>p. [percent_literal, p]) v st
      | Like \<Rightarrow> with_param d v st (\<lambda>p. Inr (like_sql d fe p))
      | Ilike \<Rightarrow> with_param d v st (\<lambda>p. Inr (ilike_sql d fe p))
      | Nlike \<Rightarrow> with_param d v st (\<lambda>p. Inr (''NOT ('' @ like_sql d fe p @ '')''))
      | Nilike \<Rightarrow> with_param d v st (\<lambda>p. Inr (''NOT ('' @ ilike_sql d fe p @ '')''))
      | Regex \<Rightarrow> regex_arm d fe False False v st
      | Iregex \<Rightarrow> regex_arm d fe True False v st
      | Nregex \<Rightarrow> regex_arm d fe False True v st
      | Niregex \<Rightarrow> regex_arm d fe True True v st
      | LenEq \<Rightarrow> len_sql d fe ''='' v st
      | LenNeq \<Rightarrow> len_sql d fe (neq_operator d) v st
      | LenGt \<Rightarrow> len_sql d fe ''>'' v st
      | LenGte \<Rightarrow> len_sql d fe ''>='' v st
      | LenLt \<Rightarrow> len_sql d fe ''<'' v st
      | LenLte \<Rightarrow> len_sql d fe ''<='' v st
      | ArrayContains \<Rightarrow> render_arm d v st (array_contains_sql d fe)
      | StrictlyContains \<Rightarrow> render_arm d v st (array_contains_sql d fe)
      | ArrayContainedBy \<Rightarrow> render_arm d v st (array_contained_by_sql d fe)
      | ArrayOverlaps \<Rightarrow> render_arm d v st (array_overlaps_sql d fe)
      | Matches \<Rightarrow> render_arm d v st (fts_matches_sql d fe)
      | PlainQuery \<Rightarrow> render_arm d v st (fts_plain_query_sql d fe)
      | PhraseQuery \<Rightarrow> render_arm d v st (fts_phrase_query_sql d fe)
      | WebsearchQuery \<Rightarrow> render_arm d v st (fts_websearch_query_sql d fe)
      | CosineDistance \<Rightarrow> render_arm d v st (vector_distance_sql d ''<=>'' fe)
      | L2Distance \<Rightarrow> render_arm d v st (vector_distance_sql d ''<->'' fe)
      | L1Distance \<Rightarrow> render_arm d v st (vector_distance_sql d ''<+>'' fe)
      | HammingDistance \<Rightarrow> render_arm d v st (vector_distance_sql d ''<~>'' fe)
      | InnerProduct \<Rightarrow> render_arm d v st (vector_distance_sql d ''<#>'' fe)
      | JaccardDistance \<Rightarrow> render_arm d v st (jaccard_distance_sql d fe)
      | IsIPv4 \<Rightarrow> inet_check_arm d fe ''IsIPv4'' st
      | IsIPv6 \<Rightarrow> inet_check_arm d fe ''IsIPv6'' st
      | IsPrivate \<Rightarrow> inet_check_arm d fe ''IsPrivate'' st
      | IsPublic \<Rightarrow> inet_check_arm d fe ''IsPublic'' st
      | IsLoopback \<Rightarrow> inet_check_arm d fe ''IsLoopback'' st
      | InSubnet \<Rightarrow> render_arm d v st (inet_binary_sql d ''<<'' fe)
      | ContainsSubnet \<Rightarrow> render_arm d v st (inet_binary_sql d ''>>'' fe)
      | ContainsIP \<Rightarrow> render_arm d v st (inet_binary_sql d ''>>'' fe)
      | Overlaps \<Rightarrow> render_arm d v st (inet_binary_sql d ''&&'' fe)
      | AncestorOf \<Rightarrow> render_arm d v st (\<lambda>p. ltree_binary_sql d ''@>'' fe p ''ltree'')
      | DescendantOf \<Rightarrow> render_arm d v st (\<lambda>p. ltree_binary_sql d ''<@'' fe p ''ltree'')
      | MatchesLquery \<Rightarrow> render_arm d v st (\<lambda>p. ltree_binary_sql d ''~'' fe p ''lquery'')
      | MatchesLtxtquery \<Rightarrow> render_arm d v st (\<lambda>p. ltree_binary_sql d ''@'' fe p ''ltxtquery'')
      | MatchesAnyLquery \<Rightarrow>
          array_arm d ''matches_any_lquery operator requires an array value''
            ''matches_any_lquery requires at least one lquery'' ''::lquery'' (ltree_any_lquery_sql d fe) v st
      | DepthEq \<Rightarrow> render_arm d v st (ltree_depth_sql d ''='' fe)
      | DepthNeq \<Rightarrow> render_arm d v st (ltree_depth_sql d ''!='' fe)
      | DepthGt \<Rightarrow> render_arm d v st (ltree_depth_sql d ''>'' fe)
      | DepthGte \<Rightarrow> render_arm d v st (ltree_depth_sql d ''>='' fe)
      | DepthLt \<Rightarrow> render_arm d v st (ltree_depth_sql d ''<'' fe)
      | DepthLte \<Rightarrow> render_arm d v st (ltree_depth_sql d ''<='' fe)
      | Lca \<Rightarrow>
          array_arm d ''lca operator requires an array value''
            ''lca operator requires at least one path'' ''::ltree'' (ltree_lca_sql d fe) v st
      | Extended oper \<Rightarrow>
          try_bind (generate_extended_sql d oper fe (snd st)) (\<lambda>(sql, params'). Inr (sql, (fst st, params'))))"

definition visit_native_field ::
  "where_generator \<Rightarrow> string \<Rightarrow> string \<Rightarrow> where_operator \<Rightarrow> json \<Rightarrow> gstate \<Rightarrow> db_error + string \<times> gstate" where
  "visit_native_field g column pg_cast operator v st =
     (let d = gen_dialect g; col_expr = quote_identifier d column in
      with_param d v st (\<lambda>p.
        let rhs = (if pg_cast = [] then p else cast_native_param d p pg_cast) in
        if operator = Eq then Inr (col_expr @ '' = '' @ rhs)
        else if operator = Neq then Inr (col_expr @ '' '' @ neq_operator d @ '' '' @ rhs)
        else Inl (ValidationOp ''Operator '' operator '' is not supported for native column conditions'')))"

section \<open>Clauses\<close>

fun visit :: "where_generator \<Rightarrow> where_clause \<Rightarrow> gstate \<Rightarrow> db_error + string \<times> gstate"
and visit_all :: "where_generator \<Rightarrow> where_clause list \<Rightarrow> gstate \<Rightarrow> db_error + string list \<times> gstate" where
  "visit g (WhereAnd clauses) st =
     (if clauses = [] then Inr (always_true (gen_dialect g), st)
      else try_bind (visit_all g clauses st)
             (\<lambda>(parts, st'). Inr (''('' @ join '' AND '' parts @ '')'', st')))"
| "visit g (WhereOr clauses) st =
     (if clauses = [] then Inr (always_false (gen_dialect g), st)
      else try_bind (visit_all g clauses st)
             (\<lambda>(parts, st'). Inr (''('' @ join '' OR '' parts @ '')'', st')))"
| "visit g (WhereNot inner) st =
     try_bind (visit g inner st) (\<lambda>(sql, st'). Inr (''NOT ('' @ sql @ '')'', st'))"
| "visit g (Field path operator v) st = visit_field g path operator v st"
| "visit g (NativeField column pg_cast operator v) st = visit_native_field g column pg_cast operator v st"
| "visit_all g [] st = Inr ([], st)"
| "visit_all g (c # cs) st =
     try_bind (visit g c st) (\<lambda>(part, st1).
       try_bind (visit_all g cs st1) (\<lambda>(parts, st2). Inr (part # parts, st2)))"

definition generate_with_param_offset ::
  "where_generator \<Rightarrow> where_clause \<Rightarrow> nat \<Rightarrow> db_error + string \<times> json list" where
  "generate_with_param_offset g clause offset =
     try_bind (visit g clause (offset, [])) (\<lambda>(sql, (_, params)). Inr (sql, params))"

definition generate :: "where_generator \<Rightarrow> where_clause \<Rightarrow> db_error + string \<times> json list" where
  "generate g clause = generate_with_param_offset g clause 0"

section \<open>Templates\<close>

text \<open>
  The abstract specification of a generated condition: a text with holes, the same for every
  starting point of the numbering, and the values bound to the holes in order.
\<close>

datatype frag = Lit string | Hole

fun holes :: "frag list \<Rightarrow> nat" where
  "holes [] = 0"
| "holes (Lit _ # fs) = holes fs"
| "holes (Hole # fs) = Suc (holes fs)"

fun fill :: "frag list \<Rightarrow> string list \<Rightarrow> string" where
  "fill [] ps = []"
| "fill (Lit s # fs) ps = s @ fill fs ps"
| "fill (Hole # fs) (p # ps) = p @ fill fs ps"
| "fill (Hole # fs) [] = fill fs []"

lemma holes_append [simp]: "holes (fs @ gs) = holes fs + holes gs"
  by (induction fs rule: holes.induct) auto

lemma fill_append: "length ps = holes fs \<Longrightarrow> fill (fs @ gs) (ps @ qs) = fill fs ps @ fill gs qs"
  by (induction fs ps rule: fill.induct) auto

definition placeholders :: "sql_dialect \<Rightarrow> nat \<Rightarrow> nat \<Rightarrow> string list" where
  "placeholders d n k = map (placeholder d) [n + 1..<n + 1 + k]"

lemma length_placeholders [simp]: "length (placeholders d n k) = k"
  by (simp add: placeholders_def)

lemma placeholders_0 [simp]: "placeholders d n 0 = []"
  by (simp add: placeholders_def)

lemma placeholders_Suc: "placeholders d n (Suc k) = placeholder d (Suc n) # placeholders d (Suc n) k"
  by (simp add: placeholders_def upt_conv_Cons del: upt_Suc)

lemma placeholders_add: "placeholders d n (j + k) = placeholders d n j @ placeholders d (n + j) k"
  by (induction j arbitrary: n) (simp_all add: placeholders_Suc)

lemma push_params_eq:
  "push_params d vs (n, params) = (placeholders d n (length vs), (n + length vs, params @ vs))"
  by (induction vs arbitrary: n params)
    (simp_all add: push_param_def counter_next_def placeholders_Suc)

text \<open>
  \<open>uniform d g\<close>: the visitor \<open>g\<close> either always fails with the same error, or it renders one
  template with consecutive placeholders and appends the template's values.
\<close>

definition renders :: "sql_dialect \<Rightarrow> (gstate \<Rightarrow> db_error + string \<times> gstate) \<Rightarrow> frag list \<Rightarrow> json list \<Rightarrow> bool" where
  "renders d g fs vs \<longleftrightarrow> holes fs = length vs \<and>
     (\<forall>n params. g (n, params) =
        Inr (fill fs (placeholders d n (length vs)), (n + length vs, params @ vs)))"

definition uniform :: "sql_dialect \<Rightarrow> (gstate \<Rightarrow> db_error + string \<times> gstate) \<Rightarrow> bool" where
  "uniform d g \<longleftrightarrow> (\<exists>e. \<forall>st. g st = Inl e) \<or> (\<exists>fs vs. renders d g fs vs)"

lemma uniform_Inl: "uniform d (\<lambda>st. Inl e)"
  by (auto simp: uniform_def)

lemma uniform_const: "uniform d (\<lambda>st. Inr (s, st))"
proof -
  have "renders d (\<lambda>st. Inr (s, st)) [Lit s] []" by (simp add: renders_def)
  then show ?thesis by (auto simp: uniform_def)
qed

lemma uniform_with_param:
  assumes "affine_result f"
  shows "uniform d (\<lambda>st. with_param d v st f)"
proof -
  from assms consider (err) e where "\<And>p. f p = Inl e" | (ok) a b where "\<And>p. f p = Inr (a @ p @ b)"
    by (auto simp: affine_result_def)
  then show ?thesis
  proof cases
    case err
    then have "\<forall>st. with_param d v st f = Inl e"
      by (simp add: with_param_def push_param_def counter_next_def split: prod.splits)
    then show ?thesis by (auto simp: uniform_def)
  next
    case ok
    then have "renders d (\<lambda>st. with_param d v st f) [Lit a, Hole, Lit b] [v]"
      by (simp add: renders_def with_param_def push_param_def counter_next_def placeholders_Suc)
    then show ?thesis by (auto simp: uniform_def)
  qed
qed

lemma uniform_try_unit:
  "uniform d g \<Longrightarrow> uniform d (\<lambda>st. try_bind r (\<lambda>x. g st))"
  by (cases r) (simp_all add: uniform_Inl)

lemma affine_lift: "affine_result f \<Longrightarrow> affine_result (\<lambda>p. lift_dialect (f p))"
  unfolding affine_result_def lift_dialect_def by (elim disjE exE) (auto intro: exI)

lemma uniform_lift_const:
  "uniform d (\<lambda>st. try_bind (lift_dialect r) (\<lambda>sql. Inr (sql, st)))"
  by (cases r) (simp_all add: lift_dialect_def uniform_Inl uniform_const)

text \<open>A list of holes, each followed by a suffix and separated by commas.\<close>

fun hole_list :: "string \<Rightarrow> nat \<Rightarrow> frag list" where
  "hole_list suffix 0 = []"
| "hole_list suffix (Suc 0) = [Hole, Lit suffix]"
| "hole_list suffix (Suc (Suc n)) = Hole # Lit (suffix @ '', '') # hole_list suffix (Suc n)"

lemma holes_hole_list [simp]: "holes (hole_list suffix n) = n"
  by (induction suffix n rule: hole_list.induct) auto

lemma fill_hole_list:
  "length ps = n \<Longrightarrow> fill (hole_list suffix n) ps = join '', '' (map (\<lambda>p. p @ suffix) ps)"
proof (induction suffix n arbitrary: ps rule: hole_list.induct)
  case (2 suffix)
  then show ?case by (cases ps) auto
next
  case (3 suffix n)
  then obtain p q qs where ps: "ps = p # q # qs"
    by (auto simp: length_Suc_conv)
  with 3 show ?case by simp
qed simp

lemma fill_snoc: "length ps = holes fs \<Longrightarrow> fill (fs @ [Lit b]) ps = fill fs ps @ b"
  using fill_append [of ps fs "[Lit b]" "[]"] by simp

lemma uniform_in: "uniform d (\<lambda>st. in_sql d fe neg v st)"
proof (cases "as_array v")
  case None
  then show ?thesis by (simp add: in_sql_def uniform_Inl)
next
  case (Some arr)
  show ?thesis
  proof (cases "arr = []")
    case True
    with Some show ?thesis by (simp add: in_sql_def uniform_const)
  next
    case False
    define pre where "pre = (if neg then ''NOT ('' else []) @ fe @ '' IN (''"
    define post where "post = '')'' @ (if neg then '')'' else [])"
    have "renders d (\<lambda>st. in_sql d fe neg v st) (Lit pre # hole_list [] (length arr) @ [Lit post]) arr"
      using Some False
      by (simp add: renders_def in_sql_def push_params_eq fill_snoc fill_hole_list pre_def post_def)
    then show ?thesis by (auto simp: uniform_def)
  qed
qed

lemma uniform_array_arm:
  assumes "affine_list render"
  shows "uniform d (\<lambda>st. array_arm d na em suffix render v st)"
proof (cases "as_array v")
  case None
  then show ?thesis by (simp add: array_arm_def uniform_Inl)
next
  case (Some arr)
  show ?thesis
  proof (cases "arr = []")
    case True
    with Some show ?thesis by (simp add: array_arm_def uniform_Inl)
  next
    case False
    from assms consider (err) e where "\<And>ps. render ps = Inl e"
      | (ok) a b where "\<And>ps. render ps = Inr (a @ join '', '' ps @ b)"
      by (auto simp: affine_list_def)
    then show ?thesis
    proof cases
      case err
      then have "\<forall>st. array_arm d na em suffix render v st = Inl (Validation (unsupported_to_string e))"
        using Some False by (simp add: array_arm_def lift_dialect_def split: prod.splits)
      then show ?thesis by (auto simp: uniform_def)
    next
      case ok
      then have "renders d (\<lambda>st. array_arm d na em suffix render v st)
          (Lit a # hole_list suffix (length arr) @ [Lit b]) arr"
        using Some False
        by (simp add: renders_def array_arm_def push_params_eq fill_snoc fill_hole_list lift_dialect_def)
      then show ?thesis by (auto simp: uniform_def)
    qed
  qed
qed

lemma uniform_wrap:
  assumes "uniform d g"
  shows "uniform d (\<lambda>st. try_bind (g st) (\<lambda>(sql, st'). Inr (a @ sql @ b, st')))"
proof -
  from assms consider (err) e where "\<And>st. g st = Inl e" | (ok) fs vs where "renders d g fs vs"
    by (auto simp: uniform_def)
  then show ?thesis
  proof cases
    case err
    then show ?thesis by (simp add: uniform_Inl)
  next
    case ok
    then have "renders d (\<lambda>st. try_bind (g st) (\<lambda>(sql, st'). Inr (a @ sql @ b, st')))
        (Lit a # fs @ [Lit b]) vs"
      by (simp add: renders_def fill_snoc)
    then show ?thesis by (auto simp: uniform_def)
  qed
qed

text \<open>Two visitors in sequence, their texts joined by a separator.\<close>

lemma uniform_seq:
  assumes "uniform d g" and "uniform d h"
  shows "uniform d (\<lambda>st. try_bind (g st) (\<lambda>(x, st1). try_bind (h st1) (\<lambda>(y, st2). Inr (x @ sep @ y, st2))))"
proof -
  from assms consider (err1) e where "\<And>st. g st = Inl e"
    | (err2) fs vs e where "renders d g fs vs" "\<And>st. h st = Inl e"
    | (ok) fs vs gs ws where "renders d g fs vs" "renders d h gs ws"
    unfolding uniform_def by blast
  then show ?thesis
  proof cases
    case err1
    then show ?thesis by (simp add: uniform_Inl)
  next
    case err2
    then have "\<forall>st. try_bind (g st) (\<lambda>(x, st1). try_bind (h st1) (\<lambda>(y, st2). Inr (x @ sep @ y, st2)) ::
        db_error + string \<times> gstate) = Inl e"
      by (auto simp: renders_def)
    then show ?thesis unfolding uniform_def by blast
  next
    case ok
    then have "renders d (\<lambda>st. try_bind (g st) (\<lambda>(x, st1). try_bind (h st1) (\<lambda>(y, st2). Inr (x @ sep @ y, st2))))
        (fs @ Lit sep # gs) (vs @ ws)"
      by (simp add: renders_def placeholders_add fill_append)
    then show ?thesis by (auto simp: uniform_def)
  qed
qed

definition visit_joined :: "where_generator \<Rightarrow> string \<Rightarrow> where_clause list \<Rightarrow> gstate \<Rightarrow> db_error + string \<times> gstate" where
  "visit_joined g sep cs st = try_bind (visit_all g cs st) (\<lambda>(parts, st'). Inr (join sep parts, st'))"

lemma visit_all_ne: "visit_all g (c # cs) st = Inr (parts, st') \<Longrightarrow> parts \<noteq> []"
  by (auto simp: try_bind_eq_Inr)

lemma visit_joined_simps:
  "visit_joined g sep [c] st = visit g c st"
  "visit_joined g sep (c # c' # cs) st =
     try_bind (visit g c st) (\<lambda>(x, st1). try_bind (visit_joined g sep (c' # cs) st1) (\<lambda>(y, st2). Inr (x @ sep @ y, st2)))"
  by (auto simp: visit_joined_def try_bind_def join_Cons split: sum.splits prod.splits dest: visit_all_ne)


lemma uniform_joined:
  "(\<And>c. c \<in> set cs \<Longrightarrow> uniform d (visit g c)) \<Longrightarrow> cs \<noteq> [] \<Longrightarrow> uniform d (visit_joined g sep cs)"
proof (induction cs)
  case (Cons c cs)
  show ?case
  proof (cases cs)
    case Nil
    with Cons.prems show ?thesis by (simp add: visit_joined_simps(1) [abs_def])
  next
    case (Cons c' cs')
    with Cons.prems Cons.IH have "uniform d (visit g c)" and "uniform d (visit_joined g sep (c' # cs'))"
      by simp_all
    from uniform_seq [OF this] Cons show ?thesis
      by (simp add: visit_joined_simps(2) [abs_def])
  qed
qed simp

lemma visit_And_joined:
  "cs \<noteq> [] \<Longrightarrow> visit g (WhereAnd cs) =
     (\<lambda>st. try_bind (visit_joined g '' AND '' cs st) (\<lambda>(sql, st'). Inr (''('' @ sql @ '')'', st')))"
  by (rule ext) (auto simp: visit_joined_def try_bind_def split: sum.splits)

lemma visit_Or_joined:
  "cs \<noteq> [] \<Longrightarrow> visit g (WhereOr cs) =
     (\<lambda>st. try_bind (visit_joined g '' OR '' cs st) (\<lambda>(sql, st'). Inr (''('' @ sql @ '')'', st')))"
  by (rule ext) (auto simp: visit_joined_def try_bind_def split: sum.splits)

text \<open>The clauses without extended operators, whose placeholders the counter numbers.\<close>

fun counted :: "where_clause \<Rightarrow> bool" where
  "counted (Field path op v) = (\<not> is_extended op)"
| "counted (WhereAnd cs) = list_all counted cs"
| "counted (WhereOr cs) = list_all counted cs"
| "counted (WhereNot c) = counted c"
| "counted (NativeField _ _ _ _) = True"

lemmas arm_defs = compare_sql_def order_sql_def len_sql_def render_arm_def regex_arm_def
  inet_check_arm_def like_pattern_sql_def

context sql_dialect_contract
begin

lemmas method_affine = cast_param_numeric_affine cast_native_param_affine like_affine ilike_affine
  concat_affine array_contains_affine array_contained_by_affine array_overlaps_affine
  fts_matches_affine fts_plain_affine fts_phrase_affine fts_websearch_affine regex_affine
  vector_affine jaccard_affine inet_binary_affine ltree_binary_affine ltree_depth_affine
  ltree_any_affine ltree_lca_affine

lemma concat_three: "affine (\<lambda>p. concat_sql d [a, p, b])"
  using concat_affine [of "[a]" "[b]"] by simp

lemma concat_first: "affine (\<lambda>p. concat_sql d [p, b])"
  using concat_affine [of "[]" "[b]"] by simp

lemma concat_last: "affine (\<lambda>p. concat_sql d [a, p])"
  using concat_affine [of "[a]" "[]"] by simp

lemma like_pattern_uniform:
  assumes "affine (\<lambda>p. concat_sql d (parts p))"
  shows "uniform d (\<lambda>st. like_pattern_sql d fe oper ci parts v st)"
proof (cases "require_str v oper")
  case (Inl e)
  then show ?thesis by (simp add: like_pattern_sql_def uniform_Inl)
next
  case (Inr s)
  have "affine (\<lambda>p. (if ci then ilike_sql d fe else like_sql d fe) (concat_sql d (parts p)))"
    using affine_comp [OF ilike_affine assms] affine_comp [OF like_affine assms] by (cases ci) simp_all
  with Inr show ?thesis
    by (simp add: like_pattern_sql_def uniform_with_param affine_result_Inr)
qed

lemma compare_uniform: "uniform d (\<lambda>st. compare_sql d fe oper v st)"
  unfolding compare_sql_def
  by (cases "is_number v"; cases "is_boolean v")
    (simp_all add: uniform_with_param affine_intros method_affine del: append.simps append_Cons)

lemma visit_field_uniform:
  assumes "gen_dialect g = d" and "\<not> is_extended op"
  shows "uniform d (\<lambda>st. visit_field g path op v st)"
  using assms unfolding visit_field_def Let_def
  by (cases op)
    (simp_all only: where_operator.case compare_uniform order_sql_def len_sql_def render_arm_def
      regex_arm_def inet_check_arm_def uniform_in uniform_array_arm uniform_const uniform_lift_const
      uniform_with_param uniform_try_unit affine_intros affine_lift method_affine like_pattern_uniform
      concat_three concat_first concat_last is_extended_def simp_thms)

lemma visit_native_uniform:
  assumes "gen_dialect g = d"
  shows "uniform d (\<lambda>st. visit_native_field g col cast op v st)"
  unfolding visit_native_field_def Let_def assms
  by (rule uniform_with_param)
    (cases "cast = []"; cases "op = Eq"; cases "op = Neq";
      simp add: affine_intros method_affine del: append.simps append_Cons)

lemma visit_uniform:
  assumes "gen_dialect g = d"
  shows "counted c \<Longrightarrow> uniform d (visit g c)"
proof (induction c)
  case (Field path op v)
  then show ?case using visit_field_uniform [OF assms] by simp
next
  case (NativeField col cast op v)
  then show ?case using visit_native_uniform [OF assms] by simp
next
  case (WhereNot c)
  then show ?case using uniform_wrap [of d "visit g c" "''NOT (''" "'')''"] by simp
next
  case (WhereAnd cs)
  show ?case
  proof (cases "cs = []")
    case True
    then show ?thesis by (simp add: uniform_const)
  next
    case False
    with WhereAnd have "uniform d (visit_joined g '' AND '' cs)"
      by (intro uniform_joined) (auto simp: list_all_iff)
    from uniform_wrap [OF this, of "''(''" "'')''"] show ?thesis
      unfolding visit_And_joined [OF False] .
  qed
next
  case (WhereOr cs)
  show ?case
  proof (cases "cs = []")
    case True
    then show ?thesis by (simp add: uniform_const)
  next
    case False
    with WhereOr have "uniform d (visit_joined g '' OR '' cs)"
      by (intro uniform_joined) (auto simp: list_all_iff)
    from uniform_wrap [OF this, of "''(''" "'')''"] show ?thesis
      unfolding visit_Or_joined [OF False] .
  qed
qed

end

end
