(* ===== verification/Where_Safety.thy ===== *)
theory Where_Safety
  imports Where_Generator
begin

text \<open>
  What the generator promises to the database connection: the SQL text never depends on a bound
  value, placeholders and parameters correspond one to one, path segments and identifiers are
  read back exactly as they were written, and the guarded regex patterns have no group of the
  form the guard looks for.
\<close>

section \<open>Independence of values\<close>

text \<open>
  \<open>erase\<close> keeps of every bound value only what the generator inspects: whether it is a number
  or a boolean for (in)equality, the length of a list, and the flag of \<open>IsNull\<close>.
\<close>

definition erase_value :: "where_operator \<Rightarrow> json \<Rightarrow> json" where
  "erase_value op v =
     (if op \<in> {Eq, Neq} then
        (if is_number v then JNumber (PosInt 0) else if is_boolean v then JBool False else JNull)
      else if op \<in> {In, Nin, MatchesAnyLquery, Lca} then
        (case as_array v of Some xs \<Rightarrow> JArray (replicate (length xs) JNull) | None \<Rightarrow> JNull)
      else if op = IsNull then JBool (case as_bool v of Some b \<Rightarrow> b | None \<Rightarrow> True)
      else JNull)"

fun erase_extended :: "extended_operator \<Rightarrow> extended_operator" where
  "erase_extended (EmailDomainEq _) = EmailDomainEq []"
| "erase_extended (EmailDomainIn ds) = EmailDomainIn (replicate (length ds) [])"
| "erase_extended (EmailDomainEndswith _) = EmailDomainEndswith []"
| "erase_extended (EmailLocalPartStartswith _) = EmailLocalPartStartswith []"
| "erase_extended (IbanCountryEq _) = IbanCountryEq []"
| "erase_extended (VinWmiEq _) = VinWmiEq []"
| "erase_extended (OtherExtended x) = OtherExtended x"

definition erase_operator :: "where_operator \<Rightarrow> where_operator" where
  "erase_operator op = (case op of Extended e \<Rightarrow> Extended (erase_extended e) | _ \<Rightarrow> op)"

fun erase :: "where_clause \<Rightarrow> where_clause" where
  "erase (Field path op v) = Field path (erase_operator op) (erase_value op v)"
| "erase (WhereAnd cs) = WhereAnd (map erase cs)"
| "erase (WhereOr cs) = WhereOr (map erase cs)"
| "erase (WhereNot c) = WhereNot (erase c)"
| "erase (NativeField col cast op v) = NativeField col cast op JNull"

text \<open>Two runs agree: where both succeed, the text is the same and so is the numbering.\<close>

definition agree :: "(db_error + 'a \<times> gstate) \<Rightarrow> (db_error + 'a \<times> gstate) \<Rightarrow> bool" where
  "agree r r' \<longleftrightarrow> (\<forall>s n ps s' n' ps'. r = Inr (s, (n, ps)) \<longrightarrow> r' = Inr (s', (n', ps')) \<longrightarrow>
     s = s' \<and> n = n' \<and> length ps = length ps')"

lemma agree_InlI [simp]: "agree (Inl e) r" "agree r (Inl e)"
  by (simp_all add: agree_def)

lemma agree_with_param:
  "length ps = length ps' \<Longrightarrow> (\<And>p. f p = f' p) \<Longrightarrow> agree (with_param d v (n, ps) f) (with_param d v' (n, ps') f')"
  by (auto simp: agree_def with_param_def push_param_def counter_next_def try_bind_eq_Inr)

lemma is_extended_iff: "is_extended op \<longleftrightarrow> (\<exists>e. op = Extended e)"
  by (cases op) (simp_all add: is_extended_def)

lemma erase_operator_plain: "\<not> is_extended op \<Longrightarrow> erase_operator op = op"
  by (cases op) (simp_all only: erase_operator_def where_operator.case is_extended_def simp_thms)

lemma erase_operator_Extended [simp]: "erase_operator (Extended e) = Extended (erase_extended e)"
  by (simp add: erase_operator_def)

lemma erase_operator_cases:
  assumes "erase_operator op = erase_operator op'"
  obtains "op = op'" "\<not> is_extended op"
  | e e' where "op = Extended e" "op' = Extended e'" "erase_extended e = erase_extended e'"
proof (cases "is_extended op")
  case True
  then obtain e where e: "op = Extended e" by (auto simp: is_extended_iff)
  show ?thesis
  proof (cases "is_extended op'")
    case True
    then show ?thesis using that(2) assms e by (auto simp: is_extended_iff)
  next
    case False
    with assms e show ?thesis using that by (metis erase_operator_Extended erase_operator_plain is_extended_iff)
  qed
next
  case False
  show ?thesis
  proof (cases "is_extended op'")
    case True
    with False assms show ?thesis by (metis erase_operator_Extended erase_operator_plain is_extended_iff)
  next
    case False
    then show ?thesis
      using that(1) assms \<open>\<not> is_extended op\<close> by (simp add: erase_operator_plain)
  qed
qed

lemma agree_compare:
  "erase_value Eq v = erase_value Eq v' \<Longrightarrow> length ps = length ps' \<Longrightarrow>
   agree (compare_sql d fe oper v (n, ps)) (compare_sql d fe oper v' (n, ps'))"
  unfolding compare_sql_def
  by (rule agree_with_param) (auto simp: erase_value_def split: if_splits)

lemma erase_value_list:
  assumes "erase_value op v = erase_value op v'" and "op = In \<or> op = Nin \<or> op = MatchesAnyLquery \<or> op = Lca"
  shows "map_option length (as_array v) = map_option length (as_array v')"
proof -
  have "erase_value op w = (case as_array w of Some xs \<Rightarrow> JArray (replicate (length xs) JNull) | None \<Rightarrow> JNull)" for w
    using assms(2) by (elim disjE) (simp_all add: erase_value_def)
  with assms(1) show ?thesis
    by (cases "as_array v"; cases "as_array v'") (simp_all add: replicate_eq_replicate)
qed

lemma agree_in:
  assumes "map_option length (as_array v) = map_option length (as_array v')" and "length ps = length ps'"
  shows "agree (in_sql d fe neg v (n, ps)) (in_sql d fe neg v' (n, ps'))"
  using assms unfolding in_sql_def
  by (cases "as_array v"; cases "as_array v'") (auto simp: push_params_eq agree_def)

lemma agree_array_arm:
  assumes "map_option length (as_array v) = map_option length (as_array v')" and "length ps = length ps'"
  shows "agree (array_arm d na em suffix render v (n, ps)) (array_arm d na em suffix render v' (n, ps'))"
  using assms unfolding array_arm_def
  by (cases "as_array v"; cases "as_array v'") (auto simp: push_params_eq agree_def try_bind_eq_Inr)

lemma agree_IsNull:
  assumes "erase_value IsNull v = erase_value IsNull v'" and "length ps = length ps'"
  shows "agree (visit_field g path IsNull v (n, ps)) (visit_field g path IsNull v' (n, ps'))"
  using assms by (simp add: visit_field_def erase_value_def agree_def)

lemma agree_like_pattern:
  "length ps = length ps' \<Longrightarrow>
   agree (like_pattern_sql d fe oper ci parts v (n, ps)) (like_pattern_sql d fe oper ci parts v' (n, ps'))"
  by (auto simp: like_pattern_sql_def try_bind_def agree_with_param split: sum.splits)

lemma agree_regex:
  "length ps = length ps' \<Longrightarrow> agree (regex_arm d fe ci neg v (n, ps)) (regex_arm d fe ci neg v' (n, ps'))"
  by (auto simp: regex_arm_def try_bind_def agree_with_param split: sum.splits)

lemma agree_inet: "length ps = length ps' \<Longrightarrow> agree (inet_check_arm d fe ch (n, ps)) (inet_check_arm d fe ch (n, ps'))"
  by (auto simp: inet_check_arm_def agree_def try_bind_eq_Inr)

lemma agree_simple_arms:
  assumes "length ps = length ps'"
  shows "agree (order_sql d fe oper v (n, ps)) (order_sql d fe oper v' (n, ps'))"
    and "agree (len_sql d fe oper v (n, ps)) (len_sql d fe oper v' (n, ps'))"
    and "agree (render_arm d v (n, ps) f) (render_arm d v' (n, ps') f)"
  using assms by (simp_all add: order_sql_def len_sql_def render_arm_def agree_with_param)

lemma agree_visit_field:
  assumes "\<not> is_extended op" and "erase_value op v = erase_value op v'" and "length ps = length ps'"
  shows "agree (visit_field g path op v (n, ps)) (visit_field g path op v' (n, ps'))"
proof -
  have eq: "agree (compare_sql d fe oper v (n, ps)) (compare_sql d fe oper v' (n, ps'))"
    if "op = Eq \<or> op = Neq" for d fe oper
    using that assms(2,3) by (elim disjE) (auto intro!: agree_compare simp: erase_value_def)
  have lists: "map_option length (as_array v) = map_option length (as_array v')"
    if "op = In \<or> op = Nin \<or> op = MatchesAnyLquery \<or> op = Lca"
    using that assms(2) by (metis erase_value_list)
  show ?thesis
  proof (cases "op = IsNull")
    case True
    with assms agree_IsNull show ?thesis by simp
  next
    case False
    with assms(1,3) eq lists show ?thesis
      unfolding visit_field_def Let_def
      by (cases op)
        (simp_all only: where_operator.case agree_simple_arms agree_with_param agree_inet agree_regex
          agree_like_pattern agree_in agree_array_arm is_extended_def simp_thms)
  qed
qed

text \<open>
  The contract of a dialect's extended operators: their text depends on the number of arguments
  and on the number of parameters already bound, never on the arguments themselves.
\<close>

locale bound_dialect =
  fixes d :: sql_dialect
  assumes extended_bound:
    "erase_extended e = erase_extended e' \<Longrightarrow> length ps = length ps' \<Longrightarrow>
     generate_extended_sql d e fe ps = Inr (s, qs) \<Longrightarrow> generate_extended_sql d e' fe ps' = Inr (s', qs') \<Longrightarrow>
     s = s' \<and> length qs = length qs'"
begin

lemma agree_field:
  assumes "gen_dialect g = d" and "erase_operator op = erase_operator op'"
    and "erase_value op v = erase_value op' v'" and "length ps = length ps'"
  shows "agree (visit_field g path op v (n, ps)) (visit_field g path op' v' (n, ps'))"
  using assms(2)
proof (cases rule: erase_operator_cases)
  case 1
  with assms(3,4) show ?thesis by (simp add: agree_visit_field)
next
  case (2 e e')
  with assms(1,4) show ?thesis
    by (auto simp: visit_field_def agree_def try_bind_eq_Inr dest: extended_bound)
qed

lemma agree_native:
  assumes "length ps = length ps'"
  shows "agree (visit_native_field g col cast op v (n, ps)) (visit_native_field g col cast op v' (n, ps'))"
  using assms unfolding visit_native_field_def Let_def by (rule agree_with_param) simp

lemma agree_visit_all:
  assumes "\<And>c c' n ps ps'. c \<in> set cs \<Longrightarrow> erase c = erase c' \<Longrightarrow> length ps = length ps' \<Longrightarrow>
      agree (visit g c (n, ps)) (visit g c' (n, ps'))"
    and "map erase cs = map erase cs'" and "length ps = length ps'"
  shows "agree (visit_all g cs (n, ps)) (visit_all g cs' (n, ps'))"
  using assms
proof (induction cs arbitrary: cs' n ps ps')
  case Nil
  then show ?case by (simp add: agree_def)
next
  case (Cons c cs)
  then obtain c' ds' where cs': "cs' = c' # ds'" and eq: "erase c = erase c'" "map erase cs = map erase ds'"
    by (auto simp: Cons_eq_map_conv)
  show ?case
    unfolding agree_def cs'
  proof (intro allI impI, goal_cases)
    case (1 parts m qs parts' m' qs')
    from 1(1) obtain x k rs xs where a: "visit g c (n, ps) = Inr (x, (k, rs))"
      "visit_all g cs (k, rs) = Inr (xs, (m, qs))" "parts = x # xs"
      by (auto simp: try_bind_eq_Inr)
    from 1(2) obtain x' k' rs' xs' where b: "visit g c' (n, ps') = Inr (x', (k', rs'))"
      "visit_all g ds' (k', rs') = Inr (xs', (m', qs'))" "parts' = x' # xs'"
      by (auto simp: try_bind_eq_Inr)
    have *: "x = x' \<and> k = k' \<and> length rs = length rs'"
      using Cons.prems(1) [OF _ eq(1) Cons.prems(3), of n] a(1) b(1) by (simp add: agree_def)
    have "agree (visit_all g cs (k, rs)) (visit_all g ds' (k, rs'))"
      using Cons.prems(1) eq(2) * by (intro Cons.IH) simp_all
    with a b * show ?case by (simp add: agree_def)
  qed
qed

lemma agree_bind:
  "agree r r' \<Longrightarrow> agree (try_bind r (\<lambda>(x, st). Inr (h x, st))) (try_bind r' (\<lambda>(x, st). Inr (h x, st)))"
  by (auto simp: agree_def try_bind_eq_Inr)

lemma agree_visit:
  assumes "gen_dialect g = d"
  shows "erase c = erase c' \<Longrightarrow> length ps = length ps' \<Longrightarrow> agree (visit g c (n, ps)) (visit g c' (n, ps'))"
proof (induction c arbitrary: c' n ps ps')
  case (Field path op v)
  then show ?case using agree_field [OF assms] by (cases c') simp_all
next
  case (NativeField col cast op v)
  then show ?case using agree_native by (cases c') simp_all
next
  case (WhereNot c)
  then show ?case by (cases c') (simp_all add: agree_bind)
next
  case (WhereAnd cs)
  from WhereAnd.prems obtain cs' where c': "c' = WhereAnd cs'" and eq: "map erase cs = map erase cs'"
    by (cases c') simp_all
  have "agree (visit_all g cs (n, ps)) (visit_all g cs' (n, ps'))"
    by (rule agree_visit_all [OF WhereAnd.IH eq WhereAnd.prems(2)])
  with eq WhereAnd.prems(2) show ?case
    by (auto simp: c' agree_bind) (auto simp: agree_def)
next
  case (WhereOr cs)
  from WhereOr.prems obtain cs' where c': "c' = WhereOr cs'" and eq: "map erase cs = map erase cs'"
    by (cases c') simp_all
  have "agree (visit_all g cs (n, ps)) (visit_all g cs' (n, ps'))"
    by (rule agree_visit_all [OF WhereOr.IH eq WhereOr.prems(2)])
  with eq WhereOr.prems(2) show ?case
    by (auto simp: c' agree_bind) (auto simp: agree_def)
qed

end

lemma default_extended_not_Inr: "default_generate_extended_sql name e fe ps \<noteq> Inr r"
  by (simp add: default_generate_extended_sql_def)

interpretation mysql_bound: bound_dialect MySqlDialect
  by unfold_locales (simp add: MySqlDialect_def default_extended_not_Inr)

interpretation sqlite_bound: bound_dialect SqliteDialect
  by unfold_locales (simp add: SqliteDialect_def default_extended_not_Inr)

interpretation mssql_bound: bound_dialect SqlServerDialect
  by unfold_locales (simp add: SqlServerDialect_def default_extended_not_Inr)

lemma push_all_by_length_eq:
  "push_all_by_length ps ds =
     (map (\<lambda>k. ''$'' @ show_nat k) [length ps + 1..<length ps + 1 + length ds], ps @ map JString ds)"
proof (induction ds arbitrary: ps)
  case (Cons d ds)
  then show ?case by (simp add: push_by_length_def Let_def upt_conv_Cons del: upt_Suc)
qed simp

lemma pg_extended_shape:
  assumes "erase_extended e = erase_extended e'" and "length ps = length ps'"
  shows "map_sum id (map_prod id length) (pg_generate_extended_sql e fe ps) =
         map_sum id (map_prod id length) (pg_generate_extended_sql e' fe ps')"
  using assms
  by (cases e; cases e')
    (simp_all add: push_by_length_def push_all_by_length_eq Let_def replicate_eq_replicate)

interpretation pg_bound: bound_dialect PostgresDialect
proof unfold_locales
  fix e e' :: extended_operator and ps ps' qs qs' :: "json list" and fe s s' :: string
  assume "erase_extended e = erase_extended e'" "length ps = length ps'"
    and r: "generate_extended_sql PostgresDialect e fe ps = Inr (s, qs)"
    "generate_extended_sql PostgresDialect e' fe ps' = Inr (s', qs')"
  from pg_extended_shape [OF this(1,2), of fe] r show "s = s' \<and> length qs = length qs'"
    by (simp add: PostgresDialect_def)
qed


section \<open>Properties of the generator\<close>

abbreviation all_dialects :: "sql_dialect list" where
  "all_dialects \<equiv> [PostgresDialect, MySqlDialect, SqliteDialect, SqlServerDialect]"

lemma visit_uniform_all:
  "gen_dialect g \<in> set all_dialects \<Longrightarrow> counted c \<Longrightarrow> uniform (gen_dialect g) (visit g c)"
  by (auto intro: pg.visit_uniform mysql.visit_uniform sqlite.visit_uniform mssql.visit_uniform)

lemma agree_visit_all_dialects:
  "gen_dialect g \<in> set all_dialects \<Longrightarrow> erase c = erase c' \<Longrightarrow> agree (visit g c (n, [])) (visit g c' (n, []))"
  by (auto intro: pg_bound.agree_visit mysql_bound.agree_visit sqlite_bound.agree_visit mssql_bound.agree_visit)


definition sample_clause :: where_clause where
  "sample_clause = WhereAnd [Field [''user'', ''name''] Icontains (JString ''a_b''),
     WhereNot (Field [''age''] In (JArray [JNumber (PosInt 1), JNumber (PosInt 2)]))]"


lemma show_nat_one: "show_nat (Suc 0) = ''1''"
  by code_simp

text \<open>
  C1. No bound value reaches the SQL text: two clauses that differ only in their values (not in the
  kind of an equality's value, the length of a list or the flag of a null test) give, where both
  are accepted, the same SQL and as many parameters, extended operators included.
\<close>

theorem generate_value_independent:
  assumes "gen_dialect g \<in> set all_dialects" and "erase c = erase c'"
    and "generate_with_param_offset g c off = Inr (sql, vs)"
    and "generate_with_param_offset g c' off = Inr (sql', vs')"
  shows "sql = sql' \<and> length vs = length vs'"
  using agree_visit_all_dialects [OF assms(1,2), of off] assms(3,4)
  by (auto simp: generate_with_param_offset_def try_bind_eq_Inr agree_def)

theorem generate_value_independent_witness:
  "(''data->>'' @ [squote] @ ''name'' @ [squote] @ '' = $1'') = (''data->>'' @ [squote] @ ''name'' @ [squote] @ '' = $1'') \<and>
   length [JString ''bob''] = length [JString (squote # '' OR 1=1 --'')]"
  by (rule generate_value_independent [of "generator_new PostgresDialect" "Field [''name''] Eq (JString ''bob'')"
      "Field [''name''] Eq (JString (squote # '' OR 1=1 --''))" 0]) 
    (simp_all add: generator_new_def erase_operator_def erase_value_def generate_with_param_offset_def visit_field_def
     compare_sql_def with_param_def push_param_def counter_next_def resolve_field_expr_def PostgresDialect_def
     pg_json_extract_scalar_def escape_postgres_jsonb_segment_def pg_placeholder_def show_nat_one)

text \<open>
  \<open>contains\<close>, \<open>startswith\<close> and \<open>endswith\<close> bind the escaped text as their only parameter, wrap
  it in wildcards on the sides the operator names, and the pattern the database then matches
  holds of exactly the strings that contain, start with or end with the user's text, whatever
  wildcards the text has.
\<close>

theorem generate_substring_operators:
  "generate g (Field path Contains (JString s)) =
     Inr (like_sql (gen_dialect g) (resolve_field_expr g path)
       (concat_sql (gen_dialect g) [percent_literal, placeholder (gen_dialect g) 1, percent_literal]),
       [JString (escape_like_literal s)]) \<and>
   generate g (Field path Startswith (JString s)) =
     Inr (like_sql (gen_dialect g) (resolve_field_expr g path)
       (concat_sql (gen_dialect g) [placeholder (gen_dialect g) 1, percent_literal]),
       [JString (escape_like_literal s)]) \<and>
   generate g (Field path Endswith (JString s)) =
     Inr (like_sql (gen_dialect g) (resolve_field_expr g path)
       (concat_sql (gen_dialect g) [percent_literal, placeholder (gen_dialect g) 1]),
       [JString (escape_like_literal s)]) \<and>
   (like_match (''%'' @ escape_like_literal s @ ''%'') t \<longleftrightarrow> (\<exists>u v. t = u @ s @ v)) \<and>
   (like_match (escape_like_literal s @ ''%'') t \<longleftrightarrow> (\<exists>v. t = s @ v)) \<and>
   (like_match (''%'' @ escape_like_literal s) t \<longleftrightarrow> (\<exists>u. t = u @ s))"
proof -
  have sql: "generate g (Field path Contains (JString s)) =
     Inr (like_sql (gen_dialect g) (resolve_field_expr g path)
       (concat_sql (gen_dialect g) [percent_literal, placeholder (gen_dialect g) 1, percent_literal]),
       [JString (escape_like_literal s)])"
    "generate g (Field path Startswith (JString s)) =
     Inr (like_sql (gen_dialect g) (resolve_field_expr g path)
       (concat_sql (gen_dialect g) [placeholder (gen_dialect g) 1, percent_literal]),
       [JString (escape_like_literal s)])"
    "generate g (Field path Endswith (JString s)) =
     Inr (like_sql (gen_dialect g) (resolve_field_expr g path)
       (concat_sql (gen_dialect g) [percent_literal, placeholder (gen_dialect g) 1]),
       [JString (escape_like_literal s)])"
    by (simp_all add: generate_def generate_with_param_offset_def visit_field_def Let_def like_pattern_sql_def
        require_str_def with_param_def push_param_def counter_next_def)
  have inside: "like_match (''%'' @ escape_like_literal s @ ''%'') t \<longleftrightarrow> (\<exists>u v. t = u @ s @ v)"
    by (auto simp: like_percent like_escape_append like_percent_only)
  have start: "like_match (escape_like_literal s @ ''%'') t \<longleftrightarrow> (\<exists>v. t = s @ v)"
    by (simp add: like_escape_append like_percent_only)
  have finish: "like_match (''%'' @ escape_like_literal s) t \<longleftrightarrow> (\<exists>u. t = u @ s)"
    using like_escape_append [of s "[]"] by (simp add: like_percent)
  from sql inside start finish show ?thesis by blast
qed

section \<open>Regex guard\<close>

lemma nested_quantifier_step:
  assumes "prev \<noteq> Some backslash"
  shows "nested_quantifier prev depth stack (b # rest) \<or>
     (\<exists>k fs. nested_quantifier prev depth stack (b # rest) = nested_quantifier (Some b) k fs rest)"
  using assms by (simp only: nested_quantifier.simps Let_def if_False split: if_split) blast

lemma nested_quantifier_prefix:
  "backslash \<notin> set a \<Longrightarrow> prev \<noteq> Some backslash \<Longrightarrow>
   nested_quantifier prev depth stack (a @ rest) \<or>
   (\<exists>prev' depth' stack'. prev' \<noteq> Some backslash \<and>
     nested_quantifier prev depth stack (a @ rest) = nested_quantifier prev' depth' stack' rest)"
proof (induction a arbitrary: prev depth stack)
  case (Cons b a)
  from Cons.prems have b: "Some b \<noteq> Some backslash" "backslash \<notin> set a" by auto
  from nested_quantifier_step [OF Cons.prems(2), of depth stack b "a @ rest"] Cons.IH [OF b(2,1)]
  show ?case unfolding append_Cons by metis
qed auto

lemma nested_quantifier_in_group:
  assumes "prev \<noteq> Some backslash" and "c \<noteq> CHR ''(''" and "c \<noteq> CHR '')''"
  shows "\<exists>f'. (f \<or> c = CHR ''+'' \<or> c = CHR ''*'' \<or> c = CHR ''?'' \<longrightarrow> f') \<and>
    nested_quantifier prev depth (f # stack) (c # rest) = nested_quantifier (Some c) depth (f' # stack) rest"
proof (cases "c = CHR ''+'' \<or> c = CHR ''*'' \<or> c = CHR ''?'' \<or> (c = CHR ''{'' \<and> depth > 0)")
  case True
  then have "nested_quantifier prev depth (f # stack) (c # rest) = nested_quantifier (Some c) depth (True # stack) rest"
    using assms by (simp only: nested_quantifier.simps set_top.simps if_False simp_thms split: if_split) blast
  then show ?thesis by blast
next
  case False
  then show ?thesis
    by (intro exI [of _ f]) (use assms in \<open>simp only: nested_quantifier.simps if_False de_Morgan_disj simp_thms\<close>)
qed

lemma nested_quantifier_body:
  assumes "is_quantifier q"
  shows "\<forall>c \<in> set b. c \<noteq> backslash \<and> c \<noteq> CHR ''('' \<and> c \<noteq> CHR '')'' \<Longrightarrow> prev \<noteq> Some backslash \<Longrightarrow>
   f \<or> (\<exists>c \<in> set b. c = CHR ''+'' \<or> c = CHR ''*'' \<or> c = CHR ''?'') \<Longrightarrow>
   nested_quantifier prev depth (f # stack) (b @ CHR '')'' # q # rest)"
proof (induction b arbitrary: prev f)
  case Nil
  with assms show ?case by simp
next
  case (Cons c b)
  then have c: "c \<noteq> CHR ''(''" "c \<noteq> CHR '')''" "Some c \<noteq> Some backslash" by auto
  from nested_quantifier_in_group [OF Cons.prems(2) c(1,2), of f depth stack "b @ CHR '')'' # q # rest"]
  obtain f' where f': "f \<or> c = CHR ''+'' \<or> c = CHR ''*'' \<or> c = CHR ''?'' \<longrightarrow> f'"
    "nested_quantifier prev depth (f # stack) (c # b @ CHR '')'' # q # rest) =
     nested_quantifier (Some c) depth (f' # stack) (b @ CHR '')'' # q # rest)"
    by blast
  moreover have "nested_quantifier (Some c) depth (f' # stack) (b @ CHR '')'' # q # rest)"
    using Cons.prems f'(1) by (intro Cons.IH c(3)) auto
  ultimately show ?case by simp
qed

text \<open>
  The regex guard refuses every pattern with a parenthesised group that has a quantifier inside
  and another one right behind, provided no backslash comes before the end of the group.
\<close>

theorem validate_regex_rejects_nested:
  assumes "backslash \<notin> set (a @ b)" and "set b \<inter> {CHR ''('', CHR '')''} = {}"
    and "set b \<inter> {CHR ''+'', CHR ''*'', CHR ''?''} \<noteq> {}" and "is_quantifier q"
  shows "\<exists>e. validate_regex_pattern (a @ ''('' @ b @ '')'' @ q # rest) = Inl e"
proof -
  let ?rest = "CHR ''('' # b @ CHR '')'' # q # rest"
  have "nested_quantifier prev depth stack ?rest" if "prev \<noteq> Some backslash" for prev depth stack
  proof -
    have "nested_quantifier (Some CHR ''('') (depth + 1) (False # stack) (b @ CHR '')'' # q # rest)"
      using assms by (intro nested_quantifier_body) auto
    with that show ?thesis by simp
  qed
  then have "nested_quantifier None 0 [] (a @ ?rest)"
    using nested_quantifier_prefix [of a None 0 "[]" ?rest] assms(1) by auto
  then show ?thesis by (simp add: validate_regex_pattern_def)
qed

theorem validate_regex_rejects_nested_witness:
  "\<exists>e. validate_regex_pattern (''x'' @ ''('' @ ''a+'' @ '')'' @ CHR ''*'' # ''y'') = Inl e"
  by (rule validate_regex_rejects_nested) (simp_all add: is_quantifier_def)

text \<open>
  What the guard lets through: a group nested in another one, and a group after an escaped
  backslash.
\<close>

lemma regex_guard_gaps:
  "validate_regex_pattern ''((a+))+'' = Inr ()"
  "validate_regex_pattern ([backslash, backslash] @ ''(a+)+'') = Inr ()"
  by (simp_all add: validate_regex_pattern_def MAX_REGEX_PATTERN_LEN_def is_quantifier_def utf8_len_def)

section \<open>Paths and identifiers\<close>

lemma scan_path_operators:
  "path \<noteq> [] \<Longrightarrow> scan_path (length path) (pg_path_operators (escape_postgres_jsonb_path path)) = Some path"
proof (induction path rule: induct_list012)
  case (2 x)
  then show ?case
    using scan_quoted_quote_with [of "[]" squote squote x]
    by (simp add: escape_postgres_jsonb_path_def escape_postgres_jsonb_segment_def quote_with_def)
next
  case (3 x y zs)
  let ?r = "pg_path_operators (escape_postgres_jsonb_path (y # zs))"
  have "\<forall>s. ?r \<noteq> squote # s" by (cases zs) (simp_all add: escape_postgres_jsonb_path_def)
  then have "scan_quoted squote squote (quote_with squote squote x @ ?r) = Some (x, ?r)"
    by (rule scan_quoted_quote_with)
  with 3 show ?case
    by (simp add: escape_postgres_jsonb_path_def escape_postgres_jsonb_segment_def quote_with_def)
qed simp

text \<open>
  A PostgreSQL JSON path expression consists of the column and operators with string literals
  from which the database reads back exactly the segments of the path, quotes included.
\<close>

theorem pg_path_read_back:
  assumes "path \<noteq> []"
  shows "\<exists>ops. json_extract_scalar PostgresDialect column path = column @ ops \<and>
    scan_path (length path) ops = Some path"
proof -
  have "json_extract_scalar PostgresDialect column path = column @ pg_path_operators (escape_postgres_jsonb_path path)"
    by (cases path; cases "tl path")
      (simp_all add: PostgresDialect_def pg_json_extract_scalar_def escape_postgres_jsonb_path_def)
  with scan_path_operators [OF assms] show ?thesis by blast
qed

theorem pg_path_read_back_witness:
  "\<exists>ops. json_extract_scalar PostgresDialect ''data'' [''user'', ''o'' @ squote # ''x''] = ''data'' @ ops \<and>
    scan_path (length [''user'', ''o'' @ squote # ''x'']) ops = Some [''user'', ''o'' @ squote # ''x'']"
  by (rule pg_path_read_back) simp

lemma path_literal:
  assumes "\<forall>s. rest \<noteq> squote # s"
  shows "scan_quoted squote squote ([squote] @ (''$.'' @ replace_char squote [squote, squote] p) @ [squote] @ rest) =
    Some (''$.'' @ p, rest)"
  using scan_quoted_quote_with [of rest squote squote "''$.'' @ p"] assms by (simp add: quote_with_def)

text \<open>
  The JSON path of a MySQL, SQLite or SQL Server expression is one string literal (of standard
  SQL, where only quotes are special) whose content is the dotted path and after which only the
  closing parentheses are left.
\<close>

theorem json_path_literal_read_back:
  "(\<exists>pre post. json_extract_scalar MySqlDialect column path = pre @ post \<and>
     scan_quoted squote squote post = Some (''$.'' @ join ''.'' path, ''))'')) \<and>
   (\<exists>pre post. json_extract_scalar SqliteDialect column path = pre @ post \<and>
     scan_quoted squote squote post = Some (''$.'' @ join ''.'' path, '')'')) \<and>
   (\<exists>pre post. json_extract_scalar SqlServerDialect column path = pre @ post \<and>
     scan_quoted squote squote post = Some (''$.'' @ join ''.'' path, '')''))"
proof -
  let ?lit = "\<lambda>rest. [squote] @ (''$.'' @ replace_char squote [squote, squote] (join ''.'' path)) @ [squote] @ rest"
  have "json_extract_scalar MySqlDialect column path = (''JSON_UNQUOTE(JSON_EXTRACT('' @ column @ '', '') @ ?lit ''))''"
    by (simp add: MySqlDialect_def mysql_json_extract_scalar_def escape_mysql_json_path_def)
  moreover have "json_extract_scalar SqliteDialect column path = (''json_extract('' @ column @ '', '') @ ?lit '')''"
    by (simp add: SqliteDialect_def sqlite_json_extract_scalar_def escape_sqlite_json_path_def)
  moreover have "json_extract_scalar SqlServerDialect column path = (''JSON_VALUE('' @ column @ '', '') @ ?lit '')''"
    by (simp add: SqlServerDialect_def mssql_json_extract_scalar_def escape_sqlserver_json_path_def)
  moreover have "\<forall>s. '')'' \<noteq> squote # s" and "\<forall>s. ''))'' \<noteq> squote # s" by simp_all
  ultimately show ?thesis using path_literal by blast
qed

text \<open>
  MySQL in its default mode also takes a backslash as an escape inside a string literal
  (\<open>scan_escaped\<close> reads such a literal after its opening quote). Doubling quotes is not enough
  there: a path segment with a backslash before a quote ends the literal early and the rest of
  the segment is read as SQL.
\<close>

fun scan_escaped :: "string \<Rightarrow> (string \<times> string) option" where
  "scan_escaped [] = None"
| "scan_escaped [c] = (if c = squote then Some ([], []) else None)"
| "scan_escaped (c # d # s) =
     (if c = backslash then map_option (\<lambda>(t, r). (d # t, r)) (scan_escaped s)
      else if c \<noteq> squote then map_option (\<lambda>(t, r). (c # t, r)) (scan_escaped (d # s))
      else if d = squote then map_option (\<lambda>(t, r). (squote # t, r)) (scan_escaped s)
      else Some ([], d # s))"

lemma mysql_path_leaves_literal:
  "json_extract_scalar MySqlDialect ''data'' [[backslash, squote] @ '')) OR 1=1 -- ''] =
     ''JSON_UNQUOTE(JSON_EXTRACT(data, '' @ [squote] @
       (''$.'' @ [backslash, squote, squote] @ '')) OR 1=1 -- '' @ [squote] @ ''))'')"
  "scan_escaped (''$.'' @ [backslash, squote, squote] @ '')) OR 1=1 -- '' @ [squote] @ ''))'') =
     Some (''$.'' @ [squote], '')) OR 1=1 -- '' @ [squote] @ ''))'')"
  by (simp_all add: MySqlDialect_def mysql_json_extract_scalar_def escape_mysql_json_path_def)

text \<open>
  Identifier quoting in the four dialects: what the database reads back from a quoted name is
  exactly the dotted parts of the name, and nothing is left unread.
\<close>

theorem quoted_identifiers_read_back:
  "scan_qualified (length (split_on CHR ''.'' ident)) dquote dquote (quote_postgres_identifier ident) =
     Some (split_on CHR ''.'' ident) \<and>
   scan_qualified (length (split_on CHR ''.'' ident)) backtick backtick (quote_mysql_identifier ident) =
     Some (split_on CHR ''.'' ident) \<and>
   scan_qualified (length (split_on CHR ''.'' ident)) dquote dquote (quote_sqlite_identifier ident) =
     Some (split_on CHR ''.'' ident) \<and>
   scan_qualified (length (split_on CHR ''.'' ident)) CHR ''['' CHR '']'' (quote_sqlserver_identifier ident) =
     Some (split_on CHR ''.'' ident) \<and>
   join ''.'' (split_on CHR ''.'' ident) = ident"
  by (simp only: pg_ident.scan_quote mysql_ident.scan_quote sqlite_ident.scan_quote mssql_ident.scan_quote
      join_split_on simp_thms)

section \<open>Extended operators\<close>

text \<open>
  An extended operator numbers its placeholder by the length of the parameter vector and
  leaves the counter alone, so the next counted operator repeats the number: for an e-mail
  domain test followed by an equality, both conditions read \<open>$1\<close>, two values are bound, and the
  second one is never referred to.
\<close>

theorem extended_operator_numbering:
  "generate (generator_new PostgresDialect)
     (WhereAnd [Field [''email''] (Extended (EmailDomainEq ''a.com'')) JNull, Field [''name''] Eq (JString ''bob'')]) =
   Inr (''(SPLIT_PART(data->>'' @ [squote] @ ''email'' @ [squote] @ '', '' @ [squote] @ ''@'' @ [squote] @
        '', 2) = $1 AND data->>'' @ [squote] @ ''name'' @ [squote] @ '' = $1)'',
        [JString ''a.com'', JString ''bob''])"
  by (simp add: generator_new_def generate_def generate_with_param_offset_def visit_field_def
     compare_sql_def with_param_def push_param_def counter_next_def resolve_field_expr_def PostgresDialect_def
     pg_json_extract_scalar_def escape_postgres_jsonb_segment_def pg_placeholder_def show_nat_one push_by_length_def)


end
