(* ===== verification/Utf8.thy ===== *)
theory Utf8
  imports Prelude "HOL-Library.Word"
begin

text \<open>
  Text as Rust has it: a \<open>String\<close> is a list of Unicode scalar values, \<open>as_bytes\<close> its UTF-8
  encoding and \<open>String::from_utf8_lossy\<close> the standard library's decoder, which replaces every
  maximal ill-formed prefix by U+FFFD. The main lemma is that decoding an encoding gives the
  text back.
\<close>

type_synonym scalar = nat
type_synonym utext = "scalar list"

definition is_scalar :: "scalar \<Rightarrow> bool" where
  "is_scalar n \<longleftrightarrow> n < 0xD800 \<or> (0xE000 \<le> n \<and> n \<le> 0x10FFFF)"

definition utf8_char :: "scalar \<Rightarrow> nat list" where
  "utf8_char n =
     (if n < 0x80 then [n]
      else if n < 0x800 then [0xC0 + n div 64, 0x80 + n mod 64]
      else if n < 0x10000 then [0xE0 + n div 4096, 0x80 + n div 64 mod 64, 0x80 + n mod 64]
      else [0xF0 + n div 262144, 0x80 + n div 4096 mod 64, 0x80 + n div 64 mod 64, 0x80 + n mod 64])"

definition utf8_char_width :: "nat \<Rightarrow> nat" where
  "utf8_char_width b =
     (if b < 0x80 then 1
      else if 0xC2 \<le> b \<and> b \<le> 0xDF then 2
      else if 0xE0 \<le> b \<and> b \<le> 0xEF then 3
      else if 0xF0 \<le> b \<and> b \<le> 0xF4 then 4
      else 0)"

definition is_cont :: "nat \<Rightarrow> bool" where
  "is_cont b \<longleftrightarrow> 0x80 \<le> b \<and> b \<le> 0xBF"

text \<open>The second byte that may follow a given first byte of three or four.\<close>

definition second_of_three :: "nat \<Rightarrow> nat \<Rightarrow> bool" where
  "second_of_three b c \<longleftrightarrow>
     (if b = 0xE0 then 0xA0 \<le> c \<and> c \<le> 0xBF
      else if b = 0xED then 0x80 \<le> c \<and> c \<le> 0x9F
      else is_cont c)"

definition second_of_four :: "nat \<Rightarrow> nat \<Rightarrow> bool" where
  "second_of_four b c \<longleftrightarrow>
     (if b = 0xF0 then 0x90 \<le> c \<and> c \<le> 0xBF
      else if b = 0xF4 then 0x80 \<le> c \<and> c \<le> 0x8F
      else is_cont c)"

abbreviation replacement :: scalar where "replacement \<equiv> 0xFFFD"

fun lossy :: "nat list \<Rightarrow> utext" where
  "lossy [] = []"
| "lossy (b # bs) =
     (if utf8_char_width b = 1 then b # lossy bs
      else if utf8_char_width b = 2 then
        (case bs of
           c # r \<Rightarrow> if is_cont c then ((b - 0xC0) * 64 + (c - 0x80)) # lossy r else replacement # lossy bs
         | [] \<Rightarrow> [replacement])
      else if utf8_char_width b = 3 then
        (case bs of
           c # r \<Rightarrow>
             if second_of_three b c then
               (case r of
                  d # r' \<Rightarrow>
                    if is_cont d then ((b - 0xE0) * 4096 + (c - 0x80) * 64 + (d - 0x80)) # lossy r'
                    else replacement # lossy r
                | [] \<Rightarrow> [replacement])
             else replacement # lossy bs
         | [] \<Rightarrow> [replacement])
      else if utf8_char_width b = 4 then
        (case bs of
           c # r \<Rightarrow>
             if second_of_four b c then
               (case r of
                  d # r' \<Rightarrow>
                    if is_cont d then
                      (case r' of
                         e # r'' \<Rightarrow>
                           if is_cont e then
                             ((b - 0xF0) * 262144 + (c - 0x80) * 4096 + (d - 0x80) * 64 + (e - 0x80)) # lossy r''
                           else replacement # lossy r'
                       | [] \<Rightarrow> [replacement])
                    else replacement # lossy r
                | [] \<Rightarrow> [replacement])
             else replacement # lossy bs
         | [] \<Rightarrow> [replacement])
      else replacement # lossy bs)"

declare lossy.simps(2) [simp del]

text \<open>The two functions on bytes.\<close>

definition as_bytes :: "utext \<Rightarrow> 8 word list" where
  "as_bytes s = map of_nat (concat (map utf8_char s))"

definition from_utf8_lossy :: "8 word list \<Rightarrow> utext" where
  "from_utf8_lossy bs = lossy (map unat bs)"

lemma lossy_two:
  "\<lbrakk>2 \<le> a; a < 32; b < 64\<rbrakk> \<Longrightarrow> lossy ((0xC0 + a) # (0x80 + b) # bs) = (a * 64 + b) # lossy bs"
  by (simp add: utf8_char_width_def lossy.simps(2) is_cont_def)

lemma lossy_three:
  assumes "a < 16" "b < 64" "c < 64" "a = 0 \<Longrightarrow> 32 \<le> b" "a = 13 \<Longrightarrow> b < 32"
  shows "lossy ((0xE0 + a) # (0x80 + b) # (0x80 + c) # bs) = (a * 4096 + b * 64 + c) # lossy bs"
proof -
  have "second_of_three (0xE0 + a) (0x80 + b)"
    using assms by (auto simp: second_of_three_def is_cont_def)
  moreover have "utf8_char_width (0xE0 + a) = 3" using assms(1) by (simp add: utf8_char_width_def)
  moreover have "is_cont (0x80 + c)" using assms(3) by (simp add: is_cont_def)
  ultimately show ?thesis by (simp add: lossy.simps(2))
qed

lemma lossy_four:
  assumes "a < 5" "b < 64" "c < 64" "d < 64" "a = 0 \<Longrightarrow> 16 \<le> b" "a = 4 \<Longrightarrow> b < 16"
  shows "lossy ((0xF0 + a) # (0x80 + b) # (0x80 + c) # (0x80 + d) # bs) =
    (a * 262144 + b * 4096 + c * 64 + d) # lossy bs"
proof -
  have "second_of_four (0xF0 + a) (0x80 + b)"
    using assms by (auto simp: second_of_four_def is_cont_def)
  moreover have "utf8_char_width (0xF0 + a) = 4" using assms(1) by (simp add: utf8_char_width_def)
  moreover have "is_cont (0x80 + c)" "is_cont (0x80 + d)" using assms(3,4) by (simp_all add: is_cont_def)
  ultimately show ?thesis by (simp add: lossy.simps(2))
qed

lemma lossy_utf8_char:
  assumes "is_scalar n"
  shows "lossy (utf8_char n @ bs) = n # lossy bs"
proof -
  have parts: "n = n div 64 * 64 + n mod 64" "n div 64 = n div 4096 * 64 + n div 64 mod 64"
    "n div 4096 = n div 262144 * 64 + n div 4096 mod 64"
    using div_mult_mod_eq [of "n div 64" 64] div_mult_mod_eq [of "n div 4096" 64]
    by (simp_all flip: div_mult2_eq)
  have small: "n mod 64 < 64" "n div 64 mod 64 < 64" "n div 4096 mod 64 < 64" by simp_all
  consider "n < 0x80" | "0x80 \<le> n" "n < 0x800" | "0x800 \<le> n" "n < 0x10000" | "0x10000 \<le> n" by linarith
  then show ?thesis
  proof cases
    case 1
    then show ?thesis by (simp add: utf8_char_def utf8_char_width_def lossy.simps(2))
  next
    case 2
    with parts small have "lossy ((0xC0 + n div 64) # (0x80 + n mod 64) # bs) = (n div 64 * 64 + n mod 64) # lossy bs"
      by (intro lossy_two) linarith+
    with 2 parts(1) show ?thesis by (simp add: utf8_char_def)
  next
    case 3
    have "lossy ((0xE0 + n div 4096) # (0x80 + n div 64 mod 64) # (0x80 + n mod 64) # bs) =
        (n div 4096 * 4096 + n div 64 mod 64 * 64 + n mod 64) # lossy bs"
      using 3 parts(1,2) small assms unfolding is_scalar_def by (intro lossy_three) linarith+
    moreover have "n div 4096 * 4096 + n div 64 mod 64 * 64 + n mod 64 = n" using parts(1,2) by linarith
    ultimately show ?thesis using 3 by (simp add: utf8_char_def)
  next
    case 4
    have "lossy ((0xF0 + n div 262144) # (0x80 + n div 4096 mod 64) # (0x80 + n div 64 mod 64) # (0x80 + n mod 64) # bs) =
        (n div 262144 * 262144 + n div 4096 mod 64 * 4096 + n div 64 mod 64 * 64 + n mod 64) # lossy bs"
      using 4 parts small assms unfolding is_scalar_def by (intro lossy_four) linarith+
    moreover have "n div 262144 * 262144 + n div 4096 mod 64 * 4096 + n div 64 mod 64 * 64 + n mod 64 = n"
      using parts by linarith
    ultimately show ?thesis using 4 by (simp add: utf8_char_def)
  qed
qed

lemma utf8_char_bytes:
  assumes "is_scalar n" and "b \<in> set (utf8_char n)"
  shows "b < 256"
proof -
  have "n div 64 mod 64 < 64" "n mod 64 < 64" "n div 4096 mod 64 < 64" by simp_all
  moreover have "n < 2048 \<Longrightarrow> n div 64 < 32" "n < 65536 \<Longrightarrow> n div 4096 < 16" "n \<le> 0x10FFFF \<Longrightarrow> n div 262144 < 5"
    by linarith+
  ultimately show ?thesis using assms by (auto simp: utf8_char_def is_scalar_def split: if_splits)
qed

lemma unat_byte: "b < 256 \<Longrightarrow> unat (of_nat b :: 8 word) = b"
  by (simp add: unat_of_nat)

lemma lossy_concat: "list_all is_scalar s \<Longrightarrow> lossy (concat (map utf8_char s)) = s"
  by (induction s) (simp_all add: lossy_utf8_char)

text \<open>A text read back from its own encoding.\<close>

lemma from_utf8_lossy_as_bytes: "list_all is_scalar s \<Longrightarrow> from_utf8_lossy (as_bytes s) = s"
proof -
  assume ok: "list_all is_scalar s"
  then have "map (unat \<circ> (of_nat :: nat \<Rightarrow> 8 word)) (concat (map utf8_char s)) = concat (map utf8_char s)"
    by (intro map_idI) (auto simp: list_all_iff intro!: unat_byte dest: utf8_char_bytes)
  with ok show ?thesis by (simp add: from_utf8_lossy_def as_bytes_def lossy_concat)
qed

text \<open>An encoding has a zero byte only where the text has a NUL.\<close>

lemma utf8_char_zero: "is_scalar n \<Longrightarrow> 0 \<in> set (utf8_char n) \<longleftrightarrow> n = 0"
  by (auto simp: utf8_char_def)

lemma as_bytes_no_zero:
  assumes "list_all is_scalar s" and "0 \<notin> set s"
  shows "0 \<notin> set (as_bytes s)"
proof
  assume "0 \<in> set (as_bytes s)"
  then obtain n b where n: "n \<in> set s" "b \<in> set (utf8_char n)" "(0 :: 8 word) = of_nat b"
    by (auto simp: as_bytes_def)
  with assms(1) have "is_scalar n" "b < 256" by (auto simp: list_all_iff dest: utf8_char_bytes)
  with n(3) have "b = 0" by (metis unat_0 unat_byte)
  with n \<open>is_scalar n\<close> assms(2) show False by (simp add: utf8_char_zero)
qed

section \<open>Decimal numbers in text\<close>

definition utext_of :: "string \<Rightarrow> utext" where
  "utext_of s = map code s"

text \<open>\<open>i64::to_string\<close>, \<open>str::parse::<i64>\<close> and \<open>str::parse::<u64>\<close>.\<close>

definition show_i64 :: "int \<Rightarrow> utext" where
  "show_i64 n = (if n < 0 then 45 # utext_of (show_nat (nat (- n))) else utext_of (show_nat (nat n)))"

definition digits_value :: "utext \<Rightarrow> nat option" where
  "digits_value s =
     (if s = [] \<or> \<not> list_all (\<lambda>c. 48 \<le> c \<and> c \<le> 57) s then None
      else Some (foldl (\<lambda>a c. 10 * a + (c - 48)) 0 s))"

definition parse_i64 :: "utext \<Rightarrow> int option" where
  "parse_i64 s =
     (case s of
        [] \<Rightarrow> None
      | c # r \<Rightarrow>
          if c = 45 then
            (case digits_value r of Some n \<Rightarrow> if n \<le> 2 ^ 63 then Some (- int n) else None | None \<Rightarrow> None)
          else
            (case digits_value (if c = 43 then r else s) of
               Some n \<Rightarrow> if n < 2 ^ 63 then Some (int n) else None
             | None \<Rightarrow> None))"

definition parse_u64 :: "utext \<Rightarrow> nat option" where
  "parse_u64 s =
     (case s of
        [] \<Rightarrow> None
      | c # r \<Rightarrow>
          (case digits_value (if c = 43 then r else s) of
             Some n \<Rightarrow> if n < 2 ^ 64 then Some n else None
           | None \<Rightarrow> None))"

lemma utext_of_show_nat_digits: "list_all (\<lambda>c. 48 \<le> c \<and> c \<le> 57) (utext_of (show_nat n))"
  using show_nat_digits by (fastforce simp: utext_of_def list_all_iff)

lemma digits_value_show_nat: "digits_value (utext_of (show_nat n)) = Some n"
proof -
  have "foldl (\<lambda>a c. 10 * a + (c - 48)) k (utext_of s) = foldl (\<lambda>a c. 10 * a + (of_char c - 48)) k s" for k s
    by (induction s arbitrary: k) (simp_all add: utext_of_def)
  then show ?thesis
    using parse_show_nat [of n] utext_of_show_nat_digits [of n]
    by (simp add: digits_value_def parse_nat_def) (simp add: utext_of_def)
qed

lemma parse_show_i64:
  assumes "- (2 ^ 63) \<le> n" "n < 2 ^ 63"
  shows "parse_i64 (show_i64 n) = Some n"
proof (cases "n < 0")
  case True
  then have "nat (- n) \<le> 2 ^ 63" using assms(1) by (simp add: nat_le_iff)
  then show ?thesis using True by (simp add: parse_i64_def show_i64_def digits_value_show_nat)
next
  case False
  obtain c r where s: "utext_of (show_nat (nat n)) = c # r"
    by (cases "show_nat (nat n)") (simp_all add: utext_of_def)
  then have "48 \<le> c" using utext_of_show_nat_digits [of "nat n"] by simp
  moreover have "nat n < 2 ^ 63" using assms(2) False by (simp add: nat_less_iff)
  moreover have "digits_value (c # r) = Some (nat n)" using digits_value_show_nat [of "nat n"] s by simp
  ultimately show ?thesis using False s by (simp add: parse_i64_def show_i64_def)
qed

end
