(* ===== verification/Wire_Protocol.thy ===== *)
theory Wire_Protocol
  imports Utf8 Json
begin

text \<open>
  The PostgreSQL wire protocol (\<open>fraiseql-wire/src/protocol\<close>: \<open>constants.rs\<close>,
  \<open>message.rs\<close>, \<open>encode.rs\<close>, \<open>decode.rs\<close>). A buffer is a list of bytes, integers keep
  their widths, and every indexing or slicing that would panic in Rust is an explicit
  \<open>Panic\<close> value of the result, so that its absence is a theorem and not a convention.
\<close>

section \<open>Results and machine integers\<close>

datatype io_error =
  UnexpectedEof string
| InvalidData string
| Unsupported string
| Panic

type_synonym i32 = "32 word"
type_synonym i16 = "16 word"
type_synonym bytes = "u8 list"
type_synonym 'a io_result = "io_error + 'a"

definition byte_at :: "bytes \<Rightarrow> nat \<Rightarrow> u8 io_result" where
  "byte_at data i = (if i < length data then Inr (data ! i) else Inl Panic)"

definition slice :: "bytes \<Rightarrow> nat \<Rightarrow> nat \<Rightarrow> bytes io_result" where
  "slice data a b = (if a \<le> b \<and> b \<le> length data then Inr (take (b - a) (drop a data)) else Inl Panic)"

text \<open>\<open>data.iter().position(|&b| b == 0)\<close>\<close>

fun position_zero :: "bytes \<Rightarrow> nat option" where
  "position_zero [] = None"
| "position_zero (b # bs) = (if b = 0 then Some 0 else map_option Suc (position_zero bs))"

definition i32_from_be :: "u8 \<Rightarrow> u8 \<Rightarrow> u8 \<Rightarrow> u8 \<Rightarrow> i32" where
  "i32_from_be a b c d = of_nat (((unat a * 256 + unat b) * 256 + unat c) * 256 + unat d)"

definition i16_from_be :: "u8 \<Rightarrow> u8 \<Rightarrow> i16" where
  "i16_from_be a b = of_nat (unat a * 256 + unat b)"

definition i32_to_be :: "i32 \<Rightarrow> bytes" where
  "i32_to_be w = map of_nat [unat w div 16777216, unat w div 65536 mod 256, unat w div 256 mod 256, unat w mod 256]"

definition i16_to_be :: "i16 \<Rightarrow> bytes" where
  "i16_to_be w = map of_nat [unat w div 256, unat w mod 256]"

definition read_i32 :: "bytes \<Rightarrow> nat \<Rightarrow> i32 io_result" where
  "read_i32 data off =
     try_bind (byte_at data off) (\<lambda>a. try_bind (byte_at data (off + 1)) (\<lambda>b.
     try_bind (byte_at data (off + 2)) (\<lambda>c. try_bind (byte_at data (off + 3)) (\<lambda>d.
       Inr (i32_from_be a b c d)))))"

definition read_i16 :: "bytes \<Rightarrow> nat \<Rightarrow> i16 io_result" where
  "read_i16 data off =
     try_bind (byte_at data off) (\<lambda>a. try_bind (byte_at data (off + 1)) (\<lambda>b. Inr (i16_from_be a b)))"

definition show_int :: "int \<Rightarrow> string" where
  "show_int i = (if i < 0 then ''-'' @ show_nat (nat (- i)) else show_nat (nat i))"

section \<open>Messages\<close>

datatype frontend_message =
  Startup i32 "(utext \<times> utext) list"
| Password utext
| Query utext
| Terminate
| SaslInitialResponse utext bytes
| SaslResponse bytes

datatype authentication_message =
  AuthOk
| CleartextPassword
| Md5Password bytes
| Sasl "utext list"
| SaslContinue bytes
| SaslFinal bytes

record field_description =
  fd_name :: utext
  table_oid :: i32
  column_attr :: i16
  type_oid :: u32
  type_size :: i16
  type_modifier :: i32
  format_code :: i16

record error_fields =
  severity :: "utext option"
  err_code :: "utext option"
  err_message :: "utext option"
  err_detail :: "utext option"
  err_hint :: "utext option"
  err_position :: "utext option"

datatype backend_message =
  Authentication authentication_message
| BackendKeyData i32 i32
| CommandComplete utext
| DataRow "bytes option list"
| ErrorResponse error_fields
| NoticeResponse error_fields
| ParameterStatus utext utext
| ReadyForQuery u8
| RowDescription "field_description list"

definition error_fields_default :: error_fields where
  "error_fields_default =
     \<lparr>severity = None, err_code = None, err_message = None, err_detail = None, err_hint = None, err_position = None\<rparr>"

definition error_fields_fmt :: "error_fields \<Rightarrow> utext" where
  "error_fields_fmt f =
     (case err_message f of Some msg \<Rightarrow> msg | None \<Rightarrow> []) @
     (case err_code f of Some c \<Rightarrow> [32, 40] @ c @ [41] | None \<Rightarrow> [])"

abbreviation tag_AUTHENTICATION :: u8 where "tag_AUTHENTICATION \<equiv> 82"
abbreviation tag_BACKEND_KEY_DATA :: u8 where "tag_BACKEND_KEY_DATA \<equiv> 75"
abbreviation tag_COMMAND_COMPLETE :: u8 where "tag_COMMAND_COMPLETE \<equiv> 67"
abbreviation tag_DATA_ROW :: u8 where "tag_DATA_ROW \<equiv> 68"
abbreviation tag_ERROR_RESPONSE :: u8 where "tag_ERROR_RESPONSE \<equiv> 69"
abbreviation tag_NOTICE_RESPONSE :: u8 where "tag_NOTICE_RESPONSE \<equiv> 78"
abbreviation tag_PARAMETER_STATUS :: u8 where "tag_PARAMETER_STATUS \<equiv> 83"
abbreviation tag_READY_FOR_QUERY :: u8 where "tag_READY_FOR_QUERY \<equiv> 90"
abbreviation tag_ROW_DESCRIPTION :: u8 where "tag_ROW_DESCRIPTION \<equiv> 84"

abbreviation auth_OK :: int where "auth_OK \<equiv> 0"
abbreviation auth_CLEARTEXT_PASSWORD :: int where "auth_CLEARTEXT_PASSWORD \<equiv> 3"
abbreviation auth_MD5_PASSWORD :: int where "auth_MD5_PASSWORD \<equiv> 5"
abbreviation auth_SASL :: int where "auth_SASL \<equiv> 10"
abbreviation auth_SASL_CONTINUE :: int where "auth_SASL_CONTINUE \<equiv> 11"
abbreviation auth_SASL_FINAL :: int where "auth_SASL_FINAL \<equiv> 12"

section \<open>Encoding\<close>

text \<open>The length is filled in at its position once the body is written.\<close>

definition fill_length :: "nat \<Rightarrow> bytes \<Rightarrow> bytes" where
  "fill_length len_pos buf =
     take len_pos buf @ i32_to_be (of_nat (length buf - len_pos)) @ drop (len_pos + 4) buf"

definition encode_startup :: "bytes \<Rightarrow> i32 \<Rightarrow> (utext \<times> utext) list \<Rightarrow> bytes" where
  "encode_startup buf version params =
     (let len_pos = length buf;
          buf1 = buf @ i32_to_be 0 @ i32_to_be version;
          buf2 = fold (\<lambda>(key, val) b. b @ as_bytes key @ [0] @ as_bytes val @ [0]) params buf1
      in fill_length len_pos (buf2 @ [0]))"

definition encode_password :: "bytes \<Rightarrow> utext \<Rightarrow> bytes" where
  "encode_password buf password =
     (let buf1 = buf @ [112]; len_pos = length buf1
      in fill_length len_pos (buf1 @ i32_to_be 0 @ as_bytes password @ [0]))"

definition encode_query :: "bytes \<Rightarrow> utext \<Rightarrow> bytes" where
  "encode_query buf query =
     (let buf1 = buf @ [81]; len_pos = length buf1
      in fill_length len_pos (buf1 @ i32_to_be 0 @ as_bytes query @ [0]))"

definition encode_terminate :: "bytes \<Rightarrow> bytes" where
  "encode_terminate buf = buf @ [88] @ i32_to_be 4"

definition encode_sasl_initial_response :: "bytes \<Rightarrow> utext \<Rightarrow> bytes \<Rightarrow> bytes" where
  "encode_sasl_initial_response buf mechanism data =
     (let buf1 = buf @ [112]; len_pos = length buf1
      in fill_length len_pos
           (buf1 @ i32_to_be 0 @ as_bytes mechanism @ [0] @ i32_to_be (of_nat (length data)) @ data))"

definition encode_sasl_response :: "bytes \<Rightarrow> bytes \<Rightarrow> bytes" where
  "encode_sasl_response buf data =
     (let buf1 = buf @ [112]; len_pos = length buf1
      in fill_length len_pos (buf1 @ i32_to_be 0 @ data))"

definition encode_message :: "frontend_message \<Rightarrow> bytes" where
  "encode_message msg =
     (case msg of
        Startup version params \<Rightarrow> encode_startup [] version params
      | Password password \<Rightarrow> encode_password [] password
      | Query query \<Rightarrow> encode_query [] query
      | Terminate \<Rightarrow> encode_terminate []
      | SaslInitialResponse mechanism data \<Rightarrow> encode_sasl_initial_response [] mechanism data
      | SaslResponse data \<Rightarrow> encode_sasl_response [] data)"

section \<open>Decoding\<close>

definition MAX_FIELD_COUNT :: nat where "MAX_FIELD_COUNT = 2048"
definition MAX_ERROR_FIELD_BYTES :: nat where "MAX_ERROR_FIELD_BYTES = 64 * 1024"
definition MAX_SASL_MECHANISMS :: nat where "MAX_SASL_MECHANISMS = 32"
definition MAX_PARAMETER_NAME_BYTES :: nat where "MAX_PARAMETER_NAME_BYTES = 256"
definition MAX_PARAMETER_VALUE_BYTES :: nat where "MAX_PARAMETER_VALUE_BYTES = 64 * 1024"

text \<open>
  The search for a terminator from an offset on (\<open>data[offset..].iter().position(..)\<close>), whose
  slice may panic.
\<close>

definition find_terminator :: "bytes \<Rightarrow> nat \<Rightarrow> nat option io_result" where
  "find_terminator data off = try_bind (slice data off (length data)) (\<lambda>rest. Inr (position_zero rest))"

text \<open>The SASL mechanism loop; each turn consumes a name and its terminator.\<close>

function sasl_mechanisms :: "bytes \<Rightarrow> nat \<Rightarrow> utext list \<Rightarrow> utext list io_result" where
  "sasl_mechanisms remaining off mechanisms =
     (if off \<ge> length remaining then Inr mechanisms
      else try_bind (find_terminator remaining off) (\<lambda>found.
        case found of
          None \<Rightarrow> Inr mechanisms
        | Some end \<Rightarrow>
            try_bind (slice remaining off (off + end)) (\<lambda>name.
              let mechanism = from_utf8_lossy name in
              if mechanism = [] then Inr mechanisms
              else if length mechanisms \<ge> MAX_SASL_MECHANISMS then Inr mechanisms
              else sasl_mechanisms remaining (off + (end + 1)) (mechanisms @ [mechanism]))))"
  by pat_completeness auto
termination by (relation "measure (\<lambda>(remaining, off, _). length remaining - off)") auto

declare sasl_mechanisms.simps [simp del]

definition decode_authentication :: "bytes \<Rightarrow> backend_message io_result" where
  "decode_authentication data =
     (if length data < 4 then Inl (UnexpectedEof ''auth type'')
      else try_bind (read_i32 data 0) (\<lambda>w.
        let auth_type = sint w in
        try_bind
          (if auth_type = auth_OK then Inr AuthOk
           else if auth_type = auth_CLEARTEXT_PASSWORD then Inr CleartextPassword
           else if auth_type = auth_MD5_PASSWORD then
             (if length data < 8 then Inl (UnexpectedEof ''salt data'')
              else try_bind (slice data 4 8) (\<lambda>salt. Inr (Md5Password salt)))
           else if auth_type = auth_SASL then
             try_bind (slice data 4 (length data)) (\<lambda>remaining.
             try_bind (sasl_mechanisms remaining 0 []) (\<lambda>ms. Inr (Sasl ms)))
           else if auth_type = auth_SASL_CONTINUE then
             try_bind (slice data 4 (length data)) (\<lambda>d. Inr (SaslContinue d))
           else if auth_type = auth_SASL_FINAL then
             try_bind (slice data 4 (length data)) (\<lambda>d. Inr (SaslFinal d))
           else Inl (Unsupported (''unsupported auth type: '' @ show_int auth_type)))
          (\<lambda>m. Inr (Authentication m))))"

definition decode_backend_key_data :: "bytes \<Rightarrow> backend_message io_result" where
  "decode_backend_key_data data =
     (if length data < 8 then Inl (UnexpectedEof ''backend key data'')
      else try_bind (read_i32 data 0) (\<lambda>process_id. try_bind (read_i32 data 4) (\<lambda>secret_key.
        Inr (BackendKeyData process_id secret_key))))"

definition decode_command_complete :: "bytes \<Rightarrow> backend_message io_result" where
  "decode_command_complete data =
     (case position_zero data of
        None \<Rightarrow> Inl (InvalidData ''missing null terminator in string'')
      | Some end \<Rightarrow> try_bind (slice data 0 end) (\<lambda>t. Inr (CommandComplete (from_utf8_lossy t))))"

fun decode_row_fields :: "nat \<Rightarrow> bytes \<Rightarrow> nat \<Rightarrow> bytes option list io_result" where
  "decode_row_fields 0 data off = Inr []"
| "decode_row_fields (Suc n) data off =
     (if off + 4 > length data then Inl (UnexpectedEof ''field length'')
      else try_bind (read_i32 data off) (\<lambda>w.
        let field_len = sint w; off1 = off + 4 in
        if field_len = -1 then
          try_bind (decode_row_fields n data off1) (\<lambda>fs. Inr (None # fs))
        else if field_len < 0 then Inl (InvalidData ''negative field length'')
        else (let len = nat field_len in
          if off1 + len > length data then Inl (UnexpectedEof ''field data'')
          else try_bind (slice data off1 (off1 + len)) (\<lambda>field_bytes.
            try_bind (decode_row_fields n data (off1 + len)) (\<lambda>fs. Inr (Some field_bytes # fs))))))"

text \<open>The field count and its checks, common to data rows and row descriptions.\<close>

definition decode_field_count :: "string \<Rightarrow> bytes \<Rightarrow> nat io_result" where
  "decode_field_count kind data =
     (if length data < 2 then Inl (UnexpectedEof ''field count'')
      else try_bind (read_i16 data 0) (\<lambda>w.
        if sint w < 0 then Inl (InvalidData ''negative field count'')
        else if nat (sint w) > MAX_FIELD_COUNT then Inl (InvalidData (kind @ '' field count '' @ show_nat (nat (sint w)) @ '' exceeds maximum '' @
               show_nat MAX_FIELD_COUNT))
        else Inr (nat (sint w))))"

definition decode_data_row :: "bytes \<Rightarrow> backend_message io_result" where
  "decode_data_row data =
     try_bind (decode_field_count ''DataRow'' data) (\<lambda>field_count.
     try_bind (decode_row_fields field_count data 2) (\<lambda>fields. Inr (DataRow fields)))"

definition set_error_field :: "u8 \<Rightarrow> utext \<Rightarrow> error_fields \<Rightarrow> error_fields" where
  "set_error_field field_type val flds =
     (if field_type = 83 then flds\<lparr>severity := Some val\<rparr>
      else if field_type = 67 then flds\<lparr>err_code := Some val\<rparr>
      else if field_type = 77 then flds\<lparr>err_message := Some val\<rparr>
      else if field_type = 68 then flds\<lparr>err_detail := Some val\<rparr>
      else if field_type = 72 then flds\<lparr>err_hint := Some val\<rparr>
      else if field_type = 80 then flds\<lparr>err_position := Some val\<rparr>
      else flds)"

function decode_error_loop :: "bytes \<Rightarrow> nat \<Rightarrow> error_fields \<Rightarrow> error_fields io_result" where
  "decode_error_loop data off flds =
     (if off \<ge> length data then Inr flds
      else try_bind (byte_at data off) (\<lambda>field_type.
        if field_type = 0 then Inr flds
        else try_bind (find_terminator data (off + 1)) (\<lambda>found.
          case found of
            None \<Rightarrow> Inl (InvalidData ''missing null terminator in error field'')
          | Some end \<Rightarrow>
              if end > MAX_ERROR_FIELD_BYTES then Inl (InvalidData (''Error field too large ('' @ show_nat end @ '' bytes, max '' @ show_nat MAX_ERROR_FIELD_BYTES @ '')''))
              else try_bind (slice data (off + 1) (off + 1 + end)) (\<lambda>v.
                decode_error_loop data (off + 1 + (end + 1))
                  (set_error_field field_type (from_utf8_lossy v) flds)))))"
  by pat_completeness auto
termination by (relation "measure (\<lambda>(data, off, _). length data - off)") auto

declare decode_error_loop.simps [simp del]

definition decode_error_fields :: "bytes \<Rightarrow> error_fields io_result" where
  "decode_error_fields data = decode_error_loop data 0 error_fields_default"

definition decode_error_response :: "bytes \<Rightarrow> backend_message io_result" where
  "decode_error_response data = try_bind (decode_error_fields data) (\<lambda>f. Inr (ErrorResponse f))"

definition decode_notice_response :: "bytes \<Rightarrow> backend_message io_result" where
  "decode_notice_response data = try_bind (decode_error_fields data) (\<lambda>f. Inr (NoticeResponse f))"

definition decode_parameter_status :: "bytes \<Rightarrow> backend_message io_result" where
  "decode_parameter_status data =
     try_bind (find_terminator data 0) (\<lambda>found.
       case found of
         None \<Rightarrow> Inl (InvalidData ''missing null terminator in parameter name'')
       | Some name_end \<Rightarrow>
           if name_end > MAX_PARAMETER_NAME_BYTES then Inl (InvalidData (''Parameter name too long ('' @ show_nat name_end @ '' bytes, max '' @
             show_nat MAX_PARAMETER_NAME_BYTES @ '')''))
           else try_bind (slice data 0 name_end) (\<lambda>name.
             let off = name_end + 1 in
             if off \<ge> length data then Inl (UnexpectedEof ''parameter value'')
             else try_bind (find_terminator data off) (\<lambda>found'.
               case found' of
                 None \<Rightarrow> Inl (InvalidData ''missing null terminator in parameter value'')
               | Some value_end \<Rightarrow>
                   if value_end > MAX_PARAMETER_VALUE_BYTES then Inl (InvalidData (''Parameter value too long ('' @ show_nat value_end @ '' bytes, max '' @
                     show_nat MAX_PARAMETER_VALUE_BYTES @ '')''))
                   else try_bind (slice data off (off + value_end)) (\<lambda>val.
                     Inr (ParameterStatus (from_utf8_lossy name) (from_utf8_lossy val))))))"

definition decode_ready_for_query :: "bytes \<Rightarrow> backend_message io_result" where
  "decode_ready_for_query data =
     (if data = [] then Inl (UnexpectedEof ''status byte'')
      else try_bind (byte_at data 0) (\<lambda>status. Inr (ReadyForQuery status)))"

fun decode_descriptions :: "nat \<Rightarrow> bytes \<Rightarrow> nat \<Rightarrow> field_description list io_result" where
  "decode_descriptions 0 data off = Inr []"
| "decode_descriptions (Suc n) data off =
     try_bind (find_terminator data off) (\<lambda>found.
       case found of
         None \<Rightarrow> Inl (InvalidData ''missing null terminator in field name'')
       | Some name_end \<Rightarrow>
           try_bind (slice data off (off + name_end)) (\<lambda>name.
             let off1 = off + (name_end + 1) in
             if off1 + 18 > length data then Inl (UnexpectedEof ''field descriptor'')
             else
               try_bind (read_i32 data off1) (\<lambda>table_oid_v.
               try_bind (read_i16 data (off1 + 4)) (\<lambda>column_attr_v.
               try_bind (read_i32 data (off1 + 6)) (\<lambda>type_oid_v.
               try_bind (read_i16 data (off1 + 10)) (\<lambda>type_size_v.
               try_bind (read_i32 data (off1 + 12)) (\<lambda>type_modifier_v.
               try_bind (read_i16 data (off1 + 16)) (\<lambda>format_code_v.
               try_bind (decode_descriptions n data (off1 + 18)) (\<lambda>fs.
                 Inr (\<lparr>fd_name = from_utf8_lossy name, table_oid = table_oid_v, column_attr = column_attr_v,
                       type_oid = ucast type_oid_v, type_size = type_size_v, type_modifier = type_modifier_v,
                       format_code = format_code_v\<rparr> # fs))))))))))"

definition decode_row_description :: "bytes \<Rightarrow> backend_message io_result" where
  "decode_row_description data =
     try_bind (decode_field_count ''RowDescription'' data) (\<lambda>field_count.
     try_bind (decode_descriptions field_count data 2) (\<lambda>fields. Inr (RowDescription fields)))"

definition decode_body :: "u8 \<Rightarrow> bytes \<Rightarrow> backend_message io_result" where
  "decode_body tag msg_data =
     (if tag = tag_AUTHENTICATION then decode_authentication msg_data
      else if tag = tag_BACKEND_KEY_DATA then decode_backend_key_data msg_data
      else if tag = tag_COMMAND_COMPLETE then decode_command_complete msg_data
      else if tag = tag_DATA_ROW then decode_data_row msg_data
      else if tag = tag_ERROR_RESPONSE then decode_error_response msg_data
      else if tag = tag_NOTICE_RESPONSE then decode_notice_response msg_data
      else if tag = tag_PARAMETER_STATUS then decode_parameter_status msg_data
      else if tag = tag_READY_FOR_QUERY then decode_ready_for_query msg_data
      else if tag = tag_ROW_DESCRIPTION then decode_row_description msg_data
      else Inl (InvalidData (''unknown message tag: '' @ show_nat (unat tag))))"

definition decode_message :: "bytes \<Rightarrow> (backend_message \<times> nat) io_result" where
  "decode_message data =
     (if length data < 5 then Inl (UnexpectedEof ''incomplete message header'')
      else try_bind (byte_at data 0) (\<lambda>tag. try_bind (read_i32 data 1) (\<lambda>w.
        let len_i32 = sint w in
        if len_i32 < 4 then Inl (InvalidData ''message length too small'')
        else (let len = nat len_i32 in
          if length data < len + 1 then Inl (UnexpectedEof ''incomplete message body'')
          else try_bind (slice data 5 (len + 1)) (\<lambda>msg_data.
            try_bind (decode_body tag msg_data) (\<lambda>msg. Inr (msg, len + 1)))))))"

end
