(* ===== verification/Wire_Safety.thy ===== *)
theory Wire_Safety
  imports Wire_Protocol
begin

text \<open>
  Properties of the wire protocol: no input makes the decoder panic, what it consumes and what it
  allocates is bounded, decoding is stable under more input, and it inverts the encoding that the
  protocol documents for the server's messages.
\<close>

section \<open>Reading\<close>

lemma byte_at_ok [simp]: "i < length data \<Longrightarrow> byte_at data i = Inr (data ! i)"
  by (simp add: byte_at_def)

lemma slice_ok [simp]: "a \<le> b \<Longrightarrow> b \<le> length data \<Longrightarrow> slice data a b = Inr (take (b - a) (drop a data))"
  by (simp add: slice_def)

lemma read_i32_ok:
  "off + 4 \<le> length data \<Longrightarrow>
   read_i32 data off = Inr (i32_from_be (data ! off) (data ! (off + 1)) (data ! (off + 2)) (data ! (off + 3)))"
  by (simp add: read_i32_def)

lemma read_i16_ok: "off + 2 \<le> length data \<Longrightarrow> read_i16 data off = Inr (i16_from_be (data ! off) (data ! (off + 1)))"
  by (simp add: read_i16_def)

lemma position_zero_less: "position_zero bs = Some n \<Longrightarrow> n < length bs"
  by (induction bs arbitrary: n) (auto split: if_splits)

lemma find_terminator_ok: "off \<le> length data \<Longrightarrow> find_terminator data off = Inr (position_zero (drop off data))"
  by (simp add: find_terminator_def)

lemma find_terminator_Some: "find_terminator data off = Inr (Some n) \<Longrightarrow> off + n < length data"
  by (auto simp: find_terminator_def try_bind_eq_Inr slice_def split: if_splits dest: position_zero_less)

section \<open>No panic\<close>

definition calm :: "'a io_result \<Rightarrow> bool" where
  "calm r \<longleftrightarrow> r \<noteq> Inl Panic"

lemma calm_simps [simp]:
  "calm (Inr x)" "calm (Inl (UnexpectedEof s))" "calm (Inl (InvalidData s))" "calm (Inl (Unsupported s))"
  by (simp_all add: calm_def)

lemma calm_bind: "calm r \<Longrightarrow> (\<And>x. r = Inr x \<Longrightarrow> calm (f x)) \<Longrightarrow> calm (try_bind r f)"
  by (cases r) (auto simp: calm_def)

lemma calm_reads [simp]:
  "i < length data \<Longrightarrow> calm (byte_at data i)"
  "a \<le> b \<Longrightarrow> b \<le> length data \<Longrightarrow> calm (slice data a b)"
  "off + 4 \<le> length data \<Longrightarrow> calm (read_i32 data off)"
  "off + 2 \<le> length data \<Longrightarrow> calm (read_i16 data off)"
  "off \<le> length data \<Longrightarrow> calm (find_terminator data off)"
  by (simp_all add: read_i32_ok read_i16_ok find_terminator_ok)

lemma calm_sasl: "off \<le> length remaining \<Longrightarrow> calm (sasl_mechanisms remaining off ms)"
proof (induction "length remaining - off" arbitrary: off ms rule: less_induct)
  case less
  show ?case
    by (subst sasl_mechanisms.simps)
      (use less.prems in \<open>auto simp: Let_def intro!: calm_bind less.hyps diff_less_mono2 split: option.splits
        dest!: find_terminator_Some\<close>)
qed

lemma calm_error_loop: "off \<le> length data \<Longrightarrow> calm (decode_error_loop data off flds)"
proof (induction "length data - off" arbitrary: off flds rule: less_induct)
  case less
  show ?case
    by (subst decode_error_loop.simps)
      (use less.prems in \<open>auto intro!: calm_bind less.hyps split: option.splits dest!: find_terminator_Some\<close>)
qed

lemma calm_row_fields: "calm (decode_row_fields n data off)"
  by (induction n data off rule: decode_row_fields.induct) (auto simp: Let_def intro!: calm_bind)

lemma calm_descriptions: "off \<le> length data \<Longrightarrow> calm (decode_descriptions n data off)"
proof (induction n data off rule: decode_descriptions.induct)
  case (2 n data off)
  then show ?case
    by (auto simp: Let_def intro!: calm_bind split: option.splits dest!: find_terminator_Some)
qed simp

lemma field_count_bounds:
  "decode_field_count kind data = Inr n \<Longrightarrow> 2 \<le> length data \<and> n \<le> MAX_FIELD_COUNT"
  by (auto simp: decode_field_count_def try_bind_eq_Inr split: if_splits)

lemma calm_field_count: "calm (decode_field_count kind data)"
  by (auto simp: decode_field_count_def intro!: calm_bind)

lemma calm_parameter_status: "calm (decode_parameter_status data)"
  unfolding decode_parameter_status_def Let_def
  by (auto intro!: calm_bind split: option.splits dest!: find_terminator_Some)

lemma calm_authentication: "calm (decode_authentication data)"
  unfolding decode_authentication_def Let_def by (auto intro!: calm_bind calm_sasl)

lemma calm_body: "calm (decode_body tag data)"
proof -
  have "calm (decode_backend_key_data data)" "calm (decode_data_row data)" "calm (decode_error_response data)"
    "calm (decode_notice_response data)" "calm (decode_ready_for_query data)" "calm (decode_row_description data)"
    by (auto simp: decode_backend_key_data_def decode_data_row_def decode_error_response_def decode_error_fields_def
        decode_notice_response_def decode_ready_for_query_def decode_row_description_def
        intro!: calm_bind calm_field_count calm_row_fields calm_error_loop calm_descriptions dest: field_count_bounds)
  moreover have "calm (decode_command_complete data)"
    by (auto simp: decode_command_complete_def intro!: calm_bind split: option.splits dest: position_zero_less)
  ultimately show ?thesis
    by (simp add: decode_body_def calm_authentication calm_parameter_status)
qed

lemma calm_message: "calm (decode_message data)"
proof (cases "length data < 5")
  case True
  then show ?thesis by (simp add: decode_message_def)
next
  case False
  then have "0 < length data" by linarith
  with False show ?thesis
    unfolding decode_message_def Let_def by (auto intro!: calm_bind calm_body)
qed

section \<open>The documented encoding of the server's messages\<close>

text \<open>
  The specification of the decoder: how the protocol lays out each message. Texts are encoded in
  UTF-8 and end with a zero byte, a field is its length and its bytes (length -1 for NULL), and a
  frame is the tag, the length of what follows and the body.
\<close>

definition c_text :: "utext \<Rightarrow> bytes" where
  "c_text t = as_bytes t @ [0]"

fun enc_auth :: "authentication_message \<Rightarrow> bytes" where
  "enc_auth AuthOk = i32_to_be 0"
| "enc_auth CleartextPassword = i32_to_be 3"
| "enc_auth (Md5Password salt) = i32_to_be 5 @ salt"
| "enc_auth (Sasl ms) = i32_to_be 10 @ concat (map c_text ms) @ [0]"
| "enc_auth (SaslContinue d) = i32_to_be 11 @ d"
| "enc_auth (SaslFinal d) = i32_to_be 12 @ d"

fun enc_field :: "bytes option \<Rightarrow> bytes" where
  "enc_field None = i32_to_be (- 1)"
| "enc_field (Some b) = i32_to_be (of_nat (length b)) @ b"

definition enc_description :: "field_description \<Rightarrow> bytes" where
  "enc_description f = c_text (fd_name f) @ i32_to_be (table_oid f) @ i16_to_be (column_attr f) @
     i32_to_be (ucast (type_oid f)) @ i16_to_be (type_size f) @ i32_to_be (type_modifier f) @
     i16_to_be (format_code f)"

definition error_entries :: "error_fields \<Rightarrow> (u8 \<times> utext) list" where
  "error_entries f =
     List.map_filter (\<lambda>(c, v). map_option (Pair c) v)
       [(83, severity f), (67, err_code f), (77, err_message f), (68, err_detail f), (72, err_hint f),
        (80, err_position f)]"

definition enc_errors :: "error_fields \<Rightarrow> bytes" where
  "enc_errors f = concat (map (\<lambda>(c, v). c # c_text v) (error_entries f)) @ [0]"

fun enc_body :: "backend_message \<Rightarrow> bytes" where
  "enc_body (Authentication a) = enc_auth a"
| "enc_body (BackendKeyData p k) = i32_to_be p @ i32_to_be k"
| "enc_body (CommandComplete t) = c_text t"
| "enc_body (DataRow fs) = i16_to_be (of_nat (length fs)) @ concat (map enc_field fs)"
| "enc_body (ErrorResponse f) = enc_errors f"
| "enc_body (NoticeResponse f) = enc_errors f"
| "enc_body (ParameterStatus n v) = c_text n @ c_text v"
| "enc_body (ReadyForQuery st) = [st]"
| "enc_body (RowDescription fs) = i16_to_be (of_nat (length fs)) @ concat (map enc_description fs)"

fun enc_tag :: "backend_message \<Rightarrow> u8" where
  "enc_tag (Authentication _) = tag_AUTHENTICATION"
| "enc_tag (BackendKeyData _ _) = tag_BACKEND_KEY_DATA"
| "enc_tag (CommandComplete _) = tag_COMMAND_COMPLETE"
| "enc_tag (DataRow _) = tag_DATA_ROW"
| "enc_tag (ErrorResponse _) = tag_ERROR_RESPONSE"
| "enc_tag (NoticeResponse _) = tag_NOTICE_RESPONSE"
| "enc_tag (ParameterStatus _ _) = tag_PARAMETER_STATUS"
| "enc_tag (ReadyForQuery _) = tag_READY_FOR_QUERY"
| "enc_tag (RowDescription _) = tag_ROW_DESCRIPTION"

definition enc_backend :: "backend_message \<Rightarrow> bytes" where
  "enc_backend m = enc_tag m # i32_to_be (of_nat (4 + length (enc_body m))) @ enc_body m"

text \<open>The messages a server may send within the decoder's limits.\<close>

definition text_ok :: "utext \<Rightarrow> bool" where
  "text_ok t \<longleftrightarrow> list_all is_scalar t \<and> 0 \<notin> set t"

fun auth_ok :: "authentication_message \<Rightarrow> bool" where
  "auth_ok (Md5Password salt) = (length salt = 4)"
| "auth_ok (Sasl ms) = (length ms \<le> MAX_SASL_MECHANISMS \<and> (\<forall>m \<in> set ms. m \<noteq> [] \<and> text_ok m))"
| "auth_ok _ = True"

definition errors_ok :: "error_fields \<Rightarrow> bool" where
  "errors_ok f \<longleftrightarrow> (\<forall>(c, v) \<in> set (error_entries f). text_ok v \<and> length (as_bytes v) \<le> MAX_ERROR_FIELD_BYTES)"

fun message_ok :: "backend_message \<Rightarrow> bool" where
  "message_ok (Authentication a) = auth_ok a"
| "message_ok (CommandComplete t) = text_ok t"
| "message_ok (DataRow fs) = (length fs \<le> MAX_FIELD_COUNT)"
| "message_ok (ErrorResponse f) = errors_ok f"
| "message_ok (NoticeResponse f) = errors_ok f"
| "message_ok (ParameterStatus n v) =
     (text_ok n \<and> text_ok v \<and> length (as_bytes n) \<le> MAX_PARAMETER_NAME_BYTES \<and>
      length (as_bytes v) \<le> MAX_PARAMETER_VALUE_BYTES)"
| "message_ok (RowDescription fs) = (length fs \<le> MAX_FIELD_COUNT \<and> (\<forall>f \<in> set fs. text_ok (fd_name f)))"
| "message_ok _ = True"

definition frame_ok :: "backend_message \<Rightarrow> bool" where
  "frame_ok m \<longleftrightarrow> message_ok m \<and> 4 + length (enc_body m) < 2 ^ 31"

section \<open>Integers on the wire\<close>

lemma length_to_be [simp]: "length (i32_to_be w) = 4" "length (i16_to_be v) = 2"
  by (simp_all add: i32_to_be_def i16_to_be_def)

lemma i32_from_to_be:
  "i32_from_be (i32_to_be w ! 0) (i32_to_be w ! 1) (i32_to_be w ! 2) (i32_to_be w ! 3) = w"
proof -
  define n where "n = unat w"
  have "n < 2 ^ 32" unfolding n_def using unsigned_less [of w] by simp
  then have top: "n div 16777216 < 256" by simp
  have "n = n div 256 * 256 + n mod 256" "n div 256 = n div 65536 * 256 + n div 256 mod 256"
    "n div 65536 = n div 16777216 * 256 + n div 65536 mod 256"
    using div_mult_mod_eq [of "n div 256" 256] div_mult_mod_eq [of "n div 65536" 256]
    by (simp_all flip: div_mult2_eq)
  then have "((n div 16777216 * 256 + n div 65536 mod 256) * 256 + n div 256 mod 256) * 256 + n mod 256 = n"
    by metis
  moreover have "unat (of_nat (n div 16777216) :: u8) = n div 16777216"
    "unat (of_nat (n div 65536 mod 256) :: u8) = n div 65536 mod 256"
    "unat (of_nat (n div 256 mod 256) :: u8) = n div 256 mod 256" "unat (of_nat (n mod 256) :: u8) = n mod 256"
    using top by (simp_all add: unat_byte)
  ultimately show ?thesis
    by (simp add: i32_from_be_def i32_to_be_def n_def [symmetric] numeral_3_eq_3) (simp add: n_def)
qed

lemma i16_from_to_be: "i16_from_be (i16_to_be w ! 0) (i16_to_be w ! 1) = w"
proof -
  define n where "n = unat w"
  have "n < 2 ^ 16" unfolding n_def using unsigned_less [of w] by simp
  then have "n div 256 < 256" by simp
  then have "unat (of_nat (n div 256) :: u8) = n div 256" "unat (of_nat (n mod 256) :: u8) = n mod 256"
    by (simp_all add: unat_byte)
  then show ?thesis by (simp add: i16_from_be_def i16_to_be_def n_def [symmetric]) (simp add: n_def)
qed

lemma read_i32_at:
  assumes "drop off data = i32_to_be w @ rest"
  shows "read_i32 data off = Inr w"
proof -
  have len: "off + 4 \<le> length data" using arg_cong [OF assms, of length] by simp
  have "data ! (off + k) = i32_to_be w ! k" if "k < 4" for k
    using that len assms by (metis add_leD1 length_to_be(1) nth_append nth_drop)
  from this [of 0] this [of 1] this [of 2] this [of 3] len show ?thesis
    using i32_from_to_be [of w] by (simp add: read_i32_ok)
qed

lemma read_i16_at:
  assumes "drop off data = i16_to_be w @ rest"
  shows "read_i16 data off = Inr w"
proof -
  have len: "off + 2 \<le> length data" using arg_cong [OF assms, of length] by simp
  have "data ! (off + k) = i16_to_be w ! k" if "k < 2" for k
    using that len assms by (metis add_leD1 length_to_be(2) nth_append nth_drop)
  from this [of 0] this [of 1] len show ?thesis
    using i16_from_to_be [of w] by (simp add: read_i16_ok)
qed

lemma drop_step: "drop off data = a @ b \<Longrightarrow> drop (off + length a) data = b"
  by (metis append_eq_conv_conj drop_drop add.commute)

lemma sint_small: "n < 2 ^ 31 \<Longrightarrow> sint (of_nat n :: 32 word) = int n"
  by (simp add: signed_of_nat signed_take_bit_int_eq_self)

lemma sint_small16: "n < 2 ^ 15 \<Longrightarrow> sint (of_nat n :: 16 word) = int n"
  by (simp add: signed_of_nat signed_take_bit_int_eq_self)

lemma slice_at: "off \<le> length data \<Longrightarrow> drop off data = b @ rest \<Longrightarrow> slice data off (off + length b) = Inr b"
proof -
  assume "off \<le> length data" and d: "drop off data = b @ rest"
  moreover from d have "length data - off = length b + length rest" by (metis length_append length_drop)
  ultimately show ?thesis by (simp add: slice_def)
qed

section \<open>Texts on the wire\<close>

lemma position_zero_append: "0 \<notin> set bs \<Longrightarrow> position_zero (bs @ 0 # rest) = Some (length bs)"
  by (induction bs) auto

lemma c_text_at:
  assumes "text_ok t" and "drop off data = c_text t @ rest"
  shows "find_terminator data off = Inr (Some (length (as_bytes t)))"
    and "slice data off (off + length (as_bytes t)) = Inr (as_bytes t)"
    and "from_utf8_lossy (as_bytes t) = t"
    and "drop (off + (length (as_bytes t) + 1)) data = rest"
    and "off + (length (as_bytes t) + 1) \<le> length data"
proof -
  have d: "drop off data = as_bytes t @ 0 # rest" using assms(2) by (simp add: c_text_def)
  then have off: "off \<le> length data" by (cases "off \<le> length data") simp_all
  have nz: "0 \<notin> set (as_bytes t)" using assms(1) by (simp add: text_ok_def as_bytes_no_zero)
  show "find_terminator data off = Inr (Some (length (as_bytes t)))"
    by (simp add: find_terminator_ok off d position_zero_append nz)
  show "slice data off (off + length (as_bytes t)) = Inr (as_bytes t)"
    by (rule slice_at [OF off d])
  show "from_utf8_lossy (as_bytes t) = t" using assms(1) by (simp add: text_ok_def from_utf8_lossy_as_bytes)
  show "drop (off + (length (as_bytes t) + 1)) data = rest"
    using drop_step [of off data "as_bytes t @ [0]" rest] d by simp
  show "off + (length (as_bytes t) + 1) \<le> length data"
    using arg_cong [OF d, of length] by simp
qed

section \<open>Round trips of the parts\<close>

lemma decode_row_fields_enc:
  "drop off data = concat (map enc_field fs) @ rest \<Longrightarrow> off \<le> length data \<Longrightarrow>
   (\<forall>b. Some b \<in> set fs \<longrightarrow> length b < 2 ^ 31) \<Longrightarrow>
   decode_row_fields (length fs) data off = Inr fs"
proof (induction fs arbitrary: off)
  case (Cons f fs)
  let ?more = "concat (map enc_field fs) @ rest"
  show ?case
  proof (cases f)
    case None
    with Cons.prems(1) have d: "drop off data = i32_to_be (- 1) @ ?more" by simp
    from drop_step [OF d] have d': "drop (off + 4) data = ?more" by simp
    have len: "off + 4 \<le> length data" using arg_cong [OF d, of length] Cons.prems(2) by simp
    from Cons.IH [OF d' len] Cons.prems(3) read_i32_at [OF d] len None show ?thesis by (simp add: Let_def)
  next
    case (Some b)
    with Cons.prems(1) have d: "drop off data = i32_to_be (of_nat (length b)) @ b @ ?more" by simp
    from drop_step [OF d] have d1: "drop (off + 4) data = b @ ?more" by simp
    from drop_step [OF d1] have d2: "drop (off + 4 + length b) data = ?more" by simp
    have len: "off + 4 + length b \<le> length data" using arg_cong [OF d, of length] Cons.prems(2) by simp
    have small: "sint (of_nat (length b) :: i32) = int (length b)"
      using Cons.prems(3) Some by (intro sint_small) simp
    have sl: "slice data (off + 4) (off + 4 + length b) = Inr b"
      using len by (intro slice_at [OF _ d1]) simp
    from Cons.IH [OF d2 len] Cons.prems(3) read_i32_at [OF d] len small sl Some show ?thesis
      by (simp add: Let_def)
  qed
qed simp

lemma decode_descriptions_enc:
  "drop off data = concat (map enc_description fs) @ rest \<Longrightarrow> (\<forall>f \<in> set fs. text_ok (fd_name f)) \<Longrightarrow>
   decode_descriptions (length fs) data off = Inr fs"
proof (induction fs arbitrary: off)
  case (Cons f fs)
  let ?more = "concat (map enc_description fs) @ rest"
  let ?n = "length (as_bytes (fd_name f))"
  let ?fixed = "i32_to_be (table_oid f) @ i16_to_be (column_attr f) @ i32_to_be (ucast (type_oid f)) @
     i16_to_be (type_size f) @ i32_to_be (type_modifier f) @ i16_to_be (format_code f) @ ?more"
  define off1 where "off1 = off + (?n + 1)"
  have d: "drop off data = c_text (fd_name f) @ ?fixed" using Cons.prems(1) by (simp add: enc_description_def [of f])
  have t: "text_ok (fd_name f)" using Cons.prems(2) by simp
  note name = c_text_at [OF t d]
  have d1: "drop off1 data = ?fixed" unfolding off1_def by (rule name(4))
  have d2: "drop (off1 + 4) data = drop 4 ?fixed" and d3: "drop (off1 + 6) data = drop 6 ?fixed"
    and d4: "drop (off1 + 10) data = drop 10 ?fixed" and d5: "drop (off1 + 12) data = drop 12 ?fixed"
    and d6: "drop (off1 + 16) data = drop 16 ?fixed" and d7: "drop (off1 + 18) data = drop 18 ?fixed"
    using d1 by (metis drop_drop add.commute)+
  have len: "off1 + 18 \<le> length data"
    using arg_cong [OF d1, of length] name(5) unfolding off1_def by simp
  have IH: "decode_descriptions (length fs) data (off1 + 18) = Inr fs"
    using Cons.prems(2) d7 by (intro Cons.IH) simp_all
  have "read_i32 data off1 = Inr (table_oid f)" by (rule read_i32_at [OF d1])
  moreover have "read_i16 data (off1 + 4) = Inr (column_attr f)" by (rule read_i16_at) (simp add: d2)
  moreover have "read_i32 data (off1 + 6) = Inr (ucast (type_oid f))" by (rule read_i32_at) (simp add: d3)
  moreover have "read_i16 data (off1 + 10) = Inr (type_size f)" by (rule read_i16_at) (simp add: d4)
  moreover have "read_i32 data (off1 + 12) = Inr (type_modifier f)" by (rule read_i32_at) (simp add: d5)
  moreover have "read_i16 data (off1 + 16) = Inr (format_code f)" by (rule read_i16_at) (simp add: d6)
  moreover note name(1-3) len IH
  ultimately show ?case unfolding off1_def by (simp add: Let_def)
qed simp

lemma sasl_mechanisms_enc:
  "drop off data = concat (map c_text ms) @ [0] \<Longrightarrow> (\<forall>m \<in> set ms. m \<noteq> [] \<and> text_ok m) \<Longrightarrow>
   length acc + length ms \<le> MAX_SASL_MECHANISMS \<Longrightarrow> sasl_mechanisms data off acc = Inr (acc @ ms)"
proof (induction ms arbitrary: off acc)
  case Nil
  have "text_ok []" "drop off data = c_text [] @ []" using Nil.prems(1) by (simp_all add: text_ok_def c_text_def as_bytes_def)
  note t = c_text_at [OF this]
  from t show ?case by (subst sasl_mechanisms.simps) (simp add: as_bytes_def)
next
  case (Cons m ms)
  have ok: "text_ok m" and d: "drop off data = c_text m @ concat (map c_text ms) @ [0]"
    using Cons.prems by simp_all
  note t = c_text_at [OF ok d]
  have "sasl_mechanisms data (off + (length (as_bytes m) + 1)) (acc @ [m]) = Inr ((acc @ [m]) @ ms)"
    using Cons.prems by (intro Cons.IH t(4)) simp_all
  then show ?case using t(1-3,5) Cons.prems by (subst sasl_mechanisms.simps) (simp add: Let_def)
qed

lemma decode_error_loop_enc:
  "drop off data = concat (map (\<lambda>(c, v). c # c_text v) es) @ [0] \<Longrightarrow>
   (\<forall>(c, v) \<in> set es. c \<noteq> 0 \<and> text_ok v \<and> length (as_bytes v) \<le> MAX_ERROR_FIELD_BYTES) \<Longrightarrow>
   decode_error_loop data off flds = Inr (fold (\<lambda>(c, v). set_error_field c v) es flds)"
proof (induction es arbitrary: off flds)
  case Nil
  then have d: "drop off data = [0]" by simp
  then have "off < length data" by (cases "off < length data") simp_all
  with d show ?case by (subst decode_error_loop.simps) (simp add: Cons_nth_drop_Suc [symmetric])
next
  case (Cons e es)
  obtain c v where e: "e = (c, v)" by force
  have ok: "text_ok v" and c: "c \<noteq> 0" and small: "length (as_bytes v) \<le> MAX_ERROR_FIELD_BYTES"
    using Cons.prems(2) by (auto simp: e)
  have d: "drop off data = [c] @ c_text v @ concat (map (\<lambda>(c, v). c # c_text v) es) @ [0]"
    using Cons.prems(1) by (simp add: e)
  then have off: "off < length data" by (cases "off < length data") simp_all
  with d have head: "data ! off = c" by (simp add: Cons_nth_drop_Suc [symmetric])
  from drop_step [OF d] have d1: "drop (off + 1) data = c_text v @ concat (map (\<lambda>(c, v). c # c_text v) es) @ [0]" by simp
  note t = c_text_at [OF ok d1]
  have "decode_error_loop data (off + 1 + (length (as_bytes v) + 1)) (set_error_field c v flds) =
      Inr (fold (\<lambda>(c, v). set_error_field c v) es (set_error_field c v flds))"
    using Cons.prems(2) by (intro Cons.IH t(4)) auto
  with t(1-3,5) off head c small show ?case
    by (subst decode_error_loop.simps) (simp add: e)
qed

lemma fold_error_entries: "fold (\<lambda>(c, v). set_error_field c v) (error_entries f) error_fields_default = f"
  by (cases f)
    (simp add: error_entries_def List.map_filter_simps set_error_field_def error_fields_default_def split: option.splits)

lemma decode_errors_enc: "errors_ok f \<Longrightarrow> decode_error_fields (enc_errors f) = Inr f"
proof -
  assume ok: "errors_ok f"
  have tags: "\<forall>(c, v) \<in> set (error_entries f). c \<noteq> 0"
    by (auto simp: error_entries_def List.map_filter_simps split: option.splits)
  have "decode_error_loop (enc_errors f) 0 error_fields_default =
      Inr (fold (\<lambda>(c, v). set_error_field c v) (error_entries f) error_fields_default)"
    using ok tags by (intro decode_error_loop_enc) (auto simp: enc_errors_def errors_ok_def)
  then show ?thesis by (simp add: decode_error_fields_def fold_error_entries)
qed

lemma decode_auth_enc:
  assumes "auth_ok a"
  shows "decode_authentication (enc_auth a) = Inr (Authentication a)"
proof -
  have code: "read_i32 (i32_to_be w @ rest) 0 = Inr w" for w rest by (rule read_i32_at) simp
  have code': "read_i32 (i32_to_be w) 0 = Inr w" for w using code [of w "[]"] by simp
  show ?thesis
  proof (cases a)
    case (Sasl ms)
    have "sasl_mechanisms (concat (map c_text ms) @ [0]) 0 [] = Inr ([] @ ms)"
      using assms Sasl by (intro sasl_mechanisms_enc) simp_all
    with Sasl show ?thesis by (simp add: decode_authentication_def code Let_def)
  next
    case (Md5Password salt)
    with assms show ?thesis by (simp add: decode_authentication_def code Let_def)
  qed (simp_all add: decode_authentication_def code code' Let_def)
qed

lemma decode_field_count_enc:
  "length fs \<le> MAX_FIELD_COUNT \<Longrightarrow> decode_field_count kind (i16_to_be (of_nat (length fs)) @ rest) = Inr (length fs)"
proof -
  assume n: "length fs \<le> MAX_FIELD_COUNT"
  have "read_i16 (i16_to_be (of_nat (length fs)) @ rest) 0 = Inr (of_nat (length fs))" by (rule read_i16_at) simp
  moreover have "sint (of_nat (length fs) :: i16) = int (length fs)"
    using n by (intro sint_small16) (simp add: MAX_FIELD_COUNT_def)
  ultimately show ?thesis using n by (simp add: decode_field_count_def)
qed

lemma enc_field_length: "Some b \<in> set fs \<Longrightarrow> length b \<le> length (concat (map enc_field fs))"
  by (induction fs) auto

lemma decode_parameter_enc:
  assumes "message_ok (ParameterStatus n v)"
  shows "decode_parameter_status (c_text n @ c_text v) = Inr (ParameterStatus n v)"
proof -
  let ?data = "c_text n @ c_text v"
  have ok: "text_ok n" "text_ok v" using assms by simp_all
  note name = c_text_at [OF ok(1), of 0 ?data "c_text v", simplified]
  have "drop (length (as_bytes n) + 1) ?data = c_text v @ []" by (simp add: c_text_def)
  note val = c_text_at [OF ok(2) this]
  have "\<not> length (as_bytes n) + 1 \<ge> length ?data" by (simp add: c_text_def)
  with assms name(1-3) val(1-3) show ?thesis
    unfolding decode_parameter_status_def by (simp add: Let_def)
qed

lemma decode_body_enc:
  assumes "frame_ok m"
  shows "decode_body (enc_tag m) (enc_body m) = Inr m"
proof (cases m)
  case (Authentication a)
  with assms show ?thesis by (simp add: decode_body_def frame_ok_def decode_auth_enc)
next
  case (BackendKeyData p k)
  have "read_i32 (i32_to_be p @ i32_to_be k) 0 = Inr p" by (rule read_i32_at) simp
  moreover have "read_i32 (i32_to_be p @ i32_to_be k) 4 = Inr k" by (rule read_i32_at [where rest = "[]"]) simp
  ultimately show ?thesis by (simp add: BackendKeyData decode_body_def decode_backend_key_data_def)
next
  case (CommandComplete t)
  with assms have ok: "text_ok t" by (simp add: frame_ok_def)
  then have "position_zero (as_bytes t @ 0 # []) = Some (length (as_bytes t))"
    by (intro position_zero_append) (simp add: text_ok_def as_bytes_no_zero)
  with CommandComplete ok show ?thesis
    by (simp add: decode_body_def decode_command_complete_def c_text_def text_ok_def from_utf8_lossy_as_bytes)
next
  case (DataRow fs)
  let ?data = "i16_to_be (of_nat (length fs)) @ concat (map enc_field fs)"
  from assms DataRow have n: "length fs \<le> MAX_FIELD_COUNT" and total: "length (concat (map enc_field fs)) < 2 ^ 31"
    by (simp_all add: frame_ok_def)
  have "\<forall>b. Some b \<in> set fs \<longrightarrow> length b < 2 ^ 31"
    using total enc_field_length le_less_trans by blast
  then have "decode_row_fields (length fs) ?data 2 = Inr fs"
    by (intro decode_row_fields_enc [where rest = "[]"]) simp_all
  with n DataRow show ?thesis by (simp add: decode_body_def decode_data_row_def decode_field_count_enc)
next
  case (RowDescription fs)
  let ?data = "i16_to_be (of_nat (length fs)) @ concat (map enc_description fs)"
  have "decode_descriptions (length fs) ?data 2 = Inr fs"
    using assms RowDescription by (intro decode_descriptions_enc [where rest = "[]"]) (simp_all add: frame_ok_def)
  with assms RowDescription show ?thesis
    by (simp add: decode_body_def decode_row_description_def decode_field_count_enc frame_ok_def)
next
  case (ParameterStatus n v)
  with assms decode_parameter_enc show ?thesis by (simp add: decode_body_def frame_ok_def)
qed (use assms in \<open>simp_all add: decode_body_def frame_ok_def decode_errors_enc decode_error_response_def
      decode_notice_response_def decode_ready_for_query_def\<close>)

section \<open>Frames\<close>

lemma decode_frame:
  assumes "4 + length body < 2 ^ 31" and "decode_body tag body = r"
  shows "decode_message (tag # i32_to_be (of_nat (4 + length body)) @ body @ rest) =
    try_bind r (\<lambda>m. Inr (m, 5 + length body))"
proof -
  let ?data = "tag # i32_to_be (of_nat (4 + length body)) @ body @ rest"
  have "read_i32 ?data 1 = Inr (of_nat (4 + length body))" by (rule read_i32_at) simp
  moreover have "sint (of_nat (4 + length body) :: i32) = int (4 + length body)"
    using assms(1) by (rule sint_small)
  moreover have "slice ?data 5 (5 + length body) = Inr body" by (rule slice_at) simp_all
  ultimately show ?thesis
    using assms(2) by (simp add: decode_message_def Let_def nat_add_distrib)
qed

text \<open>What a successful decoding looked at: the frame and nothing behind it.\<close>

lemma decode_message_frame:
  assumes "decode_message data = Inr (m, n)"
  obtains len where "sint (i32_from_be (data ! 1) (data ! 2) (data ! 3) (data ! 4)) = int len"
    "4 \<le> len" "n = len + 1" "len + 1 \<le> length data" "decode_body (data ! 0) (take (len - 4) (drop 5 data)) = Inr m"
proof -
  from assms have len5: "\<not> length data < 5" by (auto simp: decode_message_def)
  then have "0 < length data" by linarith
  with assms len5 have *: "\<not> sint (i32_from_be (data ! 1) (data ! 2) (data ! 3) (data ! 4)) < 4"
    "let len = nat (sint (i32_from_be (data ! 1) (data ! 2) (data ! 3) (data ! 4))) in
       \<not> length data < len + 1 \<and> n = len + 1 \<and> decode_body (data ! 0) (take (len - 4) (drop 5 data)) = Inr m"
    by (auto simp: decode_message_def read_i32_ok Let_def try_bind_eq_Inr eval_nat_numeral split: if_splits)
  show ?thesis
    by (rule that [of "nat (sint (i32_from_be (data ! 1) (data ! 2) (data ! 3) (data ! 4)))"])
      (use * in \<open>auto simp: Let_def\<close>)
qed

lemma decode_message_extend:
  assumes "decode_message data = Inr (m, n)"
  shows "decode_message (data @ later) = Inr (m, n)"
proof -
  obtain len where len: "sint (i32_from_be (data ! 1) (data ! 2) (data ! 3) (data ! 4)) = int len"
    "4 \<le> len" "n = len + 1" "len + 1 \<le> length data" "decode_body (data ! 0) (take (len - 4) (drop 5 data)) = Inr m"
    using decode_message_frame [OF assms] .
  have "data \<noteq> []" using len(4) by auto
  have nth: "(data @ later) ! k = data ! k" if "k < 5" for k using that len(2,4) by (simp add: nth_append)
  have "read_i32 (data @ later) 1 = Inr (i32_from_be (data ! 1) (data ! 2) (data ! 3) (data ! 4))"
    using len nth [of 1] nth [of 2] nth [of 3] nth [of 4] by (simp add: read_i32_ok eval_nat_numeral)
  moreover have "byte_at (data @ later) 0 = Inr (data ! 0)"
    using \<open>data \<noteq> []\<close> nth [of 0] by (simp add: byte_at_def)
  moreover have "slice (data @ later) 5 (len + 1) = Inr (take (len - 4) (drop 5 data))"
    using len by (simp add: slice_def)
  ultimately show ?thesis
    using len by (simp add: decode_message_def Let_def)
qed

section \<open>Bounds\<close>

text \<open>The limits on what a decoded message holds.\<close>

fun within_limits :: "backend_message \<Rightarrow> bool" where
  "within_limits (Authentication (Sasl ms)) = (length ms \<le> MAX_SASL_MECHANISMS)"
| "within_limits (Authentication (Md5Password salt)) = (length salt = 4)"
| "within_limits (DataRow fs) = (length fs \<le> MAX_FIELD_COUNT)"
| "within_limits (RowDescription fs) = (length fs \<le> MAX_FIELD_COUNT)"
| "within_limits _ = True"

definition returns_only :: "('a \<Rightarrow> bool) \<Rightarrow> 'a io_result \<Rightarrow> bool" where
  "returns_only P r \<longleftrightarrow> (\<forall>x. r = Inr x \<longrightarrow> P x)"

lemma returns_only_simps [simp]: "returns_only P (Inr x) = P x" "returns_only P (Inl e)"
  by (simp_all add: returns_only_def)

lemma returns_only_bind: "(\<And>x. r = Inr x \<Longrightarrow> returns_only P (f x)) \<Longrightarrow> returns_only P (try_bind r f)"
  by (cases r) auto

lemma sasl_mechanisms_limit:
  "length ms \<le> MAX_SASL_MECHANISMS \<Longrightarrow>
   returns_only (\<lambda>ms'. length ms' \<le> MAX_SASL_MECHANISMS) (sasl_mechanisms data off ms)"
proof (induction "length data - off" arbitrary: off ms rule: less_induct)
  case less
  show ?case
    by (subst sasl_mechanisms.simps)
      (use less.prems in \<open>auto simp: Let_def intro!: returns_only_bind less.hyps diff_less_mono2 split: option.splits
        dest!: find_terminator_Some\<close>)
qed

lemma length_row_fields: "returns_only (\<lambda>fs. length fs = n) (decode_row_fields n data off)"
proof (induction n arbitrary: off)
  case (Suc n)
  then have "decode_row_fields n data k = Inr fs \<Longrightarrow> length fs = n" for k fs by (simp add: returns_only_def)
  then show ?case by (auto simp: Let_def intro!: returns_only_bind)
qed simp

lemma length_descriptions: "returns_only (\<lambda>fs. length fs = n) (decode_descriptions n data off)"
proof (induction n arbitrary: off)
  case (Suc n)
  then have "decode_descriptions n data k = Inr fs \<Longrightarrow> length fs = n" for k fs by (simp add: returns_only_def)
  then show ?case by (auto simp: Let_def intro!: returns_only_bind split: option.splits)
qed simp

lemma authentication_limits: "returns_only within_limits (decode_authentication data)"
  using sasl_mechanisms_limit [of "[]"]
  unfolding decode_authentication_def Let_def
  by (auto simp: try_bind_eq_Inr slice_def returns_only_def split: if_splits)

lemma rows_limits:
  "returns_only within_limits (decode_data_row data)" "returns_only within_limits (decode_row_description data)"
  using field_count_bounds length_row_fields length_descriptions
  by (auto simp: decode_data_row_def decode_row_description_def try_bind_eq_Inr returns_only_def)

lemma other_limits:
  "returns_only within_limits (decode_backend_key_data data)" "returns_only within_limits (decode_command_complete data)"
  "returns_only within_limits (decode_error_response data)" "returns_only within_limits (decode_notice_response data)"
  "returns_only within_limits (decode_parameter_status data)" "returns_only within_limits (decode_ready_for_query data)"
  by (auto simp: decode_backend_key_data_def decode_command_complete_def decode_error_response_def
      decode_notice_response_def decode_parameter_status_def decode_ready_for_query_def Let_def
      intro!: returns_only_bind split: option.splits)

lemma body_limits: "decode_body tag data = Inr m \<Longrightarrow> within_limits m"
proof -
  have "returns_only within_limits (decode_body tag data)"
    by (simp add: decode_body_def authentication_limits rows_limits other_limits)
  then show "decode_body tag data = Inr m \<Longrightarrow> within_limits m" by (simp add: returns_only_def)
qed

section \<open>Properties\<close>

text \<open>
  C6. No input makes the decoder panic: every index and every slice of \<open>decode_message\<close> and of
  the functions it calls is in range, whatever the server sends.
\<close>

theorem decode_message_no_panic: "decode_message data \<noteq> Inl Panic"
  using calm_message [of data] by (simp add: calm_def)

text \<open>
  C5. The decoder inverts the documented encoding: a message within the limits, laid out as the
  protocol says and followed by anything, is decoded to that message, and exactly its frame is
  consumed.
\<close>

theorem decode_message_round_trip:
  assumes "frame_ok m"
  shows "decode_message (enc_backend m @ rest) = Inr (m, length (enc_backend m))"
proof -
  have "4 + length (enc_body m) < 2 ^ 31" using assms by (simp add: frame_ok_def)
  from decode_frame [OF this decode_body_enc [OF assms], of rest] show ?thesis
    by (simp add: enc_backend_def)
qed

theorem decode_message_round_trip_witness:
  "decode_message (enc_backend (DataRow [Some [104, 105], None]) @ [7]) = Inr (DataRow [Some [104, 105], None], 17)"
proof -
  have "length (enc_backend (DataRow [Some [104, 105], None])) = 17" by (simp add: enc_backend_def)
  with decode_message_round_trip [of "DataRow [Some [104, 105], None]" "[7]"] show ?thesis
    by (simp add: frame_ok_def MAX_FIELD_COUNT_def)
qed

text \<open>
  What a successful decoding consumes and allocates: at least the header and at most the buffer,
  and lists no longer than the limits of the decoder.
\<close>

theorem decode_message_bounds:
  assumes "decode_message data = Inr (m, n)"
  shows "5 \<le> n \<and> n \<le> length data \<and> within_limits m"
  using decode_message_frame [OF assms] body_limits by (metis add_le_mono1 numeral_plus_one semiring_norm(5) semiring_norm(2))

theorem decode_message_bounds_witness: "5 \<le> (6::nat) \<and> 6 \<le> length ([90, 0, 0, 0, 5, 73] :: bytes) \<and> within_limits (ReadyForQuery 73)"
  by (rule decode_message_bounds) code_simp

text \<open>
  Decoding is stable: bytes that arrive later do not change a message that was complete, so the
  reader may decode as soon as it has a frame.
\<close>

theorem decode_message_stable:
  assumes "decode_message data = Inr (m, n)"
  shows "decode_message (data @ later) = Inr (m, n) \<and> decode_message (take n data) = Inr (m, n)"
proof -
  obtain len where len: "sint (i32_from_be (data ! 1) (data ! 2) (data ! 3) (data ! 4)) = int len"
    "4 \<le> len" "n = len + 1" "len + 1 \<le> length data" "decode_body (data ! 0) (take (len - 4) (drop 5 data)) = Inr m"
    using decode_message_frame [OF assms] .
  have "read_i32 (take n data) 1 = Inr (i32_from_be (data ! 1) (data ! 2) (data ! 3) (data ! 4))"
    using len by (simp add: read_i32_ok eval_nat_numeral)
  moreover have "byte_at (take n data) 0 = Inr (data ! 0)" using len by (simp add: byte_at_def)
  moreover have "slice (take n data) 5 (len + 1) = Inr (take (len - 4) (drop 5 data))"
    using len by (simp add: slice_def drop_take)
  ultimately have "decode_message (take n data) = Inr (m, n)"
    using len by (simp add: decode_message_def Let_def)
  with decode_message_extend [OF assms] show ?thesis by simp
qed

theorem decode_message_stable_witness:
  "decode_message ([90, 0, 0, 0, 5, 73] @ [90, 0]) = Inr (ReadyForQuery 73, 6)"
  using decode_message_stable [of "[90, 0, 0, 0, 5, 73]" "ReadyForQuery 73" 6 "[90, 0]"] by code_simp

text \<open>
  A frame that has not arrived completely is reported as an unexpected end of input and never as
  invalid data, so a reader that waits for more bytes on that error loses nothing.
\<close>

theorem decode_message_incomplete:
  assumes "frame_ok m" and "k < length (enc_backend m)"
  shows "\<exists>s. decode_message (take k (enc_backend m)) = Inl (UnexpectedEof s)"
proof (cases "k < 5")
  case True
  then have "length (take k (enc_backend m)) < 5" by simp
  then show ?thesis unfolding decode_message_def by (simp only: if_True) blast
next
  case False
  let ?body = "enc_body m" and ?len = "4 + length (enc_body m)"
  have small: "?len < 2 ^ 31" using assms(1) by (simp add: frame_ok_def)
  have data: "take k (enc_backend m) = enc_tag m # i32_to_be (of_nat ?len) @ take (k - 5) ?body"
    using False by (cases k) (simp_all add: enc_backend_def take_Cons' eval_nat_numeral)
  have "read_i32 (take k (enc_backend m)) 1 = Inr (of_nat ?len)"
    by (rule read_i32_at) (simp add: data)
  moreover have "sint (of_nat ?len :: i32) = int ?len" by (rule sint_small [OF small])
  moreover have "length (take k (enc_backend m)) < ?len + 1" "\<not> length (take k (enc_backend m)) < 5"
    using assms(2) False by (simp_all add: enc_backend_def)
  moreover have "byte_at (take k (enc_backend m)) 0 = Inr (enc_tag m)" by (simp add: data)
  ultimately show ?thesis by (simp add: decode_message_def Let_def nat_add_distrib)
qed

theorem decode_message_incomplete_witness:
  "\<exists>s. decode_message (take 5 (enc_backend (ReadyForQuery 73))) = Inl (UnexpectedEof s)"
  by (rule decode_message_incomplete) (simp_all add: frame_ok_def enc_backend_def)

text \<open>The documented layout of the client's messages.\<close>

fun frontend_tag :: "frontend_message \<Rightarrow> bytes" where
  "frontend_tag (Startup _ _) = []"
| "frontend_tag (Query _) = [81]"
| "frontend_tag Terminate = [88]"
| "frontend_tag _ = [112]"

fun frontend_body :: "frontend_message \<Rightarrow> bytes" where
  "frontend_body (Startup version params) =
     i32_to_be version @ concat (map (\<lambda>(k, v). c_text k @ c_text v) params) @ [0]"
| "frontend_body (Password p) = c_text p"
| "frontend_body (Query q) = c_text q"
| "frontend_body Terminate = []"
| "frontend_body (SaslInitialResponse m d) = c_text m @ i32_to_be (of_nat (length d)) @ d"
| "frontend_body (SaslResponse d) = d"

lemma fold_params:
  "fold (\<lambda>(key, val) b. b @ as_bytes key @ [0] @ as_bytes val @ [0]) params buf =
   buf @ concat (map (\<lambda>(k, v). c_text k @ c_text v) params)"
  by (induction params arbitrary: buf) (auto simp: c_text_def)

lemma fill_length_frame:
  "fill_length (length pre) (pre @ i32_to_be 0 @ body) = pre @ i32_to_be (of_nat (4 + length body)) @ body"
  by (simp add: fill_length_def)

lemma encode_message_frame:
  "encode_message msg = frontend_tag msg @ i32_to_be (of_nat (4 + length (frontend_body msg))) @ frontend_body msg"
proof (cases msg)
  case (Startup version params)
  have "encode_startup [] version params =
      fill_length (length ([] :: bytes)) ([] @ i32_to_be 0 @ frontend_body (Startup version params))"
    unfolding encode_startup_def Let_def fold_params by simp
  also have "\<dots> = [] @ i32_to_be (of_nat (4 + length (frontend_body (Startup version params)))) @
      frontend_body (Startup version params)"
    by (rule fill_length_frame)
  finally show ?thesis by (simp add: Startup encode_message_def)
qed (use fill_length_frame [of "[112]"] fill_length_frame [of "[81]"] in
    \<open>simp_all add: encode_message_def encode_password_def encode_query_def encode_terminate_def
      encode_sasl_initial_response_def encode_sasl_response_def c_text_def Let_def\<close>)

text \<open>
  The client's messages are well framed: after the tag (none for the startup message) the four
  bytes of the length, read back as the server reads them, are the number of bytes from there to
  the end, for every message shorter than two gigabytes, and the body is the documented one.
\<close>

theorem encode_message_framed:
  assumes "4 + length (frontend_body msg) < 2 ^ 31"
  shows "encode_message msg =
      frontend_tag msg @ i32_to_be (of_nat (4 + length (frontend_body msg))) @ frontend_body msg \<and>
    (\<exists>w. read_i32 (encode_message msg) (length (frontend_tag msg)) = Inr w \<and>
      sint w = int (length (encode_message msg) - length (frontend_tag msg)))"
proof -
  have "read_i32 (encode_message msg) (length (frontend_tag msg)) = Inr (of_nat (4 + length (frontend_body msg)))"
    by (rule read_i32_at) (simp add: encode_message_frame)
  moreover have "length (encode_message msg) - length (frontend_tag msg) = 4 + length (frontend_body msg)"
    by (simp add: encode_message_frame)
  ultimately show ?thesis using sint_small [OF assms] encode_message_frame by metis
qed

theorem encode_message_framed_witness:
  "\<exists>w. read_i32 (encode_message (Query [83, 233])) 1 = Inr w \<and>
     sint w = int (length (encode_message (Query [83, 233])) - 1)"
proof -
  have "4 + length (frontend_body (Query [83, 233])) < 2 ^ 31" by (simp add: c_text_def as_bytes_def utf8_char_def)
  from encode_message_framed [OF this]
  have "\<exists>w. read_i32 (encode_message (Query [83, 233])) (length (frontend_tag (Query [83, 233]))) = Inr w \<and>
     sint w = int (length (encode_message (Query [83, 233])) - length (frontend_tag (Query [83, 233])))" by (rule conjunct2)
  then show ?thesis unfolding frontend_tag.simps by (simp only: list.size add_0 One_nat_def)
qed

end
