(* ===== verification/Multimap.thy ===== *)
theory Multimap
  imports Prelude "HOL-Library.AList"
begin

text \<open>
  The hash maps of hash sets of strings that the cache layer keeps
  (\<open>HashMap<String, HashSet<String>>\<close>). A map is an association list with distinct keys and
  a set a list without duplicates; the order of the lists is the iteration order, of which the
  standard library promises nothing, so no property below depends on it. The locale
  \<open>multimap\<close> states what the clients rely on: the relation a map stands for, and how insertion
  and removal change it.
\<close>

type_synonym string_multimap = "(string \<times> string list) list"

definition mm_get :: "string_multimap \<Rightarrow> string \<Rightarrow> string list" where
  "mm_get m k = (case map_of m k of Some xs \<Rightarrow> xs | None \<Rightarrow> [])"

text \<open>\<open>map.entry(k).or_default().insert(v)\<close>\<close>

definition mm_insert :: "string \<Rightarrow> string \<Rightarrow> string_multimap \<Rightarrow> string_multimap" where
  "mm_insert k v m = AList.update k (List.insert v (mm_get m k)) m"

text \<open>\<open>if let Some(s) = map.get_mut(k) { s.remove(v); if s.is_empty() { map.remove(k) } }\<close>\<close>

definition mm_remove :: "string \<Rightarrow> string \<Rightarrow> string_multimap \<Rightarrow> string_multimap" where
  "mm_remove k v m =
     (case map_of m k of
        None \<Rightarrow> m
      | Some xs \<Rightarrow>
          (let ys = removeAll v xs in
           if ys = [] then AList.delete k m else AList.update k ys m))"

definition mm_keys :: "string_multimap \<Rightarrow> string list" where
  "mm_keys m = map fst m"

definition mm_count :: "string_multimap \<Rightarrow> nat" where
  "mm_count m = sum_list (map (length \<circ> snd) m)"

text \<open>Well-formedness and the relation a map stands for.\<close>

definition mm_wf :: "string_multimap \<Rightarrow> bool" where
  "mm_wf m \<longleftrightarrow> distinct (map fst m) \<and> (\<forall>(k, xs) \<in> set m. distinct xs \<and> xs \<noteq> [])"

definition mm_rel :: "string_multimap \<Rightarrow> (string \<times> string) set" where
  "mm_rel m = {(k, v). v \<in> set (mm_get m k)}"

lemma mm_get_Nil [simp]: "mm_get [] k = []"
  by (simp add: mm_get_def)

lemma mm_wf_Nil [simp]: "mm_wf []"
  by (simp add: mm_wf_def)

lemma mm_rel_Nil [simp]: "mm_rel [] = {}"
  by (simp add: mm_rel_def)

lemma mm_get_iff: "v \<in> set (mm_get m k) \<longleftrightarrow> (k, v) \<in> mm_rel m"
  by (simp add: mm_rel_def)

lemma mm_get_update: "mm_get (AList.update k xs m) j = (if j = k then xs else mm_get m j)"
  by (simp add: mm_get_def update_conv')

lemma mm_get_delete: "mm_get (AList.delete k m) j = (if j = k then [] else mm_get m j)"
  by (simp add: mm_get_def delete_conv')

lemma mm_rel_insert: "mm_rel (mm_insert k v m) = insert (k, v) (mm_rel m)"
  by (auto simp: mm_rel_def mm_insert_def mm_get_update split: if_splits)

lemma mm_rel_remove: "mm_rel (mm_remove k v m) = mm_rel m - {(k, v)}"
proof (cases "map_of m k")
  case None
  then show ?thesis by (auto simp: mm_remove_def mm_rel_def mm_get_def)
next
  case (Some xs)
  then have get: "mm_get m k = xs" by (simp add: mm_get_def)
  show ?thesis
  proof (cases "removeAll v xs = []")
    case True
    then have "set xs \<subseteq> {v}" by (metis Diff_eq_empty_iff empty_set set_removeAll)
    with True get Some show ?thesis
      by (auto simp: mm_remove_def mm_rel_def mm_get_delete split: if_splits)
  next
    case False
    with get Some show ?thesis
      by (auto simp: mm_remove_def mm_rel_def mm_get_update split: if_splits)
  qed
qed

lemma set_update_subset: "set (AList.update k v m) \<subseteq> insert (k, v) (set m)"
  by (induction m) (auto split: if_splits)

lemma mm_wf_update:
  "mm_wf m \<Longrightarrow> distinct xs \<Longrightarrow> xs \<noteq> [] \<Longrightarrow> mm_wf (AList.update k xs m)"
  using set_update_subset [of k xs m] by (auto simp: mm_wf_def distinct_update)

lemma mm_wf_delete: "mm_wf m \<Longrightarrow> mm_wf (AList.delete k m)"
  by (auto simp: mm_wf_def distinct_delete) (auto simp: AList.delete_eq)

lemma mm_wf_get: "mm_wf m \<Longrightarrow> distinct (mm_get m k)"
  by (auto simp: mm_wf_def mm_get_def dest!: map_of_SomeD split: option.splits)

lemma mm_wf_insert: "mm_wf m \<Longrightarrow> mm_wf (mm_insert k v m)"
proof -
  assume wf: "mm_wf m"
  have "List.insert v (mm_get m k) \<noteq> []" by (metis empty_not_insert empty_set set_insert)
  with wf show ?thesis by (simp add: mm_insert_def mm_wf_update mm_wf_get distinct_insert)
qed

lemma mm_wf_remove: "mm_wf m \<Longrightarrow> mm_wf (mm_remove k v m)"
  using mm_wf_get [of m k]
  by (auto simp: mm_remove_def Let_def mm_wf_update mm_wf_delete mm_get_def distinct_removeAll split: option.splits)

lemma mm_wf_Cons: "mm_wf ((k, xs) # m) \<longleftrightarrow> k \<notin> fst ` set m \<and> distinct xs \<and> xs \<noteq> [] \<and> mm_wf m"
  by (auto simp: mm_wf_def)

lemma mm_rel_keys: "(k, v) \<in> mm_rel m \<Longrightarrow> k \<in> fst ` set m"
  by (cases "map_of m k") (auto simp: mm_rel_def mm_get_def dest: map_of_SomeD intro: rev_image_eqI)

lemma mm_get_Cons: "mm_get ((k, xs) # m) j = (if j = k then xs else mm_get m j)"
  by (simp add: mm_get_def)

lemma mm_rel_Cons: "k \<notin> fst ` set m \<Longrightarrow> mm_rel ((k, xs) # m) = Pair k ` set xs \<union> mm_rel m"
  using mm_rel_keys [of k _ m] by (auto simp: mm_get_Cons mm_get_iff [symmetric] split: if_splits) blast

lemma mm_keys_Domain: "mm_wf m \<Longrightarrow> set (mm_keys m) = Domain (mm_rel m)"
proof (induction m)
  case (Cons e m)
  obtain k xs where e: "e = (k, xs)" by force
  with Cons have "k \<notin> fst ` set m" "xs \<noteq> []" "set (mm_keys m) = Domain (mm_rel m)"
    by (simp_all add: mm_wf_Cons)
  then show ?case by (auto simp: e mm_rel_Cons mm_keys_def neq_Nil_conv)
qed (simp add: mm_keys_def)

lemma mm_rel_union: "mm_wf m \<Longrightarrow> mm_rel m = (\<Union>(k, xs) \<in> set m. Pair k ` set xs)"
proof (induction m)
  case (Cons e m)
  then show ?case by (cases e) (simp add: mm_wf_Cons mm_rel_Cons)
qed simp

lemma finite_mm_rel [simp]: "mm_wf m \<Longrightarrow> finite (mm_rel m)"
  by (auto simp: mm_rel_union)

lemma mm_count_card: "mm_wf m \<Longrightarrow> mm_count m = card (mm_rel m)"
proof (induction m)
  case (Cons e m)
  obtain k xs where e: "e = (k, xs)" by force
  from Cons.prems have wf: "k \<notin> fst ` set m" "distinct xs" "mm_wf m" by (simp_all add: e mm_wf_Cons)
  then have "Pair k ` set xs \<inter> mm_rel m = {}" by (auto dest: mm_rel_keys)
  then have "card (mm_rel (e # m)) = card (Pair k ` set xs) + card (mm_rel m)"
    using wf by (simp add: e mm_rel_Cons card_Un_disjoint)
  also have "card (Pair k ` set xs) = length xs"
    using wf(2) by (simp add: card_image inj_on_def distinct_card)
  finally show ?case using Cons.IH wf(3) by (simp add: e mm_count_def)
qed (simp add: mm_count_def)

text \<open>
  The interface: a map stands for a finite relation, its keys are the domain, and insertion and
  removal add and delete one pair. A client that keeps a relation in two maps, one per
  direction, keeps them converse to each other.
\<close>

locale multimap =
  fixes wf :: "'m \<Rightarrow> bool" and rel :: "'m \<Rightarrow> ('k \<times> 'k) set"
    and ins :: "'k \<Rightarrow> 'k \<Rightarrow> 'm \<Rightarrow> 'm" and rem :: "'k \<Rightarrow> 'k \<Rightarrow> 'm \<Rightarrow> 'm"
  assumes wf_ins: "wf m \<Longrightarrow> wf (ins k v m)" and wf_rem: "wf m \<Longrightarrow> wf (rem k v m)"
    and rel_ins: "rel (ins k v m) = insert (k, v) (rel m)"
    and rel_rem: "rel (rem k v m) = rel m - {(k, v)}"
begin

lemma converse_ins: "rel f = (rel r)\<inverse> \<Longrightarrow> rel (ins a b f) = (rel (ins b a r))\<inverse>"
  by (auto simp: rel_ins)

lemma fold_ins:
  "wf m \<Longrightarrow> wf (fold (\<lambda>k. ins k v) ks m) \<and> rel (fold (\<lambda>k. ins k v) ks m) = rel m \<union> set ks \<times> {v}"
  by (induction ks arbitrary: m) (auto simp: wf_ins rel_ins)

lemma fold_rem:
  "wf m \<Longrightarrow> wf (fold (\<lambda>k. rem k v) ks m) \<and> rel (fold (\<lambda>k. rem k v) ks m) = rel m - set ks \<times> {v}"
  by (induction ks arbitrary: m) (auto simp: wf_rem rel_rem)

end

interpretation mm: multimap mm_wf mm_rel mm_insert mm_remove
  by unfold_locales (simp_all add: mm_wf_insert mm_wf_remove mm_rel_insert mm_rel_remove)

end
