(* ===== verification/Cascade_Invalidator.thy ===== *)
theory Cascade_Invalidator
  imports Multimap Json
begin

text \<open>
  Cascading cache invalidation (\<open>fraiseql-core/src/cache/cascade_invalidator.rs\<close>): the two
  edge maps and the statistics as a record, every method as a function on it, and the three
  breadth-first searches as recursive functions with their termination proofs. A float is kept
  as the quotient the code computes it from.
\<close>

section \<open>State\<close>

datatype f64_quotient = F64Zero | U64Quotient u64 u64

record invalidation_stats =
  total_cascades :: u64
  total_invalidated :: u64
  average_affected :: f64_quotient
  max_affected :: nat

definition stats_default :: invalidation_stats where
  "stats_default = \<lparr>total_cascades = 0, total_invalidated = 0, average_affected = F64Zero, max_affected = 0\<rparr>"

record cascade_invalidator =
  view_dependencies :: string_multimap
  dependents :: string_multimap
  inv_stats :: invalidation_stats

definition invalidator_new :: cascade_invalidator where
  "invalidator_new = \<lparr>view_dependencies = [], dependents = [], inv_stats = stats_default\<rparr>"

datatype cascade_error = SelfDependency | WouldCycle string string

section \<open>Searches\<close>

text \<open>All views a map mentions as a target; the searches only ever queue these.\<close>

definition mm_targets :: "string_multimap \<Rightarrow> string set" where
  "mm_targets m = set (concat (map snd m))"

lemma finite_targets [simp]: "finite (mm_targets m)"
  by (simp add: mm_targets_def)

lemma get_targets: "v \<in> set (mm_get m k) \<Longrightarrow> v \<in> mm_targets m"
  by (cases "map_of m k") (auto simp: mm_get_def mm_targets_def dest!: map_of_SomeD intro: bexI [rotated])

definition unvisited :: "string_multimap \<Rightarrow> string set \<Rightarrow> string list \<Rightarrow> nat" where
  "unvisited m visited queue = card ((mm_targets m \<union> set queue) - visited)"

lemma unvisited_pop: "current \<in> visited \<Longrightarrow> unvisited m visited (current # queue) = unvisited m visited queue"
  unfolding unvisited_def by (rule arg_cong [of _ _ card]) auto

lemma unvisited_visit:
  assumes "current \<notin> visited" and "set new \<subseteq> set (mm_get m current)"
  shows "unvisited m (insert current visited) (queue @ new) < unvisited m visited (current # queue)"
  unfolding unvisited_def
  using assms get_targets [of _ m current] by (intro psubset_card_mono) auto

text \<open>
  \<open>can_reach\<close>: pop; stop at the target; skip what was visited; otherwise queue the
  dependencies that were not visited yet.
\<close>

function reach_loop :: "string_multimap \<Rightarrow> string \<Rightarrow> string set \<Rightarrow> string list \<Rightarrow> bool" where
  "reach_loop m target visited [] = False"
| "reach_loop m target visited (current # queue) =
     (if current = target then True
      else if current \<in> visited then reach_loop m target visited queue
      else (let visited' = insert current visited in
            reach_loop m target visited' (queue @ filter (\<lambda>dep. dep \<notin> visited') (mm_get m current))))"
  by pat_completeness auto

termination
  by (relation "(\<lambda>(m, t, vis, q). unvisited m vis q) <*mlex*> measure (\<lambda>(m, t, vis, q). length q)")
    (simp_all add: wf_mlex unvisited_pop unvisited_visit mlex_iff Let_def)

definition can_reach :: "cascade_invalidator \<Rightarrow> string \<Rightarrow> string \<Rightarrow> bool" where
  "can_reach ci from target = reach_loop (view_dependencies ci) target {} [from]"

text \<open>
  \<open>cascade_invalidate\<close> and \<open>get_transitive_dependents\<close>: the inner loop marks and queues what
  is not marked yet.
\<close>

fun mark_all :: "string list \<Rightarrow> string set \<times> string list \<Rightarrow> string set \<times> string list" where
  "mark_all [] (marked, queue) = (marked, queue)"
| "mark_all (d # ds) (marked, queue) =
     (if d \<notin> marked then mark_all ds (insert d marked, queue @ [d]) else mark_all ds (marked, queue))"

lemma mark_all_spec:
  assumes "mark_all ds (marked, queue) = (marked', queue')"
  shows "marked' = marked \<union> set ds \<and> (\<exists>new. queue' = queue @ new \<and> distinct new \<and> set new = set ds - marked)"
  using assms
proof (induction ds "(marked, queue)" arbitrary: marked queue rule: mark_all.induct)
  case (2 d ds marked queue)
  show ?case
  proof (cases "d \<in> marked")
    case True
    with 2 show ?thesis by auto
  next
    case False
    with 2 obtain new where new: "marked' = insert d marked \<union> set ds" "queue' = (queue @ [d]) @ new"
      "distinct new" "set new = set ds - insert d marked"
      by auto
    with False have "queue' = queue @ (d # new) \<and> distinct (d # new) \<and> set (d # new) = set (d # ds) - marked"
      by auto
    with new(1) show ?thesis by auto
  qed
qed simp

function mark_loop :: "string_multimap \<Rightarrow> string set \<Rightarrow> string list \<Rightarrow> string set" where
  "mark_loop m marked [] = marked"
| "mark_loop m marked (current # queue) =
     (case mark_all (mm_get m current) (marked, queue) of (marked', queue') \<Rightarrow> mark_loop m marked' queue')"
  by pat_completeness auto

termination
proof (relation "measure (\<lambda>(m, marked, q). card (mm_targets m - marked) + length q)", goal_cases)
  case (2 m marked current queue marked' queue')
  then have "mark_all (mm_get m current) (marked, queue) = (marked', queue')" by simp
  from mark_all_spec [OF this] obtain new where new: "marked' = marked \<union> set (mm_get m current)"
    "queue' = queue @ new" "distinct new" "set new = set (mm_get m current) - marked"
    by blast
  then have "set new \<subseteq> mm_targets m - marked" and "mm_targets m - marked' = (mm_targets m - marked) - set new"
    by (auto dest: get_targets)
  then have "card (mm_targets m - marked') + length new = card (mm_targets m - marked)"
    using new(3) by (metis card_Diff_subset card_mono distinct_card finite_Diff finite_targets le_add_diff_inverse2 List.finite_set)
  with new(2) show ?case by simp
qed simp

text \<open>
  \<open>has_dependency_path\<close>: the test is on the dependencies of what is popped, and all of them
  are queued.
\<close>

function path_loop :: "string_multimap \<Rightarrow> string \<Rightarrow> string set \<Rightarrow> string list \<Rightarrow> bool" where
  "path_loop m target visited [] = False"
| "path_loop m target visited (current # queue) =
     (if current \<in> visited then path_loop m target visited queue
      else if target \<in> set (mm_get m current) then True
      else path_loop m target (insert current visited) (queue @ mm_get m current))"
  by pat_completeness auto

termination
  by (relation "(\<lambda>(m, t, vis, q). unvisited m vis q) <*mlex*> measure (\<lambda>(m, t, vis, q). length q)")
    (simp_all add: wf_mlex unvisited_pop unvisited_visit mlex_iff Let_def)

section \<open>Operations\<close>

definition add_dependency ::
  "cascade_invalidator \<Rightarrow> string \<Rightarrow> string \<Rightarrow> cascade_error + cascade_invalidator" where
  "add_dependency ci dependent_view dependency_view =
     (if dependent_view = dependency_view then Inl SelfDependency
      else if can_reach ci dependency_view dependent_view then Inl (WouldCycle dependent_view dependency_view)
      else Inr (ci\<lparr>view_dependencies := mm_insert dependent_view dependency_view (view_dependencies ci),
                  dependents := mm_insert dependency_view dependent_view (dependents ci)\<rparr>))"

definition update_stats :: "nat \<Rightarrow> invalidation_stats \<Rightarrow> invalidation_stats" where
  "update_stats n s =
     (let cascades = total_cascades s + 1; invalidated = total_invalidated s + of_nat n in
      s\<lparr>total_cascades := cascades, total_invalidated := invalidated,
        max_affected := max (max_affected s) n,
        average_affected :=
          (if cascades > 0 then U64Quotient invalidated cascades else average_affected s)\<rparr>)"

definition cascade_invalidate :: "cascade_invalidator \<Rightarrow> string \<Rightarrow> string set \<times> cascade_invalidator" where
  "cascade_invalidate ci view =
     (let invalidated = mark_loop (dependents ci) {view} [view] in
      (invalidated, ci\<lparr>inv_stats := update_stats (card invalidated) (inv_stats ci)\<rparr>))"

definition get_direct_dependents :: "cascade_invalidator \<Rightarrow> string \<Rightarrow> string list" where
  "get_direct_dependents ci view = mm_get (dependents ci) view"

definition get_direct_dependencies :: "cascade_invalidator \<Rightarrow> string \<Rightarrow> string list" where
  "get_direct_dependencies ci view = mm_get (view_dependencies ci) view"

definition get_transitive_dependents :: "cascade_invalidator \<Rightarrow> string \<Rightarrow> string set" where
  "get_transitive_dependents ci view = mark_loop (dependents ci) {view} [view]"

definition has_dependency_path :: "cascade_invalidator \<Rightarrow> string \<Rightarrow> string \<Rightarrow> bool" where
  "has_dependency_path ci dependent dependency = path_loop (view_dependencies ci) dependency {} [dependent]"

definition clear_invalidator :: "cascade_invalidator \<Rightarrow> cascade_invalidator" where
  "clear_invalidator ci = ci\<lparr>view_dependencies := [], dependents := [], inv_stats := stats_default\<rparr>"

definition invalidator_view_count :: "cascade_invalidator \<Rightarrow> nat" where
  "invalidator_view_count ci = card (set (mm_keys (dependents ci)) \<union> set (mm_keys (view_dependencies ci)))"

definition dependency_count :: "cascade_invalidator \<Rightarrow> nat" where
  "dependency_count ci = mm_count (view_dependencies ci)"

section \<open>Correctness of the searches\<close>

text \<open>A path that starts in the visited part and ends outside leaves it through the queue.\<close>

lemma rtrancl_exit:
  "(x, t) \<in> E\<^sup>* \<Longrightarrow> x \<in> V \<Longrightarrow> t \<notin> V \<Longrightarrow> E `` V \<subseteq> V \<union> Q \<Longrightarrow> \<exists>y \<in> Q. (y, t) \<in> E\<^sup>*"
proof (induction rule: converse_rtrancl_induct)
  case (step x y)
  then show ?case by (cases "y \<in> V") blast+
qed simp

lemma trancl_exit:
  "(x, t) \<in> E\<^sup>+ \<Longrightarrow> x \<in> V \<Longrightarrow> t \<notin> E `` V \<Longrightarrow> E `` V \<subseteq> V \<union> Q \<Longrightarrow> \<exists>y \<in> Q. (y, t) \<in> E\<^sup>+"
proof (induction rule: converse_trancl_induct)
  case (step x y)
  then show ?case by (cases "y \<in> V") blast+
qed blast

lemma reach_loop_iff:
  "target \<notin> visited \<Longrightarrow> mm_rel m `` visited \<subseteq> visited \<union> set queue \<Longrightarrow>
   reach_loop m target visited queue \<longleftrightarrow> (\<exists>q \<in> set queue. (q, target) \<in> (mm_rel m)\<^sup>*)"
proof (induction m target visited queue rule: reach_loop.induct)
  case (2 m target visited current queue)
  let ?E = "mm_rel m" and ?visited = "insert current visited"
  let ?queue = "queue @ filter (\<lambda>dep. dep \<notin> ?visited) (mm_get m current)"
  consider "current = target" | "current \<noteq> target" "current \<in> visited" | "current \<noteq> target" "current \<notin> visited"
    by blast
  then show ?case
  proof cases
    case 1
    then show ?thesis by simp
  next
    case 2
    with "2.prems" have closed: "?E `` visited \<subseteq> visited \<union> set queue" by auto
    with 2 "2.prems" "2.IH"(1) have "reach_loop m target visited (current # queue) \<longleftrightarrow>
        (\<exists>q \<in> set queue. (q, target) \<in> ?E\<^sup>*)"
      by simp
    moreover have "(current, target) \<in> ?E\<^sup>* \<Longrightarrow> \<exists>q \<in> set queue. (q, target) \<in> ?E\<^sup>*"
      using rtrancl_exit [OF _ 2(2) "2.prems"(1) closed] .
    ultimately show ?thesis by auto
  next
    case 3
    have succ: "?E `` {current} = set (mm_get m current)" by (auto simp: mm_get_iff)
    have "?E `` ?visited = ?E `` visited \<union> set (mm_get m current)" using succ by blast
    with "2.prems"(2) have closed: "?E `` ?visited \<subseteq> ?visited \<union> set ?queue" by auto
    have out: "target \<notin> ?visited" using 3 "2.prems"(1) by simp
    have "reach_loop m target visited (current # queue) \<longleftrightarrow> (\<exists>q \<in> set ?queue. (q, target) \<in> ?E\<^sup>*)"
      using "2.IH"(2) [OF 3 refl out closed] 3 by (simp add: Let_def)
    moreover have "(current, target) \<in> ?E\<^sup>* \<Longrightarrow> \<exists>q \<in> set ?queue. (q, target) \<in> ?E\<^sup>*"
      using rtrancl_exit [OF _ insertI1 out closed] .
    moreover have "\<exists>q \<in> set (current # queue). (q, target) \<in> ?E\<^sup>*"
      if "q \<in> set ?queue" "(q, target) \<in> ?E\<^sup>*" for q
      using that by (auto simp: mm_get_iff intro: converse_rtrancl_into_rtrancl)
    ultimately show ?thesis by auto
  qed
qed simp

lemma path_loop_iff:
  "target \<notin> mm_rel m `` visited \<Longrightarrow> mm_rel m `` visited \<subseteq> visited \<union> set queue \<Longrightarrow>
   path_loop m target visited queue \<longleftrightarrow> (\<exists>q \<in> set queue. (q, target) \<in> (mm_rel m)\<^sup>+)"
proof (induction m target visited queue rule: path_loop.induct)
  case (2 m target visited current queue)
  let ?E = "mm_rel m" and ?visited = "insert current visited"
  let ?queue = "queue @ mm_get m current"
  have succ: "?E `` {current} = set (mm_get m current)" by (auto simp: mm_get_iff)
  consider "current \<in> visited" | "current \<notin> visited" "target \<in> set (mm_get m current)"
    | "current \<notin> visited" "target \<notin> set (mm_get m current)"
    by blast
  then show ?case
  proof cases
    case 1
    with "2.prems" have closed: "?E `` visited \<subseteq> visited \<union> set queue" by auto
    with 1 "2.prems" "2.IH"(1) have "path_loop m target visited (current # queue) \<longleftrightarrow>
        (\<exists>q \<in> set queue. (q, target) \<in> ?E\<^sup>+)"
      by simp
    moreover have "(current, target) \<in> ?E\<^sup>+ \<Longrightarrow> \<exists>q \<in> set queue. (q, target) \<in> ?E\<^sup>+"
      using trancl_exit [OF _ 1 "2.prems"(1) closed] .
    ultimately show ?thesis by auto
  next
    case 2
    then show ?thesis by (auto simp: mm_get_iff intro: r_into_trancl)
  next
    case 3
    have image: "?E `` ?visited = ?E `` visited \<union> set (mm_get m current)" using succ by blast
    with "2.prems"(2) have closed: "?E `` ?visited \<subseteq> ?visited \<union> set ?queue" by auto
    have out: "target \<notin> ?E `` ?visited" using 3 "2.prems"(1) image by simp
    have "path_loop m target visited (current # queue) \<longleftrightarrow> (\<exists>q \<in> set ?queue. (q, target) \<in> ?E\<^sup>+)"
      using "2.IH"(2) [OF 3 out closed] 3 by simp
    moreover have "(current, target) \<in> ?E\<^sup>+ \<Longrightarrow> \<exists>q \<in> set ?queue. (q, target) \<in> ?E\<^sup>+"
      using trancl_exit [OF _ insertI1 out closed] .
    moreover have "\<exists>q \<in> set (current # queue). (q, target) \<in> ?E\<^sup>+"
      if "q \<in> set ?queue" "(q, target) \<in> ?E\<^sup>+" for q
      using that by (auto simp: mm_get_iff intro: trancl_into_trancl2)
    ultimately show ?thesis by auto
  qed
qed simp

lemma mark_loop_eq:
  "set queue \<subseteq> marked \<Longrightarrow> mm_rel m `` (marked - set queue) \<subseteq> marked \<Longrightarrow>
   mark_loop m marked queue = (mm_rel m)\<^sup>* `` marked"
proof (induction m marked queue rule: mark_loop.induct)
  case (1 m marked)
  then show ?case by (simp add: Image_closed_trancl)
next
  case (2 m marked current queue)
  let ?E = "mm_rel m"
  obtain marked' queue' where mark: "mark_all (mm_get m current) (marked, queue) = (marked', queue')"
    by fastforce
  from mark_all_spec [OF this] obtain new where marked': "marked' = marked \<union> set (mm_get m current)"
    and queue': "queue' = queue @ new" and new: "set new = set (mm_get m current) - marked"
    by blast
  have succ: "?E `` {current} = set (mm_get m current)" by (auto simp: mm_get_iff)
  have "set queue' \<subseteq> marked'" using "2.prems"(1) marked' queue' new by auto
  moreover have "?E `` (marked' - set queue') \<subseteq> marked'"
  proof -
    have "marked' - set queue' \<subseteq> insert current (marked - set (current # queue))"
      using marked' queue' new by auto
    then have "?E `` (marked' - set queue') \<subseteq> ?E `` {current} \<union> ?E `` (marked - set (current # queue))"
      by blast
    with "2.prems"(2) succ marked' show ?thesis by blast
  qed
  ultimately have "mark_loop m marked (current # queue) = ?E\<^sup>* `` marked'"
    using "2.IH" [OF mark [symmetric]] mark by simp
  also have "\<dots> = ?E\<^sup>* `` marked"
    using "2.prems"(1) succ marked' by (auto intro: converse_rtrancl_into_rtrancl)
  finally show ?case .
qed

section \<open>Invariant\<close>

declare reach_loop.simps(2) [simp del] path_loop.simps(2) [simp del] mark_loop.simps(2) [simp del]

lemma acyclic_empty [simp]: "acyclic {}"
  by (simp add: acyclic_def)

text \<open>The dependency graph: an edge leads from a view to a view it depends on.\<close>

definition edges :: "cascade_invalidator \<Rightarrow> (string \<times> string) set" where
  "edges ci = mm_rel (view_dependencies ci)"

definition invalidator_ok :: "cascade_invalidator \<Rightarrow> bool" where
  "invalidator_ok ci \<longleftrightarrow>
     mm_wf (view_dependencies ci) \<and> mm_wf (dependents ci) \<and>
     mm_rel (view_dependencies ci) = (mm_rel (dependents ci))\<inverse> \<and> acyclic (edges ci)"

lemma can_reach_iff: "can_reach ci a b \<longleftrightarrow> (a, b) \<in> (edges ci)\<^sup>*"
  by (simp add: can_reach_def edges_def reach_loop_iff)

lemma mark_from_view: "mark_loop m {view} [view] = (mm_rel m)\<^sup>* `` {view}"
  by (simp add: mark_loop_eq)

lemma dependents_reach:
  "invalidator_ok ci \<Longrightarrow> (mm_rel (dependents ci))\<^sup>* `` {view} = {w. (w, view) \<in> (edges ci)\<^sup>*}"
  by (auto simp: invalidator_ok_def edges_def rtrancl_converse)

lemma add_dependency_Inr_ok:
  assumes ok: "invalidator_ok ci" and add: "add_dependency ci a b = Inr ci'"
  shows "invalidator_ok ci' \<and> edges ci' = insert (a, b) (edges ci)"
proof -
  from add have "a \<noteq> b" and no_path: "(b, a) \<notin> (edges ci)\<^sup>*"
    and ci': "ci' = ci\<lparr>view_dependencies := mm_insert a b (view_dependencies ci),
                  dependents := mm_insert b a (dependents ci)\<rparr>"
    by (auto simp: add_dependency_def can_reach_iff split: if_splits)
  have edges: "edges ci' = insert (a, b) (edges ci)"
    by (simp add: edges_def ci' mm.rel_ins)
  moreover have "acyclic (edges ci')"
    using ok no_path by (simp add: edges acyclic_insert invalidator_ok_def)
  ultimately show ?thesis
    using ok by (simp add: invalidator_ok_def ci' mm.wf_ins mm.converse_ins)
qed

text \<open>The states the public methods reach from a new invalidator.\<close>

inductive reachable_invalidator :: "cascade_invalidator \<Rightarrow> bool" where
  init: "reachable_invalidator invalidator_new"
| add: "reachable_invalidator ci \<Longrightarrow> add_dependency ci a b = Inr ci' \<Longrightarrow> reachable_invalidator ci'"
| cascade: "reachable_invalidator ci \<Longrightarrow> reachable_invalidator (snd (cascade_invalidate ci v))"
| clear: "reachable_invalidator ci \<Longrightarrow> reachable_invalidator (clear_invalidator ci)"

lemma reachable_ok: "reachable_invalidator ci \<Longrightarrow> invalidator_ok ci"
proof (induction rule: reachable_invalidator.induct)
  case init
  then show ?case by (simp add: invalidator_ok_def invalidator_new_def edges_def)
next
  case (add ci a b ci')
  then show ?case using add_dependency_Inr_ok by blast
next
  case (cascade ci v)
  have "invalidator_ok (snd (cascade_invalidate ci v)) = invalidator_ok ci"
    by (simp add: invalidator_ok_def cascade_invalidate_def Let_def edges_def)
  with cascade.IH show ?case by simp
next
  case (clear ci)
  then show ?case by (simp add: invalidator_ok_def clear_invalidator_def edges_def)
qed

section \<open>Properties\<close>

text \<open>
  C9. In every state the public methods reach, the two edge maps are well formed and converse to
  each other, and the dependency graph has no cycle.
\<close>

theorem reachable_invalidator_ok: "reachable_invalidator ci \<Longrightarrow> invalidator_ok ci"
  by (rule reachable_ok)

definition sample_invalidator :: cascade_invalidator where
  "sample_invalidator = \<lparr>view_dependencies = [(''v_user'', [''v_raw'']), (''v_stats'', [''v_user''])],
     dependents = [(''v_raw'', [''v_user'']), (''v_user'', [''v_stats''])], inv_stats = stats_default\<rparr>"

lemma sample_reachable: "reachable_invalidator sample_invalidator"
proof -
  have 1: "add_dependency invalidator_new ''v_user'' ''v_raw'' = Inr \<lparr>view_dependencies = [(''v_user'', [''v_raw''])],
     dependents = [(''v_raw'', [''v_user''])], inv_stats = stats_default\<rparr>"
    by code_simp
  have 2: "add_dependency \<lparr>view_dependencies = [(''v_user'', [''v_raw''])],
     dependents = [(''v_raw'', [''v_user''])], inv_stats = stats_default\<rparr> ''v_stats'' ''v_user'' = Inr sample_invalidator"
    by code_simp
  show ?thesis by (rule add [OF add [OF init 1] 2])
qed

theorem reachable_invalidator_ok_witness: "invalidator_ok sample_invalidator"
  by (rule reachable_invalidator_ok) (rule sample_reachable)

text \<open>
  C8. Registering a dependency is refused exactly when the two views are the same or the new edge
  would close a cycle; otherwise it adds that one edge, in both directions, and nothing else.
\<close>

theorem add_dependency_correct:
  assumes "invalidator_ok ci"
  shows "add_dependency ci a b =
      (if a = b then Inl SelfDependency
       else if (b, a) \<in> (edges ci)\<^sup>* then Inl (WouldCycle a b)
       else Inr (ci\<lparr>view_dependencies := mm_insert a b (view_dependencies ci),
                   dependents := mm_insert b a (dependents ci)\<rparr>)) \<and>
    (\<forall>ci'. add_dependency ci a b = Inr ci' \<longrightarrow>
       invalidator_ok ci' \<and> edges ci' = insert (a, b) (edges ci) \<and> inv_stats ci' = inv_stats ci) \<and>
    ((\<exists>ci'. add_dependency ci a b = Inr ci') \<longleftrightarrow> acyclic (insert (a, b) (edges ci)))"
proof -
  have stats: "add_dependency ci a b = Inr ci' \<Longrightarrow> inv_stats ci' = inv_stats ci" for ci'
    by (auto simp: add_dependency_def split: if_splits)
  have "acyclic (insert (a, b) (edges ci)) \<longleftrightarrow> (b, a) \<notin> (edges ci)\<^sup>*"
    using assms by (simp add: acyclic_insert invalidator_ok_def)
  moreover have "a = b \<Longrightarrow> (b, a) \<in> (edges ci)\<^sup>*" by simp
  ultimately have "(\<exists>ci'. add_dependency ci a b = Inr ci') \<longleftrightarrow> acyclic (insert (a, b) (edges ci))"
    by (auto simp: add_dependency_def can_reach_iff)
  moreover have "add_dependency ci a b =
      (if a = b then Inl SelfDependency
       else if (b, a) \<in> (edges ci)\<^sup>* then Inl (WouldCycle a b)
       else Inr (ci\<lparr>view_dependencies := mm_insert a b (view_dependencies ci),
                   dependents := mm_insert b a (dependents ci)\<rparr>))"
    by (simp add: add_dependency_def can_reach_iff)
  ultimately show ?thesis using stats add_dependency_Inr_ok [OF assms] by blast
qed

theorem add_dependency_correct_witness:
  "(\<exists>ci'. add_dependency sample_invalidator ''v_raw'' ''v_stats'' = Inr ci') \<longleftrightarrow>
     acyclic (insert (''v_raw'', ''v_stats'') (edges sample_invalidator))"
  using add_dependency_correct [OF reachable_ok [OF sample_reachable], of "''v_raw''" "''v_stats''"] by blast

text \<open>
  C7. Invalidating a view returns the view and exactly the views that transitively depend on it,
  adds them to the statistics and leaves the graph as it is; \<open>get_transitive_dependents\<close> is the
  same set.
\<close>

theorem cascade_invalidate_correct:
  assumes "invalidator_ok ci"
  shows "cascade_invalidate ci view =
      ({w. (w, view) \<in> (edges ci)\<^sup>*},
       ci\<lparr>inv_stats := update_stats (card {w. (w, view) \<in> (edges ci)\<^sup>*}) (inv_stats ci)\<rparr>) \<and>
    get_transitive_dependents ci view = {w. (w, view) \<in> (edges ci)\<^sup>*}"
  using dependents_reach [OF assms, of view]
  by (simp add: cascade_invalidate_def get_transitive_dependents_def mark_from_view Let_def)

theorem cascade_invalidate_correct_witness:
  "{w. (w, ''v_raw'') \<in> (edges sample_invalidator)\<^sup>*} = {''v_raw'', ''v_user'', ''v_stats''}"
proof -
  have "get_transitive_dependents sample_invalidator ''v_raw'' = {''v_raw'', ''v_user'', ''v_stats''}"
    by code_simp
  with cascade_invalidate_correct [OF reachable_ok [OF sample_reachable], of "''v_raw''"] show ?thesis by simp
qed

text \<open>
  \<open>has_dependency_path\<close> decides whether the first view depends on the second through one or
  more edges, and both loops that test for a path stop on every graph, cyclic ones included.
\<close>

theorem has_dependency_path_iff:
  "(has_dependency_path ci a b \<longleftrightarrow> (a, b) \<in> (edges ci)\<^sup>+) \<and> (can_reach ci a b \<longleftrightarrow> (a, b) \<in> (edges ci)\<^sup>*)"
  by (simp add: has_dependency_path_def can_reach_iff edges_def path_loop_iff)

text \<open>
  The counters: the number of dependencies is the number of edges, and the number of views is
  the number of views with an edge.
\<close>

theorem invalidator_counts:
  assumes "invalidator_ok ci"
  shows "dependency_count ci = card (edges ci) \<and>
    invalidator_view_count ci = card (Field (edges ci)) \<and>
    set (get_direct_dependents ci v) = {w. (w, v) \<in> edges ci} \<and>
    set (get_direct_dependencies ci v) = {w. (v, w) \<in> edges ci}"
  using assms
  by (auto simp: invalidator_ok_def dependency_count_def invalidator_view_count_def edges_def mm_count_card
      mm_keys_Domain Field_def Un_commute get_direct_dependents_def get_direct_dependencies_def mm_get_iff)

theorem invalidator_counts_witness:
  "dependency_count sample_invalidator = card (edges sample_invalidator) \<and>
   invalidator_view_count sample_invalidator = card (Field (edges sample_invalidator))"
  using invalidator_counts [OF reachable_ok [OF sample_reachable]] by blast

end
