(* ===== verification/Dependency_Tracker.thy ===== *)
theory Dependency_Tracker
  imports Multimap
begin

text \<open>
  The index from cache entries to the views they read and back
  (\<open>fraiseql-core/src/cache/dependency_tracker.rs\<close>). The forward map keeps the caller's list,
  duplicates included; the reverse map drops a view with its last cache entry.
\<close>

section \<open>State and operations\<close>

record dependency_tracker =
  cache_to_views :: "(string \<times> string list) list"
  view_to_caches :: string_multimap

definition tracker_new :: dependency_tracker where
  "tracker_new = \<lparr>cache_to_views = [], view_to_caches = []\<rparr>"

text \<open>The loop that takes a cache key out of the reverse entries of some views.\<close>

definition forget_views :: "string \<Rightarrow> string list \<Rightarrow> string_multimap \<Rightarrow> string_multimap" where
  "forget_views cache_key views m = fold (\<lambda>view. mm_remove view cache_key) views m"

definition record_access :: "dependency_tracker \<Rightarrow> string \<Rightarrow> string list \<Rightarrow> dependency_tracker" where
  "record_access t cache_key views =
     (let cleaned = (case map_of (cache_to_views t) cache_key of
                       Some old_views \<Rightarrow> forget_views cache_key old_views (view_to_caches t)
                     | None \<Rightarrow> view_to_caches t)
      in \<lparr>cache_to_views = AList.update cache_key views (cache_to_views t),
          view_to_caches = fold (\<lambda>view. mm_insert view cache_key) views cleaned\<rparr>)"

definition get_dependent_caches :: "dependency_tracker \<Rightarrow> string \<Rightarrow> string list" where
  "get_dependent_caches t view = mm_get (view_to_caches t) view"

definition remove_cache :: "dependency_tracker \<Rightarrow> string \<Rightarrow> dependency_tracker" where
  "remove_cache t cache_key =
     (case map_of (cache_to_views t) cache_key of
        None \<Rightarrow> t
      | Some views \<Rightarrow>
          \<lparr>cache_to_views = AList.delete cache_key (cache_to_views t),
           view_to_caches = forget_views cache_key views (view_to_caches t)\<rparr>)"

definition clear_tracker :: "dependency_tracker \<Rightarrow> dependency_tracker" where
  "clear_tracker t = \<lparr>cache_to_views = [], view_to_caches = []\<rparr>"

definition cache_count :: "dependency_tracker \<Rightarrow> nat" where
  "cache_count t = length (cache_to_views t)"

definition tracker_view_count :: "dependency_tracker \<Rightarrow> nat" where
  "tracker_view_count t = length (view_to_caches t)"

definition get_all_views :: "dependency_tracker \<Rightarrow> string list" where
  "get_all_views t = mm_keys (view_to_caches t)"

section \<open>Specification\<close>

text \<open>The abstract state: which views each tracked cache entry reads.\<close>

definition tracked :: "dependency_tracker \<Rightarrow> string \<rightharpoonup> string set" where
  "tracked t k = map_option set (map_of (cache_to_views t) k)"

definition reads :: "dependency_tracker \<Rightarrow> (string \<times> string) set" where
  "reads t = {(v, k). \<exists>vs. tracked t k = Some vs \<and> v \<in> vs}"

definition tracker_ok :: "dependency_tracker \<Rightarrow> bool" where
  "tracker_ok t \<longleftrightarrow> distinct (map fst (cache_to_views t)) \<and> mm_wf (view_to_caches t) \<and>
     mm_rel (view_to_caches t) = reads t"

lemma forget_views_spec:
  "mm_wf m \<Longrightarrow> mm_wf (forget_views k vs m) \<and> mm_rel (forget_views k vs m) = mm_rel m - set vs \<times> {k}"
  unfolding forget_views_def by (rule mm.fold_rem)

text \<open>After the old reverse entries of a key are gone, the key has none.\<close>

lemma forget_tracked:
  assumes "tracker_ok t" and "map_of (cache_to_views t) k = Some vs"
  shows "mm_wf (forget_views k vs (view_to_caches t)) \<and>
    mm_rel (forget_views k vs (view_to_caches t)) = {(v, j) \<in> mm_rel (view_to_caches t). j \<noteq> k}"
proof -
  have "reads t - set vs \<times> {k} = {(v, j) \<in> reads t. j \<noteq> k}"
    using assms(2) by (auto simp: reads_def tracked_def simp del: map_of_eq_Some_iff)
  with assms(1) forget_views_spec [of "view_to_caches t" k vs] show ?thesis
    by (simp add: tracker_ok_def)
qed

lemma untracked: "tracker_ok t \<Longrightarrow> map_of (cache_to_views t) k = None \<Longrightarrow> (v, k) \<notin> mm_rel (view_to_caches t)"
  by (simp add: tracker_ok_def reads_def tracked_def del: map_of_eq_Some_iff)

lemma record_access_rel:
  assumes "tracker_ok t"
  shows "mm_wf (view_to_caches (record_access t k vs)) \<and>
    mm_rel (view_to_caches (record_access t k vs)) =
      {(v, j) \<in> mm_rel (view_to_caches t). j \<noteq> k} \<union> set vs \<times> {k}"
proof -
  define cleaned where "cleaned = (case map_of (cache_to_views t) k of
      Some old_views \<Rightarrow> forget_views k old_views (view_to_caches t) | None \<Rightarrow> view_to_caches t)"
  have "mm_wf cleaned \<and> mm_rel cleaned = {(v, j) \<in> mm_rel (view_to_caches t). j \<noteq> k}"
  proof (cases "map_of (cache_to_views t) k")
    case None
    with assms untracked show ?thesis by (fastforce simp: cleaned_def tracker_ok_def)
  next
    case (Some old)
    with forget_tracked [OF assms] show ?thesis by (simp add: cleaned_def)
  qed
  with mm.fold_ins [of cleaned k vs] show ?thesis
    by (simp add: record_access_def cleaned_def Let_def)
qed

lemma tracked_record: "tracked (record_access t k vs) = (tracked t)(k \<mapsto> set vs)"
  by (rule ext) (simp add: tracked_def record_access_def Let_def update_conv')

lemma tracked_remove: "tracked (remove_cache t k) = (tracked t)(k := None)"
  by (rule ext) (simp add: tracked_def remove_cache_def delete_conv' split: option.splits)

lemma reads_record: "reads (record_access t k vs) = {(v, j) \<in> reads t. j \<noteq> k} \<union> set vs \<times> {k}"
  by (auto simp: reads_def tracked_record split: if_splits)

lemma reads_remove: "reads (remove_cache t k) = {(v, j) \<in> reads t. j \<noteq> k}"
  by (auto simp: reads_def tracked_remove split: if_splits)

lemma record_access_ok:
  assumes "tracker_ok t"
  shows "tracker_ok (record_access t k vs)"
proof -
  have "distinct (map fst (cache_to_views (record_access t k vs)))"
    using assms by (simp add: record_access_def Let_def tracker_ok_def distinct_update)
  with record_access_rel [OF assms, of k vs] assms show ?thesis
    by (simp add: tracker_ok_def reads_record)
qed

lemma remove_cache_ok:
  assumes ok: "tracker_ok t"
  shows "tracker_ok (remove_cache t k)"
proof (cases "map_of (cache_to_views t) k")
  case None
  with ok show ?thesis by (simp add: remove_cache_def)
next
  case (Some vs)
  from ok have "distinct (map fst (cache_to_views (remove_cache t k)))"
    by (simp add: remove_cache_def Some tracker_ok_def distinct_delete)
  moreover have "view_to_caches (remove_cache t k) = forget_views k vs (view_to_caches t)"
    by (simp add: remove_cache_def Some)
  ultimately show ?thesis
    using forget_tracked [OF ok Some] ok by (simp add: tracker_ok_def reads_remove)
qed

inductive reachable_tracker :: "dependency_tracker \<Rightarrow> bool" where
  init: "reachable_tracker tracker_new"
| access: "reachable_tracker t \<Longrightarrow> reachable_tracker (record_access t k vs)"
| remove: "reachable_tracker t \<Longrightarrow> reachable_tracker (remove_cache t k)"
| clear: "reachable_tracker t \<Longrightarrow> reachable_tracker (clear_tracker t)"

lemma empty_ok: "tracker_ok \<lparr>cache_to_views = [], view_to_caches = []\<rparr>"
  by (simp add: tracker_ok_def reads_def tracked_def)

lemma tracker_reachable_ok: "reachable_tracker t \<Longrightarrow> tracker_ok t"
  by (induction rule: reachable_tracker.induct)
    (simp_all add: record_access_ok remove_cache_ok tracker_new_def clear_tracker_def empty_ok)

section \<open>Properties\<close>

text \<open>
  C40. The tracker refines a map from cache keys to sets of views: recording an access replaces the
  entry of its key, removing a key deletes it, clearing empties the map, and in every state the
  public methods reach, looking up a view returns exactly the cache keys whose entry has the
  view, each once.
\<close>

theorem dependency_tracker_refines:
  assumes "reachable_tracker t"
  shows "tracked (record_access t k vs) = (tracked t)(k \<mapsto> set vs) \<and>
    tracked (remove_cache t k) = (tracked t)(k := None) \<and>
    tracked (clear_tracker t) = Map.empty \<and>
    set (get_dependent_caches t v) = {j. \<exists>us. tracked t j = Some us \<and> v \<in> us} \<and>
    distinct (get_dependent_caches t v)"
proof -
  have ok: "tracker_ok t" by (rule tracker_reachable_ok [OF assms])
  have "tracked (clear_tracker t) = Map.empty"
    by (rule ext) (simp add: tracked_def clear_tracker_def)
  moreover have "set (get_dependent_caches t v) = {j. \<exists>us. tracked t j = Some us \<and> v \<in> us}"
    using ok by (auto simp: get_dependent_caches_def mm_get_iff tracker_ok_def reads_def)
  moreover have "distinct (get_dependent_caches t v)"
    using ok by (simp add: get_dependent_caches_def tracker_ok_def mm_wf_get)
  ultimately show ?thesis by (simp add: tracked_record tracked_remove)
qed

theorem dependency_tracker_refines_witness:
  "set (get_dependent_caches (record_access tracker_new ''k1'' [''v_user'']) ''v_user'') =
     {j. \<exists>us. tracked (record_access tracker_new ''k1'' [''v_user'']) j = Some us \<and> ''v_user'' \<in> us}"
  using dependency_tracker_refines [OF access [OF init, of "''k1''" "[''v_user'']"]] by blast

text \<open>
  The tracker does not leak: a view is listed exactly while some tracked cache entry reads it,
  and the counters are the numbers of tracked entries and of those views.
\<close>

theorem dependency_tracker_no_leak:
  assumes "reachable_tracker t"
  shows "set (get_all_views t) = (\<Union>(ran (tracked t))) \<and>
    cache_count t = card (dom (tracked t)) \<and>
    tracker_view_count t = card (\<Union>(ran (tracked t)))"
proof -
  have ok: "tracker_ok t" by (rule tracker_reachable_ok [OF assms])
  have views: "set (get_all_views t) = \<Union>(ran (tracked t))"
    using ok by (auto simp: get_all_views_def tracker_ok_def mm_keys_Domain reads_def ran_def)
  have "dom (tracked t) = set (map fst (cache_to_views t))"
    by (auto simp: tracked_def dom_map_of_conv_image_fst [symmetric])
  then have caches: "cache_count t = card (dom (tracked t))"
    using ok distinct_card [of "map fst (cache_to_views t)"] by (simp add: cache_count_def tracker_ok_def)
  have "card (set (get_all_views t)) = length (get_all_views t)"
    using ok by (intro distinct_card) (simp add: get_all_views_def mm_keys_def tracker_ok_def mm_wf_def)
  with views have "tracker_view_count t = card (\<Union>(ran (tracked t)))"
    by (simp add: tracker_view_count_def get_all_views_def mm_keys_def)
  with views caches show ?thesis by blast
qed

theorem dependency_tracker_no_leak_witness:
  "set (get_all_views (remove_cache (record_access tracker_new ''k1'' [''v_user'']) ''k1'')) =
     \<Union>(ran (tracked (remove_cache (record_access tracker_new ''k1'' [''v_user'']) ''k1'')))"
  using dependency_tracker_no_leak [OF remove [OF access [OF init, of "''k1''" "[''v_user'']"], of "''k1''"]] by blast

end
