(* ===== verification/Condition_Parser.thy ===== *)
theory Condition_Parser
  imports Sql_Escape
begin

text \<open>
  The condition language of the observers
  (\<open>fraiseql-observers/src/condition/mod.rs\<close>, \<open>lexer.rs\<close>, \<open>parser.rs\<close>): the abstract
  syntax with its \<open>Display\<close>, the lexer and the recursive-descent parser. The cursor into the
  input (a peekable iterator, an index into the tokens) is the part that is left to read.
\<close>

section \<open>Syntax\<close>

datatype condition_ast =
    Comparison string string string
  | HasField string
  | FieldChanged string
  | FieldChangedTo string string
  | FieldChangedFrom string string
  | CAnd condition_ast condition_ast
  | COr condition_ast condition_ast
  | CNot condition_ast

datatype token =
    TComparison string string string
  | TFunction string "string list"
  | TAnd
  | TOr
  | TNot
  | TLParen
  | TRParen

text \<open>
  \<open>ObserverError::InvalidCondition\<close> with its reason; the reason that quotes the debug output of a
  token keeps the token.
\<close>

datatype cond_error = InvalidCondition string | ExpectedExpression token

type_synonym 'a cond_result = "cond_error + 'a"

abbreviation quoted :: "string \<Rightarrow> string" where
  "quoted s \<equiv> [squote] @ s @ [squote]"

fun display :: "condition_ast \<Rightarrow> string" where
  "display (Comparison field oper val) = field @ '' '' @ oper @ '' '' @ val"
| "display (HasField field) = ''has_field('' @ quoted field @ '')''"
| "display (FieldChanged field) = ''field_changed('' @ quoted field @ '')''"
| "display (FieldChangedTo field val) = ''field_changed_to('' @ quoted field @ '', '' @ quoted val @ '')''"
| "display (FieldChangedFrom field val) = ''field_changed_from('' @ quoted field @ '', '' @ quoted val @ '')''"
| "display (CAnd left right) = ''('' @ display left @ '') && ('' @ display right @ '')''"
| "display (COr left right) = ''('' @ display left @ '') || ('' @ display right @ '')''"
| "display (CNot expr) = ''!('' @ display expr @ '')''"

section \<open>Lexer\<close>

definition MAX_CONDITION_INPUT_BYTES :: nat where "MAX_CONDITION_INPUT_BYTES = 4096"
definition MAX_CONDITION_FUNCTION_ARGS :: nat where "MAX_CONDITION_FUNCTION_ARGS = 32"

definition ident_char :: "char \<Rightarrow> bool" where
  "ident_char c \<longleftrightarrow> is_alphanumeric c \<or> c = CHR ''_''"

definition ident_start :: "char \<Rightarrow> bool" where
  "ident_start c \<longleftrightarrow> is_alphabetic c \<or> c = CHR ''_''"

definition value_char :: "char \<Rightarrow> bool" where
  "value_char c \<longleftrightarrow> is_alphanumeric c \<or> c = CHR ''.'' \<or> c = CHR ''-''"

definition op_char :: "char \<Rightarrow> bool" where
  "op_char c \<longleftrightarrow> c = CHR ''='' \<or> c = CHR ''!'' \<or> c = CHR ''>'' \<or> c = CHR ''<''"

definition comparison_ops :: "string list" where
  "comparison_ops = [''=='', ''!='', ''>'', ''<'', ''>='', ''<='']"

abbreviation skip_ws :: "string \<Rightarrow> string" where
  "skip_ws s \<equiv> dropWhile is_whitespace s"

text \<open>The text up to the closing quote, or to the end of the input, and what follows.\<close>

definition lex_quoted :: "string \<Rightarrow> string \<times> string" where
  "lex_quoted s = (takeWhile (\<lambda>c. c \<noteq> squote) s, drop 1 (dropWhile (\<lambda>c. c \<noteq> squote) s))"

lemma length_dropWhile_tail: "length (drop 1 (dropWhile P s)) \<le> length s"
  by (metis diff_le_self dual_order.trans length_drop length_dropWhile_le)

text \<open>The argument loop of a function call.\<close>

function lex_args :: "string \<Rightarrow> string list \<Rightarrow> (string list \<times> string) cond_result" where
  "lex_args s args =
     (case skip_ws s of
        [] \<Rightarrow> Inr (args, [])
      | c # s1 \<Rightarrow>
          if c = squote then
            (case lex_quoted s1 of (arg, s2) \<Rightarrow>
               if length args \<ge> MAX_CONDITION_FUNCTION_ARGS
               then Inl (InvalidCondition ''Too many function arguments (max 32)'')
               else (let args' = args @ [arg] in
                 case skip_ws s2 of
                   [] \<Rightarrow> Inr (args', [])
                 | c' # s3 \<Rightarrow>
                     if c' = CHR '','' then lex_args s3 args'
                     else if c' = CHR '')'' then Inr (args', s3)
                     else Inr (args', c' # s3)))
          else Inr (args, c # s1))"
  by pat_completeness auto
termination
proof (relation "measure (\<lambda>(s, _). length s)", goal_cases)
  case (2 s args c s1 arg s2 args' c' s3)
  have "length s3 < length (skip_ws s2)" using 2(6) by simp
  also have "length (skip_ws s2) \<le> length s2" by (rule length_dropWhile_le)
  also have "length s2 \<le> length s1" using 2(3) length_dropWhile_tail by (auto simp: lex_quoted_def)
  also have "length s1 < length (skip_ws s)" using 2(1) by simp
  also have "length (skip_ws s) \<le> length s" by (rule length_dropWhile_le)
  finally show ?case by simp
qed simp

declare lex_args.simps [simp del]

text \<open>The value of a comparison: a quoted text, or a run of number or name characters.\<close>

definition lex_value :: "string \<Rightarrow> string \<times> string" where
  "lex_value s =
     (if take 1 s = [squote] then lex_quoted (drop 1 s)
      else (takeWhile value_char s, dropWhile value_char s))"

text \<open>What follows an identifier: the arguments of a call, or the operator and value of a comparison.\<close>

definition lex_after_ident :: "string \<Rightarrow> string \<Rightarrow> (token \<times> string) cond_result" where
  "lex_after_ident ident s =
     (if take 1 s = ''('' then
        try_bind (lex_args (drop 1 s) []) (\<lambda>(args, r). Inr (TFunction ident args, r))
      else if takeWhile op_char s \<in> set comparison_ops then
        (case lex_value (skip_ws (dropWhile op_char s)) of
           (val, r) \<Rightarrow> Inr (TComparison ident (takeWhile op_char s) val, r))
      else Inl (InvalidCondition (''Unknown token: '' @ ident)))"

definition lex_word :: "string \<Rightarrow> (token \<times> string) cond_result" where
  "lex_word s = lex_after_ident (takeWhile ident_char s) (skip_ws (dropWhile ident_char s))"

lemma lex_args_length: "lex_args s args = Inr (args', r) \<Longrightarrow> length r \<le> length s"
proof (induction s args rule: lex_args.induct)
  case (1 s args)
  show ?case
  proof (cases "skip_ws s")
    case Nil
    with "1.prems" show ?thesis by (simp add: lex_args.simps [of s])
  next
    case (Cons c s1)
    then have s1: "Suc (length s1) \<le> length s" by (metis length_Cons length_dropWhile_le)
    show ?thesis
    proof (cases "c = squote")
      case False
      with "1.prems" Cons have "r = skip_ws s" by (auto simp: lex_args.simps [of s])
      then show ?thesis by (simp add: length_dropWhile_le)
    next
      case True
      obtain arg s2 where q: "lex_quoted s1 = (arg, s2)" by force
      then have s2: "length s2 \<le> length s1" using length_dropWhile_tail by (auto simp: lex_quoted_def)
      have few: "\<not> length args \<ge> MAX_CONDITION_FUNCTION_ARGS"
        using "1.prems" Cons True q by (auto simp: lex_args.simps [of s])
      show ?thesis
      proof (cases "skip_ws s2")
        case Nil
        with "1.prems" Cons True q few show ?thesis by (simp add: lex_args.simps [of s])
      next
        case (Cons c' s3)
        then have s3: "Suc (length s3) \<le> length s2" by (metis length_Cons length_dropWhile_le)
        have "length r \<le> Suc (length s3)"
        proof (cases "c' = CHR '',''")
          case True
          with "1.prems" \<open>skip_ws s = c # s1\<close> \<open>c = squote\<close> q few Cons
          have "lex_args s3 (args @ [arg]) = Inr (args', r)" by (simp add: lex_args.simps [of s])
          from "1.IH" [OF \<open>skip_ws s = c # s1\<close> \<open>c = squote\<close> q [symmetric] few refl Cons True this] show ?thesis by simp
        next
          case False
          with "1.prems" \<open>skip_ws s = c # s1\<close> \<open>c = squote\<close> q few Cons
          have "r = s3 \<or> r = c' # s3" by (simp add: lex_args.simps [of s] Let_def split: if_splits)
          then show ?thesis by auto
        qed
        with s1 s2 s3 show ?thesis by linarith
      qed
    qed
  qed
qed

lemma lex_value_length: "lex_value s = (v, r) \<Longrightarrow> length r \<le> length s"
proof (cases "take 1 s = [squote]")
  case True
  assume "lex_value s = (v, r)"
  with True have "r = drop 1 (dropWhile (\<lambda>c. c \<noteq> squote) (drop 1 s))" by (simp add: lex_value_def lex_quoted_def)
  then show "length r \<le> length s"
    using length_dropWhile_tail [of "\<lambda>c. c \<noteq> squote" "drop 1 s"] by simp
qed (auto simp: lex_value_def length_dropWhile_le)

lemma lex_after_ident_length: "lex_after_ident ident s = Inr (t, r) \<Longrightarrow> length r \<le> length s"
proof (cases "take 1 s = ''(''")
  case True
  assume "lex_after_ident ident s = Inr (t, r)"
  with True obtain args where "lex_args (drop 1 s) [] = Inr (args, r)"
    by (auto simp: lex_after_ident_def try_bind_eq_Inr)
  then show "length r \<le> length s" using lex_args_length by fastforce
next
  case False
  assume "lex_after_ident ident s = Inr (t, r)"
  with False obtain v where "lex_value (skip_ws (dropWhile op_char s)) = (v, r)"
    by (auto simp: lex_after_ident_def split: if_splits prod.splits)
  from lex_value_length [OF this] show "length r \<le> length s"
    by (meson length_dropWhile_le order_trans)
qed

lemma lex_word_shrinks:
  assumes "lex_word (c # s) = Inr (t, r)" and "ident_start c"
  shows "length r < length (c # s)"
proof -
  have "ident_char c" using assms(2) by (auto simp: ident_start_def ident_char_def is_alphanumeric_def)
  moreover have "length r \<le> length (skip_ws (dropWhile ident_char (c # s)))"
    using assms(1) lex_after_ident_length by (simp only: lex_word_def)
  ultimately have "length r \<le> length (dropWhile ident_char s)"
    using length_dropWhile_le [of is_whitespace "dropWhile ident_char s"] by simp
  with length_dropWhile_le [of ident_char s] show ?thesis by simp
qed

function lex_loop :: "string \<Rightarrow> token list \<Rightarrow> token list cond_result" where
  "lex_loop [] tokens = Inr tokens"
| "lex_loop (ch # s) tokens =
     (if ch \<in> set [CHR '' '', CHR 9, CHR 10, CHR 13] then lex_loop s tokens
      else if ch = CHR ''('' then lex_loop s (tokens @ [TLParen])
      else if ch = CHR '')'' then lex_loop s (tokens @ [TRParen])
      else if ch = CHR ''!'' then
        (if take 1 s = ''=''
         then Inl (InvalidCondition ''!= should be part of comparison, not standalone'')
         else lex_loop s (tokens @ [TNot]))
      else if ch = CHR ''&'' then
        (if take 1 s = ''&'' then lex_loop (drop 1 s) (tokens @ [TAnd])
         else Inl (InvalidCondition (''Expected '' @ quoted ''&&'' @ '', got single '' @ quoted ''&'')))
      else if ch = CHR ''|'' then
        (if take 1 s = ''|'' then lex_loop (drop 1 s) (tokens @ [TOr])
         else Inl (InvalidCondition (''Expected '' @ quoted ''||'' @ '', got single '' @ quoted ''|'')))
      else if ident_start ch then
        try_bind (lex_word (ch # s)) (\<lambda>(t, r). lex_loop r (tokens @ [t]))
      else Inl (InvalidCondition (''Unexpected character: '' @ [ch])))"
  by pat_completeness auto
termination
  by (relation "measure (\<lambda>(s, _). length s)") (auto dest: lex_word_shrinks)

declare lex_loop.simps(2) [simp del]

definition tokenize :: "string \<Rightarrow> token list cond_result" where
  "tokenize condition =
     (if utf8_len condition > MAX_CONDITION_INPUT_BYTES
      then Inl (InvalidCondition (''Condition expression too long ('' @ show_nat (utf8_len condition) @ '' bytes, max 4096)''))
      else lex_loop condition [])"

section \<open>Parser\<close>

definition MAX_CONDITION_DEPTH :: nat where "MAX_CONDITION_DEPTH = 64"

definition parse_function :: "string \<Rightarrow> string list \<Rightarrow> condition_ast cond_result" where
  "parse_function name args =
     (if name = ''has_field'' then
        (if length args \<noteq> 1
         then Inl (InvalidCondition (''has_field expects 1 argument, got '' @ show_nat (length args)))
         else Inr (HasField (args ! 0)))
      else if name = ''field_changed'' then
        (if length args \<noteq> 1
         then Inl (InvalidCondition (''field_changed expects 1 argument, got '' @ show_nat (length args)))
         else Inr (FieldChanged (args ! 0)))
      else if name = ''field_changed_to'' then
        (if length args \<noteq> 2
         then Inl (InvalidCondition (''field_changed_to expects 2 arguments, got '' @ show_nat (length args)))
         else Inr (FieldChangedTo (args ! 0) (args ! 1)))
      else if name = ''field_changed_from'' then
        (if length args \<noteq> 2
         then Inl (InvalidCondition (''field_changed_from expects 2 arguments, got '' @ show_nat (length args)))
         else Inr (FieldChangedFrom (args ! 0) (args ! 1)))
      else Inl (InvalidCondition (''Unknown function: '' @ name)))"

definition depth_error :: cond_error where
  "depth_error = InvalidCondition ''Condition expression exceeds maximum nesting depth (64)''"

text \<open>
  The six mutually recursive functions; \<open>or_loop\<close> and \<open>and_loop\<close> are the \<open>while\<close> loops of
  \<open>parse_or\<close> and \<open>parse_and\<close>.
\<close>

function (sequential)
  parse_or :: "token list \<Rightarrow> nat \<Rightarrow> (condition_ast \<times> token list) cond_result" and
  or_loop :: "condition_ast \<Rightarrow> token list \<Rightarrow> nat \<Rightarrow> (condition_ast \<times> token list) cond_result" and
  parse_and :: "token list \<Rightarrow> nat \<Rightarrow> (condition_ast \<times> token list) cond_result" and
  and_loop :: "condition_ast \<Rightarrow> token list \<Rightarrow> nat \<Rightarrow> (condition_ast \<times> token list) cond_result" and
  parse_not :: "token list \<Rightarrow> nat \<Rightarrow> (condition_ast \<times> token list) cond_result" and
  parse_primary :: "token list \<Rightarrow> nat \<Rightarrow> (condition_ast \<times> token list) cond_result" where
  "parse_or ts d = try_bind (parse_and ts d) (\<lambda>(left, r). or_loop left r d)"
| "or_loop left (TOr # ts) d =
     try_bind (parse_and ts d) (\<lambda>(right, r). or_loop (COr left right) r d)"
| "or_loop left ts d = Inr (left, ts)"
| "parse_and ts d = try_bind (parse_not ts d) (\<lambda>(left, r). and_loop left r d)"
| "and_loop left (TAnd # ts) d =
     try_bind (parse_not ts d) (\<lambda>(right, r). and_loop (CAnd left right) r d)"
| "and_loop left ts d = Inr (left, ts)"
| "parse_not ts d =
     (if d > MAX_CONDITION_DEPTH then Inl depth_error
      else case ts of
        TNot # r \<Rightarrow> try_bind (parse_not r (d + 1)) (\<lambda>(expr, r'). Inr (CNot expr, r'))
      | _ \<Rightarrow> parse_primary ts d)"
| "parse_primary [] d = Inl (InvalidCondition ''Unexpected end of condition'')"
| "parse_primary (TLParen # ts) d =
     try_bind (parse_or ts (d + 1)) (\<lambda>(ast, r).
       case r of
         TRParen # r' \<Rightarrow> Inr (ast, r')
       | _ \<Rightarrow> Inl (InvalidCondition ''Expected closing parenthesis''))"
| "parse_primary (TComparison field oper val # ts) d = Inr (Comparison field oper val, ts)"
| "parse_primary (TFunction name args # ts) d =
     try_bind (parse_function name args) (\<lambda>ast. Inr (ast, ts))"
| "parse_primary (t # ts) d = Inl (ExpectedExpression t)"
  by pat_completeness auto

lemma close_paren_Inr:
  "(case r of TRParen # r' \<Rightarrow> Inr (a, r') | _ \<Rightarrow> Inl e) = Inr (b, q) \<longleftrightarrow> a = b \<and> r = TRParen # q"
  by (cases r; cases "hd r") auto

text \<open>Every sub-parser consumes a token before its result is used; the loops never give one back.\<close>

lemma parse_shrinks:
  "parse_or_or_loop_parse_and_and_loop_parse_not_parse_primary_dom (Inl (Inl (ts, d))) \<Longrightarrow>
   \<forall>a r. parse_or ts d = Inr (a, r) \<longrightarrow> length r < length ts"
  "parse_or_or_loop_parse_and_and_loop_parse_not_parse_primary_dom (Inl (Inr (Inl (l, ts, d)))) \<Longrightarrow>
   \<forall>a r. or_loop l ts d = Inr (a, r) \<longrightarrow> length r \<le> length ts"
  "parse_or_or_loop_parse_and_and_loop_parse_not_parse_primary_dom (Inl (Inr (Inr (ts, d)))) \<Longrightarrow>
   \<forall>a r. parse_and ts d = Inr (a, r) \<longrightarrow> length r < length ts"
  "parse_or_or_loop_parse_and_and_loop_parse_not_parse_primary_dom (Inr (Inl (l, ts, d))) \<Longrightarrow>
   \<forall>a r. and_loop l ts d = Inr (a, r) \<longrightarrow> length r \<le> length ts"
  "parse_or_or_loop_parse_and_and_loop_parse_not_parse_primary_dom (Inr (Inr (Inl (ts, d)))) \<Longrightarrow>
   \<forall>a r. parse_not ts d = Inr (a, r) \<longrightarrow> length r < length ts"
  "parse_or_or_loop_parse_and_and_loop_parse_not_parse_primary_dom (Inr (Inr (Inr (ts, d)))) \<Longrightarrow>
   \<forall>a r. parse_primary ts d = Inr (a, r) \<longrightarrow> length r < length ts"
proof (induction rule: parse_or_or_loop_parse_and_and_loop_parse_not_parse_primary.pinduct)
  case (1 ts d)
  then show ?case by (fastforce simp: parse_or.psimps try_bind_eq_Inr)
next
  case (2 left ts d)
  then show ?case by (fastforce simp: or_loop.psimps try_bind_eq_Inr)
next
  case (4 ts d)
  then show ?case by (fastforce simp: parse_and.psimps try_bind_eq_Inr)
next
  case (5 left ts d)
  then show ?case by (fastforce simp: and_loop.psimps try_bind_eq_Inr)
next
  case (7 ts d)
  then show ?case
    by (auto simp: parse_not.psimps try_bind_eq_Inr split: if_splits list.splits token.splits)
next
  case (9 ts d)
  then show ?case
    by (auto simp: parse_primary.psimps try_bind_eq_Inr close_paren_Inr)
qed (auto simp: or_loop.psimps and_loop.psimps parse_primary.psimps try_bind_eq_Inr)

termination parse_or
  by (relation "measure (\<lambda>x. case x of
        Inl (Inl (ts, _)) \<Rightarrow> 5 * length ts + 4
      | Inl (Inr (Inl (_, ts, _))) \<Rightarrow> 5 * length ts
      | Inl (Inr (Inr (ts, _))) \<Rightarrow> 5 * length ts + 3
      | Inr (Inl (_, ts, _)) \<Rightarrow> 5 * length ts
      | Inr (Inr (Inl (ts, _))) \<Rightarrow> 5 * length ts + 2
      | Inr (Inr (Inr (ts, _))) \<Rightarrow> 5 * length ts + 1)")
    (auto dest: parse_shrinks)

definition parse_tokens :: "token list \<Rightarrow> condition_ast cond_result" where
  "parse_tokens tokens =
     try_bind (parse_or tokens 0) (\<lambda>(ast, r).
       if r \<noteq> [] then Inl (InvalidCondition ''Unexpected tokens after condition'') else Inr ast)"

definition parse_condition :: "string \<Rightarrow> condition_ast cond_result" where
  "parse_condition condition = try_bind (tokenize condition) parse_tokens"

end
