(* ===== verification/Condition_Grammar.thy ===== *)
theory Condition_Grammar
  imports Condition_Parser
begin

text \<open>
  Correctness of the condition parser: it accepts exactly the token lists of a grammar with the
  usual precedences (\<open>!\<close> before \<open>&&\<close> before \<open>||\<close>, both binary operators to the left) and a
  bound on the nesting, and it returns the tree of the derivation; and what \<open>Display\<close> prints is
  read back.
\<close>

section \<open>Grammar\<close>

inductive g_or :: "nat \<Rightarrow> token list \<Rightarrow> condition_ast \<Rightarrow> bool"
  and g_and :: "nat \<Rightarrow> token list \<Rightarrow> condition_ast \<Rightarrow> bool"
  and g_not :: "nat \<Rightarrow> token list \<Rightarrow> condition_ast \<Rightarrow> bool"
  and g_primary :: "nat \<Rightarrow> token list \<Rightarrow> condition_ast \<Rightarrow> bool" where
  or_and: "g_and d ts a \<Longrightarrow> g_or d ts a"
| or_or: "g_or d ts l \<Longrightarrow> g_and d us r \<Longrightarrow> g_or d (ts @ TOr # us) (COr l r)"
| and_not: "g_not d ts a \<Longrightarrow> g_and d ts a"
| and_and: "g_and d ts l \<Longrightarrow> g_not d us r \<Longrightarrow> g_and d (ts @ TAnd # us) (CAnd l r)"
| not_primary: "d \<le> MAX_CONDITION_DEPTH \<Longrightarrow> g_primary d ts a \<Longrightarrow> g_not d ts a"
| not_not: "d \<le> MAX_CONDITION_DEPTH \<Longrightarrow> g_not (d + 1) ts a \<Longrightarrow> g_not d (TNot # ts) (CNot a)"
| primary_paren: "g_or (d + 1) ts a \<Longrightarrow> g_primary d (TLParen # ts @ [TRParen]) a"
| primary_comparison: "g_primary d [TComparison f oper v] (Comparison f oper v)"
| primary_function: "parse_function name args = Inr a \<Longrightarrow> g_primary d [TFunction name args] a"

section \<open>Soundness\<close>

lemma parse_sound:
  "parse_or ts d = Inr (a, r) \<Longrightarrow> \<exists>p. ts = p @ r \<and> g_or d p a"
  "or_loop l ts d = Inr (a, r) \<Longrightarrow> \<forall>q. g_or d q l \<longrightarrow> (\<exists>p. ts = p @ r \<and> g_or d (q @ p) a)"
  "parse_and ts d = Inr (a, r) \<Longrightarrow> \<exists>p. ts = p @ r \<and> g_and d p a"
  "and_loop l ts d = Inr (a, r) \<Longrightarrow> \<forall>q. g_and d q l \<longrightarrow> (\<exists>p. ts = p @ r \<and> g_and d (q @ p) a)"
  "parse_not ts d = Inr (a, r) \<Longrightarrow> \<exists>p. ts = p @ r \<and> g_not d p a"
  "parse_primary ts d = Inr (a, r) \<Longrightarrow> \<exists>p. ts = p @ r \<and> g_primary d p a"
proof (induction ts d and l ts d and ts d and l ts d and ts d and ts d arbitrary: a r and a r and a r and a r and a r and a r
    rule: parse_or_or_loop_parse_and_and_loop_parse_not_parse_primary.induct)
  case (1 ts d)
  then obtain l q where l: "parse_and ts d = Inr (l, q)" "or_loop l q d = Inr (a, r)"
    by (auto simp: try_bind_eq_Inr)
  from "1.IH"(1) [OF l(1)] obtain p where p: "ts = p @ q" "g_or d p l" by (auto intro: or_and)
  from "1.IH"(2) [OF l(1) refl l(2)] p(2) obtain p' where "q = p' @ r" "g_or d (p @ p') a" by blast
  with p(1) show ?case by auto
next
  case (2 left ts d)
  then obtain x q where x: "parse_and ts d = Inr (x, q)" "or_loop (COr left x) q d = Inr (a, r)"
    by (auto simp: try_bind_eq_Inr)
  from "2.IH"(1) [OF x(1)] obtain p where p: "ts = p @ q" "g_and d p x" by blast
  show ?case
  proof (intro allI impI)
    fix w assume "g_or d w left"
    with p(2) have "g_or d (w @ TOr # p) (COr left x)" by (rule or_or [rotated])
    with "2.IH"(2) [OF x(1) refl x(2)] obtain p' where "q = p' @ r" "g_or d ((w @ TOr # p) @ p') a" by blast
    with p(1) show "\<exists>p. TOr # ts = p @ r \<and> g_or d (w @ p) a"
      by (intro exI [of _ "TOr # p @ p'"]) simp
  qed
next
  case (4 ts d)
  then obtain l q where l: "parse_not ts d = Inr (l, q)" "and_loop l q d = Inr (a, r)"
    by (auto simp: try_bind_eq_Inr)
  from "4.IH"(1) [OF l(1)] obtain p where p: "ts = p @ q" "g_and d p l" by (auto intro: and_not)
  from "4.IH"(2) [OF l(1) refl l(2)] p(2) obtain p' where "q = p' @ r" "g_and d (p @ p') a" by blast
  with p(1) show ?case by auto
next
  case (5 left ts d)
  then obtain x q where x: "parse_not ts d = Inr (x, q)" "and_loop (CAnd left x) q d = Inr (a, r)"
    by (auto simp: try_bind_eq_Inr)
  from "5.IH"(1) [OF x(1)] obtain p where p: "ts = p @ q" "g_not d p x" by blast
  show ?case
  proof (intro allI impI)
    fix w assume "g_and d w left"
    with p(2) have "g_and d (w @ TAnd # p) (CAnd left x)" by (rule and_and [rotated])
    with "5.IH"(2) [OF x(1) refl x(2)] obtain p' where "q = p' @ r" "g_and d ((w @ TAnd # p) @ p') a" by blast
    with p(1) show "\<exists>p. TAnd # ts = p @ r \<and> g_and d (w @ p) a"
      by (intro exI [of _ "TAnd # p @ p'"]) simp
  qed
next
  case (7 ts d)
  from "7.prems" have d: "d \<le> MAX_CONDITION_DEPTH" by (auto split: if_splits)
  show ?case
  proof (cases "\<exists>ts'. ts = TNot # ts'")
    case True
    then obtain ts' where ts: "ts = TNot # ts'" by blast
    with "7.prems" d obtain e where e: "parse_not ts' (d + 1) = Inr (e, r)" "a = CNot e"
      by (auto simp: try_bind_eq_Inr)
    from "7.IH" d ts e(1) obtain p where "ts' = p @ r" "g_not (d + 1) p e" by fastforce
    with ts e(2) d show ?thesis by (intro exI [of _ "TNot # p"]) (simp add: not_not)
  next
    case False
    with "7.prems" d have "parse_primary ts d = Inr (a, r)"
      by (auto split: list.splits token.splits)
    moreover from this False d have "\<exists>p. ts = p @ r \<and> g_primary d p a"
      using "7.IH" by (cases ts; cases "hd ts") (auto simp del: parse_primary.simps)
    ultimately show ?thesis using d by (auto intro: not_primary)
  qed
next
  case (9 ts d)
  then have "parse_or ts (d + 1) = Inr (a, TRParen # r)"
    by (auto simp: try_bind_eq_Inr close_paren_Inr)
  from "9.IH" [OF this] obtain p where "ts = p @ TRParen # r" "g_or (d + 1) p a" by blast
  then show ?case by (intro exI [of _ "TLParen # p @ [TRParen]"]) (simp add: primary_paren)
next
  case (10 f oper v ts d)
  then show ?case by (intro exI [of _ "[TComparison f oper v]"]) (auto simp: primary_comparison)
next
  case (11 name args ts d)
  then show ?case by (intro exI [of _ "[TFunction name args]"]) (auto simp: primary_function try_bind_eq_Inr)
qed auto

section \<open>Completeness\<close>

lemma loop_stops:
  "take 1 rest \<noteq> [TAnd] \<Longrightarrow> and_loop a rest d = Inr (a, rest)"
  "take 1 rest \<noteq> [TOr] \<Longrightarrow> or_loop a rest d = Inr (a, rest)"
  by (cases rest; cases "hd rest"; simp)+

lemma parse_complete:
  "g_or d ts a \<Longrightarrow> \<forall>rest. take 1 rest \<noteq> [TAnd] \<longrightarrow> parse_or (ts @ rest) d = or_loop a rest d"
  "g_and d ts a \<Longrightarrow> \<forall>rest. parse_and (ts @ rest) d = and_loop a rest d"
  "g_not d ts a \<Longrightarrow> \<forall>rest. parse_not (ts @ rest) d = Inr (a, rest)"
  "g_primary d ts a \<Longrightarrow> take 1 ts \<noteq> [TNot] \<and> ts \<noteq> [] \<and> (\<forall>rest. parse_primary (ts @ rest) d = Inr (a, rest))"
proof (induction rule: g_or_g_and_g_not_g_primary.inducts)
  case (or_and d ts a)
  then show ?case by (simp add: loop_stops)
next
  case (or_or d ts l us r)
  then show ?case by (simp add: loop_stops del: parse_or.simps)
next
  case (and_not d ts a)
  then show ?case by simp
next
  case (and_and d ts l us r)
  then show ?case by (simp del: parse_and.simps)
next
  case (not_primary d ts a)
  then obtain t ts' where ts: "ts = t # ts'" "t \<noteq> TNot" by (cases ts) auto
  then have "parse_not (ts @ rest) d = parse_primary (ts @ rest) d" for rest
    using not_primary.hyps(1) by (cases t) simp_all
  with not_primary.IH show ?case by simp
next
  case (not_not d ts a)
  then show ?case by simp
next
  case (primary_paren d ts a)
  then show ?case by (simp add: loop_stops del: parse_or.simps)
qed simp_all

lemma parse_tokens_iff: "parse_tokens ts = Inr a \<longleftrightarrow> g_or 0 ts a"
proof
  assume "parse_tokens ts = Inr a"
  then have "parse_or ts 0 = Inr (a, [])"
    by (auto simp: parse_tokens_def try_bind_eq_Inr simp del: parse_or.simps split: if_splits)
  from parse_sound(1) [OF this] show "g_or 0 ts a" by simp
next
  assume "g_or 0 ts a"
  from parse_complete(1) [OF this, THEN spec, of "[]"] show "parse_tokens ts = Inr a"
    by (simp add: parse_tokens_def del: parse_or.simps)
qed

section \<open>Printing\<close>

text \<open>The tokens of what \<open>Display\<close> prints, and the nesting it needs.\<close>

fun display_tokens :: "condition_ast \<Rightarrow> token list" where
  "display_tokens (Comparison field oper val) = [TComparison field oper val]"
| "display_tokens (HasField field) = [TFunction ''has_field'' [field]]"
| "display_tokens (FieldChanged field) = [TFunction ''field_changed'' [field]]"
| "display_tokens (FieldChangedTo field val) = [TFunction ''field_changed_to'' [field, val]]"
| "display_tokens (FieldChangedFrom field val) = [TFunction ''field_changed_from'' [field, val]]"
| "display_tokens (CAnd l r) =
     TLParen # display_tokens l @ [TRParen, TAnd, TLParen] @ display_tokens r @ [TRParen]"
| "display_tokens (COr l r) =
     TLParen # display_tokens l @ [TRParen, TOr, TLParen] @ display_tokens r @ [TRParen]"
| "display_tokens (CNot e) = [TNot, TLParen] @ display_tokens e @ [TRParen]"

fun display_depth :: "condition_ast \<Rightarrow> nat" where
  "display_depth (CAnd l r) = 1 + max (display_depth l) (display_depth r)"
| "display_depth (COr l r) = 1 + max (display_depth l) (display_depth r)"
| "display_depth (CNot e) = 2 + display_depth e"
| "display_depth _ = 0"

text \<open>
  The conditions whose \<open>Display\<close> is in the language: names are identifiers, operators are known,
  the value of a comparison needs no quotes, and quoted texts have no quote.
\<close>

definition ident_ok :: "string \<Rightarrow> bool" where
  "ident_ok s \<longleftrightarrow> (case s of [] \<Rightarrow> False | c # _ \<Rightarrow> ident_start c) \<and> list_all ident_char s"

fun printable :: "condition_ast \<Rightarrow> bool" where
  "printable (Comparison field oper val) =
     (ident_ok field \<and> oper \<in> set comparison_ops \<and> list_all value_char val)"
| "printable (HasField field) = (squote \<notin> set field)"
| "printable (FieldChanged field) = (squote \<notin> set field)"
| "printable (FieldChangedTo field val) = (squote \<notin> set field \<and> squote \<notin> set val)"
| "printable (FieldChangedFrom field val) = (squote \<notin> set field \<and> squote \<notin> set val)"
| "printable (CAnd l r) = (printable l \<and> printable r)"
| "printable (COr l r) = (printable l \<and> printable r)"
| "printable (CNot e) = printable e"

lemma g_primary_paren:
  "d \<le> MAX_CONDITION_DEPTH \<Longrightarrow> g_or (d + 1) ts a \<Longrightarrow> g_not d (TLParen # ts @ [TRParen]) a"
  by (rule not_primary [OF _ primary_paren])

lemma g_leaf: "d \<le> MAX_CONDITION_DEPTH \<Longrightarrow> g_primary d ts a \<Longrightarrow> g_or d ts a"
  by (rule or_and [OF and_not [OF not_primary]])

lemma display_derivable: "d + display_depth a \<le> MAX_CONDITION_DEPTH \<Longrightarrow> g_or d (display_tokens a) a"
proof (induction a arbitrary: d)
  case (CAnd l r)
  then have "g_and d ((TLParen # display_tokens l @ [TRParen]) @ TAnd # (TLParen # display_tokens r @ [TRParen])) (CAnd l r)"
    by (intro and_and and_not g_primary_paren) simp_all
  from or_and [OF this] show ?case by simp
next
  case (COr l r)
  then have "g_or d ((TLParen # display_tokens l @ [TRParen]) @ TOr # (TLParen # display_tokens r @ [TRParen])) (COr l r)"
    by (intro or_or [OF or_and [OF and_not [OF g_primary_paren]] and_not [OF g_primary_paren]]) simp_all
  then show ?case by simp
next
  case (CNot e)
  then have "g_not d (TNot # (TLParen # display_tokens e @ [TRParen])) (CNot e)"
    by (intro not_not g_primary_paren) simp_all
  from or_and [OF and_not [OF this]] show ?case by simp
qed (auto intro!: g_leaf intro: g_or_g_and_g_not_g_primary.intros simp: parse_function_def)

section \<open>Reading what was printed\<close>

lemma ident_start_plain:
  "ident_start c \<Longrightarrow> c \<notin> set [CHR '' '', CHR 9, CHR 10, CHR 13] \<and> c \<noteq> CHR ''('' \<and> c \<noteq> CHR '')'' \<and>
   c \<noteq> CHR ''!'' \<and> c \<noteq> CHR ''&'' \<and> c \<noteq> CHR ''|''"
  by (auto simp: ident_start_def is_alphabetic_def)

lemma lex_loop_word:
  assumes "ident_start c" and "lex_word (c # s) = Inr (t, r)"
  shows "lex_loop (c # s) acc = lex_loop r (acc @ [t])"
  using assms(2) ident_start_plain [OF assms(1)] assms(1) by (simp add: lex_loop.simps(2))

lemma lex_loop_ident:
  assumes "ident_ok name" and "\<not> ident_char c" and "lex_after_ident name (skip_ws (c # s)) = Inr (t, r)"
  shows "lex_loop (name @ c # s) acc = lex_loop r (acc @ [t])"
proof -
  obtain c' name' where name: "name = c' # name'" "ident_start c'"
    using assms(1) by (auto simp: ident_ok_def split: list.splits)
  have all: "\<And>x. x \<in> set name \<Longrightarrow> ident_char x" using assms(1) by (simp add: ident_ok_def list_all_iff)
  have "takeWhile ident_char (name @ c # s) = name" "dropWhile ident_char (name @ c # s) = c # s"
    using all assms(2) by (simp_all add: takeWhile_append2 dropWhile_append2)
  then have "lex_word (name @ c # s) = Inr (t, r)" using assms(3) by (simp add: lex_word_def)
  with name show ?thesis using lex_loop_word by simp
qed

lemma lex_quoted_text: "squote \<notin> set f \<Longrightarrow> lex_quoted (f @ squote # r) = (f, r)"
  by (auto simp: lex_quoted_def takeWhile_append dropWhile_append)

lemma not_ws [simp]:
  "\<not> is_whitespace squote" "\<not> is_whitespace CHR '')''" "\<not> is_whitespace CHR '',''" "\<not> is_whitespace CHR ''(''"
  "is_whitespace CHR '' ''"
  by (simp_all add: is_whitespace_def)

lemma lex_args_one:
  "squote \<notin> set f \<Longrightarrow> length args < MAX_CONDITION_FUNCTION_ARGS \<Longrightarrow>
   lex_args (squote # f @ squote # CHR '')'' # r) args = Inr (args @ [f], r)"
  by (subst lex_args.simps) (simp add: lex_quoted_text)

lemma lex_args_two:
  assumes "squote \<notin> set f" and "squote \<notin> set g"
  shows "lex_args (squote # f @ squote # CHR '','' # CHR '' '' # squote # g @ squote # CHR '')'' # r) [] = Inr ([f, g], r)"
proof -
  have "lex_args (CHR '' '' # squote # g @ squote # CHR '')'' # r) [f] =
      lex_args (squote # g @ squote # CHR '')'' # r) [f]"
    by (subst (1 2) lex_args.simps) simp
  with assms show ?thesis
    by (subst lex_args.simps) (simp add: lex_quoted_text lex_args_one MAX_CONDITION_FUNCTION_ARGS_def)
qed

lemma lex_call:
  assumes "ident_ok name" and "lex_args s [] = Inr (args, r)"
  shows "lex_loop (name @ CHR ''('' # s) acc = lex_loop r (acc @ [TFunction name args])"
  using assms by (intro lex_loop_ident) (simp_all add: lex_after_ident_def ident_char_def is_alphanumeric_def
      is_alphabetic_def is_numeric_def)

lemma function_names:
  "ident_ok ''has_field''" "ident_ok ''field_changed''" "ident_ok ''field_changed_to''" "ident_ok ''field_changed_from''"
  by (simp_all add: ident_ok_def ident_start_def ident_char_def is_alphanumeric_def is_alphabetic_def)

definition closes :: "string \<Rightarrow> bool" where
  "closes s \<longleftrightarrow> s = [] \<or> take 1 s = '')''"

lemma lex_value_plain:
  assumes "list_all value_char v" and "closes rest"
  shows "lex_value (skip_ws (CHR '' '' # v @ rest)) = (v, rest)"
proof -
  have vc: "value_char c \<Longrightarrow> \<not> is_whitespace c \<and> c \<noteq> squote" for c
    by (auto simp: value_char_def is_alphanumeric_def is_alphabetic_def is_numeric_def is_whitespace_def)
  have "skip_ws (v @ rest) = v @ rest \<and> take 1 (v @ rest) \<noteq> [squote]"
    using assms vc by (cases v; cases rest) (auto simp: closes_def)
  moreover have "takeWhile value_char (v @ rest) = v" "dropWhile value_char (v @ rest) = rest"
  proof -
    have "\<not> value_char CHR '')''"
      by (simp add: value_char_def is_alphanumeric_def is_alphabetic_def is_numeric_def)
    then have "takeWhile value_char rest = [] \<and> dropWhile value_char rest = rest"
      using assms(2) by (cases rest) (auto simp: closes_def)
    with assms(1) show "takeWhile value_char (v @ rest) = v" "dropWhile value_char (v @ rest) = rest"
      by (auto simp: list_all_iff takeWhile_append2 dropWhile_append2)
  qed
  ultimately show ?thesis by (simp add: lex_value_def)
qed

lemma lex_comparison:
  assumes "printable (Comparison f oper v)" and "closes rest"
  shows "lex_loop (display (Comparison f oper v) @ rest) acc = lex_loop rest (acc @ [TComparison f oper v])"
proof -
  have op: "oper \<in> set comparison_ops" and v: "list_all value_char v" using assms(1) by simp_all
  have space: "\<not> ident_char CHR '' ''" "\<not> op_char CHR '' ''"
    by (simp_all add: ident_char_def is_alphanumeric_def is_alphabetic_def is_numeric_def op_char_def)
  have "takeWhile op_char (oper @ CHR '' '' # v @ rest) = oper"
    "dropWhile op_char (oper @ CHR '' '' # v @ rest) = CHR '' '' # v @ rest"
    "skip_ws (CHR '' '' # oper @ CHR '' '' # v @ rest) = oper @ CHR '' '' # v @ rest"
    "take 1 (oper @ CHR '' '' # v @ rest) \<noteq> ''(''"
    using op space by (auto simp: comparison_ops_def op_char_def is_whitespace_def)
  then have "lex_after_ident f (skip_ws (CHR '' '' # oper @ CHR '' '' # v @ rest)) = Inr (TComparison f oper v, rest)"
    using op lex_value_plain [OF v assms(2)] by (simp add: lex_after_ident_def)
  from lex_loop_ident [OF _ space(1) this] assms(1) show ?thesis by simp
qed

lemma lex_symbols:
  "lex_loop (CHR '' '' # s) acc = lex_loop s acc"
  "lex_loop (CHR ''('' # s) acc = lex_loop s (acc @ [TLParen])"
  "lex_loop (CHR '')'' # s) acc = lex_loop s (acc @ [TRParen])"
  "lex_loop (CHR ''!'' # CHR ''('' # s) acc = lex_loop (CHR ''('' # s) (acc @ [TNot])"
  "lex_loop (CHR ''&'' # CHR ''&'' # s) acc = lex_loop s (acc @ [TAnd])"
  "lex_loop (CHR ''|'' # CHR ''|'' # s) acc = lex_loop s (acc @ [TOr])"
  by (simp_all add: lex_loop.simps(2))

lemma closes_paren [simp]: "closes (CHR '')'' # s)"
  by (simp add: closes_def)

lemma lex_display:
  "printable a \<Longrightarrow> closes rest \<Longrightarrow> lex_loop (display a @ rest) acc = lex_loop rest (acc @ display_tokens a)"
proof (induction a arbitrary: rest acc)
  case (Comparison f oper v)
  then show ?case using lex_comparison by simp
next
  case (HasField f)
  then have "lex_args (squote # f @ squote # CHR '')'' # rest) [] = Inr ([f], rest)"
    by (simp add: lex_args_one MAX_CONDITION_FUNCTION_ARGS_def)
  from lex_call [OF function_names(1) this] show ?case by simp
next
  case (FieldChanged f)
  then have "lex_args (squote # f @ squote # CHR '')'' # rest) [] = Inr ([f], rest)"
    by (simp add: lex_args_one MAX_CONDITION_FUNCTION_ARGS_def)
  from lex_call [OF function_names(2) this] show ?case by simp
next
  case (FieldChangedTo f v)
  then have "lex_args (squote # f @ squote # CHR '','' # CHR '' '' # squote # v @ squote # CHR '')'' # rest) [] = Inr ([f, v], rest)"
    by (simp add: lex_args_two)
  from lex_call [OF function_names(3) this] show ?case by simp
next
  case (FieldChangedFrom f v)
  then have "lex_args (squote # f @ squote # CHR '','' # CHR '' '' # squote # v @ squote # CHR '')'' # rest) [] = Inr ([f, v], rest)"
    by (simp add: lex_args_two)
  from lex_call [OF function_names(4) this] show ?case by simp
qed (simp_all add: lex_symbols)

section \<open>Limits\<close>

lemma parse_not_deep:
  "d + n > MAX_CONDITION_DEPTH \<Longrightarrow> parse_not (replicate n TNot @ ts) d = Inl depth_error"
proof (induction n arbitrary: d)
  case (Suc n)
  then show ?case by (cases "d > MAX_CONDITION_DEPTH") simp_all
qed simp

lemma parse_or_deep:
  "d + n > MAX_CONDITION_DEPTH \<Longrightarrow> parse_or (replicate n TLParen @ ts) d = Inl depth_error"
proof (induction n arbitrary: d)
  case (Suc n)
  then show ?case by (cases "d > MAX_CONDITION_DEPTH") simp_all
qed simp

text \<open>One round of the lexer: a character is skipped, or a token is added and input consumed.\<close>

lemma lex_loop_step:
  assumes "lex_loop (ch # s) acc = Inr ts"
  obtains "lex_loop s acc = Inr ts"
  | t r where "lex_loop r (acc @ [t]) = Inr ts" "length r \<le> length s"
      "t \<in> {TLParen, TRParen, TNot, TAnd, TOr} \<or> lex_word (ch # s) = Inr (t, r)"
proof -
  consider "lex_loop s acc = Inr ts" | "lex_loop s (acc @ [TLParen]) = Inr ts"
    | "lex_loop s (acc @ [TRParen]) = Inr ts" | "lex_loop s (acc @ [TNot]) = Inr ts"
    | "lex_loop (drop 1 s) (acc @ [TAnd]) = Inr ts" | "lex_loop (drop 1 s) (acc @ [TOr]) = Inr ts"
    | t r where "ident_start ch" "lex_word (ch # s) = Inr (t, r)" "lex_loop r (acc @ [t]) = Inr ts"
    using assms by (auto simp: lex_loop.simps(2) try_bind_eq_Inr split: if_splits)
  then show ?thesis
  proof cases
    case (7 t r)
    with lex_word_shrinks [OF 7(2,1)] show ?thesis by (intro that(2) [of r t]) simp_all
  qed (use that in auto)
qed

lemma lex_loop_length: "lex_loop s acc = Inr ts \<Longrightarrow> length ts \<le> length acc + length s"
proof (induction "length s" arbitrary: s acc rule: less_induct)
  case less
  show ?case
  proof (cases s)
    case Nil
    with less.prems show ?thesis by simp
  next
    case (Cons ch s')
    from less.prems [unfolded Cons] show ?thesis
    proof (cases rule: lex_loop_step)
      case 1
      from less.hyps [OF _ 1] Cons show ?thesis by simp
    next
      case (2 t r)
      from less.hyps [OF _ 2(1)] 2(2) Cons show ?thesis by simp
    qed
  qed
qed

section \<open>Properties\<close>

text \<open>
  C37. The parser decides the grammar: it accepts a list of tokens with a tree exactly when the
  grammar derives the list with that tree, so precedence and associativity are the documented
  ones, no input is ambiguous, and the parser returns on every input.
\<close>

theorem parse_tokens_grammar: "parse_tokens ts = Inr a \<longleftrightarrow> g_or 0 ts a"
  by (rule parse_tokens_iff)

text \<open>
  C38. What \<open>Display\<close> prints is parsed back to the same condition, for every condition whose
  comparison values need no quotes and that keeps within the length and nesting limits.
\<close>

theorem parse_display:
  assumes "printable a" and "display_depth a \<le> MAX_CONDITION_DEPTH"
    and "utf8_len (display a) \<le> MAX_CONDITION_INPUT_BYTES"
  shows "parse_condition (display a) = Inr a"
proof -
  have "lex_loop (display a @ []) [] = Inr (display_tokens a)"
    using lex_display [OF assms(1), of "[]" "[]"] by (simp add: closes_def)
  then have "tokenize (display a) = Inr (display_tokens a)" using assms(3) by (simp add: tokenize_def)
  moreover have "parse_tokens (display_tokens a) = Inr a"
    using display_derivable [of 0 a] assms(2) by (simp add: parse_tokens_iff)
  ultimately show ?thesis by (simp add: parse_condition_def)
qed

theorem parse_display_witness:
  "parse_condition (display (CAnd (Comparison ''total'' ''>'' ''100'') (CNot (HasField ''x'')))) =
     Inr (CAnd (Comparison ''total'' ''>'' ''100'') (CNot (HasField ''x'')))"
  by (rule parse_display)
    (simp_all add: ident_ok_def ident_start_def ident_char_def value_char_def comparison_ops_def is_alphanumeric_def
      is_alphabetic_def is_numeric_def MAX_CONDITION_DEPTH_def MAX_CONDITION_INPUT_BYTES_def)

text \<open>
  The nesting limit holds: more than 64 nested negations or parentheses are refused, whatever
  follows, before the parser recurses any deeper.
\<close>

theorem parse_depth_limit:
  assumes "n > MAX_CONDITION_DEPTH"
  shows "parse_tokens (replicate n TNot @ ts) = Inl depth_error \<and>
    parse_tokens (replicate n TLParen @ ts) = Inl depth_error"
  using parse_not_deep [of 0 n ts] parse_or_deep [of 0 n ts] assms
  by (simp add: parse_tokens_def)

theorem parse_depth_limit_witness:
  "parse_tokens (replicate 65 TNot @ [TComparison ''a'' ''=='' ''1'']) = Inl depth_error"
  using parse_depth_limit [of 65 "[TComparison ''a'' ''=='' ''1'']"] by (simp add: MAX_CONDITION_DEPTH_def)

text \<open>
  The lexer's output is bounded: an accepted condition has at most 4096 bytes and no more tokens
  than characters.
\<close>

theorem tokenize_bounds:
  assumes "tokenize s = Inr ts"
  shows "utf8_len s \<le> MAX_CONDITION_INPUT_BYTES \<and> length ts \<le> length s"
  using assms lex_loop_length [of s "[]" ts] by (simp add: tokenize_def split: if_splits)

theorem tokenize_bounds_witness:
  "utf8_len ''!(! '' \<le> MAX_CONDITION_INPUT_BYTES \<and> length [TNot, TLParen, TNot] \<le> length ''!(! ''"
  by (rule tokenize_bounds) code_simp

text \<open>
  Two places where the language is wider or narrower than it looks: a call that is never closed is
  accepted, and a quoted value loses its quotes in \<open>Display\<close>.
\<close>

lemma unterminated_call_accepted:
  "parse_condition (''has_field('' @ [squote] @ ''a'') = Inr (HasField ''a'')"
  by code_simp

lemma display_loses_quotes:
  "parse_condition (''name == '' @ quoted ''John Smith'') = Inr (Comparison ''name'' ''=='' ''John Smith'')"
  "parse_condition (display (Comparison ''name'' ''=='' ''John Smith'')) = Inl (InvalidCondition ''Unknown token: Smith'')"
  by code_simp+

end
