(* ===== verification/Condition_Eval.thy ===== *)
theory Condition_Eval
  imports Complex_Main Json Condition_Grammar
begin

text \<open>
  Evaluation of conditions against events (\<open>fraiseql-observers/src/condition/evaluator.rs\<close>,
  \<open>condition/mod.rs\<close>, \<open>event.rs\<close>). \<open>serde_json::from_str\<close> is the parameter \<open>from_json\<close> of
  the functions that call it. Numbers compare as in Rust: exactly where both fit a signed 64-bit
  integer, and otherwise as double-precision floats, whose bit patterns and rounding are written
  out.
\<close>

section \<open>Numbers\<close>

datatype f64 = Finite rat | PosInf | NegInf | NaN

definition f64_of_bits :: "u64 \<Rightarrow> f64" where
  "f64_of_bits w =
     (let n = unat w; negative = n div 2 ^ 63 = 1; e = n div 2 ^ 52 mod 2048; m = n mod 2 ^ 52;
          sign = (if negative then -1 else 1)
      in if e = 2047 then (if m \<noteq> 0 then NaN else if negative then NegInf else PosInf)
         else if e = 0 then Finite (sign * of_nat m / 2 ^ 1074)
         else if e \<ge> 1075 then Finite (sign * of_nat ((2 ^ 52 + m) * 2 ^ (e - 1075)))
         else Finite (sign * of_nat (2 ^ 52 + m) / 2 ^ (1075 - e)))"

text \<open>Integer to float: 53 significant bits, ties to the even neighbour.\<close>

fun excess_bits :: "nat \<Rightarrow> nat" where
  "excess_bits n = (if n < 2 ^ 53 then 0 else Suc (excess_bits (n div 2)))"

declare excess_bits.simps [simp del]

definition round_f64 :: "nat \<Rightarrow> nat" where
  "round_f64 n =
     (let k = excess_bits n; q = n div 2 ^ k; r = n mod 2 ^ k in
      if k = 0 then n
      else (if r > 2 ^ (k - 1) \<or> (r = 2 ^ (k - 1) \<and> odd q) then q + 1 else q) * 2 ^ k)"

fun as_f64 :: "json \<Rightarrow> f64 option" where
  "as_f64 (JNumber (PosInt n)) = Some (Finite (of_nat (round_f64 (unat n))))"
| "as_f64 (JNumber (NegInt w)) = Some (Finite (- of_nat (round_f64 (nat (- sint w)))))"
| "as_f64 (JNumber (Float w)) = Some (f64_of_bits w)"
| "as_f64 _ = None"

datatype rust_ordering = OLess | OEqual | OGreater

definition int_cmp :: "int \<Rightarrow> int \<Rightarrow> rust_ordering" where
  "int_cmp a b = (if a < b then OLess else if a = b then OEqual else OGreater)"

definition f64_partial_cmp :: "f64 \<Rightarrow> f64 \<Rightarrow> rust_ordering option" where
  "f64_partial_cmp a b =
     (case (a, b) of
        (NaN, _) \<Rightarrow> None
      | (_, NaN) \<Rightarrow> None
      | (Finite x, Finite y) \<Rightarrow> Some (if x < y then OLess else if x = y then OEqual else OGreater)
      | (PosInf, PosInf) \<Rightarrow> Some OEqual
      | (NegInf, NegInf) \<Rightarrow> Some OEqual
      | (PosInf, _) \<Rightarrow> Some OGreater
      | (_, PosInf) \<Rightarrow> Some OLess
      | (NegInf, _) \<Rightarrow> Some OLess
      | (_, NegInf) \<Rightarrow> Some OGreater)"

definition is_gt :: "rust_ordering \<Rightarrow> bool" where "is_gt c \<longleftrightarrow> c = OGreater"
definition is_lt :: "rust_ordering \<Rightarrow> bool" where "is_lt c \<longleftrightarrow> c = OLess"
definition is_ge :: "rust_ordering \<Rightarrow> bool" where "is_ge c \<longleftrightarrow> c \<noteq> OLess"
definition is_le :: "rust_ordering \<Rightarrow> bool" where "is_le c \<longleftrightarrow> c \<noteq> OGreater"

text \<open>
  Equality of \<open>serde_json\<close> values: numbers of different kinds differ, and floats compare as
  floats.
\<close>

fun number_eq :: "jnumber \<Rightarrow> jnumber \<Rightarrow> bool" where
  "number_eq (PosInt a) (PosInt b) = (a = b)"
| "number_eq (NegInt a) (NegInt b) = (a = b)"
| "number_eq (Float a) (Float b) = (f64_partial_cmp (f64_of_bits a) (f64_of_bits b) = Some OEqual)"
| "number_eq _ _ = False"

fun json_eq :: "json \<Rightarrow> json \<Rightarrow> bool" where
  "json_eq JNull JNull = True"
| "json_eq (JBool a) (JBool b) = (a = b)"
| "json_eq (JNumber a) (JNumber b) = number_eq a b"
| "json_eq (JString a) (JString b) = (a = b)"
| "json_eq (JArray xs) (JArray ys) = list_all2 json_eq xs ys"
| "json_eq (JObject xs) (JObject ys) = list_all2 (\<lambda>(k, v) (j, w). k = j \<and> json_eq v w) xs ys"
| "json_eq _ _ = False"

section \<open>Events\<close>

datatype event_kind = Created | Updated | Deleted | Custom

definition event_kind_as_str :: "event_kind \<Rightarrow> string" where
  "event_kind_as_str k =
     (case k of Created \<Rightarrow> ''INSERT'' | Updated \<Rightarrow> ''UPDATE'' | Deleted \<Rightarrow> ''DELETE'' | Custom \<Rightarrow> ''CUSTOM'')"

record field_changes =
  fc_old :: json
  fc_new :: json

type_synonym uuid = "128 word"

record entity_event =
  ev_id :: uuid
  ev_type :: event_kind
  entity_type :: string
  entity_id :: uuid
  ev_data :: json
  ev_changes :: "(string \<rightharpoonup> field_changes) option"
  ev_user_id :: "string option"
  ev_tenant_id :: "string option"
  ev_timestamp :: int

text \<open>The identifier and the time that \<open>EntityEvent::new\<close> takes from its environment are arguments.\<close>

definition event_new :: "uuid \<Rightarrow> int \<Rightarrow> event_kind \<Rightarrow> string \<Rightarrow> uuid \<Rightarrow> json \<Rightarrow> entity_event" where
  "event_new new_v4 now kind etype eid dat =
     \<lparr>ev_id = new_v4, ev_type = kind, entity_type = etype, entity_id = eid, ev_data = dat,
      ev_changes = None, ev_user_id = None, ev_tenant_id = None, ev_timestamp = now\<rparr>"

definition with_user_id :: "entity_event \<Rightarrow> string \<Rightarrow> entity_event" where
  "with_user_id e u = e\<lparr>ev_user_id := Some u\<rparr>"

definition with_tenant_id :: "entity_event \<Rightarrow> string \<Rightarrow> entity_event" where
  "with_tenant_id e t = e\<lparr>ev_tenant_id := Some t\<rparr>"

definition with_changes :: "entity_event \<Rightarrow> (string \<rightharpoonup> field_changes) \<Rightarrow> entity_event" where
  "with_changes e c = e\<lparr>ev_changes := Some c\<rparr>"

text \<open>\<open>self.changes.as_ref().and_then(|c| c.get(name))\<close>\<close>

definition change_of :: "entity_event \<Rightarrow> string \<Rightarrow> field_changes option" where
  "change_of e name = (case ev_changes e of Some c \<Rightarrow> c name | None \<Rightarrow> None)"

definition field_changed :: "entity_event \<Rightarrow> string \<Rightarrow> bool" where
  "field_changed e name = (change_of e name \<noteq> None)"

definition field_changed_to :: "entity_event \<Rightarrow> string \<Rightarrow> json \<Rightarrow> bool" where
  "field_changed_to e name expected = (case change_of e name of Some c \<Rightarrow> json_eq (fc_new c) expected | None \<Rightarrow> False)"

definition field_changed_from :: "entity_event \<Rightarrow> string \<Rightarrow> json \<Rightarrow> bool" where
  "field_changed_from e name expected = (case change_of e name of Some c \<Rightarrow> json_eq (fc_old c) expected | None \<Rightarrow> False)"

definition is_new :: "entity_event \<Rightarrow> bool" where "is_new e = (ev_type e = Created)"
definition is_deleted :: "entity_event \<Rightarrow> bool" where "is_deleted e = (ev_type e = Deleted)"

section \<open>Evaluation\<close>

definition compare_ordered :: "json \<Rightarrow> json \<Rightarrow> (rust_ordering \<Rightarrow> bool) \<Rightarrow> bool cond_result" where
  "compare_ordered left right f =
     (case (as_i64 left, as_i64 right) of
        (Some l, Some r) \<Rightarrow> Inr (f (int_cmp l r))
      | _ \<Rightarrow>
          (case as_f64 left of
             None \<Rightarrow> Inl (InvalidCondition ''Left value is not a number'')
           | Some l \<Rightarrow>
               (case as_f64 right of
                  None \<Rightarrow> Inl (InvalidCondition ''Right value is not a number'')
                | Some r \<Rightarrow>
                    (case f64_partial_cmp l r of
                       None \<Rightarrow> Inl (InvalidCondition ''Cannot compare NaN values'')
                     | Some c \<Rightarrow> Inr (f c)))))"

text \<open>The value of a condition: JSON where it parses, a string otherwise.\<close>

definition condition_value :: "(string \<Rightarrow> json option) \<Rightarrow> string \<Rightarrow> json" where
  "condition_value from_json val = (case from_json val of Some v \<Rightarrow> v | None \<Rightarrow> JString val)"

definition eval_comparison ::
  "(string \<Rightarrow> json option) \<Rightarrow> string \<Rightarrow> string \<Rightarrow> string \<Rightarrow> entity_event \<Rightarrow> bool cond_result" where
  "eval_comparison from_json field oper val event =
     (case json_get (ev_data event) field of
        None \<Rightarrow> Inl (InvalidCondition (''Field not found: '' @ field))
      | Some event_value \<Rightarrow>
          (let value_parsed = condition_value from_json val in
           if oper = ''=='' then Inr (json_eq event_value value_parsed)
           else if oper = ''!='' then Inr (\<not> json_eq event_value value_parsed)
           else if oper = ''>'' then compare_ordered event_value value_parsed is_gt
           else if oper = ''<'' then compare_ordered event_value value_parsed is_lt
           else if oper = ''>='' then compare_ordered event_value value_parsed is_ge
           else if oper = ''<='' then compare_ordered event_value value_parsed is_le
           else Inl (InvalidCondition (''Unknown operator: '' @ oper))))"

definition eval_has_field :: "string \<Rightarrow> entity_event \<Rightarrow> bool" where
  "eval_has_field field event = (json_get (ev_data event) field \<noteq> None)"

fun evaluate :: "(string \<Rightarrow> json option) \<Rightarrow> condition_ast \<Rightarrow> entity_event \<Rightarrow> bool cond_result" where
  "evaluate from_json (Comparison field oper val) event = eval_comparison from_json field oper val event"
| "evaluate from_json (HasField field) event = Inr (eval_has_field field event)"
| "evaluate from_json (FieldChanged field) event = Inr (field_changed event field)"
| "evaluate from_json (FieldChangedTo field val) event =
     Inr (field_changed_to event field (condition_value from_json val))"
| "evaluate from_json (FieldChangedFrom field val) event =
     Inr (field_changed_from event field (condition_value from_json val))"
| "evaluate from_json (CAnd left right) event =
     try_bind (evaluate from_json left event) (\<lambda>l. if l then evaluate from_json right event else Inr False)"
| "evaluate from_json (COr left right) event =
     try_bind (evaluate from_json left event) (\<lambda>l. if l then Inr True else evaluate from_json right event)"
| "evaluate from_json (CNot expr) event = try_bind (evaluate from_json expr event) (\<lambda>b. Inr (\<not> b))"

definition parse_and_evaluate :: "(string \<Rightarrow> json option) \<Rightarrow> string \<Rightarrow> entity_event \<Rightarrow> bool cond_result" where
  "parse_and_evaluate from_json condition event =
     try_bind (parse_condition condition) (\<lambda>ast. evaluate from_json ast event)"

section \<open>Operators after parsing\<close>

fun comparisons :: "condition_ast \<Rightarrow> (string \<times> string \<times> string) list" where
  "comparisons (Comparison field oper val) = [(field, oper, val)]"
| "comparisons (CAnd l r) = comparisons l @ comparisons r"
| "comparisons (COr l r) = comparisons l @ comparisons r"
| "comparisons (CNot e) = comparisons e"
| "comparisons _ = []"

fun token_ok :: "token \<Rightarrow> bool" where
  "token_ok (TComparison field oper val) = (oper \<in> set comparison_ops)"
| "token_ok _ = True"

lemma lex_word_token_ok: "lex_word s = Inr (t, r) \<Longrightarrow> token_ok t"
  by (auto simp: lex_word_def lex_after_ident_def try_bind_eq_Inr split: if_splits prod.splits)

lemma lex_loop_tokens_ok:
  "lex_loop s acc = Inr ts \<Longrightarrow> list_all token_ok acc \<Longrightarrow> list_all token_ok ts"
proof (induction "length s" arbitrary: s acc rule: less_induct)
  case less
  show ?case
  proof (cases s)
    case Nil
    with less.prems show ?thesis by simp
  next
    case (Cons ch s')
    from less.prems(1) [unfolded Cons] show ?thesis
    proof (cases rule: lex_loop_step)
      case 1
      from less.hyps [OF _ 1 less.prems(2)] Cons show ?thesis by simp
    next
      case (2 t r)
      then have "token_ok t" using lex_word_token_ok by auto
      with less.hyps [OF _ 2(1)] 2(2) less.prems(2) Cons show ?thesis by simp
    qed
  qed
qed

lemma parse_function_comparisons: "parse_function name args = Inr a \<Longrightarrow> comparisons a = []"
  by (auto simp: parse_function_def split: if_splits)

lemma grammar_comparisons:
  "g_or d ts a \<Longrightarrow> list_all token_ok ts \<longrightarrow> (\<forall>(f, oper, v) \<in> set (comparisons a). oper \<in> set comparison_ops)"
  "g_and d ts a \<Longrightarrow> list_all token_ok ts \<longrightarrow> (\<forall>(f, oper, v) \<in> set (comparisons a). oper \<in> set comparison_ops)"
  "g_not d ts a \<Longrightarrow> list_all token_ok ts \<longrightarrow> (\<forall>(f, oper, v) \<in> set (comparisons a). oper \<in> set comparison_ops)"
  "g_primary d ts a \<Longrightarrow> list_all token_ok ts \<longrightarrow> (\<forall>(f, oper, v) \<in> set (comparisons a). oper \<in> set comparison_ops)"
  by (induction rule: g_or_g_and_g_not_g_primary.inducts) (auto simp: parse_function_comparisons)

lemma parsed_operators:
  assumes "parse_condition s = Inr a" and "(f, oper, v) \<in> set (comparisons a)"
  shows "oper \<in> set comparison_ops"
proof -
  from assms(1) obtain ts where "tokenize s = Inr ts" "parse_tokens ts = Inr a"
    by (auto simp: parse_condition_def try_bind_eq_Inr)
  then have "lex_loop s [] = Inr ts" "g_or 0 ts a"
    by (auto simp: tokenize_def parse_tokens_iff split: if_splits)
  with grammar_comparisons(1) lex_loop_tokens_ok [of s "[]" ts] assms(2) show ?thesis by fastforce
qed

section \<open>Evaluation without errors\<close>

definition proper_number :: "json \<Rightarrow> bool" where
  "proper_number v \<longleftrightarrow> (\<exists>x. as_f64 v = Some x \<and> x \<noteq> NaN)"

definition comparable :: "(string \<Rightarrow> json option) \<Rightarrow> entity_event \<Rightarrow> string \<times> string \<times> string \<Rightarrow> bool" where
  "comparable from_json event c =
     (case c of (field, oper, val) \<Rightarrow>
        \<exists>x. json_get (ev_data event) field = Some x \<and>
          (oper = ''=='' \<or> oper = ''!='' \<or> (proper_number x \<and> proper_number (condition_value from_json val))))"

lemma partial_cmp_total: "x \<noteq> NaN \<Longrightarrow> y \<noteq> NaN \<Longrightarrow> \<exists>c. f64_partial_cmp x y = Some c"
  by (cases x; cases y) (simp_all add: f64_partial_cmp_def)

lemma compare_ordered_total:
  "proper_number x \<Longrightarrow> proper_number y \<Longrightarrow> \<exists>b. compare_ordered x y f = Inr b"
  by (auto simp: proper_number_def compare_ordered_def split: option.splits dest: partial_cmp_total)

lemma eval_comparison_total:
  "oper \<in> set comparison_ops \<Longrightarrow> comparable from_json event (field, oper, val) \<Longrightarrow>
   \<exists>b. eval_comparison from_json field oper val event = Inr b"
  by (auto simp: comparison_ops_def comparable_def eval_comparison_def Let_def compare_ordered_total)

lemma evaluate_total:
  "\<forall>(f, oper, v) \<in> set (comparisons a). oper \<in> set comparison_ops \<and> comparable from_json event (f, oper, v) \<Longrightarrow>
   \<exists>b. evaluate from_json a event = Inr b"
proof (induction a)
  case (Comparison f oper v)
  then show ?case using eval_comparison_total by simp
next
  case (CAnd l r)
  then obtain b c where "evaluate from_json l event = Inr b" "evaluate from_json r event = Inr c" by fastforce
  then show ?case by (cases b) auto
next
  case (COr l r)
  then obtain b c where "evaluate from_json l event = Inr b" "evaluate from_json r event = Inr c" by fastforce
  then show ?case by (cases b) auto
next
  case (CNot e)
  then obtain b where "evaluate from_json e event = Inr b" by fastforce
  then show ?case by simp
qed simp_all

fun mentioned :: "condition_ast \<Rightarrow> string set" where
  "mentioned (Comparison field oper val) = {field}"
| "mentioned (HasField field) = {field}"
| "mentioned (FieldChanged field) = {field}"
| "mentioned (FieldChangedTo field val) = {field}"
| "mentioned (FieldChangedFrom field val) = {field}"
| "mentioned (CAnd l r) = mentioned l \<union> mentioned r"
| "mentioned (COr l r) = mentioned l \<union> mentioned r"
| "mentioned (CNot e) = mentioned e"

section \<open>Properties\<close>

text \<open>
  A parsed condition evaluates without error on every event that has the fields it compares, with
  numbers on both sides of an ordering: the lexer lets only known operators through, so the
  evaluator's unknown-operator error is unreachable.
\<close>

theorem parse_and_evaluate_succeeds:
  assumes "parse_condition s = Inr a" and "list_all (comparable from_json event) (comparisons a)"
  shows "\<exists>b. parse_and_evaluate from_json s event = Inr b"
proof -
  have "\<exists>b. evaluate from_json a event = Inr b"
    using assms(2) parsed_operators [OF assms(1)] by (intro evaluate_total) (auto simp: list_all_iff)
  with assms(1) show ?thesis by (simp add: parse_and_evaluate_def)
qed

definition sample_event :: entity_event where
  "sample_event = event_new 1 0 Updated ''Order'' 2 (JObject [(''total'', JNumber (PosInt 150))])"

definition sample_from_json :: "string \<Rightarrow> json option" where
  "sample_from_json s = (if s = ''100'' then Some (JNumber (PosInt 100)) else None)"

theorem parse_and_evaluate_succeeds_witness:
  "\<exists>b. parse_and_evaluate sample_from_json ''total > 100'' sample_event = Inr b"
proof (rule parse_and_evaluate_succeeds)
  show "parse_condition ''total > 100'' = Inr (Comparison ''total'' ''>'' ''100'')" by code_simp
  show "list_all (comparable sample_from_json sample_event) (comparisons (Comparison ''total'' ''>'' ''100''))"
    by (simp add: comparable_def sample_event_def event_new_def json_get_def sample_from_json_def
        condition_value_def proper_number_def)
qed

text \<open>
  Integer comparisons are exact: when the field and the value both fit a signed 64-bit integer,
  the four orderings are those of the integers, with no rounding through floats.
\<close>

theorem integer_comparison_exact:
  assumes "json_get (ev_data event) field = Some x" and "as_i64 x = Some a"
    and "as_i64 (condition_value from_json val) = Some b"
  shows "eval_comparison from_json field ''>'' val event = Inr (a > b) \<and>
    eval_comparison from_json field ''<'' val event = Inr (a < b) \<and>
    eval_comparison from_json field ''>='' val event = Inr (a \<ge> b) \<and>
    eval_comparison from_json field ''<='' val event = Inr (a \<le> b)"
  using assms
  by (auto simp: eval_comparison_def compare_ordered_def int_cmp_def is_gt_def is_lt_def is_ge_def is_le_def Let_def)

theorem integer_comparison_exact_witness:
  "eval_comparison (\<lambda>_. Some (JNumber (PosInt 9007199254740992))) ''n'' ''>'' ''9007199254740992''
     (event_new 1 0 Updated ''Order'' 2 (JObject [(''n'', JNumber (PosInt 9007199254740993))])) = Inr True"
  using integer_comparison_exact [of "event_new 1 0 Updated ''Order'' 2 (JObject [(''n'', JNumber (PosInt 9007199254740993))])"
      "''n''" "JNumber (PosInt 9007199254740993)" 9007199254740993 "\<lambda>_. Some (JNumber (PosInt 9007199254740992))"
      "''9007199254740992''" 9007199254740992]
  by (simp add: event_new_def json_get_def condition_value_def)

text \<open>
  The connectives are those of logic, errors included: negation distributes over the
  short-circuit operators by De Morgan's laws and cancels itself.
\<close>

theorem evaluate_de_morgan:
  "evaluate from_json (CNot (CAnd l r)) event = evaluate from_json (COr (CNot l) (CNot r)) event \<and>
   evaluate from_json (CNot (COr l r)) event = evaluate from_json (CAnd (CNot l) (CNot r)) event \<and>
   evaluate from_json (CNot (CNot l)) event = evaluate from_json l event"
  by (cases "evaluate from_json l event"; cases "evaluate from_json r event") simp_all

text \<open>
  Evaluation is local: it depends on nothing of the event but the fields the condition mentions
  and their changes, so conditions cannot observe the user, the tenant or the time of an event.
\<close>

theorem evaluate_local:
  assumes "\<forall>f \<in> mentioned a. json_get (ev_data e) f = json_get (ev_data e') f \<and> change_of e f = change_of e' f"
  shows "evaluate from_json a e = evaluate from_json a e'"
  using assms
  by (induction a)
    (simp_all add: ball_Un cong: if_cong add: eval_comparison_def eval_has_field_def field_changed_def field_changed_to_def field_changed_from_def)

theorem evaluate_local_witness:
  "evaluate sample_from_json (Comparison ''total'' ''>'' ''100'') sample_event =
   evaluate sample_from_json (Comparison ''total'' ''>'' ''100'') (with_tenant_id (with_user_id sample_event ''u'') ''t'')"
  by (rule evaluate_local) (simp add: with_tenant_id_def with_user_id_def change_of_def)

end
