(* ===== verification/Machines.thy ===== *)
theory Machines
  imports Prelude
begin

text \<open>
  Runs of deterministic machines: a step takes a call and a state and returns the next state and
  a reply. The locale \<open>guarded_machine\<close> carries an invariant along every run; \<open>keyed_machines\<close>
  is the contract of a component that keeps one machine per key: a call for a key is one step of
  that key's machine and touches no other. \<open>keyed_simulation\<close> weakens the equality of states to
  a relation that may look at the calls to come; it suffices for equal replies.
\<close>

section \<open>Runs\<close>

text \<open>The final state and the replies.\<close>

fun run :: "('c \<Rightarrow> 's \<Rightarrow> 's \<times> 'r) \<Rightarrow> 'c list \<Rightarrow> 's \<Rightarrow> 's \<times> 'r list" where
  "run step [] s = (s, [])"
| "run step (c # cs) s =
     (let (s', r) = step c s; (s'', rs) = run step cs s' in (s'', r # rs))"

lemma run_append:
  "run step (cs @ ds) s =
     (let (s', rs) = run step cs s; (s'', rs') = run step ds s' in (s'', rs @ rs'))"
  by (induction cs arbitrary: s) (auto split: prod.splits)

lemma fst_run_Cons: "fst (run step (c # cs) s) = fst (run step cs (fst (step c s)))"
  by (simp split: prod.splits)

lemma snd_run_Cons: "snd (run step (c # cs) s) = snd (step c s) # snd (run step cs (fst (step c s)))"
  by (simp split: prod.splits)

lemma run_length [simp]: "length (snd (run step cs s)) = length cs"
  by (induction cs arbitrary: s) (simp_all add: snd_run_Cons del: run.simps(2))

lemmas run_Cons = fst_run_Cons snd_run_Cons

locale guarded_machine =
  fixes step :: "'c \<Rightarrow> 's \<Rightarrow> 's \<times> 'r" and ok :: "'s \<Rightarrow> bool"
  assumes ok_step: "ok s \<Longrightarrow> ok (fst (step c s))"
begin

lemma ok_run: "ok s \<Longrightarrow> ok (fst (run step cs s))"
proof (induction cs arbitrary: s)
  case (Cons c cs)
  then show ?case using ok_step [OF Cons.prems] by (simp only: fst_run_Cons)
qed simp

end

locale keyed_machines =
  fixes step :: "'c \<Rightarrow> 's \<Rightarrow> 's \<times> 'r"
    and kstep :: "'k \<times> 'c \<Rightarrow> 'm \<Rightarrow> 'm \<times> 'r"
    and view :: "'m \<Rightarrow> 'k \<Rightarrow> 's"
  assumes own: "view (fst (kstep (k, c) m)) k = fst (step c (view m k))"
    and other: "j \<noteq> k \<Longrightarrow> view (fst (kstep (k, c) m)) j = view m j"
    and reply_own: "snd (kstep (k, c) m) = snd (step c (view m k))"
begin

lemma run_state:
  "view (fst (run kstep kcs m)) k =
   fst (run step (map snd (filter (\<lambda>kc. fst kc = k) kcs)) (view m k))"
proof (induction kcs arbitrary: m)
  case (Cons kc kcs)
  obtain j c where kc: "kc = (j, c)" by force
  show ?case
    using Cons.IH [of "fst (kstep (j, c) m)"]
    by (cases "j = k") (simp_all add: kc run_Cons own other del: run.simps(2))
qed simp

lemma run_replies:
  "map snd (filter (\<lambda>kr. fst kr = k) (zip (map fst kcs) (snd (run kstep kcs m)))) =
   snd (run step (map snd (filter (\<lambda>kc. fst kc = k) kcs)) (view m k))"
proof (induction kcs arbitrary: m)
  case (Cons kc kcs)
  obtain j c where kc: "kc = (j, c)" by force
  show ?case
    using Cons.IH [of "fst (kstep (j, c) m)"]
    by (cases "j = k") (simp_all add: kc run_Cons own other reply_own del: run.simps(2))
qed simp

end

text \<open>The calls and replies of one key in a run.\<close>

definition calls_of :: "'k \<Rightarrow> ('k \<times> 'c) list \<Rightarrow> 'c list" where
  "calls_of k kcs = map snd (filter (\<lambda>kc. fst kc = k) kcs)"

definition trace_of :: "'k \<Rightarrow> ('k \<times> 'c) list \<Rightarrow> 'r list \<Rightarrow> ('c \<times> 'r) list" where
  "trace_of k kcs rs = map (\<lambda>(kc, r). (snd kc, r)) (filter (\<lambda>(kc, r). fst kc = k) (zip kcs rs))"

lemma calls_of_simps [simp]:
  "calls_of k [] = []"
  "calls_of k ((j, c) # kcs) = (if j = k then c # calls_of k kcs else calls_of k kcs)"
  by (simp_all add: calls_of_def)

lemma trace_of_simps [simp]:
  "trace_of k [] rs = []"
  "trace_of k ((j, c) # kcs) (r # rs) = (if j = k then (c, r) # trace_of k kcs rs else trace_of k kcs rs)"
  by (simp_all add: trace_of_def)

locale keyed_simulation =
  fixes step :: "'c \<Rightarrow> 's \<Rightarrow> 's \<times> 'r"
    and kstep :: "'k \<times> 'c \<Rightarrow> 'm \<Rightarrow> 'm \<times> 'r"
    and guard :: "'m \<Rightarrow> ('k \<times> 'c) list \<Rightarrow> bool"
    and sim :: "'m \<Rightarrow> ('k \<times> 'c) list \<Rightarrow> 'k \<Rightarrow> 's \<Rightarrow> bool"
  assumes guard_step: "guard m (kc # kcs) \<Longrightarrow> guard (fst (kstep kc m)) kcs"
    and sim_own: "guard m ((k, c) # kcs) \<Longrightarrow> sim m ((k, c) # kcs) k s \<Longrightarrow>
      sim (fst (kstep (k, c) m)) kcs k (fst (step c s)) \<and> snd (kstep (k, c) m) = snd (step c s)"
    and sim_other: "guard m ((j, c) # kcs) \<Longrightarrow> j \<noteq> k \<Longrightarrow> sim m ((j, c) # kcs) k s \<Longrightarrow>
      sim (fst (kstep (j, c) m)) kcs k s"
begin

lemma run_trace:
  "guard m kcs \<Longrightarrow> sim m kcs k s \<Longrightarrow>
   trace_of k kcs (snd (run kstep kcs m)) = zip (calls_of k kcs) (snd (run step (calls_of k kcs) s))"
proof (induction kcs arbitrary: m s)
  case (Cons kc kcs)
  obtain j c where kc: "kc = (j, c)" by force
  let ?m = "fst (kstep (j, c) m)"
  have guard: "guard ?m kcs" using guard_step Cons.prems(1) kc by blast
  show ?case
  proof (cases "j = k")
    case True
    then have "sim ?m kcs k (fst (step c s))" "snd (kstep (j, c) m) = snd (step c s)"
      using sim_own [of m k c kcs s] Cons.prems kc by blast+
    then show ?thesis using Cons.IH [OF guard] True by (simp add: kc run_Cons del: run.simps(2))
  next
    case False
    then have "sim ?m kcs k s" using sim_other [of m j c kcs k s] Cons.prems kc by blast
    then show ?thesis using Cons.IH [OF guard] False by (simp add: kc run_Cons del: run.simps(2))
  qed
qed simp

end

sublocale keyed_machines \<subseteq> keyed_simulation step kstep "\<lambda>m kcs. True" "\<lambda>m kcs k s. view m k = s"
  by unfold_locales (auto simp: own other reply_own)

end
