(* ===== verification/Circuit_Breaker.thy ===== *)
theory Circuit_Breaker
  imports Json Machines "HOL-Library.AList" "HOL-Library.Char_ord" "HOL-Library.List_Lexorder"
begin

text \<open>
  The circuit breakers that guard federated entity resolution
  (\<open>fraiseql-server/src/federation/circuit_breaker.rs\<close>): the state machine of one breaker, the
  manager that keeps one breaker per entity type, and the part of the request handler that
  consults it.

  \<^item> An \<open>Instant\<close> is a number of nanoseconds on the monotonic clock, a \<open>Duration\<close> a number of
    nanoseconds; \<open>elapsed\<close> saturates at zero, as subtraction on \<open>nat\<close> does. Every operation
    that reads the clock takes the reading as the argument \<open>now\<close>.
  \<^item> Each operation runs under the mutex of its breaker, so an execution is a sequence of calls.
  \<^item> Counters are \<open>u32\<close>, kept at their width; \<open>breaker_counters\<close> shows that no addition wraps.
  \<^item> Log lines have no effect on the state and are not modelled.
\<close>

section \<open>Data\<close>

definition STATE_CLOSED :: u64 where "STATE_CLOSED = 0"
definition STATE_OPEN :: u64 where "STATE_OPEN = 1"
definition STATE_HALF_OPEN :: u64 where "STATE_HALF_OPEN = 2"

datatype circuit_health_state = HealthClosed | HealthOpen | HealthHalfOpen

record subgraph_circuit_health =
  subgraph :: string
  health_state :: circuit_health_state

type_synonym instant = nat
type_synonym duration = nat

datatype circuit_state =
    Closed (consecutive_failures: u32)
  | Open (opened_at: instant) (recovery_timeout: duration)
  | HalfOpen (consecutive_failures: u32) (probe_in_flight: bool) (successes: u32)

record circuit_breaker_config =
  failure_threshold :: u32
  recovery_timeout_secs :: u64
  success_threshold :: u32

definition default_circuit_breaker_config :: circuit_breaker_config where
  "default_circuit_breaker_config =
     \<lparr>failure_threshold = 5, recovery_timeout_secs = 30, success_threshold = 2\<rparr>"

record entity_circuit_breaker =
  breaker_config :: circuit_breaker_config
  breaker_state :: circuit_state

definition from_secs :: "u64 \<Rightarrow> duration" where
  "from_secs s = unat s * 10 ^ 9"

section \<open>One breaker\<close>

definition breaker_new :: "circuit_breaker_config \<Rightarrow> entity_circuit_breaker" where
  "breaker_new cfg = \<lparr>breaker_config = cfg, breaker_state = Closed 0\<rparr>"

text \<open>\<open>Some secs\<close> rejects the request, \<open>None\<close> lets it pass.\<close>

definition check :: "instant \<Rightarrow> entity_circuit_breaker \<Rightarrow> entity_circuit_breaker \<times> u64 option" where
  "check now b =
     (case breaker_state b of
        Closed _ \<Rightarrow> (b, None)
      | Open at tmo \<Rightarrow>
          if now - at < tmo then (b, Some (recovery_timeout_secs (breaker_config b)))
          else (b\<lparr>breaker_state := HalfOpen 0 True 0\<rparr>, None)
      | HalfOpen f True n \<Rightarrow> (b, Some (recovery_timeout_secs (breaker_config b)))
      | HalfOpen f False n \<Rightarrow> (b\<lparr>breaker_state := HalfOpen f True n\<rparr>, None))"

definition record_success :: "entity_circuit_breaker \<Rightarrow> entity_circuit_breaker" where
  "record_success b =
     (case breaker_state b of
        HalfOpen f p n \<Rightarrow>
          let new_successes = n + 1 in
          if success_threshold (breaker_config b) \<le> new_successes
          then b\<lparr>breaker_state := Closed 0\<rparr>
          else b\<lparr>breaker_state := HalfOpen f False new_successes\<rparr>
      | _ \<Rightarrow> b)"

definition record_failure :: "instant \<Rightarrow> entity_circuit_breaker \<Rightarrow> entity_circuit_breaker" where
  "record_failure now b =
     (let cfg = breaker_config b;
          trip = b\<lparr>breaker_state := Open now (from_secs (recovery_timeout_secs cfg))\<rparr>
      in case breaker_state b of
           Open _ _ \<Rightarrow> b
         | Closed f \<Rightarrow>
             if failure_threshold cfg \<le> f + 1 then trip
             else b\<lparr>breaker_state := Closed (f + 1)\<rparr>
         | HalfOpen f p n \<Rightarrow>
             if failure_threshold cfg \<le> f + 1 then trip
             else b\<lparr>breaker_state := HalfOpen (f + 1) False n\<rparr>)"

definition state_code :: "entity_circuit_breaker \<Rightarrow> u64" where
  "state_code b =
     (case breaker_state b of
        Closed _ \<Rightarrow> STATE_CLOSED
      | Open _ _ \<Rightarrow> STATE_OPEN
      | HalfOpen _ _ _ \<Rightarrow> STATE_HALF_OPEN)"

definition state_for_health :: "entity_circuit_breaker \<Rightarrow> circuit_health_state" where
  "state_for_health b =
     (case breaker_state b of
        Closed _ \<Rightarrow> HealthClosed
      | Open _ _ \<Rightarrow> HealthOpen
      | HalfOpen _ _ _ \<Rightarrow> HealthHalfOpen)"

section \<open>The manager\<close>

record federation_circuit_breaker_manager =
  breakers :: "(string \<times> entity_circuit_breaker) list"
  default_config :: circuit_breaker_config
  per_entity_config :: "(string \<times> circuit_breaker_config) list"

text \<open>
  The typed configuration (\<open>fraiseql-core/src/schema/config_types.rs\<close>) and the structures read
  from the schema JSON.
\<close>

record entity_circuit_breaker_override =
  override_entity :: string
  override_failure_threshold :: "u32 option"
  override_recovery_timeout :: "u64 option"
  override_success_threshold :: "u32 option"

record schema_circuit_breaker_config =
  cb_enabled :: bool
  cb_failure_threshold :: u32
  cb_recovery_timeout_secs :: u64
  cb_success_threshold :: u32
  cb_per_entity :: "entity_circuit_breaker_override list"

record per_entity_json =
  json_entity_type :: string
  json_entity_failure_threshold :: "u32 option"
  json_entity_recovery_timeout_secs :: "u64 option"
  json_entity_success_threshold :: "u32 option"

record circuit_breaker_json =
  json_enabled :: bool
  json_failure_threshold :: "u32 option"
  json_recovery_timeout_secs :: "u64 option"
  json_success_threshold :: "u32 option"
  json_per_entity :: "per_entity_json list"

definition unwrap_or :: "'a option \<Rightarrow> 'a \<Rightarrow> 'a" where
  "unwrap_or x d = (case x of Some y \<Rightarrow> y | None \<Rightarrow> d)"

definition manager_new :: "circuit_breaker_config \<Rightarrow> federation_circuit_breaker_manager" where
  "manager_new cfg = \<lparr>breakers = [], default_config = cfg, per_entity_config = []\<rparr>"

definition config_for :: "federation_circuit_breaker_manager \<Rightarrow> string \<Rightarrow> circuit_breaker_config" where
  "config_for m entity = unwrap_or (map_of (per_entity_config m) entity) (default_config m)"

text \<open>
  \<open>get_or_create\<close> returns the shared breaker; \<open>store_breaker\<close> is the effect of an operation on
  it, seen through the map.
\<close>

definition get_or_create ::
  "string \<Rightarrow> federation_circuit_breaker_manager \<Rightarrow>
   federation_circuit_breaker_manager \<times> entity_circuit_breaker" where
  "get_or_create entity m =
     (case map_of (breakers m) entity of
        Some b \<Rightarrow> (m, b)
      | None \<Rightarrow>
          let b = breaker_new (config_for m entity)
          in (m\<lparr>breakers := AList.update entity b (breakers m)\<rparr>, b))"

definition store_breaker ::
  "string \<Rightarrow> entity_circuit_breaker \<Rightarrow> federation_circuit_breaker_manager \<Rightarrow>
   federation_circuit_breaker_manager" where
  "store_breaker entity b m = m\<lparr>breakers := AList.update entity b (breakers m)\<rparr>"

definition manager_check ::
  "instant \<Rightarrow> string \<Rightarrow> federation_circuit_breaker_manager \<Rightarrow>
   federation_circuit_breaker_manager \<times> u64 option" where
  "manager_check now entity m =
     (let (m', b) = get_or_create entity m; (b', r) = check now b
      in (store_breaker entity b' m', r))"

definition manager_record_success ::
  "string \<Rightarrow> federation_circuit_breaker_manager \<Rightarrow> federation_circuit_breaker_manager" where
  "manager_record_success entity m =
     (let (m', b) = get_or_create entity m in store_breaker entity (record_success b) m')"

definition manager_record_failure ::
  "instant \<Rightarrow> string \<Rightarrow> federation_circuit_breaker_manager \<Rightarrow>
   federation_circuit_breaker_manager" where
  "manager_record_failure now entity m =
     (let (m', b) = get_or_create entity m in store_breaker entity (record_failure now b) m')"

definition collect_states :: "federation_circuit_breaker_manager \<Rightarrow> (string \<times> u64) list" where
  "collect_states m = map (\<lambda>(k, b). (k, state_code b)) (breakers m)"

definition health_snapshot ::
  "federation_circuit_breaker_manager \<Rightarrow> subgraph_circuit_health list" where
  "health_snapshot m =
     map (\<lambda>(k, b). \<lparr>subgraph = k, health_state = state_for_health b\<rparr>) (breakers m)"

text \<open>
  Construction. Both constructors insert the overrides in order, so a later one for the same
  entity replaces an earlier one, and then create the breakers of all overridden entities.
\<close>

definition insert_override ::
  "string \<Rightarrow> u32 option \<Rightarrow> u64 option \<Rightarrow> u32 option \<Rightarrow> federation_circuit_breaker_manager \<Rightarrow>
   federation_circuit_breaker_manager" where
  "insert_override entity ft rt st m =
     m\<lparr>per_entity_config := AList.update entity
         \<lparr>failure_threshold = unwrap_or ft (failure_threshold (default_config m)),
          recovery_timeout_secs = unwrap_or rt (recovery_timeout_secs (default_config m)),
          success_threshold = unwrap_or st (success_threshold (default_config m))\<rparr>
         (per_entity_config m)\<rparr>"

definition preseed :: "federation_circuit_breaker_manager \<Rightarrow> federation_circuit_breaker_manager" where
  "preseed m = fold (\<lambda>e m. fst (get_or_create e m)) (map fst (per_entity_config m)) m"

definition from_config ::
  "schema_circuit_breaker_config option \<Rightarrow> federation_circuit_breaker_manager option" where
  "from_config circuit_breaker =
     (case circuit_breaker of
        None \<Rightarrow> None
      | Some cb \<Rightarrow>
          if \<not> cb_enabled cb then None
          else
            let default_cfg = \<lparr>failure_threshold = cb_failure_threshold cb,
                               recovery_timeout_secs = cb_recovery_timeout_secs cb,
                               success_threshold = cb_success_threshold cb\<rparr>;
                m = fold (\<lambda>ov. insert_override (override_entity ov)
                                 (override_failure_threshold ov) (override_recovery_timeout ov)
                                 (override_success_threshold ov))
                      (cb_per_entity cb) (manager_new default_cfg)
            in Some (preseed m))"

text \<open>\<open>from_value\<close> stands for \<open>serde_json::from_value::<CircuitBreakerJson>\<close>.\<close>

definition from_schema_json ::
  "(json \<Rightarrow> 'err + circuit_breaker_json) \<Rightarrow> json \<Rightarrow> federation_circuit_breaker_manager option" where
  "from_schema_json from_value federation_json =
     (case json_get federation_json ''circuit_breaker'' of
        None \<Rightarrow> None
      | Some v \<Rightarrow>
          (case from_value v of
             Inl e \<Rightarrow> None
           | Inr j \<Rightarrow>
               if \<not> json_enabled j then None
               else
                 let default_cfg =
                       \<lparr>failure_threshold = unwrap_or (json_failure_threshold j) 5,
                        recovery_timeout_secs = unwrap_or (json_recovery_timeout_secs j) 30,
                        success_threshold = unwrap_or (json_success_threshold j) 2\<rparr>;
                     m = fold (\<lambda>ov. insert_override (json_entity_type ov)
                                      (json_entity_failure_threshold ov)
                                      (json_entity_recovery_timeout_secs ov)
                                      (json_entity_success_threshold ov))
                           (json_per_entity j) (manager_new default_cfg)
                 in Some (preseed m)))"

section \<open>Entity types of a request\<close>

definition typename_of :: "json \<Rightarrow> string option" where
  "typename_of rep = Option.bind (json_get rep ''__typename'') as_str"

definition extract_entity_types :: "json option \<Rightarrow> string list" where
  "extract_entity_types variables =
     (case variables of
        None \<Rightarrow> []
      | Some vars \<Rightarrow>
          (case Option.bind (json_get vars ''representations'') as_array of
             None \<Rightarrow> []
           | Some representations \<Rightarrow>
               remdups_adj (sort (List.map_filter typename_of representations))))"

section \<open>The request handler\<close>

text \<open>
  The part of the GraphQL handler (\<open>fraiseql-server/src/routes/graphql/handler.rs\<close>) that
  guards a federation query. Every entity type of the request is checked in turn, the first
  rejection ends the request, and the outcome is recorded for all types after the execution.
  Between the two the tenant is resolved, which may end the request (\<open>Aborted\<close>) before
  anything is recorded. \<open>clock i\<close> is the reading for the \<open>i\<close>-th entity type.
\<close>

datatype exec_outcome = Aborted | ExecOk | ExecErr "nat \<Rightarrow> instant"

fun check_entities ::
  "(nat \<Rightarrow> instant) \<Rightarrow> (nat \<times> string) list \<Rightarrow> federation_circuit_breaker_manager \<Rightarrow>
   federation_circuit_breaker_manager \<times> (string \<times> u64) option" where
  "check_entities clock [] m = (m, None)"
| "check_entities clock ((i, e) # es) m =
     (case manager_check (clock i) e m of
        (m', Some retry_after) \<Rightarrow> (m', Some (e, retry_after))
      | (m', None) \<Rightarrow> check_entities clock es m')"

definition record_outcome ::
  "exec_outcome \<Rightarrow> (nat \<times> string) list \<Rightarrow> federation_circuit_breaker_manager \<Rightarrow>
   federation_circuit_breaker_manager" where
  "record_outcome out es m =
     (case out of
        Aborted \<Rightarrow> m
      | ExecOk \<Rightarrow> fold (\<lambda>(i, e). manager_record_success e) es m
      | ExecErr clock \<Rightarrow> fold (\<lambda>(i, e). manager_record_failure (clock i) e) es m)"

definition entities_request ::
  "json option \<Rightarrow> (nat \<Rightarrow> instant) \<Rightarrow> exec_outcome \<Rightarrow> federation_circuit_breaker_manager \<Rightarrow>
   federation_circuit_breaker_manager \<times> (string \<times> u64) option" where
  "entities_request variables clock out m =
     (let es = List.enumerate 0 (extract_entity_types variables)
      in case check_entities clock es m of
           (m', Some rejection) \<Rightarrow> (m', Some rejection)
         | (m', None) \<Rightarrow> (record_outcome out es m', None))"

section \<open>Executions of one breaker\<close>

datatype breaker_call = Check | RecordSuccess | RecordFailure

datatype reply = Verdict "u64 option" | Recorded

fun breaker_step ::
  "instant \<times> breaker_call \<Rightarrow> entity_circuit_breaker \<Rightarrow> entity_circuit_breaker \<times> reply" where
  "breaker_step (now, Check) b = (let (b', r) = check now b in (b', Verdict r))"
| "breaker_step (now, RecordSuccess) b = (record_success b, Recorded)"
| "breaker_step (now, RecordFailure) b = (record_failure now b, Recorded)"

abbreviation breaker_run ::
  "(instant \<times> breaker_call) list \<Rightarrow> entity_circuit_breaker \<Rightarrow> entity_circuit_breaker \<times> reply list"
where "breaker_run \<equiv> run breaker_step"

section \<open>Executions of the manager\<close>

text \<open>\<open>view\<close> is the breaker that the next call for an entity works on.\<close>

definition view :: "federation_circuit_breaker_manager \<Rightarrow> string \<Rightarrow> entity_circuit_breaker" where
  "view m entity = snd (get_or_create entity m)"

fun manager_step ::
  "string \<times> instant \<times> breaker_call \<Rightarrow> federation_circuit_breaker_manager \<Rightarrow>
   federation_circuit_breaker_manager \<times> reply" where
  "manager_step (e, now, Check) m = (let (m', r) = manager_check now e m in (m', Verdict r))"
| "manager_step (e, now, RecordSuccess) m = (manager_record_success e m, Recorded)"
| "manager_step (e, now, RecordFailure) m = (manager_record_failure now e m, Recorded)"

end
