(* ===== verification/Breaker_Safety.thy ===== *)
theory Breaker_Safety
  imports Circuit_Breaker
begin

text \<open>
  Correctness of the federation circuit breakers. The locales of \<open>Machines\<close> are interpreted on
  the model of the code: \<open>guarded_machine\<close> on one breaker, \<open>keyed_machines\<close> on the manager.
  The properties then say when one breaker opens, what it does while it is open, how it probes
  and recovers, and that the manager runs every entity in isolation with the configuration the
  schema gives it.
\<close>

section \<open>Calls of one breaker\<close>

lemma breaker_step_simps:
  "fst (breaker_step (t, Check) b) = fst (check t b)"
  "snd (breaker_step (t, Check) b) = Verdict (snd (check t b))"
  "fst (breaker_step (t, RecordSuccess) b) = record_success b"
  "snd (breaker_step (t, RecordSuccess) b) = Recorded"
  "fst (breaker_step (t, RecordFailure) b) = record_failure t b"
  "snd (breaker_step (t, RecordFailure) b) = Recorded"
  by (simp_all split: prod.splits)

lemmas breaker_ops = check_def record_success_def record_failure_def Let_def

lemma breaker_step_config [simp]: "breaker_config (fst (breaker_step c b)) = breaker_config b"
  by (cases "(c, b)" rule: breaker_step.cases)
    (auto simp: breaker_ops split: prod.splits circuit_state.splits bool.splits if_splits)

lemma breaker_run_config [simp]: "breaker_config (fst (breaker_run cs b)) = breaker_config b"
  by (induction cs arbitrary: b) (simp_all add: fst_run_Cons del: run.simps(2))

subsection \<open>Counters\<close>

text \<open>
  A counter below its threshold is below the largest \<open>u32\<close>, so adding one to it is exact.
\<close>

lemma word_succ_exact:
  fixes x :: u32
  assumes "unat x < max (Suc 0) (unat (y :: u32))"
  shows "unat (x + 1) = Suc (unat x)"
proof -
  have "unat y < 2 ^ 32" using unsigned_less [of y, where 'a = nat] by simp
  then have "unat x + 1 < 2 ^ 32" using assms by (cases "unat y = 0") simp_all
  then show ?thesis by (simp add: unat_word_ariths)
qed

text \<open>
  \<open>breaker_ok\<close>: counters are below their thresholds, and an open breaker waits for the
  configured time.
\<close>

definition breaker_ok :: "entity_circuit_breaker \<Rightarrow> bool" where
  "breaker_ok b =
     (let cfg = breaker_config b
      in case breaker_state b of
           Closed f \<Rightarrow> unat f < max 1 (unat (failure_threshold cfg))
         | Open at tmo \<Rightarrow> tmo = from_secs (recovery_timeout_secs cfg)
         | HalfOpen f p n \<Rightarrow>
             unat f < max 1 (unat (failure_threshold cfg)) \<and>
             unat n < max 1 (unat (success_threshold cfg)))"

lemma breaker_new_sel [simp]:
  "breaker_config (breaker_new cfg) = cfg" "breaker_state (breaker_new cfg) = Closed 0"
  by (simp_all add: breaker_new_def)

lemma breaker_ok_new [simp]: "breaker_ok (breaker_new cfg)"
  by (simp add: breaker_ok_def)

lemma below_threshold:
  fixes x :: u32
  assumes "\<not> y \<le> x + 1"
  shows "unat (x + 1) < max (Suc 0) (unat y)"
  using assms by (simp add: word_le_nat_alt)

lemma breaker_ok_step: "breaker_ok b \<Longrightarrow> breaker_ok (fst (breaker_step c b))"
  by (cases "(c, b)" rule: breaker_step.cases)
    (auto simp: breaker_ok_def breaker_ops below_threshold
      split: prod.splits circuit_state.splits bool.splits if_splits)

interpretation brk: guarded_machine breaker_step breaker_ok
  by unfold_locales (rule breaker_ok_step)

text \<open>
  Whatever calls a new breaker receives, its failure and success counters stay below the
  configured thresholds (below one for a threshold of zero), so the additions on \<open>u32\<close> never
  wrap; an open breaker always holds the configured recovery time; the configuration never
  changes.
\<close>

theorem breaker_counters:
  "let b = fst (breaker_run cs (breaker_new cfg)) in
   breaker_config b = cfg \<and>
   (case breaker_state b of
      Closed f \<Rightarrow>
        unat f < max 1 (unat (failure_threshold cfg)) \<and> unat (f + 1) = unat f + 1
    | Open at tmo \<Rightarrow> tmo = from_secs (recovery_timeout_secs cfg)
    | HalfOpen f p n \<Rightarrow>
        unat f < max 1 (unat (failure_threshold cfg)) \<and> unat (f + 1) = unat f + 1 \<and>
        unat n < max 1 (unat (success_threshold cfg)) \<and> unat (n + 1) = unat n + 1)"
proof -
  let ?b = "fst (breaker_run cs (breaker_new cfg))"
  have "breaker_ok ?b" by (rule brk.ok_run) simp
  then show ?thesis
    by (auto simp: breaker_ok_def Let_def split: circuit_state.splits dest: word_succ_exact)
qed

subsection \<open>Closed: counting failures\<close>

definition failures :: "(instant \<times> breaker_call) list \<Rightarrow> nat" where
  "failures cs = length (filter (\<lambda>c. snd c = RecordFailure) cs)"

lemma failures_simps [simp]:
  "failures [] = 0"
  "failures ((t, Check) # cs) = failures cs"
  "failures ((t, RecordSuccess) # cs) = failures cs"
  "failures ((t, RecordFailure) # cs) = Suc (failures cs)"
  by (simp_all add: failures_def)

lemma not_tripped:
  fixes f :: u32
  assumes "Suc (unat f) < max (Suc 0) (unat y)"
  shows "\<not> y \<le> f + 1"
  using assms word_succ_exact [of f y] by (auto simp: word_le_nat_alt)

lemma closed_run:
  assumes "breaker_state b = Closed f"
    and "unat f + failures cs < max 1 (unat (failure_threshold (breaker_config b)))"
  shows "breaker_state (fst (breaker_run cs b)) = Closed (f + of_nat (failures cs)) \<and>
    set (snd (breaker_run cs b)) \<subseteq> {Verdict None, Recorded}"
  using assms
proof (induction cs arbitrary: b f)
  case (Cons c cs)
  let ?b = "fst (breaker_step c b)"
  obtain t k where c: "c = (t, k)" by force
  obtain g where g: "breaker_state ?b = Closed g"
    "unat g + failures cs = unat f + failures (c # cs)"
    "g + of_nat (failures cs) = f + of_nat (failures (c # cs))"
    "snd (breaker_step c b) \<in> {Verdict None, Recorded}"
  proof (cases k)
    case RecordFailure
    have "unat (f + 1) = Suc (unat f)"
      using Cons.prems(2) by (intro word_succ_exact [of f "failure_threshold (breaker_config b)"])
        (simp add: c RecordFailure)
    moreover have "\<not> failure_threshold (breaker_config b) \<le> f + 1"
      using Cons.prems(2) by (intro not_tripped) (simp add: c RecordFailure)
    ultimately show ?thesis
      using Cons.prems(1) by (intro that [of "f + 1"]) (simp_all add: c RecordFailure breaker_ops)
  qed (use Cons.prems(1) in \<open>auto intro!: that [of f] simp: c breaker_ops\<close>)
  have "unat g + failures cs < max 1 (unat (failure_threshold (breaker_config ?b)))"
    using Cons.prems(2) g(2) by simp
  note IH = Cons.IH [OF g(1) this]
  show ?case using IH g(3,4) by (simp add: run_Cons del: run.simps(2))
qed simp

text \<open>
  A new breaker counts every recorded failure, whatever checks and successes come in
  between: while fewer failures than the threshold have been recorded it is closed, holds
  exactly their number and lets every request pass; the failure that reaches the threshold (a
  threshold of zero counts as one) opens it at that moment for the configured time.
\<close>

theorem breaker_trips_at_threshold:
  assumes "failures cs < max 1 (unat (failure_threshold cfg))"
  shows "breaker_state (fst (breaker_run cs (breaker_new cfg))) = Closed (of_nat (failures cs)) \<and>
    (\<forall>v. Verdict v \<in> set (snd (breaker_run cs (breaker_new cfg))) \<longrightarrow> v = None) \<and>
    (failures cs + 1 = max 1 (unat (failure_threshold cfg)) \<longrightarrow>
     breaker_state (fst (breaker_run (cs @ [(t, RecordFailure)]) (breaker_new cfg))) =
       Open t (from_secs (recovery_timeout_secs cfg)))"
proof -
  let ?b = "fst (breaker_run cs (breaker_new cfg))"
  have closed: "breaker_state ?b = Closed (of_nat (failures cs))"
    and replies: "set (snd (breaker_run cs (breaker_new cfg))) \<subseteq> {Verdict None, Recorded}"
    using closed_run [of "breaker_new cfg" 0 cs] assms by simp_all
  have "breaker_ok ?b" by (rule brk.ok_run) simp
  then have "unat (of_nat (failures cs) :: u32) = failures cs"
    using assms unsigned_less [of "failure_threshold cfg", where 'a = nat]
    by (simp add: unat_of_nat)
  then have "failure_threshold cfg \<le> of_nat (failures cs) + 1"
    if "failures cs + 1 = max 1 (unat (failure_threshold cfg))"
    using that word_succ_exact [of "of_nat (failures cs)" "failure_threshold cfg"] assms
    by (simp add: word_le_nat_alt)
  moreover obtain b rs where r: "breaker_run cs (breaker_new cfg) = (b, rs)" by force
  moreover have "breaker_config b = cfg"
    using breaker_run_config [of cs "breaker_new cfg"] by (simp add: r)
  ultimately show ?thesis
    using closed replies by (auto simp: run_append breaker_ops)
qed

theorem breaker_trips_at_threshold_witness:
  "breaker_state (fst (breaker_run [(0, RecordFailure), (1, RecordSuccess), (2, RecordFailure)]
     (breaker_new \<lparr>failure_threshold = 2, recovery_timeout_secs = 30, success_threshold = 2\<rparr>))) =
   Open 2 (30 * 10 ^ 9)"
  using breaker_trips_at_threshold [of "[(0, RecordFailure), (1, RecordSuccess)]"
      "\<lparr>failure_threshold = 2, recovery_timeout_secs = 30, success_threshold = 2\<rparr>" 2]
  by (simp add: from_secs_def del: run.simps(2))

subsection \<open>Open: rejecting until the recovery time has passed\<close>

lemma open_step:
  assumes "breaker_state b = Open at tmo" "at \<le> t" "t < at + tmo"
  shows "breaker_step (t, k) b =
    (b, if k = Check then Verdict (Some (recovery_timeout_secs (breaker_config b))) else Recorded)"
  using assms by (cases k) (auto simp: breaker_ops)

text \<open>
  While the recovery time of an open breaker has not passed, no call changes it and every
  check is rejected with the configured number of seconds; the first check at or after that
  time passes as the probe and makes the breaker half-open.
\<close>

theorem open_breaker_rejects:
  assumes "breaker_state b = Open at tmo"
    and "\<forall>c \<in> set cs. at \<le> fst c \<and> fst c < at + tmo"
    and "at + tmo \<le> t"
  shows "breaker_run (cs @ [(t, Check)]) b =
    (b\<lparr>breaker_state := HalfOpen 0 True 0\<rparr>,
     map (\<lambda>c. if snd c = Check then Verdict (Some (recovery_timeout_secs (breaker_config b)))
              else Recorded) cs @ [Verdict None])"
  using assms
proof (induction cs)
  case Nil
  then show ?case by (simp add: check_def)
next
  case (Cons c cs)
  then have "breaker_step c b =
    (b, if snd c = Check then Verdict (Some (recovery_timeout_secs (breaker_config b))) else Recorded)"
    using open_step [OF Cons.prems(1)] by (cases c) simp
  with Cons show ?case by simp
qed

theorem open_breaker_rejects_witness:
  "let cfg = \<lparr>failure_threshold = 1, recovery_timeout_secs = 30, success_threshold = 2\<rparr>;
       b = \<lparr>breaker_config = cfg, breaker_state = Open 100 (from_secs 30)\<rparr>
   in breaker_run [(100, Check), (200, RecordSuccess), (100 + 30 * 10 ^ 9, Check)] b =
      (b\<lparr>breaker_state := HalfOpen 0 True 0\<rparr>, [Verdict (Some 30), Recorded, Verdict None])"
  using open_breaker_rejects [of
      "\<lparr>breaker_config = \<lparr>failure_threshold = 1, recovery_timeout_secs = 30, success_threshold = 2\<rparr>,
        breaker_state = Open 100 (from_secs 30)\<rparr>" 100 "30 * 10 ^ 9"
      "[(100, Check), (200, RecordSuccess)]" "100 + 30 * 10 ^ 9"]
  by (simp add: from_secs_def Let_def)

subsection \<open>Half-open: probing\<close>

definition probing :: "entity_circuit_breaker \<Rightarrow> bool" where
  "probing b = (case breaker_state b of HalfOpen _ p _ \<Rightarrow> p | _ \<Rightarrow> False)"

definition is_closed :: "entity_circuit_breaker \<Rightarrow> bool" where
  "is_closed b = (case breaker_state b of Closed _ \<Rightarrow> True | _ \<Rightarrow> False)"

text \<open>The breaker is closed neither now nor after any of the calls.\<close>

fun stays_tripped :: "(instant \<times> breaker_call) list \<Rightarrow> entity_circuit_breaker \<Rightarrow> bool" where
  "stays_tripped [] b = (\<not> is_closed b)"
| "stays_tripped (c # cs) b = (\<not> is_closed b \<and> stays_tripped cs (fst (breaker_step c b)))"

text \<open>The number of requests let through and of outcomes recorded.\<close>

definition admissions :: "reply list \<Rightarrow> nat" where
  "admissions rs = count_list rs (Verdict None)"

definition outcomes :: "(instant \<times> breaker_call) list \<Rightarrow> nat" where
  "outcomes cs = length (filter (\<lambda>c. snd c \<noteq> Check) cs)"

lemma admissions_Cons:
  "admissions (r # rs) = of_bool (r = Verdict None) + admissions rs"
  by (simp add: admissions_def)

lemma outcomes_Cons: "outcomes (c # cs) = of_bool (snd c \<noteq> Check) + outcomes cs"
  by (simp add: outcomes_def)

lemma probe_step:
  assumes "\<not> is_closed b"
  shows "of_bool (snd (breaker_step c b) = Verdict None) + of_bool (probing b) \<le>
    of_bool (snd c \<noteq> Check) + (of_bool (probing (fst (breaker_step c b))) :: nat)"
  using assms
  by (cases "(c, b)" rule: breaker_step.cases)
    (auto simp: breaker_ops is_closed_def probing_def
      split: prod.splits circuit_state.splits bool.splits if_splits)

text \<open>
  C15. From a breaker that is not closed, as long as it does not close: the number of requests
  let through exceeds the number of recorded outcomes by at most one, and by none when a probe
  is already in flight. In particular at most one request passes before an outcome is recorded.
\<close>

theorem probes_bounded_by_outcomes:
  assumes "stays_tripped cs b"
  shows "admissions (snd (breaker_run cs b)) + of_bool (probing b) \<le>
    outcomes cs + of_bool (probing (fst (breaker_run cs b)))"
  using assms
proof (induction cs arbitrary: b)
  case Nil
  then show ?case by (simp add: admissions_def outcomes_def)
next
  case (Cons c cs)
  then show ?case
    using probe_step [of b c] Cons.IH [of "fst (breaker_step c b)"]
    unfolding run_Cons admissions_Cons outcomes_Cons stays_tripped.simps by linarith
qed

theorem probes_bounded_by_outcomes_witness:
  "admissions (snd (breaker_run [(5, Check), (6, Check), (7, RecordFailure), (8, Check)]
     \<lparr>breaker_config = \<lparr>failure_threshold = 5, recovery_timeout_secs = 0, success_threshold = 2\<rparr>,
      breaker_state = Open 4 0\<rparr>)) \<le> 2"
  using probes_bounded_by_outcomes [of "[(5, Check), (6, Check), (7, RecordFailure), (8, Check)]"
     "\<lparr>breaker_config = \<lparr>failure_threshold = 5, recovery_timeout_secs = 0, success_threshold = 2\<rparr>,
      breaker_state = Open 4 0\<rparr>"]
  by (simp add: breaker_ops is_closed_def probing_def outcomes_def word_le_nat_alt)

text \<open>
  The bound of one probe is on recorded outcomes, not on the requests they belong to. The
  breaker cannot tell whose outcome it records: when the late success of a request admitted
  before the circuit opened arrives during the probe, a second probe passes although the first
  is still unanswered, and a second late success closes the circuit before any probe returned.
\<close>

theorem late_outcome_admits_second_probe:
  "breaker_run
     [(0, Check), (1, Check), (2, Check), (3, RecordFailure), (3 + 30 * 10 ^ 9, Check),
      (4 + 30 * 10 ^ 9, RecordSuccess), (5 + 30 * 10 ^ 9, Check), (6 + 30 * 10 ^ 9, RecordSuccess)]
     (breaker_new \<lparr>failure_threshold = 1, recovery_timeout_secs = 30, success_threshold = 2\<rparr>) =
   (breaker_new \<lparr>failure_threshold = 1, recovery_timeout_secs = 30, success_threshold = 2\<rparr>,
    [Verdict None, Verdict None, Verdict None, Recorded, Verdict None, Recorded, Verdict None,
     Recorded])"
  by (simp add: breaker_ops breaker_new_def from_secs_def word_le_nat_alt)

subsection \<open>Recovery\<close>

text \<open>\<open>n\<close> probes that each succeed.\<close>

definition successful_probes :: "(instant \<times> instant) list \<Rightarrow> (instant \<times> breaker_call) list" where
  "successful_probes ts = concat (map (\<lambda>(t, u). [(t, Check), (u, RecordSuccess)]) ts)"

lemma half_open_probes:
  assumes "breaker_state b = HalfOpen f False n"
    and "unat n + length ts = max 1 (unat (success_threshold (breaker_config b)))" "ts \<noteq> []"
  shows "breaker_run (successful_probes ts) b =
    (b\<lparr>breaker_state := Closed 0\<rparr>, concat (map (\<lambda>_. [Verdict None, Recorded]) ts))"
  using assms
proof (induction ts arbitrary: b n)
  case (Cons tu ts)
  obtain t u where tu: "tu = (t, u)" by force
  let ?st = "success_threshold (breaker_config b)"
  have succ: "unat (n + 1) = Suc (unat n)"
    using Cons.prems(2) by (intro word_succ_exact [of n ?st]) simp
  show ?case
  proof (cases "ts = []")
    case True
    then have "?st \<le> n + 1" using Cons.prems(2) succ by (simp add: word_le_nat_alt)
    with True Cons.prems(1) show ?thesis
      by (simp add: successful_probes_def tu breaker_ops)
  next
    case False
    then have "\<not> ?st \<le> n + 1"
      using Cons.prems(2) succ by (cases ts) (auto simp: word_le_nat_alt)
    then show ?thesis
      using Cons.prems False succ Cons.IH [of "b\<lparr>breaker_state := HalfOpen f False (n + 1)\<rparr>" "n + 1"]
      by (simp add: successful_probes_def tu breaker_ops)
  qed
qed simp

text \<open>
  An open breaker recovers: once its recovery time has passed, as many successful probes
  as the success threshold asks for (at least one) all pass, and the last one closes it.
\<close>

theorem breaker_recovers:
  assumes "breaker_state b = Open at tmo" and "at + tmo \<le> fst (hd ts)"
    and "length ts = max 1 (unat (success_threshold (breaker_config b)))"
  shows "breaker_run (successful_probes ts) b =
    (b\<lparr>breaker_state := Closed 0\<rparr>, concat (map (\<lambda>_. [Verdict None, Recorded]) ts))"
proof -
  from assms(3) obtain t u ts' where ts: "ts = (t, u) # ts'" by (cases ts) auto
  let ?b = "b\<lparr>breaker_state := HalfOpen 0 False 0\<rparr>"
  have "\<not> t - at < tmo" using assms(2) ts by simp
  then have "breaker_run (successful_probes ts) b = breaker_run (successful_probes ts) ?b"
    using assms(1) by (simp add: successful_probes_def ts breaker_ops)
  also have "\<dots> = (?b\<lparr>breaker_state := Closed 0\<rparr>, concat (map (\<lambda>_. [Verdict None, Recorded]) ts))"
    by (rule half_open_probes) (use assms(3) ts in auto)
  finally show ?thesis by simp
qed

theorem breaker_recovers_witness:
  "let b = \<lparr>breaker_config = \<lparr>failure_threshold = 5, recovery_timeout_secs = 0, success_threshold = 2\<rparr>,
            breaker_state = Open 4 0\<rparr>
   in fst (breaker_run [(5, Check), (6, RecordSuccess), (7, Check), (8, RecordSuccess)] b) =
      b\<lparr>breaker_state := Closed 0\<rparr>"
  using breaker_recovers [of
      "\<lparr>breaker_config = \<lparr>failure_threshold = 5, recovery_timeout_secs = 0, success_threshold = 2\<rparr>,
        breaker_state = Open 4 0\<rparr>" 4 0 "[(5, 6), (7, 8)]"]
  by (simp add: successful_probes_def Let_def del: run.simps(2))

section \<open>The manager runs every entity in isolation\<close>

lemma view_alt:
  "view m e = (case map_of (breakers m) e of Some b \<Rightarrow> b | None \<Rightarrow> breaker_new (config_for m e))"
  by (simp add: view_def get_or_create_def Let_def split: option.splits)

lemma fst_get_or_create:
  "fst (get_or_create e m) =
   (if e \<in> dom (map_of (breakers m)) then m else store_breaker e (view m e) m)"
  by (auto simp: get_or_create_def view_alt store_breaker_def Let_def split: option.splits)

lemma config_for_store [simp]: "config_for (store_breaker e b m) = config_for m"
  by (rule ext) (simp add: config_for_def store_breaker_def)

lemma view_store [simp]: "view (store_breaker e b m) j = (if j = e then b else view m j)"
  by (simp add: view_alt split: option.splits) (simp add: store_breaker_def AList.update_conv')

lemma view_get_or_create [simp]: "view (fst (get_or_create e m)) = view m"
  by (rule ext) (simp add: fst_get_or_create)

lemma manager_ops_view:
  "manager_check t e m =
     (store_breaker e (fst (check t (view m e))) (fst (get_or_create e m)), snd (check t (view m e)))"
  "manager_record_success e m =
     store_breaker e (record_success (view m e)) (fst (get_or_create e m))"
  "manager_record_failure t e m =
     store_breaker e (record_failure t (view m e)) (fst (get_or_create e m))"
  by (simp_all add: manager_check_def manager_record_success_def manager_record_failure_def
      view_def split: prod.splits)

lemma manager_step_view:
  "manager_step (e, c) m =
     (store_breaker e (fst (breaker_step c (view m e))) (fst (get_or_create e m)),
      snd (breaker_step c (view m e)))"
  by (cases "(c, view m e)" rule: breaker_step.cases)
    (simp_all add: manager_ops_view split: prod.splits)

interpretation mgr: keyed_machines breaker_step manager_step view
  by unfold_locales (simp_all add: manager_step_view)

text \<open>
  C17. However the calls for different entity types interleave, the manager answers those for
  one entity type, and leaves its breaker, exactly as a breaker of its own that receives only
  these calls in the same order would.
\<close>

theorem manager_isolates_entities:
  "view (fst (run manager_step kcs m)) e =
     fst (breaker_run (map snd (filter (\<lambda>kc. fst kc = e) kcs)) (view m e)) \<and>
   map snd (filter (\<lambda>kr. fst kr = e) (zip (map fst kcs) (snd (run manager_step kcs m)))) =
     snd (breaker_run (map snd (filter (\<lambda>kc. fst kc = e) kcs)) (view m e))"
  using mgr.run_state mgr.run_replies by blast

section \<open>Construction\<close>

text \<open>What the configuration says of an entity type: its last override, completed by the defaults.\<close>

definition effective_config ::
  "schema_circuit_breaker_config \<Rightarrow> string \<Rightarrow> circuit_breaker_config" where
  "effective_config cb e =
     (case find (\<lambda>ov. override_entity ov = e) (rev (cb_per_entity cb)) of
        None \<Rightarrow> \<lparr>failure_threshold = cb_failure_threshold cb,
                 recovery_timeout_secs = cb_recovery_timeout_secs cb,
                 success_threshold = cb_success_threshold cb\<rparr>
      | Some ov \<Rightarrow>
          \<lparr>failure_threshold = unwrap_or (override_failure_threshold ov) (cb_failure_threshold cb),
           recovery_timeout_secs =
             unwrap_or (override_recovery_timeout ov) (cb_recovery_timeout_secs cb),
           success_threshold = unwrap_or (override_success_threshold ov) (cb_success_threshold cb)\<rparr>)"

abbreviation insert_overrides ::
  "entity_circuit_breaker_override list \<Rightarrow> federation_circuit_breaker_manager \<Rightarrow>
   federation_circuit_breaker_manager" where
  "insert_overrides \<equiv> fold (\<lambda>ov. insert_override (override_entity ov)
     (override_failure_threshold ov) (override_recovery_timeout ov) (override_success_threshold ov))"

lemma insert_overrides:
  defines "entry d ov \<equiv>
    \<lparr>failure_threshold = unwrap_or (override_failure_threshold ov) (failure_threshold d),
     recovery_timeout_secs = unwrap_or (override_recovery_timeout ov) (recovery_timeout_secs d),
     success_threshold = unwrap_or (override_success_threshold ov) (success_threshold d)\<rparr>"
  shows "breakers (insert_overrides ovs m) = breakers m"
    and "default_config (insert_overrides ovs m) = default_config m"
    and "map_of (per_entity_config (insert_overrides ovs m)) e =
      (case find (\<lambda>ov. override_entity ov = e) (rev ovs) of
         None \<Rightarrow> map_of (per_entity_config m) e
       | Some ov \<Rightarrow> Some (entry (default_config m) ov))"
  by (induction ovs rule: rev_induct)
    (auto simp: insert_override_def AList.update_conv' entry_def split: option.splits)

lemma dom_get_or_create [simp]:
  "dom (map_of (breakers (fst (get_or_create e m)))) = insert e (dom (map_of (breakers m)))"
  by (auto simp: fst_get_or_create store_breaker_def AList.update_conv')

lemma distinct_get_or_create [simp]:
  "distinct (map fst (breakers m)) \<Longrightarrow> distinct (map fst (breakers (fst (get_or_create e m))))"
  by (simp add: fst_get_or_create store_breaker_def AList.distinct_update)

lemma preseed_inv:
  "view (fold (\<lambda>e m. fst (get_or_create e m)) es m) = view m"
  "dom (map_of (breakers (fold (\<lambda>e m. fst (get_or_create e m)) es m))) =
     dom (map_of (breakers m)) \<union> set es"
  "distinct (map fst (breakers m)) \<Longrightarrow>
    distinct (map fst (breakers (fold (\<lambda>e m. fst (get_or_create e m)) es m)))"
  by (induction es arbitrary: m) (simp_all del: dom_map_of_conv_image_fst)

lemma find_None_set: "find P (rev xs) = None \<longleftrightarrow> (\<forall>x \<in> set xs. \<not> P x)"
  by (auto simp: find_None_iff)

lemma collect_states_view:
  assumes "distinct (map fst (breakers m))"
  shows "distinct (map fst (collect_states m))"
    and "set (collect_states m) =
      (\<lambda>e. (e, state_code (view m e))) ` dom (map_of (breakers m))"
proof -
  show "distinct (map fst (collect_states m))"
    using assms by (simp add: collect_states_def comp_def case_prod_beta)
  show "set (collect_states m) = (\<lambda>e. (e, state_code (view m e))) ` dom (map_of (breakers m))"
    using assms by (force simp: collect_states_def view_alt dom_map_of_conv_image_fst)
qed

text \<open>
  An enabled configuration gives a manager in which every entity type starts with a closed
  breaker under its own configuration: the last override that names it, with the defaults for
  the fields the override leaves out, or the defaults. The metrics list exactly the entity
  types with an override, each once and closed. Without a configuration, or when it is
  disabled, there is no manager.
\<close>

theorem from_config_correct:
  "from_config None = None \<and>
   (case from_config (Some cb) of
      None \<Rightarrow> \<not> cb_enabled cb
    | Some m \<Rightarrow>
        cb_enabled cb \<and>
        (\<forall>e. view m e = breaker_new (effective_config cb e)) \<and>
        distinct (map fst (collect_states m)) \<and>
        set (collect_states m) = (\<lambda>ov. (override_entity ov, STATE_CLOSED)) ` set (cb_per_entity cb))"
proof (cases "cb_enabled cb")
  case True
  define d where "d = \<lparr>failure_threshold = cb_failure_threshold cb,
     recovery_timeout_secs = cb_recovery_timeout_secs cb, success_threshold = cb_success_threshold cb\<rparr>"
  define m where "m = insert_overrides (cb_per_entity cb) (manager_new d)"
  have built: "from_config (Some cb) = Some (preseed m)"
    using True by (simp add: from_config_def m_def d_def Let_def)
  have new: "breakers m = []" by (simp add: m_def insert_overrides manager_new_def)
  have keys: "fst ` set (per_entity_config m) = override_entity ` set (cb_per_entity cb)"
  proof -
    have "dom (map_of (per_entity_config m)) = override_entity ` set (cb_per_entity cb)"
      by (auto simp: m_def insert_overrides manager_new_def find_None_set dom_def
          split: option.splits)
    then show ?thesis by (simp add: dom_map_of_conv_image_fst)
  qed
  have view: "view (preseed m) e = breaker_new (effective_config cb e)" for e
    by (simp add: preseed_def preseed_inv view_alt new config_for_def m_def insert_overrides
        effective_config_def manager_new_def d_def unwrap_or_def split: option.splits)
  have dist: "distinct (map fst (breakers (preseed m)))"
    unfolding preseed_def by (rule preseed_inv) (simp add: new)
  have "dom (map_of (breakers (preseed m))) = override_entity ` set (cb_per_entity cb)"
    by (simp add: preseed_def preseed_inv new keys del: dom_map_of_conv_image_fst)
  moreover have "from_config None = None" by (simp add: from_config_def)
  ultimately show ?thesis
    using True collect_states_view [OF dist]
    by (simp add: built view state_code_def image_image)
qed (simp add: from_config_def)

text \<open>The typed configuration that the JSON section stands for.\<close>

definition typed_override :: "per_entity_json \<Rightarrow> entity_circuit_breaker_override" where
  "typed_override j =
     \<lparr>override_entity = json_entity_type j,
      override_failure_threshold = json_entity_failure_threshold j,
      override_recovery_timeout = json_entity_recovery_timeout_secs j,
      override_success_threshold = json_entity_success_threshold j\<rparr>"

definition typed_config :: "circuit_breaker_json \<Rightarrow> schema_circuit_breaker_config" where
  "typed_config j =
     \<lparr>cb_enabled = json_enabled j,
      cb_failure_threshold =
        unwrap_or (json_failure_threshold j) (failure_threshold default_circuit_breaker_config),
      cb_recovery_timeout_secs =
        unwrap_or (json_recovery_timeout_secs j)
          (recovery_timeout_secs default_circuit_breaker_config),
      cb_success_threshold =
        unwrap_or (json_success_threshold j) (success_threshold default_circuit_breaker_config),
      cb_per_entity = map typed_override (json_per_entity j)\<rparr>"

text \<open>
  The two constructors agree: for every deserializer, building the manager from the schema
  JSON gives what building it from the typed configuration gives, with the documented defaults
  for missing fields; a missing or malformed section gives no manager.
\<close>

theorem from_schema_json_from_config:
  "from_schema_json from_value federation_json =
     (case json_get federation_json ''circuit_breaker'' of
        None \<Rightarrow> None
      | Some v \<Rightarrow>
          (case from_value v of
             Inl e \<Rightarrow> None
           | Inr j \<Rightarrow> from_config (Some (typed_config j))))"
  by (simp add: from_schema_json_def from_config_def typed_config_def typed_override_def
      default_circuit_breaker_config_def fold_map comp_def split: option.splits sum.splits)

section \<open>Requests\<close>

lemma typename_of_Some:
  "typename_of rep = Some t \<longleftrightarrow> json_get rep ''__typename'' = Some (JString t)"
  by (auto simp: typename_of_def bind_eq_Some_conv)

lemma sorted_remdups_adj_strict:
  fixes xs :: "'a :: linorder list"
  shows "sorted xs \<Longrightarrow> sorted_wrt (<) (remdups_adj xs)"
  by (induction xs rule: remdups_adj.induct) (auto simp: less_le)

text \<open>
  The entity types of a request are the \<open>__typename\<close> strings of its representations, each
  once, in ascending order; without a list of representations there are none.
\<close>

theorem extract_entity_types_correct:
  "sorted_wrt (<) (extract_entity_types variables) \<and>
   set (extract_entity_types variables) =
     {t. \<exists>vars reps rep. variables = Some vars \<and>
           json_get vars ''representations'' = Some (JArray reps) \<and> rep \<in> set reps \<and>
           json_get rep ''__typename'' = Some (JString t)}"
  by (cases "variables", simp add: extract_entity_types_def,
      cases "Option.bind (json_get (the variables) ''representations'') as_array")
    (auto simp: extract_entity_types_def sorted_remdups_adj_strict set_map_filter typename_of_Some
      bind_eq_Some_conv)

lemma check_entities_other:
  "e \<notin> snd ` set es \<Longrightarrow> view (fst (check_entities clock es m)) e = view m e"
proof (induction es arbitrary: m)
  case (Cons ie es)
  then show ?case
    by (cases ie) (auto simp: manager_ops_view split: option.splits)
qed simp

lemma check_probing:
  "probing b \<Longrightarrow> check t b = (b, Some (recovery_timeout_secs (breaker_config b)))"
  by (auto simp: check_def probing_def split: circuit_state.splits bool.splits)

lemma check_entities_probing:
  assumes "probing (view m e)"
  shows "view (fst (check_entities clock es m)) e = view m e \<and>
    (e \<in> snd ` set es \<longrightarrow> snd (check_entities clock es m) \<noteq> None)"
  using assms
proof (induction es arbitrary: m)
  case (Cons ie es)
  obtain i j where ie: "ie = (i, j)" by force
  show ?case
  proof (cases "j = e")
    case True
    with Cons.prems show ?thesis by (simp add: ie manager_ops_view check_probing)
  next
    case False
    with Cons.prems Cons.IH [of "fst (manager_check (clock i) j m)"] show ?thesis
      by (auto simp: ie manager_ops_view split: option.splits)
  qed
qed simp

lemma record_outcome_other:
  "e \<notin> snd ` set es \<Longrightarrow> view (record_outcome out es m) e = view m e"
proof -
  have "view (fold (\<lambda>(i, e). manager_record_success e) es m) e = view m e \<and>
    view (fold (\<lambda>(i, e). manager_record_failure (clock i) e) es m) e = view m e"
    if "e \<notin> snd ` set es" for clock
    using that by (induction es rule: rev_induct) (auto simp: manager_ops_view)
  then show "e \<notin> snd ` set es \<Longrightarrow> view (record_outcome out es m) e = view m e"
    by (simp add: record_outcome_def split: exec_outcome.splits)
qed

lemma entities_request_probing:
  assumes "probing (view m e)"
  shows "view (fst (entities_request vars clock out m)) e = view m e"
    and "e \<in> set (extract_entity_types vars) \<Longrightarrow> snd (entities_request vars clock out m) \<noteq> None"
proof -
  let ?es = "List.enumerate 0 (extract_entity_types vars)"
  have names: "snd ` set ?es = set (extract_entity_types vars)"
    by (metis list.set_map map_snd_enumerate)
  show rej: "e \<in> set (extract_entity_types vars) \<Longrightarrow> snd (entities_request vars clock out m) \<noteq> None"
    using check_entities_probing [OF assms, of clock ?es]
    by (auto simp: entities_request_def names Let_def split: prod.splits option.splits)
  show "view (fst (entities_request vars clock out m)) e = view m e"
    using check_entities_probing [OF assms, of clock ?es]
      record_outcome_other [of e ?es out]
    by (cases "e \<in> set (extract_entity_types vars)")
      (auto simp: entities_request_def names Let_def split: prod.splits option.splits)
qed

fun request_step ::
  "json option \<times> (nat \<Rightarrow> instant) \<times> exec_outcome \<Rightarrow> federation_circuit_breaker_manager \<Rightarrow>
   federation_circuit_breaker_manager \<times> (string \<times> u64) option" where
  "request_step (vars, clock, out) m = entities_request vars clock out m"

text \<open>
  C16. A probe whose request ends without recording an outcome blocks its entity type for good:
  once a breaker has a probe in flight that no request still running will answer, every
  later request that names the entity type is rejected, at any time and in any sequence of
  requests, and the breaker never changes again.
\<close>

theorem stranded_probe_blocks:
  assumes "probing (view m e)"
  shows "view (fst (run request_step reqs m)) e = view m e \<and>
    (\<forall>(req, rejection) \<in> set (zip reqs (snd (run request_step reqs m))).
       e \<in> set (extract_entity_types (fst req)) \<longrightarrow> rejection \<noteq> None)"
  using assms
proof (induction reqs arbitrary: m)
  case (Cons req reqs)
  obtain vars clock out where req: "req = (vars, clock, out)" by (cases req)
  note step = entities_request_probing [OF Cons.prems, of vars clock out]
  have "probing (view (fst (request_step req m)) e)" using step(1) Cons.prems by (simp add: req)
  from Cons.IH [OF this] step show ?case
    by (auto simp: req run_Cons simp del: run.simps(2))
qed simp

text \<open>
  The handler itself strands a probe: a request for two entity types whose circuits are open,
  one past its recovery time and one not, takes the probe of the first and is then rejected
  because of the second.
\<close>

definition two_entities :: json where
  "two_entities = JObject [(''representations'',
     JArray [JObject [(''__typename'', JString ''User'')],
             JObject [(''__typename'', JString ''Product'')]])]"

definition tripped_manager :: federation_circuit_breaker_manager where
  "tripped_manager =
     manager_record_failure 0 ''Product'' (manager_record_failure (20 * 10 ^ 9) ''User''
       (manager_new \<lparr>failure_threshold = 1, recovery_timeout_secs = 30, success_threshold = 2\<rparr>))"

lemma two_entities_types: "extract_entity_types (Some two_entities) = [''Product'', ''User'']"
  by (simp add: extract_entity_types_def two_entities_def json_get_def typename_of_def
      List.map_filter_def)

lemma rejected_request_strands_probe:
  "snd (entities_request (Some two_entities) (\<lambda>_. 30 * 10 ^ 9) out tripped_manager) =
     Some (''User'', 30)"
  "probing (view (fst (entities_request (Some two_entities) (\<lambda>_. 30 * 10 ^ 9) out tripped_manager))
     ''Product'')"
  by (simp_all add: entities_request_def two_entities_types tripped_manager_def manager_ops_view
      breaker_ops view_alt config_for_def manager_new_def unwrap_or_def store_breaker_def
      breaker_new_def from_secs_def probing_def get_or_create_def)

theorem stranded_probe_blocks_witness:
  "\<forall>reqs. view (fst (run request_step reqs
      (fst (entities_request (Some two_entities) (\<lambda>_. 30 * 10 ^ 9) ExecOk tripped_manager))))
      ''Product'' =
    view (fst (entities_request (Some two_entities) (\<lambda>_. 30 * 10 ^ 9) ExecOk tripped_manager))
      ''Product''"
  using stranded_probe_blocks [OF rejected_request_strands_probe(2) [of ExecOk]] by blast

end
