(* ===== verification/Query_Complexity.thy ===== *)
theory Query_Complexity
  imports Json
begin

text \<open>
  The request validator that limits depth, complexity and aliases of a GraphQL query
  (\<open>fraiseql-core/src/graphql/complexity.rs\<close>).

  \<^item> The document is the tree that \<open>graphql_parser\<close> returns, with the parts the validator reads:
    fields with alias, arguments and selections, inline fragments, fragment spreads. The parser
    itself is the argument \<open>parse_query\<close> of the two entry points.
  \<^item> \<open>usize\<close> is 64 bits wide and wraps, as it does in the release profile of the workspace,
    which leaves overflow checks off. The nesting level of fragment spreads never exceeds 33
    and is a natural number.
  \<^item> A selection set recurses into the fragment it spreads, up to 32 levels; that bound and the
    size of the set are what makes the functions total.
\<close>

type_synonym usize = "64 word"

section \<open>Documents\<close>

text \<open>An integer argument is the result of \<open>Number::as_i64\<close>, in two's complement.\<close>

datatype gql_value = VInt "u64 option" | VOther

datatype selection =
    SField (sel_alias: "string option") (sel_name: string) (sel_arguments: "(string \<times> gql_value) list")
      (sel_items: "selection list")
  | InlineFragment "selection list"
  | FragmentSpread string

type_synonym selection_set = "selection list"

datatype operation_definition =
    OpQuery selection_set
  | OpMutation selection_set
  | OpSubscription selection_set
  | OpSelectionSet selection_set

datatype gql_definition =
    DefOperation operation_definition
  | DefFragment string selection_set

type_synonym document = "gql_definition list"
type_synonym fragments = "(string \<times> selection_set) list"

section \<open>Configuration and errors\<close>

definition DEFAULT_MAX_ALIASES :: usize where "DEFAULT_MAX_ALIASES = 30"
definition MAX_VARIABLES_COUNT :: nat where "MAX_VARIABLES_COUNT = 1000"

record complexity_config =
  cc_max_depth :: usize
  cc_max_complexity :: usize
  cc_max_aliases :: usize

definition complexity_config_default :: complexity_config where
  "complexity_config_default =
     \<lparr>cc_max_depth = 10, cc_max_complexity = 100, cc_max_aliases = DEFAULT_MAX_ALIASES\<rparr>"

record query_metrics =
  m_depth :: usize
  m_complexity :: usize
  m_alias_count :: usize

datatype complexity_validation_error =
    QueryTooDeep usize usize
  | QueryTooComplex usize usize
  | TooManyAliases usize usize
  | InvalidVariables string
  | MalformedQuery string

record request_validator =
  max_depth :: usize
  max_complexity :: usize
  max_aliases_per_query :: usize
  validate_depth :: bool
  validate_complexity :: bool

definition request_validator_default :: request_validator where
  "request_validator_default =
     \<lparr>max_depth = 10, max_complexity = 100, max_aliases_per_query = DEFAULT_MAX_ALIASES,
      validate_depth = True, validate_complexity = True\<rparr>"

definition validator_from_config :: "complexity_config \<Rightarrow> request_validator" where
  "validator_from_config config =
     \<lparr>max_depth = cc_max_depth config, max_complexity = cc_max_complexity config,
      max_aliases_per_query = cc_max_aliases config,
      validate_depth = True, validate_complexity = True\<rparr>"

definition with_max_depth :: "request_validator \<Rightarrow> usize \<Rightarrow> request_validator" where
  "with_max_depth v n = v\<lparr>max_depth := n\<rparr>"

definition with_max_complexity :: "request_validator \<Rightarrow> usize \<Rightarrow> request_validator" where
  "with_max_complexity v n = v\<lparr>max_complexity := n\<rparr>"

definition with_depth_validation :: "request_validator \<Rightarrow> bool \<Rightarrow> request_validator" where
  "with_depth_validation v b = v\<lparr>validate_depth := b\<rparr>"

definition with_complexity_validation :: "request_validator \<Rightarrow> bool \<Rightarrow> request_validator" where
  "with_complexity_validation v b = v\<lparr>validate_complexity := b\<rparr>"

definition with_max_aliases :: "request_validator \<Rightarrow> usize \<Rightarrow> request_validator" where
  "with_max_aliases v n = v\<lparr>max_aliases_per_query := n\<rparr>"

section \<open>Metrics\<close>

definition collect_fragments :: "document \<Rightarrow> fragments" where
  "collect_fragments doc =
     List.map_filter (\<lambda>d. case d of DefFragment n ss \<Rightarrow> Some (n, ss) | _ \<Rightarrow> None) doc"

text \<open>\<open>fragments.iter().find(|f| f.name == name)\<close> is \<open>map_of\<close>: the first entry wins.\<close>

fun op_selection_set :: "operation_definition \<Rightarrow> selection_set" where
  "op_selection_set (OpQuery ss) = ss"
| "op_selection_set (OpMutation ss) = ss"
| "op_selection_set (OpSubscription ss) = ss"
| "op_selection_set (OpSelectionSet ss) = ss"

text \<open>\<open>n.clamp(1, 100)\<close> of the argument cast to \<open>usize\<close>.\<close>

fun extract_limit_multiplier :: "(string \<times> gql_value) list \<Rightarrow> usize" where
  "extract_limit_multiplier [] = 1"
| "extract_limit_multiplier ((name, v) # args) =
     (if name \<in> {''first'', ''limit'', ''take'', ''last''}
      then (case v of
              VInt n \<Rightarrow> max 1 (min 100 (case n of Some k \<Rightarrow> k | None \<Rightarrow> 10))
            | VOther \<Rightarrow> extract_limit_multiplier args)
      else extract_limit_multiplier args)"

text \<open>\<open>iter().max().unwrap_or(0)\<close> on unsigned numbers\<close>

definition max_or_zero :: "'a :: {linorder, zero} list \<Rightarrow> 'a" where
  "max_or_zero xs = foldr max xs 0"

function selection_set_depth :: "request_validator \<Rightarrow> fragments \<Rightarrow> nat \<Rightarrow> selection_set \<Rightarrow> usize" where
  "selection_set_depth v frs rd items =
     (if rd > 32 then max_depth v + 1
      else if items = [] then 0
      else 1 + max_or_zero (map (\<lambda>sel. case sel of
             SField a n args ss \<Rightarrow> if ss = [] then 0 else selection_set_depth v frs rd ss
           | InlineFragment ss \<Rightarrow> selection_set_depth v frs rd ss
           | FragmentSpread n \<Rightarrow>
               (case map_of frs n of
                  Some ss \<Rightarrow> selection_set_depth v frs (rd + 1) ss
                | None \<Rightarrow> max_depth v)) items))"
  by pat_completeness auto
termination
  by (relation "(\<lambda>(v, frs, rd, items). 33 - rd) <*mlex*> measure (\<lambda>(v, frs, rd, items). size_list size items)")
    (auto simp: mlex_prod_def wf_mlex intro!: size_list_estimation wf_mlex)

function selection_set_complexity ::
  "request_validator \<Rightarrow> fragments \<Rightarrow> nat \<Rightarrow> selection_set \<Rightarrow> usize" where
  "selection_set_complexity v frs rd items =
     (if rd > 32 then max_complexity v + 1
      else sum_list (map (\<lambda>sel. case sel of
             SField a n args ss \<Rightarrow>
               (let multiplier = extract_limit_multiplier args in
                if ss = [] then 1 else 1 + selection_set_complexity v frs rd ss * multiplier)
           | InlineFragment ss \<Rightarrow> selection_set_complexity v frs rd ss
           | FragmentSpread n \<Rightarrow>
               (case map_of frs n of
                  Some ss \<Rightarrow> selection_set_complexity v frs (rd + 1) ss
                | None \<Rightarrow> 10)) items))"
  by pat_completeness auto
termination
  by (relation "(\<lambda>(v, frs, rd, items). 33 - rd) <*mlex*> measure (\<lambda>(v, frs, rd, items). size_list size items)")
    (auto simp: mlex_prod_def wf_mlex intro!: size_list_estimation wf_mlex)

declare selection_set_depth.simps [simp del] selection_set_complexity.simps [simp del]

function count_aliases_in_selection_set :: "selection_set \<Rightarrow> usize" where
  "count_aliases_in_selection_set items =
     sum_list (map (\<lambda>sel. case sel of
         SField a n args ss \<Rightarrow> of_bool (a \<noteq> None) + count_aliases_in_selection_set ss
       | InlineFragment ss \<Rightarrow> count_aliases_in_selection_set ss
       | FragmentSpread n \<Rightarrow> 0) items)"
  by pat_completeness auto
termination
  by (relation "measure (size_list size)") (auto intro!: size_list_estimation)

declare count_aliases_in_selection_set.simps [simp del]

definition calculate_depth_ast :: "request_validator \<Rightarrow> document \<Rightarrow> fragments \<Rightarrow> usize" where
  "calculate_depth_ast v doc frs =
     max_or_zero (map (\<lambda>d. case d of
         DefOperation op \<Rightarrow> selection_set_depth v frs 0 (op_selection_set op)
       | DefFragment n ss \<Rightarrow> selection_set_depth v frs 0 ss) doc)"

definition calculate_complexity_ast :: "request_validator \<Rightarrow> document \<Rightarrow> fragments \<Rightarrow> usize" where
  "calculate_complexity_ast v doc frs =
     sum_list (map (\<lambda>d. case d of
         DefOperation op \<Rightarrow> selection_set_complexity v frs 0 (op_selection_set op)
       | DefFragment n ss \<Rightarrow> 0) doc)"

definition count_aliases_ast :: "document \<Rightarrow> usize" where
  "count_aliases_ast doc =
     sum_list (map (\<lambda>d. case d of
         DefOperation op \<Rightarrow> count_aliases_in_selection_set (op_selection_set op)
       | DefFragment n ss \<Rightarrow> count_aliases_in_selection_set ss) doc)"

section \<open>Validation\<close>

text \<open>\<open>query.trim().is_empty()\<close>\<close>

definition is_blank :: "string \<Rightarrow> bool" where
  "is_blank s = list_all is_whitespace s"

definition analyze ::
  "(string \<Rightarrow> string + document) \<Rightarrow> request_validator \<Rightarrow> string \<Rightarrow>
   complexity_validation_error + query_metrics" where
  "analyze parse_query v query =
     (if is_blank query then Inl (MalformedQuery ''Empty query'')
      else case parse_query query of
             Inl e \<Rightarrow> Inl (MalformedQuery e)
           | Inr doc \<Rightarrow>
               (let frs = collect_fragments doc in
                Inr \<lparr>m_depth = calculate_depth_ast v doc frs,
                     m_complexity = calculate_complexity_ast v doc frs,
                     m_alias_count = count_aliases_ast doc\<rparr>))"

definition validate_query ::
  "(string \<Rightarrow> string + document) \<Rightarrow> request_validator \<Rightarrow> string \<Rightarrow>
   complexity_validation_error + unit" where
  "validate_query parse_query v query =
     (if is_blank query then Inl (MalformedQuery ''Empty query'')
      else if \<not> validate_depth v \<and> \<not> validate_complexity v \<and> max_aliases_per_query v = 0 then Inr ()
      else case parse_query query of
             Inl e \<Rightarrow> Inl (MalformedQuery e)
           | Inr doc \<Rightarrow>
               (let frs = collect_fragments doc;
                    depth = calculate_depth_ast v doc frs;
                    complexity = calculate_complexity_ast v doc frs;
                    alias_count = count_aliases_ast doc
                in if validate_depth v \<and> depth > max_depth v then Inl (QueryTooDeep (max_depth v) depth)
                   else if validate_complexity v \<and> complexity > max_complexity v
                     then Inl (QueryTooComplex (max_complexity v) complexity)
                   else if alias_count > max_aliases_per_query v
                     then Inl (TooManyAliases (max_aliases_per_query v) alias_count)
                   else Inr ()))"

definition validate_variables :: "json option \<Rightarrow> complexity_validation_error + unit" where
  "validate_variables variables =
     (case variables of
        None \<Rightarrow> Inr ()
      | Some vars \<Rightarrow>
          (case as_object vars of
             None \<Rightarrow> Inl (InvalidVariables ''Variables must be an object'')
           | Some obj \<Rightarrow>
               if length obj > MAX_VARIABLES_COUNT
               then Inl (InvalidVariables (''Too many variables: '' @ show_nat (length obj) @
                      '' exceeds maximum of '' @ show_nat MAX_VARIABLES_COUNT))
               else Inr ()))"

end
