(* ===== verification/Query_Limits.thy ===== *)
theory Query_Limits
  imports Query_Complexity
begin

text \<open>
  What the query validator guarantees. The reference is the query with its fragments spread out
  (\<open>expand\<close>): \<open>cost\<close> is the number of fields a response can hold when every field with a limit
  returns that many objects, and \<open>height\<close> its nesting. The metrics of the code are shown to be
  these numbers reduced to the machine word; the limits hold for every query whose numbers fit
  the word, cyclic fragments are always rejected, and a concrete query shows that a complexity
  beyond the word wraps around and passes.
\<close>

section \<open>Expansion and the reference metrics\<close>

function expand :: "fragments \<Rightarrow> nat \<Rightarrow> selection_set \<Rightarrow> selection_set option" where
  "expand frs rd items =
     (if rd > 32 then None
      else those (map (\<lambda>sel. case sel of
             SField a n args ss \<Rightarrow> map_option (SField a n args) (expand frs rd ss)
           | InlineFragment ss \<Rightarrow> map_option InlineFragment (expand frs rd ss)
           | FragmentSpread n \<Rightarrow>
               (case map_of frs n of
                  Some ss \<Rightarrow> map_option InlineFragment (expand frs (rd + 1) ss)
                | None \<Rightarrow> None)) items))"
  by pat_completeness auto
termination
  by (relation "(\<lambda>(frs, rd, items). 33 - rd) <*mlex*> measure (\<lambda>(frs, rd, items). size_list size items)")
    (auto simp: mlex_prod_def wf_mlex intro!: size_list_estimation wf_mlex)

declare expand.simps [simp del]

fun cost :: "selection \<Rightarrow> nat" where
  "cost (SField a n args ss) = 1 + unat (extract_limit_multiplier args) * sum_list (map cost ss)"
| "cost (InlineFragment ss) = sum_list (map cost ss)"
| "cost (FragmentSpread n) = 0"

fun height :: "selection \<Rightarrow> nat" where
  "height (SField a n args ss) = (if ss = [] then 0 else 1 + max_or_zero (map height ss))"
| "height (InlineFragment ss) = (if ss = [] then 0 else 1 + max_or_zero (map height ss))"
| "height (FragmentSpread n) = 0"

definition set_cost :: "selection_set \<Rightarrow> nat" where
  "set_cost ss = sum_list (map cost ss)"

definition set_height :: "selection_set \<Rightarrow> nat" where
  "set_height ss = (if ss = [] then 0 else 1 + max_or_zero (map height ss))"

lemma those_Some_iff: "those xs = Some ys \<longleftrightarrow> xs = map Some ys"
proof (induction xs arbitrary: ys)
  case (Cons x xs)
  then show ?case by (cases x; cases ys) auto
qed auto

lemma sum_list_of_nat: "sum_list (map (\<lambda>x. of_nat (f x)) xs) = (of_nat (sum_list (map f xs)) :: 'a :: semiring_1)"
  by (induction xs) simp_all

lemma those_map_cong:
  assumes "those (map f xs) = Some ys" and "\<And>x y. x \<in> set xs \<Longrightarrow> f x = Some y \<Longrightarrow> g x = h y"
  shows "map g xs = map h ys"
  using assms unfolding those_Some_iff
  by (induction xs arbitrary: ys) (auto simp: Cons_eq_map_conv)

lemma expand_Some_le: "expand frs rd items = Some t \<Longrightarrow> rd \<le> 32"
  by (subst (asm) expand.simps) (simp split: if_splits)

text \<open>The complexity the code computes is the cost of the expanded query, modulo the word.\<close>

lemma complexity_expand:
  "expand frs rd items = Some t \<Longrightarrow>
   selection_set_complexity v frs rd items = of_nat (set_cost t)"
proof (induction frs rd items arbitrary: t rule: expand.induct)
  case (1 frs rd items)
  from "1.prems" have rd: "rd \<le> 32" by (rule expand_Some_le)
  let ?f = "\<lambda>sel. case sel of
      SField a n args ss \<Rightarrow> map_option (SField a n args) (expand frs rd ss)
    | InlineFragment ss \<Rightarrow> map_option InlineFragment (expand frs rd ss)
    | FragmentSpread n \<Rightarrow> (case map_of frs n of
        Some ss \<Rightarrow> map_option InlineFragment (expand frs (rd + 1) ss) | None \<Rightarrow> None)"
  let ?g = "\<lambda>sel. case sel of
      SField a n args ss \<Rightarrow> (let multiplier = extract_limit_multiplier args in
        if ss = [] then 1 else 1 + selection_set_complexity v frs rd ss * multiplier)
    | InlineFragment ss \<Rightarrow> selection_set_complexity v frs rd ss
    | FragmentSpread n \<Rightarrow> (case map_of frs n of
        Some ss \<Rightarrow> selection_set_complexity v frs (rd + 1) ss | None \<Rightarrow> 10)"
  have "those (map ?f items) = Some t"
    using "1.prems" rd by (simp add: expand.simps [of frs rd items])
  then have "map ?g items = map (\<lambda>u. of_nat (cost u)) t"
  proof (rule those_map_cong)
    fix sel u
    assume sel: "sel \<in> set items" and u: "?f sel = Some u"
    show "?g sel = of_nat (cost u)"
    proof (cases sel)
      case (SField a n args ss)
      then obtain ss' where ss': "expand frs rd ss = Some ss'" "u = SField a n args ss'"
        using u by auto
      have "selection_set_complexity v frs rd ss = of_nat (set_cost ss')"
        using "1.IH"(1) [OF _ sel SField ss'(1)] rd by simp
      moreover have "ss = [] \<Longrightarrow> ss' = []"
        using ss'(1) by (simp add: expand.simps [of frs rd "[]"] split: if_splits)
      ultimately show ?thesis using SField ss'(2)
        by (simp add: set_cost_def Let_def algebra_simps)
    next
      case (InlineFragment ss)
      then show ?thesis using "1.IH"(2) [OF _ sel InlineFragment] u rd by (auto simp: set_cost_def)
    next
      case (FragmentSpread n)
      then show ?thesis
        using "1.IH"(3) [OF _ sel FragmentSpread] u rd by (auto simp: set_cost_def split: option.splits)
    qed
  qed
  moreover have "selection_set_complexity v frs rd items = sum_list (map ?g items)"
    using rd by (simp only: selection_set_complexity.simps [of v frs rd items] not_less [symmetric] if_False)
  ultimately show ?case by (simp add: set_cost_def sum_list_of_nat)
qed

text \<open>The depth computation on unbounded numbers.\<close>

function exact_depth :: "request_validator \<Rightarrow> fragments \<Rightarrow> nat \<Rightarrow> selection_set \<Rightarrow> nat" where
  "exact_depth v frs rd items =
     (if rd > 32 then unat (max_depth v) + 1
      else if items = [] then 0
      else 1 + max_or_zero (map (\<lambda>sel. case sel of
             SField a n args ss \<Rightarrow> if ss = [] then 0 else exact_depth v frs rd ss
           | InlineFragment ss \<Rightarrow> exact_depth v frs rd ss
           | FragmentSpread n \<Rightarrow>
               (case map_of frs n of
                  Some ss \<Rightarrow> exact_depth v frs (rd + 1) ss
                | None \<Rightarrow> unat (max_depth v))) items))"
  by pat_completeness auto
termination
  by (relation "(\<lambda>(v, frs, rd, items). 33 - rd) <*mlex*> measure (\<lambda>(v, frs, rd, items). size_list size items)")
    (auto simp: mlex_prod_def wf_mlex intro!: size_list_estimation wf_mlex)

declare exact_depth.simps [simp del]

lemma max_or_zero_simps [simp]:
  "max_or_zero [] = (0 :: 'a :: {linorder, zero})"
  "max_or_zero (x # xs) = max x (max_or_zero xs)"
  by (simp_all add: max_or_zero_def)

lemma max_or_zero_ge: "x \<in> set xs \<Longrightarrow> x \<le> max_or_zero xs"
  by (induction xs) (auto simp: le_max_iff_disj)

lemma max_or_zero_le: "(\<And>x. x \<in> set xs \<Longrightarrow> x \<le> (b :: nat)) \<Longrightarrow> max_or_zero xs \<le> b"
  by (induction xs) auto

lemma unat_max_or_zero: "unat (max_or_zero xs) = max_or_zero (map unat (xs :: usize list))"
  by (induction xs) (auto simp: max_def word_le_nat_alt)

lemma unat_plus_one_exact:
  "unat x + 1 < 2 ^ 64 \<Longrightarrow> unat (1 + x :: usize) = 1 + unat x"
  by (simp add: unat_word_ariths)

lemma depth_exact:
  "exact_depth v frs rd items < 2 ^ 64 \<Longrightarrow>
   unat (selection_set_depth v frs rd items) = exact_depth v frs rd items"
proof (induction v frs rd items rule: exact_depth.induct)
  case (1 v frs rd items)
  let ?f = "\<lambda>sel. case sel of
      SField a n args ss \<Rightarrow> if ss = [] then 0 else exact_depth v frs rd ss
    | InlineFragment ss \<Rightarrow> exact_depth v frs rd ss
    | FragmentSpread n \<Rightarrow> (case map_of frs n of
        Some ss \<Rightarrow> exact_depth v frs (rd + 1) ss | None \<Rightarrow> unat (max_depth v))"
  let ?g = "\<lambda>sel. case sel of
      SField a n args ss \<Rightarrow> if ss = [] then 0 else selection_set_depth v frs rd ss
    | InlineFragment ss \<Rightarrow> selection_set_depth v frs rd ss
    | FragmentSpread n \<Rightarrow> (case map_of frs n of
        Some ss \<Rightarrow> selection_set_depth v frs (rd + 1) ss | None \<Rightarrow> max_depth v)"
  consider (deep) "32 < rd" | (empty) "rd \<le> 32" "items = []" | (step) "\<not> 32 < rd" "items \<noteq> []"
    by linarith
  then show ?case
  proof cases
    case deep
    then show ?thesis
      using "1.prems" unat_plus_one_exact [of "max_depth v"]
      by (simp add: exact_depth.simps [of v frs rd] selection_set_depth.simps [of v frs rd] add.commute)
  next
    case empty
    then show ?thesis by (simp add: exact_depth.simps selection_set_depth.simps)
  next
    case step
    have e: "exact_depth v frs rd items = 1 + max_or_zero (map ?f items)"
      and d: "selection_set_depth v frs rd items = 1 + max_or_zero (map ?g items)"
      using step by (simp_all only: exact_depth.simps [of v frs rd items]
          selection_set_depth.simps [of v frs rd items] if_False)
    have small: "?f sel < 2 ^ 64" if "sel \<in> set items" for sel
      using max_or_zero_ge [of "?f sel" "map ?f items"] that "1.prems" e by auto
    have "unat (?g sel) = ?f sel" if sel: "sel \<in> set items" for sel
    proof (cases sel)
      case (SField a n args ss)
      then show ?thesis using "1.IH"(1) [OF step sel SField] small [OF sel] by auto
    next
      case (InlineFragment ss)
      then show ?thesis using "1.IH"(2) [OF step sel InlineFragment] small [OF sel] by auto
    next
      case (FragmentSpread n)
      then show ?thesis
        using "1.IH"(3) [OF step sel FragmentSpread] small [OF sel] by (auto split: option.splits)
    qed
    then have "unat (max_or_zero (map ?g items)) = max_or_zero (map ?f items)"
      by (simp add: unat_max_or_zero cong: map_cong)
    then show ?thesis
      using "1.prems" unat_plus_one_exact [of "max_or_zero (map ?g items)"] unfolding e d by simp
  qed
qed

lemma exact_depth_expand:
  "expand frs rd items = Some t \<Longrightarrow> exact_depth v frs rd items = set_height t"
proof (induction frs rd items arbitrary: t rule: expand.induct)
  case (1 frs rd items)
  from "1.prems" have rd: "\<not> rd > 32" using expand_Some_le by force
  let ?f = "\<lambda>sel. case sel of
      SField a n args ss \<Rightarrow> map_option (SField a n args) (expand frs rd ss)
    | InlineFragment ss \<Rightarrow> map_option InlineFragment (expand frs rd ss)
    | FragmentSpread n \<Rightarrow> (case map_of frs n of
        Some ss \<Rightarrow> map_option InlineFragment (expand frs (rd + 1) ss) | None \<Rightarrow> None)"
  let ?g = "\<lambda>sel. case sel of
      SField a n args ss \<Rightarrow> if ss = [] then 0 else exact_depth v frs rd ss
    | InlineFragment ss \<Rightarrow> exact_depth v frs rd ss
    | FragmentSpread n \<Rightarrow> (case map_of frs n of
        Some ss \<Rightarrow> exact_depth v frs (rd + 1) ss | None \<Rightarrow> unat (max_depth v))"
  have t: "those (map ?f items) = Some t"
    using "1.prems" rd by (simp add: expand.simps [of frs rd items])
  then have g: "map ?g items = map height t"
  proof (rule those_map_cong)
    fix sel u
    assume sel: "sel \<in> set items" and u: "?f sel = Some u"
    show "?g sel = height u"
    proof (cases sel)
      case (SField a n args ss)
      then obtain ss' where ss': "expand frs rd ss = Some ss'" "u = SField a n args ss'"
        using u by auto
      moreover have "ss = [] \<Longrightarrow> ss' = []"
        using ss'(1) by (simp add: expand.simps [of frs rd "[]"] split: if_splits)
      ultimately show ?thesis
        using SField "1.IH"(1) [OF rd sel SField ss'(1)] by (simp add: set_height_def)
    next
      case (InlineFragment ss)
      then show ?thesis using "1.IH"(2) [OF rd sel InlineFragment] u by (auto simp: set_height_def)
    next
      case (FragmentSpread n)
      then show ?thesis
        using "1.IH"(3) [OF rd sel FragmentSpread] u by (auto simp: set_height_def split: option.splits)
    qed
  qed
  have "items = [] \<longleftrightarrow> t = []" using t unfolding those_Some_iff by auto
  moreover have "exact_depth v frs rd items = (if items = [] then 0 else 1 + max_or_zero (map ?g items))"
    using rd by (simp only: exact_depth.simps [of v frs rd items] if_False)
  ultimately show ?case by (simp add: g set_height_def)
qed

section \<open>Accepted queries stay within the limits\<close>

definition operations :: "document \<Rightarrow> selection_set list" where
  "operations doc =
     List.map_filter (\<lambda>d. case d of DefOperation op \<Rightarrow> Some (op_selection_set op) | _ \<Rightarrow> None) doc"

lemma operations_simps [simp]:
  "operations [] = []"
  "operations (DefOperation op # doc) = op_selection_set op # operations doc"
  "operations (DefFragment n ss # doc) = operations doc"
  by (simp_all add: operations_def map_filter_simps)

lemma complexity_operations:
  "calculate_complexity_ast v doc frs = sum_list (map (selection_set_complexity v frs 0) (operations doc))"
proof (induction doc)
  case (Cons d doc)
  then show ?case by (cases d) (simp_all add: calculate_complexity_ast_def)
qed (simp add: calculate_complexity_ast_def)

lemma depth_operations:
  assumes "ss \<in> set (operations doc)"
  shows "selection_set_depth v frs 0 ss \<le> calculate_depth_ast v doc frs"
proof -
  obtain op where "DefOperation op \<in> set doc" "ss = op_selection_set op"
    using assms by (auto simp: operations_def List.map_filter_def split: gql_definition.splits)
  then show ?thesis unfolding calculate_depth_ast_def
    by (intro max_or_zero_ge) (force simp: image_iff)
qed

lemma those_map_eq:
  assumes "those (map f xs) = Some ys"
  shows "length ys = length xs" and "\<And>i. i < length xs \<Longrightarrow> f (xs ! i) = Some (ys ! i)"
  using assms unfolding those_Some_iff by (auto dest: map_eq_imp_length_eq) (metis length_map nth_map)

lemma complexity_expanded:
  assumes "those (map (expand frs 0) (operations doc)) = Some ts"
  shows "calculate_complexity_ast v doc frs = of_nat (sum_list (map set_cost ts))"
proof -
  have "map (selection_set_complexity v frs 0) (operations doc) = map (\<lambda>t. of_nat (set_cost t)) ts"
    using assms by (rule those_map_cong) (rule complexity_expand)
  then show ?thesis by (simp add: complexity_operations sum_list_of_nat)
qed

lemma depth_expanded:
  assumes "those (map (expand frs 0) (operations doc)) = Some ts" and "t \<in> set ts"
    and "set_height t < 2 ^ 64"
  shows "set_height t \<le> unat (calculate_depth_ast v doc frs)"
proof -
  obtain ss where ss: "ss \<in> set (operations doc)" "expand frs 0 ss = Some t"
    using assms(1,2) those_map_eq [OF assms(1)] by (metis in_set_conv_nth)
  have "set_height t = unat (selection_set_depth v frs 0 ss)"
    using depth_exact [of v frs 0 ss] exact_depth_expand [OF ss(2), of v] assms(3) by simp
  then show ?thesis using depth_operations [OF ss(1)] by (simp add: word_le_nat_alt)
qed

lemma validate_query_Inr:
  assumes "validate_query parse_query v query = Inr ()" and "parse_query query = Inr doc"
    and "validate_depth v" "validate_complexity v"
  shows "calculate_depth_ast v doc (collect_fragments doc) \<le> max_depth v"
    and "calculate_complexity_ast v doc (collect_fragments doc) \<le> max_complexity v"
    and "count_aliases_ast doc \<le> max_aliases_per_query v"
  using assms by (auto simp: validate_query_def Let_def not_less split: if_splits)


definition sample_document :: document where
  "sample_document =
     [DefOperation (OpQuery [SField None ''users'' [(''first'', VInt (Some 3))] [FragmentSpread ''names'']]),
      DefFragment ''names'' [SField None ''id'' [] [], SField None ''name'' [] []]]"

text \<open>Item-wise equations for evaluation on concrete documents.\<close>

lemma expand_unfold:
  "expand frs rd [] = (if rd > 32 then None else Some [])"
  "expand frs rd (SField a n args ss # items) =
     (if rd > 32 then None
      else Option.bind (expand frs rd ss) (\<lambda>x. map_option ((#) (SField a n args x)) (expand frs rd items)))"
  "expand frs rd (InlineFragment ss # items) =
     (if rd > 32 then None
      else Option.bind (expand frs rd ss) (\<lambda>x. map_option ((#) (InlineFragment x)) (expand frs rd items)))"
  "expand frs rd (FragmentSpread n # items) =
     (if rd > 32 then None
      else Option.bind (map_of frs n) (\<lambda>ss. Option.bind (expand frs (rd + 1) ss)
             (\<lambda>x. map_option ((#) (InlineFragment x)) (expand frs rd items))))"
proof -
  show "expand frs rd [] = (if rd > 32 then None else Some [])"
    by (simp add: expand.simps [of frs rd "[]"])
qed (simp_all add: expand.simps [of frs rd "_ # items"] expand.simps [of frs rd items]
    split: option.splits Option.bind_splits)

lemma count_aliases_unfold:
  "count_aliases_in_selection_set [] = 0"
  "count_aliases_in_selection_set (SField a n args ss # items) =
     of_bool (a \<noteq> None) + count_aliases_in_selection_set ss + count_aliases_in_selection_set items"
  "count_aliases_in_selection_set (InlineFragment ss # items) =
     count_aliases_in_selection_set ss + count_aliases_in_selection_set items"
  "count_aliases_in_selection_set (FragmentSpread n # items) = count_aliases_in_selection_set items"
proof -
  show "count_aliases_in_selection_set [] = 0"
    by (simp add: count_aliases_in_selection_set.simps [of "[]"])
qed (simp_all add: count_aliases_in_selection_set.simps [of "_ # items"]
    count_aliases_in_selection_set.simps [of items])

definition def_set :: "gql_definition \<Rightarrow> selection_set" where
  "def_set d = (case d of DefOperation op \<Rightarrow> op_selection_set op | DefFragment n ss \<Rightarrow> ss)"

lemma depth_of_expanded_document:
  assumes "those (map (\<lambda>d. expand frs 0 (def_set d)) doc) = Some ts" and "\<forall>t \<in> set ts. set_height t < 2 ^ 64"
  shows "unat (calculate_depth_ast v doc frs) = max_or_zero (map set_height ts)"
proof -
  have "unat (selection_set_depth v frs 0 ss) = set_height t"
    if "expand frs 0 ss = Some t" "set_height t < 2 ^ 64" for ss t
    using depth_exact [of v frs 0 ss] exact_depth_expand [OF that(1), of v] that(2) by simp
  then have "map (\<lambda>d. unat (selection_set_depth v frs 0 (def_set d))) doc = map set_height ts"
    using assms unfolding those_Some_iff
    by (induction doc arbitrary: ts) (auto simp: Cons_eq_map_conv)
  moreover have "calculate_depth_ast v doc frs = max_or_zero (map (\<lambda>d. selection_set_depth v frs 0 (def_set d)) doc)"
    unfolding calculate_depth_ast_def def_set_def
    by (intro arg_cong [of _ _ max_or_zero] map_cong) (auto split: gql_definition.splits)
  ultimately show ?thesis by (simp add: unat_max_or_zero comp_def)
qed

lemma sample_document_expand:
  "those (map (expand (collect_fragments sample_document) 0) (operations sample_document)) =
   Some [[SField None ''users'' [(''first'', VInt (Some 3))]
     [InlineFragment [SField None ''id'' [] [], SField None ''name'' [] []]]]]"
  by (simp add: sample_document_def collect_fragments_def map_filter_simps expand_unfold)

lemma sample_document_valid: "validate_query (\<lambda>_. Inr sample_document) request_validator_default ''q'' = Inr ()"
proof -
  let ?v = request_validator_default and ?frs = "collect_fragments sample_document"
  have "unat (calculate_depth_ast ?v sample_document ?frs) = 3"
    by (subst depth_of_expanded_document)
      (auto simp: sample_document_def collect_fragments_def map_filter_simps expand_unfold def_set_def
        set_height_def)
  moreover have "calculate_complexity_ast ?v sample_document ?frs = 7"
    using complexity_expanded [OF sample_document_expand, of ?v] by (simp add: set_cost_def)
  moreover have "count_aliases_ast sample_document = 0"
    by (simp add: count_aliases_ast_def sample_document_def count_aliases_unfold)
  ultimately show ?thesis
    by (simp add: validate_query_def is_blank_def is_whitespace_def request_validator_default_def Let_def
        word_less_nat_alt DEFAULT_MAX_ALIASES_def)
qed


section \<open>Cyclic fragments\<close>

fun spreads :: "selection \<Rightarrow> string set" where
  "spreads (SField a n args ss) = (\<Union>sel \<in> set ss. spreads sel)"
| "spreads (InlineFragment ss) = (\<Union>sel \<in> set ss. spreads sel)"
| "spreads (FragmentSpread n) = {n}"

definition set_spreads :: "selection_set \<Rightarrow> string set" where
  "set_spreads ss = (\<Union>sel \<in> set ss. spreads sel)"

definition spread_edges :: "fragments \<Rightarrow> (string \<times> string) set" where
  "spread_edges frs =
     {(f, g). \<exists>ss. map_of frs f = Some ss \<and> g \<in> set_spreads ss \<and> g \<in> dom (map_of frs)}"

definition runs_into_cycle :: "fragments \<Rightarrow> string \<Rightarrow> bool" where
  "runs_into_cycle frs f \<longleftrightarrow>
     f \<in> dom (map_of frs) \<and>
     (\<exists>g. (f, g) \<in> (spread_edges frs)\<^sup>* \<and> (g, g) \<in> (spread_edges frs)\<^sup>+)"

lemma runs_into_cycle_next:
  assumes "runs_into_cycle frs f"
  obtains ss h where "map_of frs f = Some ss" "h \<in> set_spreads ss" "runs_into_cycle frs h"
proof -
  from assms obtain g where g: "(f, g) \<in> (spread_edges frs)\<^sup>*" "(g, g) \<in> (spread_edges frs)\<^sup>+"
    by (auto simp: runs_into_cycle_def)
  then have "(f, g) \<in> (spread_edges frs)\<^sup>+" by (rule rtrancl_trancl_trancl)
  then obtain h where h: "(f, h) \<in> spread_edges frs" "(h, g) \<in> (spread_edges frs)\<^sup>*"
    by (meson tranclD)
  then show thesis
    using that g(2) by (fastforce simp: runs_into_cycle_def spread_edges_def)
qed

lemma cyclic_too_deep:
  "f \<in> set_spreads items \<Longrightarrow> runs_into_cycle frs f \<Longrightarrow>
   unat (max_depth v) < exact_depth v frs rd items"
proof (induction v frs rd items arbitrary: f rule: exact_depth.induct)
  case (1 v frs rd items)
  show ?case
  proof (cases "rd > 32")
    case True
    then show ?thesis by (simp add: exact_depth.simps [of v frs rd])
  next
    case False
    from "1.prems"(1) obtain sel where sel: "sel \<in> set items" "f \<in> spreads sel"
      by (auto simp: set_spreads_def)
    then have ne: "items \<noteq> []" by auto
    let ?f = "\<lambda>sel. case sel of
        SField a n args ss \<Rightarrow> if ss = [] then 0 else exact_depth v frs rd ss
      | InlineFragment ss \<Rightarrow> exact_depth v frs rd ss
      | FragmentSpread n \<Rightarrow> (case map_of frs n of
          Some ss \<Rightarrow> exact_depth v frs (rd + 1) ss | None \<Rightarrow> unat (max_depth v))"
    have "unat (max_depth v) < ?f sel"
    proof (cases sel)
      case (SField a n args ss)
      then show ?thesis
        using sel "1.IH"(1) [OF False ne sel(1) SField _ _ "1.prems"(2)] by (auto simp: set_spreads_def)
    next
      case (InlineFragment ss)
      then show ?thesis
        using sel "1.IH"(2) [OF False ne sel(1) InlineFragment _ "1.prems"(2)] by (auto simp: set_spreads_def)
    next
      case (FragmentSpread n)
      with sel have f: "n = f" by simp
      from "1.prems"(2) obtain ss h where ss: "map_of frs f = Some ss" "h \<in> set_spreads ss"
        "runs_into_cycle frs h" by (rule runs_into_cycle_next)
      show ?thesis
        using "1.IH"(3) [OF False ne sel(1) FragmentSpread _ ss(2,3)] ss(1) f FragmentSpread by simp
    qed
    moreover have "?f sel \<le> max_or_zero (map ?f items)"
      by (rule max_or_zero_ge) (use sel(1) in \<open>simp only: set_map, rule imageI\<close>)
    moreover have "exact_depth v frs rd items = 1 + max_or_zero (map ?f items)"
      using False ne by (simp only: exact_depth.simps [of v frs rd items] if_False)
    ultimately show ?thesis by linarith
  qed
qed

text \<open>
  C35. A query that spreads, at any nesting, a fragment that leads into a cycle of fragments is
  rejected as too deep, for every depth limit: the validator returns although the expansion of
  such a query never ends.
\<close>

theorem cyclic_fragments_rejected:
  assumes "parse_query query = Inr doc" and "\<not> is_blank query" and "validate_depth v"
    and "ss \<in> set (operations doc)" and "f \<in> set_spreads ss"
    and "runs_into_cycle (collect_fragments doc) f"
    and "exact_depth v (collect_fragments doc) 0 ss < 2 ^ 64"
  shows "\<exists>depth. validate_query parse_query v query = Inl (QueryTooDeep (max_depth v) depth)"
proof -
  let ?frs = "collect_fragments doc"
  have "unat (max_depth v) < unat (selection_set_depth v ?frs 0 ss)"
    using cyclic_too_deep [OF assms(5,6), of v 0] depth_exact [OF assms(7)] by simp
  then have "max_depth v < calculate_depth_ast v doc ?frs"
    using depth_operations [OF assms(4), of v ?frs] by (simp add: word_less_nat_alt word_le_nat_alt)
  then show ?thesis using assms(1-3) by (simp add: validate_query_def Let_def)
qed

definition cyclic_document :: document where
  "cyclic_document =
     [DefOperation (OpSelectionSet [FragmentSpread ''a'']),
      DefFragment ''a'' [FragmentSpread ''b''], DefFragment ''b'' [FragmentSpread ''a'']]"

lemma exact_depth_spread:
  "exact_depth v frs rd [FragmentSpread n] =
     (if rd > 32 then unat (max_depth v) + 1
      else 1 + (case map_of frs n of
                  Some ss \<Rightarrow> exact_depth v frs (rd + 1) ss
                | None \<Rightarrow> unat (max_depth v)))"
  by (simp add: exact_depth.simps [of v frs rd])

lemma cyclic_document_cycle: "runs_into_cycle (collect_fragments cyclic_document) ''a''"
proof -
  let ?E = "spread_edges (collect_fragments cyclic_document)"
  have "(''a'', ''b'') \<in> ?E" "(''b'', ''a'') \<in> ?E"
    by (simp_all add: spread_edges_def collect_fragments_def cyclic_document_def set_spreads_def
        map_filter_simps)
  then have "(''a'', ''a'') \<in> ?E\<^sup>+" by (meson trancl.intros)
  then show ?thesis
    by (auto simp: runs_into_cycle_def collect_fragments_def cyclic_document_def map_filter_simps)
qed

theorem cyclic_fragments_rejected_witness:
  "\<exists>depth. validate_query (\<lambda>_. Inr cyclic_document) request_validator_default ''q'' =
     Inl (QueryTooDeep 10 depth)"
proof -
  have "exact_depth request_validator_default (collect_fragments cyclic_document) 0 [FragmentSpread ''a''] < 2 ^ 64"
    by (simp add: exact_depth_spread collect_fragments_def cyclic_document_def map_filter_simps
        request_validator_default_def)
  then show ?thesis
    using cyclic_fragments_rejected [of "\<lambda>_. Inr cyclic_document" "''q''" cyclic_document
        request_validator_default "[FragmentSpread ''a'']" "''a''"] cyclic_document_cycle
    by (simp add: is_blank_def is_whitespace_def request_validator_default_def set_spreads_def)
      (simp add: cyclic_document_def)
qed

section \<open>Wrap-around\<close>

text \<open>Nested pages of 64 objects, padded with plain fields.\<close>

definition page :: "selection_set \<Rightarrow> selection" where
  "page ss = SField None ''items'' [(''first'', VInt (Some 64))] ss"

definition plain_fields :: "nat \<Rightarrow> selection_set" where
  "plain_fields n = replicate n (SField None ''id'' [] [])"

primrec nested_pages :: "nat \<Rightarrow> selection_set" where
  "nested_pages 0 = plain_fields 1023"
| "nested_pages (Suc k) = plain_fields 62 @ [page (nested_pages k)]"

definition overflow_query :: selection_set where
  "overflow_query = [page (plain_fields 63 @ [page (nested_pages 7)])]"

lemma cost_page: "cost (page ss) = 1 + 64 * set_cost ss"
  by (simp add: page_def set_cost_def)

lemma set_cost_append [simp]: "set_cost (ss @ ts) = set_cost ss + set_cost ts"
  by (simp add: set_cost_def)

lemma set_cost_plain [simp]: "set_cost (plain_fields n) = n"
  by (simp add: set_cost_def plain_fields_def map_replicate sum_list_replicate)

lemma set_cost_page [simp]: "set_cost [page ss] = 1 + 64 * set_cost ss"
  by (simp add: set_cost_def cost_page [unfolded set_cost_def])

lemma nested_pages_cost: "set_cost (nested_pages k) + 1 = 2 ^ 10 * 64 ^ k"
  by (induction k) auto

lemma height_page: "ss \<noteq> [] \<Longrightarrow> height (page ss) = set_height ss"
  by (simp add: page_def set_height_def)

lemma max_or_zero_append: "max_or_zero (xs @ ys) = max (max_or_zero xs) (max_or_zero ys :: nat)"
  by (induction xs) auto

lemma max_or_zero_replicate_0 [simp]: "max_or_zero (replicate n 0) = (0 :: nat)"
  by (induction n) auto

lemma set_height_padded: "ss \<noteq> [] \<Longrightarrow> set_height (plain_fields n @ [page ss]) = 1 + set_height ss"
  by (simp add: set_height_def [of "_ @ _"] plain_fields_def map_replicate max_or_zero_append height_page)

lemma nested_pages_height: "nested_pages k \<noteq> [] \<and> set_height (nested_pages k) = k + 1"
proof (induction k)
  case 0
  show ?case by (simp add: plain_fields_def set_height_def map_replicate)
qed (simp add: set_height_padded)

lemma expand_plain_only: "rd \<le> 32 \<Longrightarrow> \<forall>sel \<in> set items. spreads sel = {} \<Longrightarrow>
    expand frs rd items = Some items"
proof (induction frs rd items rule: expand.induct)
  case (1 frs rd items)
  let ?f = "\<lambda>sel. case sel of
      SField a n args ss \<Rightarrow> map_option (SField a n args) (expand frs rd ss)
    | InlineFragment ss \<Rightarrow> map_option InlineFragment (expand frs rd ss)
    | FragmentSpread n \<Rightarrow> (case map_of frs n of
        Some ss \<Rightarrow> map_option InlineFragment (expand frs (rd + 1) ss) | None \<Rightarrow> None)"
  have rd: "\<not> rd > 32" using "1.prems"(1) by simp
  have "?f sel = Some sel" if sel: "sel \<in> set items" for sel
  proof (cases sel)
    case (SField a n args ss)
    then show ?thesis using "1.IH"(1) [OF rd sel SField] "1.prems" sel by fastforce
  next
    case (InlineFragment ss)
    then show ?thesis using "1.IH"(2) [OF rd sel InlineFragment] "1.prems" sel by fastforce
  next
    case (FragmentSpread n)
    then show ?thesis using "1.prems"(2) sel by force
  qed
  then have "map ?f items = map Some items" by simp
  then show ?case using rd by (simp only: expand.simps [of frs rd items] if_False those_Some_iff)
qed

lemma spreads_plain [simp]: "sel \<in> set (plain_fields n) \<Longrightarrow> spreads sel = {}"
  by (simp add: plain_fields_def)

lemma spreads_page [simp]: "spreads (page ss) = set_spreads ss"
  by (simp add: page_def set_spreads_def)

lemma nested_pages_spreads: "set_spreads (nested_pages k) = {}"
  by (induction k) (auto simp: set_spreads_def)

lemma overflow_query_spreads: "sel \<in> set overflow_query \<Longrightarrow> spreads sel = {}"
  using nested_pages_spreads [of 7] by (auto simp: overflow_query_def set_spreads_def)

lemma count_aliases_append:
  "count_aliases_in_selection_set (ss @ ts) = count_aliases_in_selection_set ss + count_aliases_in_selection_set ts"
proof (induction ss)
  case (Cons sel ss)
  then show ?case by (cases sel) (simp_all add: count_aliases_unfold)
qed (simp add: count_aliases_unfold)

lemma no_aliases:
  "count_aliases_in_selection_set (plain_fields n) = 0"
  "count_aliases_in_selection_set [page ss] = count_aliases_in_selection_set ss"
  "count_aliases_in_selection_set (nested_pages k) = 0"
proof -
  show plain: "count_aliases_in_selection_set (plain_fields n) = 0" for n
    by (induction n) (simp_all add: plain_fields_def count_aliases_unfold)
  show page: "count_aliases_in_selection_set [page ss] = count_aliases_in_selection_set ss" for ss
    by (simp add: page_def count_aliases_unfold)
  show "count_aliases_in_selection_set (nested_pages k) = 0"
    by (induction k) (simp_all add: count_aliases_append plain page)
qed

text \<open>
  The limit on the complexity can be evaded. A query of nine nested pages of 64 objects and
  about 1500 plain fields, without aliases and no deeper than the default limit of ten, can
  return \<open>2 ^ 64 + 1\<close> fields; its complexity wraps around to one, and the default validator
  accepts it.
\<close>

theorem complexity_limit_evaded:
  "set_cost overflow_query = 2 ^ 64 + 1 \<and> set_height overflow_query = 10 \<and>
   calculate_complexity_ast request_validator_default [DefOperation (OpQuery overflow_query)] [] = 1 \<and>
   validate_query (\<lambda>_. Inr [DefOperation (OpQuery overflow_query)]) request_validator_default ''query'' =
     Inr ()"
proof -
  let ?doc = "[DefOperation (OpQuery overflow_query)]" and ?v = request_validator_default
  have "set_cost (nested_pages 7) = 2 ^ 52 - 1" using nested_pages_cost [of 7] by simp
  then have cost: "set_cost overflow_query = 2 ^ 64 + 1" by (simp add: overflow_query_def)
  have height: "set_height overflow_query = 10"
    using set_height_padded [of "plain_fields 63 @ [page (nested_pages 7)]" 0] nested_pages_height [of 7]
    by (simp add: overflow_query_def set_height_padded plain_fields_def [of 0])
  have expand: "expand [] 0 overflow_query = Some overflow_query"
    by (rule expand_plain_only) (simp_all add: overflow_query_spreads)
  have complexity: "calculate_complexity_ast ?v ?doc [] = 1"
    using complexity_expanded [of "[]" ?doc "[overflow_query]" ?v] expand cost
    by (simp add: word_of_nat_eq_0_iff)
  have "unat (calculate_depth_ast ?v ?doc []) = 10"
    by (subst depth_of_expanded_document [of _ _ "[overflow_query]"]) (simp_all add: def_set_def expand height)
  moreover have "count_aliases_ast ?doc = 0"
    by (simp add: count_aliases_ast_def overflow_query_def no_aliases count_aliases_append)
  ultimately show ?thesis
    using cost height complexity
    by (simp add: validate_query_def is_blank_def is_whitespace_def collect_fragments_def map_filter_simps
        request_validator_default_def Let_def word_less_nat_alt DEFAULT_MAX_ALIASES_def)
qed

end
