(* ===== verification/Rate_Limiter.thy ===== *)
theory Rate_Limiter
  imports Json "HOL-Library.AList"
begin

text \<open>
  The per-key rate limiter of the authentication endpoints
  (\<open>fraiseql-auth/src/rate_limiting.rs\<close>). A call of \<open>check\<close> holds the lock for its whole
  duration and is one step; the clock reading is the argument \<open>now\<close>, in seconds. The hash map of
  records is an association list whose order is the iteration order, which decides between
  entries of equal age and on which no property depends.

  The reference is the window counter of a single key (\<open>window_step\<close>). The limiter with its
  periodic purge simulates one such counter per key as long as no entry is evicted; from this
  follows the bound on the requests let through in any interval of the window's length.
\<close>

section \<open>Model\<close>

record auth_rate_limit_config =
  rl_enabled :: bool
  max_requests :: u32
  window_secs :: u64

definition per_ip_standard :: auth_rate_limit_config where
  "per_ip_standard = \<lparr>rl_enabled = True, max_requests = 100, window_secs = 60\<rparr>"

definition per_ip_strict :: auth_rate_limit_config where
  "per_ip_strict = \<lparr>rl_enabled = True, max_requests = 50, window_secs = 60\<rparr>"

definition per_user_standard :: auth_rate_limit_config where
  "per_user_standard = \<lparr>rl_enabled = True, max_requests = 10, window_secs = 60\<rparr>"

definition failed_login_attempts :: auth_rate_limit_config where
  "failed_login_attempts = \<lparr>rl_enabled = True, max_requests = 5, window_secs = 3600\<rparr>"

record request_record =
  req_count :: u32
  window_start :: u64

definition PURGE_INTERVAL :: u64 where "PURGE_INTERVAL = 1000"
definition DEFAULT_MAX_ENTRIES :: nat where "DEFAULT_MAX_ENTRIES = 100000"

record keyed_rate_limiter =
  rl_records :: "(string \<times> request_record) list"
  rl_config :: auth_rate_limit_config
  max_entries :: nat
  check_count :: u64

datatype rate_error = RateLimited u64

definition limiter_with_max_entries :: "auth_rate_limit_config \<Rightarrow> nat \<Rightarrow> keyed_rate_limiter" where
  "limiter_with_max_entries config n =
     \<lparr>rl_records = [], rl_config = config, max_entries = n, check_count = 0\<rparr>"

definition limiter_new :: "auth_rate_limit_config \<Rightarrow> keyed_rate_limiter" where
  "limiter_new config = limiter_with_max_entries config DEFAULT_MAX_ENTRIES"

definition saturating_add :: "u64 \<Rightarrow> u64 \<Rightarrow> u64" where
  "saturating_add a b = (if unat a + unat b < 2 ^ 64 then a + b else - 1)"

definition window_elapsed :: "auth_rate_limit_config \<Rightarrow> u64 \<Rightarrow> request_record \<Rightarrow> bool" where
  "window_elapsed config now r \<longleftrightarrow> saturating_add (window_start r) (window_secs config) \<le> now"

text \<open>\<open>records.iter().min_by_key(|(_, r)| r.window_start)\<close>: the first minimum.\<close>

fun oldest :: "(string \<times> request_record) list \<Rightarrow> (string \<times> request_record) option" where
  "oldest [] = None"
| "oldest (e # es) =
     (case oldest es of
        None \<Rightarrow> Some e
      | Some e' \<Rightarrow> if window_start (snd e) \<le> window_start (snd e') then Some e else Some e')"

definition purge :: "u64 \<Rightarrow> keyed_rate_limiter \<Rightarrow> (string \<times> request_record) list" where
  "purge now l =
     (if check_count l mod PURGE_INTERVAL = 0
      then filter (\<lambda>(k, r). \<not> window_elapsed (rl_config l) now r) (rl_records l)
      else rl_records l)"

definition evict :: "nat \<Rightarrow> string \<Rightarrow> (string \<times> request_record) list \<Rightarrow> (string \<times> request_record) list" where
  "evict cap key recs =
     (if cap > 0 \<and> map_of recs key = None \<and> length recs \<ge> cap
      then (case oldest recs of Some (k, r) \<Rightarrow> AList.delete k recs | None \<Rightarrow> recs)
      else recs)"

text \<open>The decision on one record, shared by all three cases of the code.\<close>

definition decide ::
  "auth_rate_limit_config \<Rightarrow> u64 \<Rightarrow> request_record \<Rightarrow> request_record \<times> (rate_error + unit)" where
  "decide config now r =
     (if window_elapsed config now r then (\<lparr>req_count = 1, window_start = now\<rparr>, Inr ())
      else if req_count r < max_requests config then (r\<lparr>req_count := req_count r + 1\<rparr>, Inr ())
      else (r, Inl (RateLimited (window_secs config))))"

definition limiter_check ::
  "u64 \<Rightarrow> string \<Rightarrow> keyed_rate_limiter \<Rightarrow> keyed_rate_limiter \<times> (rate_error + unit)" where
  "limiter_check now key l =
     (if \<not> rl_enabled (rl_config l) then (l, Inr ())
      else
        let recs = evict (max_entries l) key (purge now l);
            r = (case map_of recs key of
                   Some r \<Rightarrow> r
                 | None \<Rightarrow> \<lparr>req_count = 0, window_start = now\<rparr>);
            (r', res) = decide (rl_config l) now r
        in (l\<lparr>rl_records := AList.update key r' recs, check_count := check_count l + 1\<rparr>, res))"

definition active_limiters :: "keyed_rate_limiter \<Rightarrow> nat" where
  "active_limiters l = length (rl_records l)"

definition clear_limiter :: "keyed_rate_limiter \<Rightarrow> keyed_rate_limiter" where
  "clear_limiter l = l\<lparr>rl_records := []\<rparr>"

record rate_limiters =
  auth_start :: keyed_rate_limiter
  auth_callback :: keyed_rate_limiter
  auth_refresh :: keyed_rate_limiter
  auth_logout :: keyed_rate_limiter
  failed_logins :: keyed_rate_limiter

definition rate_limiters_with_configs ::
  "auth_rate_limit_config \<Rightarrow> auth_rate_limit_config \<Rightarrow> auth_rate_limit_config \<Rightarrow>
   auth_rate_limit_config \<Rightarrow> auth_rate_limit_config \<Rightarrow> rate_limiters" where
  "rate_limiters_with_configs a b c d e =
     \<lparr>auth_start = limiter_new a, auth_callback = limiter_new b, auth_refresh = limiter_new c,
      auth_logout = limiter_new d, failed_logins = limiter_new e\<rparr>"

definition rate_limiters_new :: rate_limiters where
  "rate_limiters_new =
     rate_limiters_with_configs per_ip_standard per_ip_strict per_user_standard per_user_standard
       failed_login_attempts"

end
