(* ===== verification/Rate_Safety.thy ===== *)
theory Rate_Safety
  imports Rate_Limiter Machines
begin

text \<open>
  Correctness of the rate limiter: size and counter bounds in every reachable state, the
  simulation of one window counter per key while nothing is evicted, the bound on the requests
  let through in any interval of the window's length, and two executions that show where the
  bound stops: the counter is a fixed window, and eviction forgets counts.
\<close>

section \<open>The reference: one window counter\<close>

definition window_step ::
  "auth_rate_limit_config \<Rightarrow> u64 \<Rightarrow> request_record option \<Rightarrow> request_record option \<times> (rate_error + unit)" where
  "window_step config now a =
     (let (r, res) = decide config now (case a of Some r \<Rightarrow> r | None \<Rightarrow> \<lparr>req_count = 0, window_start = now\<rparr>)
      in (Some r, res))"

fun limiter_step :: "string \<times> u64 \<Rightarrow> keyed_rate_limiter \<Rightarrow> keyed_rate_limiter \<times> (rate_error + unit)" where
  "limiter_step (key, now) l = limiter_check now key l"

lemma saturating_add_mono: "unat a + unat b < 2 ^ 64 \<Longrightarrow> unat (saturating_add a b) = unat a + unat b"
  by (simp add: saturating_add_def unat_word_ariths)

lemma window_elapsed_mono: "window_elapsed config t r \<Longrightarrow> t \<le> t' \<Longrightarrow> window_elapsed config t' r"
  by (auto simp: window_elapsed_def)

lemma window_elapsed_iff:
  "unat (window_start r) + unat (window_secs config) < 2 ^ 64 \<Longrightarrow>
   window_elapsed config t r \<longleftrightarrow> unat (window_start r) + unat (window_secs config) \<le> unat t"
  by (simp add: window_elapsed_def word_le_nat_alt saturating_add_mono)

section \<open>Size and counters\<close>

definition limiter_ok :: "keyed_rate_limiter \<Rightarrow> bool" where
  "limiter_ok l \<longleftrightarrow>
     distinct (map fst (rl_records l)) \<and>
     (max_entries l > 0 \<longrightarrow> length (rl_records l) \<le> max_entries l) \<and>
     (\<forall>(k, r) \<in> set (rl_records l). unat (req_count r) \<le> max 1 (unat (max_requests (rl_config l))))"

lemma oldest_in: "oldest es = Some e \<Longrightarrow> e \<in> set es"
  by (induction es arbitrary: e) (auto split: option.splits if_splits)

lemma oldest_None [simp]: "oldest es = None \<longleftrightarrow> es = []"
  by (cases es) (auto split: option.splits)

lemma length_delete: "k \<in> fst ` set es \<Longrightarrow> length (AList.delete k es) < length es"
  by (auto simp: AList.delete_eq intro!: length_filter_less)

lemma length_update:
  "distinct (map fst es) \<Longrightarrow>
   length (AList.update k v es) = (if k \<in> fst ` set es then length es else Suc (length es))"
  by (induction es) auto

lemma length_evict:
  assumes "cap > 0" "length es \<le> cap" "k \<notin> fst ` set es"
  shows "length (evict cap k es) < cap"
proof (cases "length es \<ge> cap")
  case True
  then obtain j r where o: "oldest es = Some (j, r)" using assms(1) by (cases "oldest es") auto
  then have "j \<in> fst ` set es" using oldest_in by force
  then show ?thesis
    using length_delete [of j es] assms True o by (auto simp: evict_def map_of_eq_None_iff)
qed (use assms in \<open>auto simp: evict_def\<close>)

lemma evict_subset: "set (evict cap k es) \<subseteq> set es"
  by (auto simp: evict_def AList.delete_eq split: option.splits)

lemma purge_subset: "set (purge now l) \<subseteq> set (rl_records l)"
  by (auto simp: purge_def)

lemma distinct_evict: "distinct (map fst es) \<Longrightarrow> distinct (map fst (evict cap k es))"
  by (auto simp: evict_def AList.distinct_delete split: option.splits)

lemma distinct_purge: "distinct (map fst (rl_records l)) \<Longrightarrow> distinct (map fst (purge now l))"
  by (simp add: purge_def distinct_map_filter)

lemma length_purge: "length (purge now l) \<le> length (rl_records l)"
  by (simp add: purge_def)

lemma in_evict: "k \<in> fst ` set (evict cap k es) \<longleftrightarrow> k \<in> fst ` set es"
  by (auto simp: evict_def map_of_eq_None_iff AList.delete_eq split: option.splits)

lemma length_evict_le: "length (evict cap k es) \<le> length es"
  by (auto simp: evict_def AList.delete_eq split: option.splits)

lemma decide_count:
  assumes "unat (req_count r) \<le> max 1 (unat (max_requests config))"
  shows "unat (req_count (fst (decide config now r))) \<le> max 1 (unat (max_requests config))"
proof -
  have "unat (c + 1) \<le> unat m" if "c < m" for c m :: u32
    using that by (metis add.commute inc_le word_le_nat_alt)
  then show ?thesis using assms by (auto simp: decide_def le_max_iff_disj)
qed

lemma limiter_ok_new [simp]: "limiter_ok (limiter_with_max_entries config n)"
  by (simp add: limiter_ok_def limiter_with_max_entries_def)

text \<open>The state after an enabled check, split as the code splits it.\<close>

lemma limiter_check_enabled:
  assumes "rl_enabled (rl_config l)"
  shows "limiter_check now key l =
    (let recs = evict (max_entries l) key (purge now l);
         (a, res) = window_step (rl_config l) now (map_of recs key)
     in (l\<lparr>rl_records := AList.update key (the a) recs, check_count := check_count l + 1\<rparr>, res))"
  using assms by (simp add: limiter_check_def window_step_def Let_def split: prod.splits)

lemma limiter_check_config [simp]:
  "rl_config (fst (limiter_check now key l)) = rl_config l"
  "max_entries (fst (limiter_check now key l)) = max_entries l"
  by (simp_all add: limiter_check_def Let_def split: prod.splits)

lemma limiter_ok_check:
  assumes "limiter_ok l"
  shows "limiter_ok (fst (limiter_check now key l))"
proof (cases "rl_enabled (rl_config l)")
  case True
  define recs where "recs = evict (max_entries l) key (purge now l)"
  define r where "r = (case map_of recs key of Some r \<Rightarrow> r | None \<Rightarrow> \<lparr>req_count = 0, window_start = now\<rparr>)"
  let ?r = "fst (decide (rl_config l) now r)" and ?m = "max 1 (unat (max_requests (rl_config l)))"
  have dist: "distinct (map fst recs)"
    using assms by (simp add: recs_def distinct_evict distinct_purge limiter_ok_def)
  have counts: "\<forall>(k, r) \<in> set recs. unat (req_count r) \<le> ?m"
    using assms evict_subset [of "max_entries l" key "purge now l"] purge_subset [of now l]
    by (fastforce simp: recs_def limiter_ok_def)
  then have "unat (req_count r) \<le> ?m"
    by (auto simp: r_def split: option.splits dest!: map_of_SomeD)
  then have "unat (req_count ?r) \<le> ?m" by (rule decide_count)
  moreover have "set (AList.update key ?r recs) \<subseteq> insert (key, ?r) (set recs)"
    by (induction recs) auto
  ultimately have "\<forall>(k, r) \<in> set (AList.update key ?r recs). unat (req_count r) \<le> ?m"
    using counts by blast
  moreover have "length (AList.update key ?r recs) \<le> max_entries l" if cap: "max_entries l > 0"
  proof -
    have small: "length (purge now l) \<le> max_entries l"
      using cap assms length_purge [of now l] by (simp add: limiter_ok_def)
    then have "length recs \<le> max_entries l"
      using length_evict_le [of "max_entries l" key "purge now l"] by (simp add: recs_def)
    moreover have "length recs < max_entries l" if "key \<notin> fst ` set recs"
      using that length_evict [OF cap small] by (simp add: recs_def in_evict)
    ultimately show ?thesis by (simp add: length_update [OF dist] Suc_le_eq)
  qed
  ultimately show ?thesis
    using True dist
    by (simp add: limiter_ok_def limiter_check_def AList.distinct_update Let_def split_beta
        flip: recs_def r_def)
qed (use assms in \<open>simp add: limiter_check_def\<close>)

interpretation rl: guarded_machine limiter_step limiter_ok
  by unfold_locales (metis limiter_ok_check limiter_step.simps surj_pair)

text \<open>
  Whatever requests a limiter receives, it never tracks more keys than its cap (when it has
  one), has one record per key, and no counter exceeds the configured maximum (or one), so the
  increments on \<open>u32\<close> never wrap.
\<close>

theorem rate_limiter_bounded:
  "let l = fst (run limiter_step kcs (limiter_with_max_entries config n))
   in distinct (map fst (rl_records l)) \<and>
      (n = 0 \<or> active_limiters l \<le> n) \<and>
      (\<forall>r \<in> snd ` set (rl_records l). unat (req_count r) \<le> max 1 (unat (max_requests config)))"
proof -
  let ?l = "fst (run limiter_step kcs (limiter_with_max_entries config n))"
  have "rl_config (fst (run limiter_step kcs l)) = rl_config l \<and>
      max_entries (fst (run limiter_step kcs l)) = max_entries l" for l
    by (induction kcs arbitrary: l) (auto simp: fst_run_Cons simp del: run.simps(2))
  then have "rl_config ?l = config" "max_entries ?l = n"
    by (simp_all add: limiter_with_max_entries_def)
  moreover have "limiter_ok ?l" by (rule rl.ok_run) simp
  ultimately show ?thesis
    by (auto simp: limiter_ok_def active_limiters_def Let_def)
qed

section \<open>Simulation of one counter per key\<close>

text \<open>
  The calls come in the order of their clock readings, and the cap is large enough for all keys,
  so nothing is evicted.
\<close>

definition calm_run :: "keyed_rate_limiter \<Rightarrow> (string \<times> u64) list \<Rightarrow> bool" where
  "calm_run l kcs \<longleftrightarrow>
     rl_enabled (rl_config l) \<and> 0 < max_requests (rl_config l) \<and>
     distinct (map fst (rl_records l)) \<and> sorted (map snd kcs) \<and>
     (max_entries l = 0 \<or> card (fst ` set (rl_records l) \<union> fst ` set kcs) \<le> max_entries l)"

text \<open>
  The limiter holds the counter of the key, or has purged it when its window had elapsed and is
  elapsed for all calls to come.
\<close>

definition tracks :: "keyed_rate_limiter \<Rightarrow> (string \<times> u64) list \<Rightarrow> string \<Rightarrow> request_record option \<Rightarrow> bool" where
  "tracks l kcs k a \<longleftrightarrow>
     map_of (rl_records l) k = a \<or>
     map_of (rl_records l) k = None \<and>
       (\<exists>r. a = Some r \<and> (\<forall>t \<in> snd ` set kcs. window_elapsed (rl_config l) t r))"

lemma evict_calm:
  assumes "calm_run l ((key, now) # kcs)"
  shows "evict (max_entries l) key (purge now l) = purge now l"
proof (cases "max_entries l = 0 \<or> key \<in> fst ` set (purge now l)")
  case False
  let ?K = "fst ` set (rl_records l) \<union> fst ` set ((key, now) # kcs)"
  have "insert key (fst ` set (purge now l)) \<subseteq> ?K"
    using purge_subset [of now l] by auto
  then have "card (insert key (fst ` set (purge now l))) \<le> card ?K" by (intro card_mono) simp_all
  moreover have "card (fst ` set (purge now l)) = length (purge now l)"
    using distinct_purge [of l now] assms by (metis calm_run_def distinct_card length_map list.set_map)
  ultimately have "length (purge now l) < max_entries l"
    using False assms by (simp add: calm_run_def)
  then show ?thesis by (simp add: evict_def)
qed (auto simp: evict_def map_of_eq_None_iff)

lemma map_of_purge:
  assumes "distinct (map fst (rl_records l))"
  shows "map_of (purge now l) k = map_of (rl_records l) k \<or>
    map_of (purge now l) k = None \<and>
      (\<exists>r. map_of (rl_records l) k = Some r \<and> window_elapsed (rl_config l) now r)"
proof -
  have "map_of (filter (\<lambda>(k, r). P r) es) k =
      (case map_of es k of Some r \<Rightarrow> if P r then Some r else None | None \<Rightarrow> None)"
    if "distinct (map fst es)" for es :: "(string \<times> request_record) list" and P
    using that
  proof (induction es)
    case (Cons e es)
    then show ?case by (cases e) (auto simp: map_of_eq_None_iff split: option.splits dest: map_of_SomeD)
  qed simp
  then show ?thesis using assms by (auto simp: purge_def split: option.splits)
qed

lemma sorted_later: "sorted (map snd ((k, now) # kcs)) \<Longrightarrow> t \<in> snd ` set kcs \<Longrightarrow> now \<le> (t :: u64)"
  by auto

lemma tracks_purge:
  assumes "calm_run l ((key, now) # kcs)" and "tracks l ((key, now) # kcs) k a"
  shows "map_of (purge now l) k = a \<or>
    map_of (purge now l) k = None \<and>
      (\<exists>r. a = Some r \<and> (\<forall>t \<in> snd ` set ((key, now) # kcs). window_elapsed (rl_config l) t r))"
proof -
  have "distinct (map fst (rl_records l))" and sorted: "sorted (map snd ((key, now) # kcs))"
    using assms(1) by (simp_all add: calm_run_def)
  from map_of_purge [OF this(1), of now k] show ?thesis
  proof
    assume "map_of (purge now l) k = map_of (rl_records l) k"
    then show ?thesis using assms(2) by (simp add: tracks_def)
  next
    assume *: "map_of (purge now l) k = None \<and>
      (\<exists>r. map_of (rl_records l) k = Some r \<and> window_elapsed (rl_config l) now r)"
    then obtain r where "map_of (rl_records l) k = Some r" "window_elapsed (rl_config l) now r" by blast
    then show ?thesis
      using * assms(2) sorted_later [OF sorted] window_elapsed_mono
      by (fastforce simp: tracks_def)
  qed
qed

text \<open>A purged counter and a fresh one decide alike.\<close>

lemma window_step_elapsed:
  assumes "0 < max_requests config" and "window_elapsed config now r"
  shows "window_step config now (Some r) = window_step config now None"
  using assms by (auto simp: window_step_def decide_def)

lemma limiter_check_calm:
  assumes "calm_run l ((key, now) # kcs)"
  shows "limiter_check now key l =
    (let (a, res) = window_step (rl_config l) now (map_of (purge now l) key)
     in (l\<lparr>rl_records := AList.update key (the a) (purge now l), check_count := check_count l + 1\<rparr>, res))"
  using assms limiter_check_enabled [of l now key] evict_calm [OF assms] by (simp add: calm_run_def Let_def)

lemma window_step_Some: "\<exists>r. fst (window_step config now a) = Some r"
  by (simp add: window_step_def split: prod.splits)

lemma keys_update: "fst ` set (AList.update k v es) = insert k (fst ` set es)"
  by (induction es) auto

lemma calm_run_step: "calm_run l (kc # kcs) \<Longrightarrow> calm_run (fst (limiter_step kc l)) kcs"
proof -
  assume calm: "calm_run l (kc # kcs)"
  obtain key now where kc: "kc = (key, now)" by force
  define r where "r = the (fst (window_step (rl_config l) now (map_of (purge now l) key)))"
  have "fst ` set (AList.update key r (purge now l)) \<union> fst ` set kcs \<subseteq>
      fst ` set (rl_records l) \<union> fst ` set (kc # kcs)"
    using purge_subset [of now l] by (auto simp: kc keys_update)
  then have "card (fst ` set (AList.update key r (purge now l)) \<union> fst ` set kcs) \<le>
      card (fst ` set (rl_records l) \<union> fst ` set (kc # kcs))"
    by (intro card_mono) simp_all
  then show ?thesis
    using calm limiter_check_calm [of l key now kcs]
    by (auto simp: kc calm_run_def AList.distinct_update distinct_purge r_def Let_def split: prod.splits)
qed

lemma tracks_own:
  assumes calm: "calm_run l ((k, now) # kcs)" and "tracks l ((k, now) # kcs) k a"
  shows "tracks (fst (limiter_check now k l)) kcs k (fst (window_step (rl_config l) now a))"
    and "snd (limiter_check now k l) = snd (window_step (rl_config l) now a)"
proof -
  from tracks_purge [OF assms] have eq: "window_step (rl_config l) now (map_of (purge now l) k) =
      window_step (rl_config l) now a"
    using calm window_step_elapsed by (auto simp: calm_run_def)
  obtain r where "fst (window_step (rl_config l) now a) = Some r" using window_step_Some by blast
  then show "tracks (fst (limiter_check now k l)) kcs k (fst (window_step (rl_config l) now a))"
    and "snd (limiter_check now k l) = snd (window_step (rl_config l) now a)"
    by (simp_all add: limiter_check_calm [OF calm] eq tracks_def AList.update_conv' Let_def split_beta)
qed

lemma tracks_other:
  assumes calm: "calm_run l ((j, now) # kcs)" and "tracks l ((j, now) # kcs) k a" and "j \<noteq> k"
  shows "tracks (fst (limiter_check now j l)) kcs k a"
  using tracks_purge [OF assms(1,2)] assms(3)
  by (auto simp: limiter_check_calm [OF calm] tracks_def AList.update_conv' Let_def split_beta)

text \<open>The configuration is fixed along a run; the interpretation is for a given one.\<close>

definition calm_for :: "auth_rate_limit_config \<Rightarrow> keyed_rate_limiter \<Rightarrow> (string \<times> u64) list \<Rightarrow> bool" where
  "calm_for config l kcs \<longleftrightarrow> rl_config l = config \<and> calm_run l kcs"

interpretation win: keyed_simulation "window_step config" limiter_step "calm_for config" tracks
  for config
proof
  show "calm_for config (fst (limiter_step kc l)) kcs" if "calm_for config l (kc # kcs)" for l kc kcs
    using that calm_run_step by (cases kc) (auto simp: calm_for_def)
  show "tracks (fst (limiter_step (k, c) l)) kcs k (fst (window_step config c s)) \<and>
      snd (limiter_step (k, c) l) = snd (window_step config c s)"
    if "calm_for config l ((k, c) # kcs)" "tracks l ((k, c) # kcs) k s" for l k c kcs s
    using that tracks_own [of l k c kcs s] by (auto simp: calm_for_def)
  show "tracks (fst (limiter_step (j, c) l)) kcs k s"
    if "calm_for config l ((j, c) # kcs)" "j \<noteq> k" "tracks l ((j, c) # kcs) k s" for l j c kcs k s
    using that tracks_other [of l j c kcs k s] by (auto simp: calm_for_def)
qed

section \<open>The bound\<close>

text \<open>Requests let through before \<open>hi\<close>, and from \<open>lo\<close> on.\<close>

definition let_through :: "nat \<Rightarrow> nat \<Rightarrow> (u64 \<times> (rate_error + unit)) list \<Rightarrow> nat" where
  "let_through lo hi tr = length (filter (\<lambda>(t, r). lo \<le> unat t \<and> unat t < hi \<and> r = Inr ()) tr)"

lemma let_through_simps [simp]:
  "let_through lo hi [] = 0"
  "let_through lo hi ((t, r) # tr) =
     of_bool (lo \<le> unat t \<and> unat t < hi \<and> r = Inr ()) + let_through lo hi tr"
  by (simp_all add: let_through_def)

lemma let_through_none: "(\<And>t r. (t, r) \<in> set tr \<Longrightarrow> hi \<le> unat t) \<Longrightarrow> let_through lo hi tr = 0"
  by (force simp: let_through_def filter_empty_conv)

abbreviation window_trace :: "auth_rate_limit_config \<Rightarrow> u64 list \<Rightarrow> request_record option \<Rightarrow> (u64 \<times> (rate_error + unit)) list" where
  "window_trace config ts a \<equiv> zip ts (snd (run (window_step config) ts a))"

lemma late_none:
  assumes "sorted (t # ts)" and "hi \<le> unat t"
  shows "let_through lo hi (zip (t # ts) rs) = 0"
  using assms by (intro let_through_none) (fastforce simp: word_le_nat_alt dest!: set_zip_leftD)

text \<open>The three outcomes of a step.\<close>

lemma window_step_cases:
  assumes "unat (window_start r) + unat (window_secs config) < 2 ^ 64"
  obtains (reset) "unat (window_start r) + unat (window_secs config) \<le> unat t"
      "window_step config t (Some r) = (Some \<lparr>req_count = 1, window_start = t\<rparr>, Inr ())"
  | (count) "unat t < unat (window_start r) + unat (window_secs config)" "req_count r < max_requests config"
      "window_step config t (Some r) = (Some (r\<lparr>req_count := req_count r + 1\<rparr>), Inr ())"
  | (deny) "unat t < unat (window_start r) + unat (window_secs config)" "max_requests config \<le> req_count r"
      "window_step config t (Some r) = (Some r, Inl (RateLimited (window_secs config)))"
  using window_elapsed_iff [OF assms, of t]
  by (cases "window_elapsed config t r"; cases "req_count r < max_requests config")
    (auto simp: window_step_def decide_def)

lemma count_below: "c < (m :: u32) \<Longrightarrow> unat (c + 1) = unat c + 1"
  using unsigned_less [of m, where 'a = nat] by (simp add: word_less_nat_alt unat_word_ariths)

text \<open>Within a running window no more pass than the window has left.\<close>

lemma active_window:
  assumes "sorted ts" and "hi \<le> unat (window_start r) + unat (window_secs config)"
    and "unat (window_start r) + unat (window_secs config) < 2 ^ 64"
    and "req_count r \<le> max_requests config"
  shows "let_through lo hi (window_trace config ts (Some r)) \<le>
    unat (max_requests config) - unat (req_count r)"
  using assms
proof (induction ts arbitrary: r)
  case (Cons t ts)
  have sorted: "sorted ts" using Cons.prems(1) by simp
  show ?case
  proof (cases "unat t < hi")
    case False
    then have "let_through lo hi (window_trace config (t # ts) (Some r)) = 0"
      by (intro late_none [OF Cons.prems(1)]) simp
    then show ?thesis by (simp del: run.simps(2))
  next
    case True
    from Cons.prems(3) show ?thesis
    proof (cases rule: window_step_cases [where t = t])
      case reset
      then show ?thesis using True Cons.prems(2) by simp
    next
      case count
      have "unat (req_count r + 1) = unat (req_count r) + 1" using count(2) by (rule count_below)
      then show ?thesis
        using count Cons.IH [OF sorted, of "r\<lparr>req_count := req_count r + 1\<rparr>"] Cons.prems(2,3)
        by (auto simp: run_Cons word_less_nat_alt word_le_nat_alt simp del: run.simps(2))
    next
      case deny
      then show ?thesis
        using Cons.IH [OF sorted Cons.prems(2-4)] by (simp add: run_Cons del: run.simps(2))
    qed
  qed
qed simp

text \<open>In an interval of the window's length at most two windows are touched.\<close>

lemma two_windows:
  assumes "sorted ts" and "\<forall>t \<in> set ts. lo \<le> unat t \<and> unat t + unat (window_secs config) < 2 ^ 64"
    and "unat (window_start r) + unat (window_secs config) < 2 ^ 64"
    and "req_count r \<le> max_requests config" and "0 < max_requests config"
  shows "let_through lo (lo + unat (window_secs config)) (window_trace config ts (Some r)) \<le>
    (unat (max_requests config) - unat (req_count r)) + unat (max_requests config)"
  using assms
proof (induction ts arbitrary: r)
  case (Cons t ts)
  have sorted: "sorted ts" and later: "\<forall>t \<in> set ts. lo \<le> unat t \<and> unat t + unat (window_secs config) < 2 ^ 64"
    and t: "lo \<le> unat t" "unat t + unat (window_secs config) < 2 ^ 64"
    using Cons.prems(1,2) by simp_all
  have one: "1 \<le> max_requests config" using Cons.prems(5) by (simp add: word_less_nat_alt word_le_nat_alt)
  from Cons.prems(3) show ?case
  proof (cases rule: window_step_cases [where t = t])
    case reset
    have "let_through lo (lo + unat (window_secs config))
        (window_trace config ts (Some \<lparr>req_count = 1, window_start = t\<rparr>)) \<le> unat (max_requests config) - 1"
      using active_window [OF sorted, of "lo + unat (window_secs config)" "\<lparr>req_count = 1, window_start = t\<rparr>" config lo] t one
      by simp
    then show ?thesis
      using reset one by (auto simp: run_Cons word_le_nat_alt simp del: run.simps(2))
  next
    case count
    have "unat (req_count r + 1) = unat (req_count r) + 1" using count(2) by (rule count_below)
    then show ?thesis
      using count Cons.IH [OF sorted later, of "r\<lparr>req_count := req_count r + 1\<rparr>"] Cons.prems(3,5)
      by (auto simp: run_Cons word_less_nat_alt word_le_nat_alt simp del: run.simps(2))
  next
    case deny
    then show ?thesis
      using Cons.IH [OF sorted later Cons.prems(3-5)] by (simp add: run_Cons del: run.simps(2))
  qed
qed simp

lemma early_calls:
  assumes "unat t < lo"
  shows "let_through lo hi ((t, res) # tr) = let_through lo hi tr"
  using assms by simp

lemma window_bound:
  assumes "sorted ts" and "\<forall>t \<in> set ts. unat t + unat (window_secs config) < 2 ^ 64"
    and "0 < max_requests config"
    and "\<And>r. a = Some r \<Longrightarrow>
      unat (window_start r) + unat (window_secs config) < 2 ^ 64 \<and> req_count r \<le> max_requests config"
  shows "let_through lo (lo + unat (window_secs config)) (window_trace config ts a) \<le>
    2 * unat (max_requests config)"
  using assms
proof (induction ts arbitrary: a)
  case (Cons t ts)
  define r where "r = (case a of Some r \<Rightarrow> r | None \<Rightarrow> \<lparr>req_count = 0, window_start = t\<rparr>)"
  have r: "unat (window_start r) + unat (window_secs config) < 2 ^ 64" "req_count r \<le> max_requests config"
    and step: "window_step config t a = window_step config t (Some r)"
    using Cons.prems(2,4) by (auto simp: r_def window_step_def split: option.splits)
  show ?case
  proof (cases "unat t < lo")
    case False
    then have "\<forall>t \<in> set (t # ts). lo \<le> unat t \<and> unat t + unat (window_secs config) < 2 ^ 64"
      using Cons.prems(1,2) by (fastforce simp: word_le_nat_alt)
    from two_windows [OF Cons.prems(1) this r Cons.prems(3)] show ?thesis
      by (simp add: snd_run_Cons step del: run.simps(2))
  next
    case True
    have "unat (window_start r') + unat (window_secs config) < 2 ^ 64 \<and> req_count r' \<le> max_requests config"
      if r': "fst (window_step config t a) = Some r'" for r'
    proof -
      from r(1) show ?thesis
      proof (cases rule: window_step_cases [where t = t])
        case reset
        then show ?thesis
          using r' step Cons.prems(2,3) by (auto simp: word_less_nat_alt word_le_nat_alt)
      next
        case count
        then show ?thesis
          using r' step r(1) count_below [OF count(2)] by (auto simp: word_less_nat_alt word_le_nat_alt)
      qed (use r r' step in auto)
    qed
    then show ?thesis
      using Cons.IH [of "fst (window_step config t a)"] Cons.prems(1-3) True
      by (simp add: run_Cons del: run.simps(2))
  qed
qed simp



section \<open>Where the bound stops\<close>

text \<open>
  The window is fixed, not sliding: five failed logins per hour allow nine within two seconds,
  four at the end of one window and five at the start of the next.
\<close>

definition burst :: "(string \<times> u64) list" where
  "burst = [(''u'', 0), (''u'', 3599), (''u'', 3599), (''u'', 3599), (''u'', 3599),
            (''u'', 3600), (''u'', 3600), (''u'', 3600), (''u'', 3600), (''u'', 3600)]"

lemma window_is_fixed:
  "let_through 3599 3601 (trace_of ''u'' burst
     (snd (run limiter_step burst (limiter_new failed_login_attempts)))) = 9"
  by (simp add: burst_def limiter_new_def limiter_with_max_entries_def limiter_check_def purge_def
      evict_def decide_def window_elapsed_def saturating_add_def failed_login_attempts_def
      DEFAULT_MAX_ENTRIES_def PURGE_INTERVAL_def Let_def)

text \<open>With a maximum of zero, a request passes once the window of a denied one has elapsed.\<close>

lemma zero_limit_admits:
  "snd (run limiter_step [(''u'', 0), (''u'', 60)]
     (limiter_new \<lparr>rl_enabled = True, max_requests = 0, window_secs = 60\<rparr>)) =
   [Inl (RateLimited 60), Inr ()]"
  by (simp add: limiter_new_def limiter_with_max_entries_def limiter_check_def purge_def evict_def decide_def
      window_elapsed_def saturating_add_def DEFAULT_MAX_ENTRIES_def PURGE_INTERVAL_def Let_def)

lemma full_limiter_evicts:
  assumes "rl_enabled (rl_config l)" "0 < max_requests (rl_config l)" "max_entries l = 1"
    and "rl_records l = [(k, r)]" "k \<noteq> key" "\<not> window_elapsed (rl_config l) now r"
    and "\<not> window_elapsed (rl_config l) now \<lparr>req_count = 0, window_start = now\<rparr>"
  shows "limiter_check now key l =
    (l\<lparr>rl_records := [(key, \<lparr>req_count = 1, window_start = now\<rparr>)], check_count := check_count l + 1\<rparr>, Inr ())"
  using assms by (simp add: limiter_check_def purge_def evict_def decide_def Let_def)

text \<open>
  Eviction forgets counts: on a limiter that is full, two keys that take turns are never
  denied, however many requests they send at one moment and whatever the maximum.
\<close>

theorem eviction_forgets_counts:
  assumes "rl_enabled config" and "0 < max_requests config" and "0 < window_secs config"
    and "unat t + unat (window_secs config) < 2 ^ 64"
  shows "snd (run limiter_step ((''a'', t) # concat (replicate m [(''b'', t), (''a'', t)]))
      (limiter_with_max_entries config 1)) = replicate (2 * m + 1) (Inr ())"
proof -
  let ?r = "\<lambda>c. \<lparr>req_count = c, window_start = t\<rparr>"
  have active: "\<not> window_elapsed config t (?r c)" for c
    using window_elapsed_iff [of "?r c" config t] assms(3,4) by (simp add: word_less_nat_alt)
  have "snd (run limiter_step (concat (replicate m [(''b'', t), (''a'', t)])) l) = replicate (2 * m) (Inr ())"
    if "rl_config l = config" "max_entries l = 1" "rl_records l = [(''a'', ?r 1)]" for l
    using that
  proof (induction m arbitrary: l)
    case (Suc m)
    then show ?case
      using assms active by (simp add: run_Cons full_limiter_evicts del: run.simps(2))
  qed simp
  then show ?thesis
    using assms active
    by (simp add: limiter_with_max_entries_def limiter_check_def purge_def evict_def decide_def Let_def
        run_Cons del: run.simps(2))
qed

theorem eviction_forgets_counts_witness:
  "snd (run limiter_step ((''a'', 0) # concat (replicate 1000 [(''b'', 0), (''a'', 0)]))
     (limiter_with_max_entries failed_login_attempts 1)) = replicate (2 * 1000 + 1) (Inr ())"
  by (rule eviction_forgets_counts) (simp_all add: failed_login_attempts_def)

end
