(* ===== verification/Checksum.thy ===== *)
theory Checksum
  imports Utf8
begin

text \<open>
  The checksum validators (\<open>fraiseql-core/src/validation/checksum.rs\<close>): Luhn for card numbers,
  MOD-97 for IBANs. Text is a list of Unicode scalar values, because the length checks count
  bytes and \<open>to_uppercase\<close> changes lengths.

  \<^item> \<open>to_uppercase_scalar\<close> lists the scalar values whose upper case consists of ASCII characters;
    every other one has an upper case with a non-ASCII character, which the validator rejects
    whatever it is, so it is left as it stands.
  \<^item> Slicing a string at a byte beyond its end panics, which is the value \<open>None\<close>.
  \<^item> Sums and remainders stay far below their types' limits and are natural numbers; the bound
    for the \<open>u32\<close> remainder is \<open>mod97_step_bound\<close>.
\<close>

section \<open>Luhn\<close>

definition MAX_LUHN_DIGITS :: nat where "MAX_LUHN_DIGITS = 25"
definition MAX_MOD97_BYTES :: nat where "MAX_MOD97_BYTES = 34"

definition byte_len :: "utext \<Rightarrow> nat" where
  "byte_len s = sum_list (map (length \<circ> utf8_char) s)"

definition is_ascii_digit :: "scalar \<Rightarrow> bool" where
  "is_ascii_digit c \<longleftrightarrow> 48 \<le> c \<and> c \<le> 57"

definition is_ascii_uppercase :: "scalar \<Rightarrow> bool" where
  "is_ascii_uppercase c \<longleftrightarrow> 65 \<le> c \<and> c \<le> 90"

definition is_ascii_alphanumeric :: "scalar \<Rightarrow> bool" where
  "is_ascii_alphanumeric c \<longleftrightarrow> is_ascii_digit c \<or> is_ascii_uppercase c \<or> (97 \<le> c \<and> c \<le> 122)"

definition luhn_digit :: "bool \<Rightarrow> nat \<Rightarrow> nat" where
  "luhn_digit is_second digit =
     (if is_second then (let doubled = digit * 2 in if doubled > 9 then doubled - 9 else doubled)
      else digit)"

text \<open>The loop over the digits from right to left.\<close>

fun luhn_sum :: "bool \<Rightarrow> utext \<Rightarrow> nat \<Rightarrow> nat" where
  "luhn_sum is_second [] acc = acc"
| "luhn_sum is_second (ch # s) acc = luhn_sum (\<not> is_second) s (acc + luhn_digit is_second (ch - 48))"

definition luhn_validate :: "utext \<Rightarrow> bool" where
  "luhn_validate value =
     (if value = [] \<or> byte_len value > MAX_LUHN_DIGITS then False
      else if \<not> list_all is_ascii_digit value then False
      else luhn_sum False (rev value) 0 mod 10 = 0)"

section \<open>MOD-97\<close>

fun to_uppercase_scalar :: "scalar \<Rightarrow> utext" where
  "to_uppercase_scalar c =
     (if 97 \<le> c \<and> c \<le> 122 then [c - 32]
      else if c = 0xDF then [83, 83]
      else if c = 0x131 then [73]
      else if c = 0x17F then [83]
      else if c = 0xFB00 then [70, 70]
      else if c = 0xFB01 then [70, 73]
      else if c = 0xFB02 then [70, 76]
      else if c = 0xFB03 then [70, 70, 73]
      else if c = 0xFB04 then [70, 70, 76]
      else if c = 0xFB05 \<or> c = 0xFB06 then [83, 84]
      else [c])"

definition to_uppercase :: "utext \<Rightarrow> utext" where
  "to_uppercase s = concat (map to_uppercase_scalar s)"

text \<open>The decimal digits of \<open>10 + (ch as usize - 'A' as usize)\<close>.\<close>

definition letter_digits :: "scalar \<Rightarrow> utext" where
  "letter_digits ch = [48 + (10 + (ch - 65)) div 10, 48 + (10 + (ch - 65)) mod 10]"

fun to_numeric :: "utext \<Rightarrow> utext option" where
  "to_numeric [] = Some []"
| "to_numeric (ch # s) =
     (if is_ascii_digit ch then map_option ((#) ch) (to_numeric s)
      else if is_ascii_uppercase ch then map_option ((@) (letter_digits ch)) (to_numeric s)
      else None)"

fun mod97_loop :: "utext \<Rightarrow> nat \<Rightarrow> nat" where
  "mod97_loop [] remainder = remainder"
| "mod97_loop (ch # s) remainder =
     (if is_ascii_digit ch then mod97_loop s ((remainder * 10 + (ch - 48)) mod 97)
      else mod97_loop s remainder)"

definition mod97 :: "utext \<Rightarrow> nat" where
  "mod97 numeric = mod97_loop numeric 0"

definition mod97_validate :: "utext \<Rightarrow> bool option" where
  "mod97_validate value =
     (if byte_len value < 4 \<or> byte_len value > MAX_MOD97_BYTES then Some False
      else
        let value_upper = to_uppercase value in
        if \<not> list_all is_ascii_alphanumeric value_upper then Some False
        else if length value_upper < 4 then None
        else
          let rearranged = drop 4 value_upper @ take 4 value_upper in
          (case to_numeric rearranged of
             None \<Rightarrow> Some False
           | Some numeric \<Rightarrow> Some (mod97 numeric = 1)))"

lemmas checksum_eval = MAX_LUHN_DIGITS_def MAX_MOD97_BYTES_def byte_len_def utf8_char_def
  is_ascii_digit_def is_ascii_uppercase_def is_ascii_alphanumeric_def luhn_digit_def luhn_validate_def
  to_uppercase_def letter_digits_def mod97_def mod97_validate_def

section \<open>Luhn detects substitutions and transpositions\<close>

lemma byte_len_ascii: "list_all (\<lambda>c. c < 128) s \<Longrightarrow> byte_len s = length s"
  by (induction s) (auto simp: byte_len_def utf8_char_def)

lemma digits_ascii: "list_all is_ascii_digit s \<Longrightarrow> list_all (\<lambda>c. c < 128) s"
  by (induction s) (auto simp: is_ascii_digit_def)

lemma luhn_sum_acc: "luhn_sum b s n = n + luhn_sum b s 0"
proof (induction s arbitrary: b n)
  case (Cons ch s)
  show ?case
    unfolding luhn_sum.simps by (subst (1 2) Cons.IH) simp
qed simp

lemma luhn_sum_append:
  "luhn_sum b (s @ t) 0 = luhn_sum b s 0 + luhn_sum (b = even (length s)) t 0"
proof (induction s arbitrary: b)
  case (Cons ch s)
  show ?case
    unfolding append_Cons luhn_sum.simps
    by (subst (1 2) luhn_sum_acc) (cases b; simp add: Cons.IH)
qed simp

lemma digit_less: "is_ascii_digit c \<Longrightarrow> c - 48 < 10"
  by (auto simp: is_ascii_digit_def)

lemma luhn_digit_less: "d < 10 \<Longrightarrow> luhn_digit b d < 10"
  by (auto simp: luhn_digit_def Let_def)

lemma luhn_digit_inj: "d < 10 \<Longrightarrow> e < 10 \<Longrightarrow> luhn_digit b d = luhn_digit b e \<Longrightarrow> d = e"
  by (auto simp: luhn_digit_def Let_def split: if_splits) presburger+

lemma mod10_cancel:
  assumes "(k + x) mod 10 = 0" "(k + y) mod 10 = 0"
  shows "x mod 10 = (y :: nat) mod 10"
proof -
  have le: "u mod 10 = v mod 10" if "u \<le> v" "10 dvd k + u" "10 dvd k + v" for u v :: nat
  proof -
    have "10 dvd v - u" using that dvd_diff_nat [of 10 "k + v" "k + u"] by simp
    then show ?thesis using that(1) mod_eq_dvd_iff_nat [of u v 10] by simp
  qed
  have "10 dvd k + x" "10 dvd k + y" using assms by (simp_all only: dvd_eq_mod_eq_0)
  then show ?thesis by (metis le nle_le)
qed

lemma digit_cases: "n < 10 \<Longrightarrow> n \<in> set [0, 1, 2, 3, 4, 5, 6, 7, 8, 9 :: nat]"
  by simp arith

lemma swap_table:
  assumes "p < 10" "q < 10" "(luhn_digit True p + q) mod 10 = (luhn_digit True q + p) mod 10"
  shows "p = q \<or> {p, q} = {0, 9}"
proof -
  have "p = q \<or> p = 0 \<and> q = 9 \<or> p = 9 \<and> q = 0"
    using digit_cases [OF assms(1)] digit_cases [OF assms(2)] assms(3)
    unfolding set_simps insert_iff empty_iff
    by (elim disjE; simp add: luhn_digit_def)
  then show ?thesis by auto
qed

text \<open>The sum of a number with one digit singled out.\<close>

lemma luhn_sum_at:
  "luhn_sum False (rev (s @ ch # t)) 0 =
     (luhn_sum False (rev t) 0 + luhn_sum (even (length t)) (rev s) 0) +
     luhn_digit (odd (length t)) (ch - 48)"
  by (simp add: luhn_sum_append) (subst luhn_sum_acc, simp)

lemma luhn_validate_digits:
  "luhn_validate s \<longleftrightarrow> s \<noteq> [] \<and> length s \<le> MAX_LUHN_DIGITS \<and> list_all is_ascii_digit s \<and>
     luhn_sum False (rev s) 0 mod 10 = 0"
  using byte_len_ascii [OF digits_ascii, of s] by (auto simp: luhn_validate_def)

text \<open>
  Luhn catches every single wrong digit, and every swap of two neighbouring digits other
  than 0 and 9: a number that passes stops passing when one digit is replaced by a different
  one, or when two different neighbours are exchanged that are not the pair 0, 9.
\<close>

theorem luhn_detects_errors:
  assumes "luhn_validate (s @ c # t)"
  shows "(\<forall>d. d \<noteq> c \<longrightarrow> \<not> luhn_validate (s @ d # t)) \<and>
    (\<forall>d u. t = d # u \<and> d \<noteq> c \<and> {c, d} \<noteq> {48, 57} \<longrightarrow> \<not> luhn_validate (s @ d # c # u))"
proof (intro conjI allI impI notI)
  have valid: "luhn_sum False (rev (s @ c # t)) 0 mod 10 = 0" and c: "is_ascii_digit c"
    using assms by (simp_all add: luhn_validate_digits)
  fix d
  assume d: "d \<noteq> c" "luhn_validate (s @ d # t)"
  then have "luhn_sum False (rev (s @ d # t)) 0 mod 10 = 0" and dig: "is_ascii_digit d"
    by (simp_all add: luhn_validate_digits)
  then have "luhn_digit (odd (length t)) (c - 48) mod 10 = luhn_digit (odd (length t)) (d - 48) mod 10"
    using valid unfolding luhn_sum_at by (intro mod10_cancel)
  then have "luhn_digit (odd (length t)) (c - 48) = luhn_digit (odd (length t)) (d - 48)"
    by (simp only: mod_less [OF luhn_digit_less [OF digit_less [OF c]]]
        mod_less [OF luhn_digit_less [OF digit_less [OF dig]]])
  then have "c - 48 = d - 48" by (rule luhn_digit_inj [OF digit_less [OF c] digit_less [OF dig]])
  then show False using d(1) c dig by (auto simp: is_ascii_digit_def)
next
  fix d u
  assume t: "t = d # u \<and> d \<noteq> c \<and> {c, d} \<noteq> {48, 57}" and swap: "luhn_validate (s @ d # c # u)"
  let ?k = "luhn_sum False (rev u) 0 + luhn_sum (odd (length u)) (rev s) 0"
  let ?f = "\<lambda>x y. luhn_digit (even (length u)) (x - 48) + luhn_digit (odd (length u)) (y - 48)"
  have sums: "luhn_sum False (rev (s @ x # y # u)) 0 = ?k + ?f x y" for x y
    using luhn_sum_at [of s x "y # u"] luhn_sum_at [of "[]" y u] by simp
  have "(?k + ?f c d) mod 10 = 0" "(?k + ?f d c) mod 10 = 0"
    using assms swap t by (simp_all add: luhn_validate_digits flip: sums)
  moreover have digits: "is_ascii_digit c" "is_ascii_digit d"
    using assms t by (simp_all add: luhn_validate_digits)
  moreover have "?f x y = luhn_digit True (if even (length u) then x - 48 else y - 48) +
      (if even (length u) then y - 48 else x - 48)" for x y
    by (simp add: luhn_digit_def [of False])
  ultimately have "(luhn_digit True (c - 48) + (d - 48)) mod 10 = (luhn_digit True (d - 48) + (c - 48)) mod 10"
    using mod10_cancel [of ?k "?f c d" "?f d c"] by (cases "even (length u)") (simp_all add: add.commute)
  moreover have "c - 48 < 10" "d - 48 < 10" using digits by (simp_all add: digit_less)
  ultimately have "c - 48 = d - 48 \<or> {c - 48, d - 48} = {0, 9}" by (intro swap_table)
  then show False using t digits by (auto simp: is_ascii_digit_def doubleton_eq_iff)
qed

theorem luhn_detects_errors_witness:
  "luhn_validate [52, 53, 51, 50, 48, 49, 53, 49, 49, 50, 56, 51, 48, 51, 54, 54] \<and>
   \<not> luhn_validate [52, 53, 51, 50, 48, 49, 53, 49, 49, 50, 56, 51, 48, 51, 54, 55]"
proof -
  let ?s = "[52, 53, 51, 50, 48, 49, 53, 49, 49, 50, 56, 51, 48, 51, 54] :: nat list"
  have "luhn_validate (?s @ 54 # [])" by code_simp
  from luhn_detects_errors [OF this] this show ?thesis by (auto simp del: One_nat_def)
qed

section \<open>MOD-97 computes the remainder of the number\<close>

text \<open>The number that a text of digits and capital letters stands for, and its weight.\<close>

definition alnum_value :: "scalar \<Rightarrow> nat" where
  "alnum_value c = (if is_ascii_digit c then c - 48 else c - 55)"

definition alnum_weight :: "scalar \<Rightarrow> nat" where
  "alnum_weight c = (if is_ascii_digit c then 10 else 100)"

fun alnum_number :: "utext \<Rightarrow> nat \<Rightarrow> nat" where
  "alnum_number [] n = n"
| "alnum_number (c # s) n = alnum_number s (n * alnum_weight c + alnum_value c)"

definition capital :: "scalar \<Rightarrow> bool" where
  "capital c \<longleftrightarrow> is_ascii_digit c \<or> is_ascii_uppercase c"

definition rearrange :: "utext \<Rightarrow> utext" where
  "rearrange s = drop 4 s @ take 4 s"

lemma mod97_step_bound: "r < 97 \<Longrightarrow> d < 10 \<Longrightarrow> r * 10 + d < (2 :: nat) ^ 32"
  by simp

lemma mod97_loop_append: "mod97_loop (s @ t) r = mod97_loop t (mod97_loop s r)"
  by (induction s arbitrary: r) simp_all

lemma to_numeric_capital:
  "list_all capital s \<Longrightarrow> \<exists>n. to_numeric s = Some n \<and> list_all is_ascii_digit n"
proof (induction s)
  case (Cons c s)
  then show ?case
    by (auto simp: capital_def letter_digits_def is_ascii_uppercase_def is_ascii_digit_def)
qed simp

text \<open>One character of the text, a digit or a letter written as two digits.\<close>

lemma mod97_loop_char:
  assumes "capital c" "to_numeric [c] = Some n"
  shows "mod97_loop n r mod 97 = (r * alnum_weight c + alnum_value c) mod 97"
proof (cases "is_ascii_digit c")
  case True
  then show ?thesis using assms(2) by (auto simp: alnum_weight_def alnum_value_def)
next
  case False
  let ?v = "10 + (c - 65)"
  have upper: "is_ascii_uppercase c" using assms(1) False by (simp add: capital_def)
  then have n: "n = [48 + ?v div 10, 48 + ?v mod 10]"
    using assms(2) False by (simp add: letter_digits_def)
  have digits: "is_ascii_digit (48 + ?v div 10)" "is_ascii_digit (48 + ?v mod 10)"
    using upper by (auto simp: is_ascii_digit_def is_ascii_uppercase_def)
  have "mod97_loop n r mod 97 = ((r * 10 + ?v div 10) mod 97 * 10 + ?v mod 10) mod 97"
    unfolding n using digits by (simp del: add_mult_distrib)
  also have "\<dots> = ((r * 10 + ?v div 10) * 10 + ?v mod 10) mod 97"
    by (metis mod_add_left_eq mod_mult_left_eq)
  also have "(r * 10 + q div 10) * 10 + q mod 10 = r * 100 + q" for q :: nat
    using div_mult_mod_eq [of q 10] by (simp add: add_mult_distrib)
  also have "?v = alnum_value c"
    using False upper by (auto simp: alnum_value_def is_ascii_uppercase_def)
  finally show ?thesis using False by (simp add: alnum_weight_def)
qed

lemma alnum_number_linear:
  "alnum_number s n = n * prod_list (map alnum_weight s) + alnum_number s 0"
proof (induction s arbitrary: n)
  case (Cons c s)
  show ?case
    unfolding alnum_number.simps
    by (subst (1 2) Cons.IH) (simp add: algebra_simps)
qed simp

lemma alnum_number_cong:
  assumes "n mod 97 = m mod 97"
  shows "alnum_number s n mod 97 = alnum_number s m mod 97"
  by (subst (1 2) alnum_number_linear) (metis assms mod_add_left_eq mod_mult_left_eq)

lemma mod97_loop_number:
  "\<lbrakk>list_all capital s; to_numeric s = Some n\<rbrakk> \<Longrightarrow>
     mod97_loop n r mod 97 = alnum_number s r mod 97"
proof (induction s arbitrary: n r)
  case (Cons c s)
  obtain h t where n: "to_numeric [c] = Some h" "to_numeric s = Some t" "n = h @ t"
    using Cons.prems(2) by (cases "to_numeric s") (auto split: if_splits)
  have "mod97_loop n r mod 97 = alnum_number s (mod97_loop h r) mod 97"
    using Cons.IH [OF _ n(2)] Cons.prems(1) by (simp only: n(3) mod97_loop_append list.pred_inject(2))
  also have "\<dots> = alnum_number s (r * alnum_weight c + alnum_value c) mod 97"
    using mod97_loop_char [OF _ n(1), of r] Cons.prems(1) by (intro alnum_number_cong) (simp only: list.pred_inject(2))
  finally show ?case by simp
qed simp

lemma mod97_loop_less: "r < 97 \<Longrightarrow> mod97_loop n r < 97"
  by (induction n r rule: mod97_loop.induct) auto

lemma mod97_number: "\<lbrakk>list_all capital s; to_numeric s = Some n\<rbrakk> \<Longrightarrow> mod97 n = alnum_number s 0 mod 97"
  using mod97_loop_number [of s n 0] mod97_loop_less [of 0 n] by (simp add: mod97_def)

lemma to_uppercase_ascii:
  "list_all is_ascii_alphanumeric s \<Longrightarrow>
     to_uppercase s = map (\<lambda>c. if 97 \<le> c then c - 32 else c) s \<and> list_all capital (to_uppercase s)"
  by (induction s)
    (auto simp: to_uppercase_def is_ascii_alphanumeric_def is_ascii_digit_def is_ascii_uppercase_def
      capital_def)

lemma to_uppercase_capital: "list_all capital s \<Longrightarrow> to_uppercase s = s"
  by (induction s)
    (auto simp: to_uppercase_def capital_def is_ascii_digit_def is_ascii_uppercase_def)

lemma alnum_ascii: "list_all is_ascii_alphanumeric s \<Longrightarrow> list_all (\<lambda>c. c < 128) s"
  by (auto simp: list_all_iff is_ascii_alphanumeric_def is_ascii_digit_def is_ascii_uppercase_def)

lemma capital_alnum: "list_all capital s \<Longrightarrow> list_all is_ascii_alphanumeric s"
  by (auto simp: list_all_iff is_ascii_alphanumeric_def capital_def)

text \<open>What the validator decides on ASCII input.\<close>

lemma mod97_validate_ascii:
  assumes alnum: "list_all is_ascii_alphanumeric s" and len: "4 \<le> length s" "length s \<le> MAX_MOD97_BYTES"
  shows "mod97_validate s = Some (alnum_number (rearrange (to_uppercase s)) 0 mod 97 = 1)"
proof -
  have upper: "list_all capital (to_uppercase s)" "length (to_uppercase s) = length s"
    using to_uppercase_ascii [OF alnum] by auto
  then have "list_all capital (rearrange (to_uppercase s))"
    by (auto simp: rearrange_def list_all_iff dest: in_set_takeD in_set_dropD)
  moreover from to_numeric_capital [OF this] obtain n
    where "to_numeric (rearrange (to_uppercase s)) = Some n" by auto
  ultimately show ?thesis
    using len upper(2) byte_len_ascii [OF alnum_ascii, OF alnum] capital_alnum [OF upper(1)]
    by (simp add: mod97_validate_def Let_def mod97_number flip: rearrange_def)
qed

lemma rearrange_at: "\<exists>p q. \<forall>c. rearrange (s @ c # t) = p @ c # q"
proof (cases "length s < 4")
  case True
  then obtain k where "4 - length s = Suc k" by (cases "4 - length s") auto
  then have "rearrange (s @ c # t) = (drop k t @ s) @ c # take k t" for c
    using True by (simp add: rearrange_def)
  then show ?thesis by blast
next
  case False
  then have "rearrange (s @ c # t) = drop 4 s @ c # (t @ take 4 s)" for c
    by (simp add: rearrange_def)
  then show ?thesis by blast
qed

lemma coprime_weights: "coprime (prod_list (map alnum_weight s)) 97"
proof (induction s)
  case (Cons c s)
  have "coprime (alnum_weight c) 97"
    by (simp add: alnum_weight_def coprime_iff_gcd_eq_1 gcd_nat.simps)
  then show ?case using Cons by simp
qed simp

lemma alnum_number_append: "alnum_number (p @ q) n = alnum_number q (alnum_number p n)"
  by (induction p arbitrary: n) simp_all

lemma mod97_affine:
  assumes "(k + x) * w + m \<le> (k + y) * w + m" "((k + x) * w + m) mod 97 = ((k + y) * w + m) mod (97 :: nat)"
    "coprime w 97" "x < 97" "y < 97" "0 < w"
  shows "x = y"
proof -
  have le: "x \<le> y" using assms(1,6) by simp
  have "97 dvd ((k + y) * w + m) - ((k + x) * w + m)"
    using assms(1,2) mod_eq_dvd_iff_nat by metis
  also have "((k + y) * w + m) - ((k + x) * w + m) = (y - x) * w"
    using le by (simp add: algebra_simps)
  finally have "97 dvd y - x"
    using assms(3) by (simp add: coprime_commute coprime_dvd_mult_left_iff)
  then show ?thesis using assms(5) le by (metis diff_is_0_eq dvd_imp_le le_antisym less_imp_diff_less not_le zero_less_iff_neq_zero)
qed

text \<open>Two texts that differ in one character of the same kind have different remainders.\<close>

lemma alnum_number_differs:
  assumes eq: "alnum_number (p @ c # q) 0 mod 97 = alnum_number (p @ d # q) 0 mod 97"
    and "capital c" "capital d" "is_ascii_digit c = is_ascii_digit d"
  shows "c = d"
proof -
  let ?w = "prod_list (map alnum_weight q)" and ?k = "alnum_number p 0 * alnum_weight c"
  have weight: "alnum_weight c = alnum_weight d" using assms(4) by (simp add: alnum_weight_def)
  have num: "alnum_number (p @ x # q) 0 = (?k + alnum_value x) * ?w + alnum_number q 0"
    if "alnum_weight x = alnum_weight c" for x
    using that alnum_number_linear [of q "alnum_number p 0 * alnum_weight x + alnum_value x"]
    by (simp add: alnum_number_append)
  have less: "alnum_value c < 97" "alnum_value d < 97"
    using assms(2,3) by (auto simp: capital_def alnum_value_def is_ascii_digit_def is_ascii_uppercase_def)
  have pos: "0 < ?w" by (induction q) (auto simp: alnum_weight_def)
  have "alnum_value c = alnum_value d"
    using mod97_affine [OF _ _ coprime_weights less pos] mod97_affine [OF _ _ coprime_weights less(2,1) pos]
      eq num [OF refl] num [OF weight [symmetric]] by (metis nle_le)
  then show ?thesis
    using assms(2-4) by (auto simp: capital_def alnum_value_def is_ascii_digit_def is_ascii_uppercase_def
        split: if_splits)
qed

text \<open>
  On ASCII letters and digits of an admissible length the MOD-97 validator returns, without
  panicking, whether the number written by the rearranged upper-case text has remainder 1; and
  it catches every replacement of one capital letter or digit by another of the same kind.
\<close>

theorem mod97_validate_correct:
  assumes "list_all is_ascii_alphanumeric v" "4 \<le> length v" "length v \<le> MAX_MOD97_BYTES"
  shows "mod97_validate v = Some (alnum_number (rearrange (to_uppercase v)) 0 mod 97 = 1) \<and>
    (\<forall>s c t d. v = s @ c # t \<and> list_all capital v \<and> capital d \<and> d \<noteq> c \<and>
       is_ascii_digit c = is_ascii_digit d \<and> mod97_validate v = Some True \<longrightarrow>
       mod97_validate (s @ d # t) = Some False)"
proof (intro conjI allI impI)
  show valid: "mod97_validate v = Some (alnum_number (rearrange (to_uppercase v)) 0 mod 97 = 1)"
    using assms by (rule mod97_validate_ascii)
  fix s c t d
  assume *: "v = s @ c # t \<and> list_all capital v \<and> capital d \<and> d \<noteq> c \<and>
    is_ascii_digit c = is_ascii_digit d \<and> mod97_validate v = Some True"
  then have ok: "mod97_validate v = Some True" by blast
  let ?u = "s @ d # t"
  have caps: "list_all capital v" "list_all capital ?u" using * by auto
  have upper: "to_uppercase x = x" if "list_all capital x" for x
    using to_uppercase_capital [OF that] .
  obtain p q where at: "\<And>c. rearrange (s @ c # t) = p @ c # q" using rearrange_at by blast
  have "mod97_validate ?u = Some (alnum_number (rearrange (to_uppercase ?u)) 0 mod 97 = 1)"
    using assms * by (intro mod97_validate_ascii capital_alnum caps) auto
  moreover have "alnum_number (rearrange (to_uppercase v)) 0 mod 97 = 1"
    using valid ok by (simp only: option.inject)
  then have "alnum_number (p @ c # q) 0 mod 97 = 1"
    unfolding upper [OF caps(1)] by (simp only: * at)
  moreover have "capital c" using caps(1) * by simp
  with * have "alnum_number (p @ c # q) 0 mod 97 \<noteq> alnum_number (p @ d # q) 0 mod 97"
    by (metis alnum_number_differs)
  ultimately show "mod97_validate ?u = Some False"
    unfolding upper [OF caps(2)] at by simp
qed

theorem mod97_validate_correct_witness:
  "mod97_validate [71, 66, 56, 50, 87, 69, 83, 84, 49, 50, 51, 52, 53, 54, 57, 56, 55, 54, 53, 52, 51, 50] = Some True \<and>
   mod97_validate [71, 66, 56, 50, 87, 69, 83, 84, 49, 50, 51, 52, 53, 54, 57, 56, 55, 54, 53, 52, 51, 51] = Some False"
proof -
  let ?s = "[71, 66, 56, 50, 87, 69, 83, 84, 49, 50, 51, 52, 53, 54, 57, 56, 55, 54, 53, 52, 51] :: nat list"
  have hyps: "list_all is_ascii_alphanumeric (?s @ 50 # [])" "4 \<le> length (?s @ 50 # [])"
    "length (?s @ 50 # []) \<le> MAX_MOD97_BYTES" "list_all capital (?s @ 50 # [])" "capital 51"
    "is_ascii_digit 50 = is_ascii_digit 51"
    by (simp_all add: checksum_eval capital_def)
  have "mod97_validate (?s @ 50 # []) = Some True" by (simp add: checksum_eval)
  with mod97_validate_correct [OF hyps(1-3), THEN conjunct2, rule_format, of ?s 50 "[]" 51] hyps(4-)
  show ?thesis by simp
qed

text \<open>
  The MOD-97 validator panics on the two-letter text of the dotless i (U+0131) twice: four bytes long,
  it passes the length check, but its upper case is \<open>II\<close>, and slicing that at byte 4 is out of
  range. Text that is not ASCII can also be accepted: the letter U+00DF counts as
  \<open>SS\<close>, so that this letter followed by \<open>53\<close> is valid.
\<close>

theorem mod97_validate_panics:
  "byte_len [0x131, 0x131] = 4 \<and> to_uppercase [0x131, 0x131] = [73, 73] \<and>
   mod97_validate [0x131, 0x131] = None \<and>
   mod97_validate [0xDF, 53, 51] = Some True"
proof (intro conjI)
  show len: "byte_len [0x131, 0x131] = 4" by (simp add: checksum_eval)
  show upper: "to_uppercase [0x131, 0x131] = [73, 73]" by (simp add: checksum_eval)
  show "mod97_validate [0x131, 0x131] = None"
    unfolding mod97_validate_def len upper by (simp add: checksum_eval)
  have "byte_len [0xDF, 53, 51] = 4" "to_uppercase [0xDF, 53, 51] = [83, 83, 53, 51]"
    by (simp_all add: checksum_eval)
  then show "mod97_validate [0xDF, 53, 51] = Some True" by (simp add: checksum_eval)
qed

end
