(* ===== verification/Wire_Operators.thy ===== *)
theory Wire_Operators
  imports Sql_Escape "HOL-Library.Word"
begin

text \<open>
  The typed WHERE and ORDER BY operators of the streaming client
  (\<open>fraiseql-wire/src/operators/field.rs\<close>, \<open>where_operator.rs\<close>, \<open>sql_gen.rs\<close>, \<open>order_by.rs\<close>).

  \<^item> The caller's \<open>&mut param_index\<close> and \<open>&mut params\<close> are the state \<open>(index, params)\<close>, passed
    and returned; \<open>params\<close> is a finite map from parameter numbers to values.
  \<^item> Floating-point numbers are their IEEE bit patterns; \<open>is_finite\<close> reads the exponent, and the
    rendering of a finite number by \<open>Display\<close> is the argument \<open>show_f32\<close>.
\<close>

section \<open>Fields and values\<close>

type_synonym f32 = "32 word"
type_synonym f64 = "64 word"

definition is_finite :: "f32 \<Rightarrow> bool" where
  "is_finite x \<longleftrightarrow> unat x div 2 ^ 23 mod 256 \<noteq> 255"

datatype field = JsonbField string | DirectColumn string | JsonbPath "string list"

datatype wvalue =
    VString string | VNumber f64 | VBool bool | VNull | VArray "wvalue list"
  | VFloatArray "f32 list" | VRawSql string

definition is_valid_field_name :: "string \<Rightarrow> bool" where
  "is_valid_field_name name =
     (case name of
        [] \<Rightarrow> False
      | c # _ \<Rightarrow>
          if \<not> is_alphabetic c \<and> c \<noteq> CHR ''_'' then False
          else list_all (\<lambda>c. is_alphanumeric c \<or> c = CHR ''_'') name)"

fun validate_path :: "string list \<Rightarrow> string + unit" where
  "validate_path [] = Inr ()"
| "validate_path (segment # path) =
     (if \<not> is_valid_field_name segment then Inl (''Invalid field name in path: '' @ segment)
      else validate_path path)"

fun field_validate :: "field \<Rightarrow> string + unit" where
  "field_validate (JsonbPath path) = validate_path path"
| "field_validate (JsonbField name) =
     (if \<not> is_valid_field_name name then Inl (''Invalid field name: '' @ name) else Inr ())"
| "field_validate (DirectColumn name) =
     (if \<not> is_valid_field_name name then Inl (''Invalid field name: '' @ name) else Inr ())"

text \<open>The loop over the segments: the last one is extracted as text.\<close>

fun path_sql :: "string list \<Rightarrow> string" where
  "path_sql [] = []"
| "path_sql [segment] = ''->>'' @ [squote] @ segment @ [squote]"
| "path_sql (segment # path) = ''->'' @ [squote] @ segment @ [squote] @ path_sql path"

fun field_to_sql :: "field \<Rightarrow> string" where
  "field_to_sql (JsonbField name) = ''(data->'' @ [squote] @ name @ [squote] @ '')''"
| "field_to_sql (DirectColumn name) = name"
| "field_to_sql (JsonbPath path) = (if path = [] then ''data'' else ''(data'' @ path_sql path @ '')'')"

definition is_null :: "wvalue \<Rightarrow> bool" where
  "is_null v \<longleftrightarrow> v = VNull"

text \<open>\<open>to_sql_literal\<close>, with the rendering of both kinds of numbers as arguments.\<close>

fun to_sql_literal :: "(f32 \<Rightarrow> string) \<Rightarrow> (f64 \<Rightarrow> string) \<Rightarrow> wvalue \<Rightarrow> string" where
  "to_sql_literal show_f32 show_f64 (VString s) = [squote] @ replace_char squote [squote, squote] s @ [squote]"
| "to_sql_literal show_f32 show_f64 (VNumber n) = show_f64 n"
| "to_sql_literal show_f32 show_f64 (VBool b) = (if b then ''true'' else ''false'')"
| "to_sql_literal show_f32 show_f64 VNull = ''NULL''"
| "to_sql_literal show_f32 show_f64 (VArray arr) =
     ''ARRAY['' @ join '', '' (map (to_sql_literal show_f32 show_f64) arr) @ '']''"
| "to_sql_literal show_f32 show_f64 (VFloatArray arr) = ''['' @ join '', '' (map show_f32 arr) @ '']''"
| "to_sql_literal show_f32 show_f64 (VRawSql sql) = sql"

section \<open>Operators\<close>

text \<open>
  The variants of the enum that have the same payload and are treated alike by \<open>validate\<close> are one
  constructor with an enumeration that has the variants' names.
\<close>

datatype comparison_op = Eq | Neq | Gt | Gte | Lt | Lte
datatype length_op = LenEq | LenGt | LenGte | LenLt | LenLte
datatype text_op = Contains | Icontains | Startswith | Istartswith | Endswith | Iendswith | Like | Ilike
datatype distance_op = L2Distance | CosineDistance | InnerProduct | L1Distance | HammingDistance
datatype search_op = Matches | PhraseQuery | WebsearchQuery
datatype inet_check = IsIPv4 | IsIPv6 | IsPrivate | IsPublic | IsLoopback
datatype inet_op = InSubnet | ContainsSubnet | ContainsIP | IPRangeOverlap
datatype ltree_op = AncestorOf | DescendantOf | MatchesLquery | MatchesLtxtquery
datatype depth_op = DepthEq | DepthNeq | DepthGt | DepthGte | DepthLt | DepthLte

datatype where_operator =
    Comparison comparison_op field wvalue
  | In field "wvalue list" | Nin field "wvalue list"
  | ArrayContains field wvalue | ArrayContainedBy field wvalue | ArrayOverlaps field "wvalue list"
  | ArrayLength length_op field nat
  | Text text_op field string
  | IsNull field bool
  | Distance distance_op field "f32 list" f32
  | JaccardDistance field "string list" f32
  | Search search_op field string "string option"
  | PlainQuery field string
  | InetCheck inet_check field
  | Inet inet_op field string
  | StrictlyContains field wvalue
  | Ltree ltree_op field string
  | MatchesAnyLquery field "string list"
  | Depth depth_op field nat
  | Lca field "string list"

fun op_field :: "where_operator \<Rightarrow> field" where
  "op_field (Comparison _ f _) = f"
| "op_field (In f _) = f"
| "op_field (Nin f _) = f"
| "op_field (ArrayContains f _) = f"
| "op_field (ArrayContainedBy f _) = f"
| "op_field (ArrayOverlaps f _) = f"
| "op_field (ArrayLength _ f _) = f"
| "op_field (Text _ f _) = f"
| "op_field (IsNull f _) = f"
| "op_field (Distance _ f _ _) = f"
| "op_field (JaccardDistance f _ _) = f"
| "op_field (Search _ f _ _) = f"
| "op_field (PlainQuery f _) = f"
| "op_field (InetCheck _ f) = f"
| "op_field (Inet _ f _) = f"
| "op_field (StrictlyContains f _) = f"
| "op_field (Ltree _ f _) = f"
| "op_field (MatchesAnyLquery f _) = f"
| "op_field (Depth _ f _) = f"
| "op_field (Lca f _) = f"

definition op_threshold :: "where_operator \<Rightarrow> f32 option" where
  "op_threshold oper =
     (case oper of
        Distance _ _ _ t \<Rightarrow> Some t
      | JaccardDistance _ _ t \<Rightarrow> Some t
      | _ \<Rightarrow> None)"

definition operator_validate :: "(f32 \<Rightarrow> string) \<Rightarrow> where_operator \<Rightarrow> string + unit" where
  "operator_validate show_f32 oper =
     (case op_threshold oper of
        Some threshold \<Rightarrow>
          if \<not> is_finite threshold
          then Inl (''Vector distance threshold must be a finite number, got '' @ show_f32 threshold)
          else field_validate (op_field oper)
      | None \<Rightarrow> field_validate (op_field oper))"

section \<open>SQL generation\<close>

definition wire_escape_like :: "string \<Rightarrow> string" where
  "wire_escape_like s =
     replace_char CHR ''_'' [backslash, CHR ''_'']
       (replace_char CHR ''%'' [backslash, CHR ''%'']
         (replace_char backslash [backslash, backslash] s))"

fun infer_type_cast :: "wvalue \<Rightarrow> string" where
  "infer_type_cast (VString _) = ''::text''"
| "infer_type_cast (VNumber _) = ''::numeric''"
| "infer_type_cast (VBool _) = ''::boolean''"
| "infer_type_cast _ = []"

definition field_cast :: "field \<Rightarrow> wvalue \<Rightarrow> string" where
  "field_cast f v = (case f of DirectColumn _ \<Rightarrow> [] | _ \<Rightarrow> infer_type_cast v)"

text \<open>The parameter counter and the map of bound values.\<close>

type_synonym pstate = "nat \<times> (nat \<rightharpoonup> wvalue)"

definition bind_param :: "wvalue \<Rightarrow> pstate \<Rightarrow> string \<times> pstate" where
  "bind_param v st =
     (case st of (index, params) \<Rightarrow>
        let param_num = index + 1 in (CHR ''$'' # show_nat param_num, (index + 1, params(param_num \<mapsto> v))))"

fun bind_params :: "string \<Rightarrow> wvalue list \<Rightarrow> pstate \<Rightarrow> string list \<times> pstate" where
  "bind_params suffix [] st = ([], st)"
| "bind_params suffix (v # vs) st =
     (let (p, st1) = bind_param v st; (ps, st2) = bind_params suffix vs st1
      in ((p @ suffix) # ps, st2))"

definition comparison_sql :: "comparison_op \<Rightarrow> string" where
  "comparison_sql c = (case c of
     Eq \<Rightarrow> ''='' | Neq \<Rightarrow> ''!='' | Gt \<Rightarrow> ''>'' | Gte \<Rightarrow> ''>='' | Lt \<Rightarrow> ''<'' | Lte \<Rightarrow> ''<='')"

definition length_sql :: "length_op \<Rightarrow> string" where
  "length_sql c = (case c of
     LenEq \<Rightarrow> ''='' | LenGt \<Rightarrow> ''>'' | LenGte \<Rightarrow> ''>='' | LenLt \<Rightarrow> ''<'' | LenLte \<Rightarrow> ''<='')"

definition depth_sql :: "depth_op \<Rightarrow> string" where
  "depth_sql c = (case c of
     DepthEq \<Rightarrow> ''='' | DepthNeq \<Rightarrow> ''!='' | DepthGt \<Rightarrow> ''>'' | DepthGte \<Rightarrow> ''>='' | DepthLt \<Rightarrow> ''<''
   | DepthLte \<Rightarrow> ''<='')"

text \<open>The value a text operator binds and the SQL it renders around the placeholder.\<close>

definition text_param :: "text_op \<Rightarrow> string \<Rightarrow> string" where
  "text_param t s = (case t of
     Contains \<Rightarrow> wire_escape_like s
   | Icontains \<Rightarrow> wire_escape_like s
   | Startswith \<Rightarrow> wire_escape_like s @ ''%''
   | Istartswith \<Rightarrow> wire_escape_like s @ ''%''
   | Endswith \<Rightarrow> ''%'' @ wire_escape_like s
   | Iendswith \<Rightarrow> ''%'' @ wire_escape_like s
   | Like \<Rightarrow> s
   | Ilike \<Rightarrow> s)"

definition anywhere :: "string \<Rightarrow> string" where
  "anywhere p = [squote] @ ''%'' @ [squote] @ '' || '' @ p @ ''::text || '' @ [squote] @ ''%'' @ [squote]"

definition text_sql :: "text_op \<Rightarrow> string \<Rightarrow> string \<Rightarrow> string" where
  "text_sql t f p = (case t of
     Contains \<Rightarrow> f @ '' LIKE '' @ anywhere p
   | Icontains \<Rightarrow> f @ '' ILIKE '' @ anywhere p
   | Startswith \<Rightarrow> f @ '' LIKE '' @ p
   | Istartswith \<Rightarrow> f @ '' ILIKE '' @ p
   | Endswith \<Rightarrow> f @ '' LIKE '' @ p
   | Iendswith \<Rightarrow> f @ '' ILIKE '' @ p
   | Like \<Rightarrow> f @ '' LIKE '' @ p
   | Ilike \<Rightarrow> f @ '' ILIKE '' @ p)"

definition distance_sql :: "distance_op \<Rightarrow> string \<Rightarrow> string \<Rightarrow> string \<Rightarrow> string" where
  "distance_sql d f p t = (case d of
     L2Distance \<Rightarrow> ''l2_distance('' @ f @ ''::vector, '' @ p @ ''::vector) < '' @ t
   | CosineDistance \<Rightarrow> ''cosine_distance('' @ f @ ''::vector, '' @ p @ ''::vector) < '' @ t
   | InnerProduct \<Rightarrow> ''inner_product('' @ f @ ''::vector, '' @ p @ ''::vector) > '' @ t
   | L1Distance \<Rightarrow> ''l1_distance('' @ f @ ''::vector, '' @ p @ ''::vector) < '' @ t
   | HammingDistance \<Rightarrow> ''hamming_distance('' @ f @ ''::bit, '' @ p @ ''::bit) < '' @ t)"

definition search_function :: "search_op \<Rightarrow> string" where
  "search_function s = (case s of
     Matches \<Rightarrow> ''plainto_tsquery''
   | PhraseQuery \<Rightarrow> ''phraseto_tsquery''
   | WebsearchQuery \<Rightarrow> ''websearch_to_tsquery'')"

definition within :: "string \<Rightarrow> string \<Rightarrow> string" where
  "within f net = f @ ''::inet << '' @ [squote] @ net @ [squote] @ ''::inet''"

definition private_ranges :: "string \<Rightarrow> string" where
  "private_ranges f =
     ''('' @ within f ''10.0.0.0/8'' @ '' OR '' @ within f ''172.16.0.0/12'' @ '' OR '' @
     within f ''192.168.0.0/16'' @ '' OR '' @ within f ''169.254.0.0/16'' @ '')''"

definition inet_check_sql :: "inet_check \<Rightarrow> string \<Rightarrow> string" where
  "inet_check_sql c f = (case c of
     IsIPv4 \<Rightarrow> ''family('' @ f @ ''::inet) = 4''
   | IsIPv6 \<Rightarrow> ''family('' @ f @ ''::inet) = 6''
   | IsPrivate \<Rightarrow> private_ranges f
   | IsPublic \<Rightarrow> ''NOT '' @ private_ranges f
   | IsLoopback \<Rightarrow>
       ''(family('' @ f @ ''::inet) = 4 AND '' @ within f ''127.0.0.0/8'' @ '') OR (family('' @ f @
       ''::inet) = 6 AND '' @ within f ''::1/128'' @ '')'')"

definition inet_sql :: "inet_op \<Rightarrow> string" where
  "inet_sql i = (case i of
     InSubnet \<Rightarrow> ''<<'' | ContainsSubnet \<Rightarrow> ''>>'' | ContainsIP \<Rightarrow> ''>>'' | IPRangeOverlap \<Rightarrow> ''&&'')"

definition ltree_sql :: "ltree_op \<Rightarrow> string \<times> string" where
  "ltree_sql l = (case l of
     AncestorOf \<Rightarrow> (''@>'', ''ltree'')
   | DescendantOf \<Rightarrow> (''<@'', ''ltree'')
   | MatchesLquery \<Rightarrow> (''~'', ''lquery'')
   | MatchesLtxtquery \<Rightarrow> (''@'', ''ltxtquery''))"

text \<open>Bind one value and render with its placeholder.\<close>

definition with_one :: "wvalue \<Rightarrow> pstate \<Rightarrow> (string \<Rightarrow> string) \<Rightarrow> string \<times> pstate" where
  "with_one v st render = (let (p, st') = bind_param v st in (render p, st'))"

definition with_many :: "string \<Rightarrow> wvalue list \<Rightarrow> pstate \<Rightarrow> (string \<Rightarrow> string) \<Rightarrow> string \<times> pstate" where
  "with_many suffix vs st render = (let (ps, st') = bind_params suffix vs st in (render (join '', '' ps), st'))"

text \<open>The arms of the match, after validation.\<close>

fun operator_sql :: "(f32 \<Rightarrow> string) \<Rightarrow> where_operator \<Rightarrow> pstate \<Rightarrow> string \<times> pstate" where
  "operator_sql show_f32 (Comparison c f v) st =
     (if c = Eq \<and> is_null v then (field_to_sql f @ '' IS NULL'', st)
      else if c = Neq \<and> is_null v then (field_to_sql f @ '' IS NOT NULL'', st)
      else with_one v st (\<lambda>p. field_to_sql f @ field_cast f v @ '' '' @ comparison_sql c @ '' '' @ p))"
| "operator_sql show_f32 (In f vs) st =
     (if vs = [] then (''FALSE'', st)
      else with_many [] vs st (\<lambda>ps. field_to_sql f @ '' IN ('' @ ps @ '')''))"
| "operator_sql show_f32 (Nin f vs) st =
     (if vs = [] then (''TRUE'', st)
      else with_many [] vs st (\<lambda>ps. field_to_sql f @ '' NOT IN ('' @ ps @ '')''))"
| "operator_sql show_f32 (ArrayContains f v) st =
     with_one v st (\<lambda>p. field_to_sql f @ '' @> ARRAY['' @ p @ '']'')"
| "operator_sql show_f32 (ArrayContainedBy f v) st =
     with_one v st (\<lambda>p. field_to_sql f @ '' <@ ARRAY['' @ p @ '']'')"
| "operator_sql show_f32 (ArrayOverlaps f vs) st =
     with_many [] vs st (\<lambda>ps. field_to_sql f @ '' && ARRAY['' @ ps @ '']'')"
| "operator_sql show_f32 (ArrayLength c f len) st =
     (''array_length('' @ field_to_sql f @ '', 1) '' @ length_sql c @ '' '' @ show_nat len, st)"
| "operator_sql show_f32 (Text t f s) st =
     with_one (VString (text_param t s)) st (\<lambda>p. text_sql t (field_to_sql f) p)"
| "operator_sql show_f32 (IsNull f b) st =
     (if b then (field_to_sql f @ '' IS NULL'', st) else (field_to_sql f @ '' IS NOT NULL'', st))"
| "operator_sql show_f32 (Distance d f vector threshold) st =
     with_one (VFloatArray vector) st (\<lambda>p. distance_sql d (field_to_sql f) p (show_f32 threshold))"
| "operator_sql show_f32 (JaccardDistance f members threshold) st =
     with_one (VArray (map VString members)) st (\<lambda>p.
       ''jaccard_distance('' @ field_to_sql f @ ''::text[], '' @ p @ ''::text[]) < '' @ show_f32 threshold)"
| "operator_sql show_f32 (Search k f query language) st =
     with_one (VString query) st (\<lambda>p.
       field_to_sql f @ '' @@ '' @ search_function k @ ''('' @ [squote] @
       (case language of Some l \<Rightarrow> l | None \<Rightarrow> ''english'') @ [squote] @ '', '' @ p @ '')'')"
| "operator_sql show_f32 (PlainQuery f query) st =
     with_one (VString query) st (\<lambda>p. field_to_sql f @ '' @@ plainto_tsquery('' @ p @ '')::tsvector'')"
| "operator_sql show_f32 (InetCheck c f) st = (inet_check_sql c (field_to_sql f), st)"
| "operator_sql show_f32 (Inet i f s) st =
     with_one (VString s) st (\<lambda>p. field_to_sql f @ ''::inet '' @ inet_sql i @ '' '' @ p @ ''::inet'')"
| "operator_sql show_f32 (StrictlyContains f v) st =
     with_one v st (\<lambda>p. field_to_sql f @ ''::jsonb @> '' @ p @ ''::jsonb'')"
| "operator_sql show_f32 (Ltree l f s) st =
     with_one (VString s) st (\<lambda>p.
       field_to_sql f @ ''::ltree '' @ fst (ltree_sql l) @ '' '' @ p @ ''::'' @ snd (ltree_sql l))"
| "operator_sql show_f32 (MatchesAnyLquery f patterns) st =
     with_many ''::lquery'' (map VString patterns) st (\<lambda>ps. field_to_sql f @ ''::ltree ? ARRAY['' @ ps @ '']'')"
| "operator_sql show_f32 (Depth c f depth) st =
     (''nlevel('' @ field_to_sql f @ ''::ltree) '' @ depth_sql c @ '' '' @ show_nat depth, st)"
| "operator_sql show_f32 (Lca f paths) st =
     with_many ''::ltree'' (map VString paths) st (\<lambda>ps. field_to_sql f @ ''::ltree = lca(ARRAY['' @ ps @ ''])'')"

datatype wire_error = InvalidSchema string

definition generate_where_operator_sql ::
  "(f32 \<Rightarrow> string) \<Rightarrow> where_operator \<Rightarrow> pstate \<Rightarrow> wire_error + string \<times> pstate" where
  "generate_where_operator_sql show_f32 oper st =
     (case operator_validate show_f32 oper of
        Inl e \<Rightarrow> Inl (InvalidSchema e)
      | Inr _ \<Rightarrow> Inr (operator_sql show_f32 oper st))"

section \<open>ORDER BY\<close>

datatype field_source = JsonbPayload | OrderColumn
datatype sort_order = Asc | Desc
datatype nulls_handling = NullsFirst | NullsLast
datatype collation = CollationC | CollationUtf8 | CollationCustom string

fun collation_as_str :: "collation \<Rightarrow> string" where
  "collation_as_str CollationC = ''C''"
| "collation_as_str CollationUtf8 = ''C.UTF-8''"
| "collation_as_str (CollationCustom name) = name"

record order_by_clause =
  order_field :: string
  order_source :: field_source
  order_direction :: sort_order
  order_collation :: "string option"
  order_nulls :: "nulls_handling option"

definition order_jsonb_field :: "string \<Rightarrow> sort_order \<Rightarrow> order_by_clause" where
  "order_jsonb_field f d = \<lparr>order_field = f, order_source = JsonbPayload, order_direction = d,
     order_collation = None, order_nulls = None\<rparr>"

definition order_direct_column :: "string \<Rightarrow> sort_order \<Rightarrow> order_by_clause" where
  "order_direct_column f d = \<lparr>order_field = f, order_source = OrderColumn, order_direction = d,
     order_collation = None, order_nulls = None\<rparr>"

definition with_collation :: "order_by_clause \<Rightarrow> string \<Rightarrow> order_by_clause" where
  "with_collation cl c = cl\<lparr>order_collation := Some c\<rparr>"

definition with_nulls :: "order_by_clause \<Rightarrow> nulls_handling \<Rightarrow> order_by_clause" where
  "with_nulls cl n = cl\<lparr>order_nulls := Some n\<rparr>"

definition collation_char :: "char \<Rightarrow> bool" where
  "collation_char c \<longleftrightarrow> is_alphanumeric c \<or> c = CHR ''-'' \<or> c = CHR ''_'' \<or> c = CHR ''.'' \<or> c = CHR ''@''"

definition order_validate :: "order_by_clause \<Rightarrow> string + unit" where
  "order_validate cl =
     (if order_field cl = [] then Inl ''Field name cannot be empty''
      else if \<not> list_all (\<lambda>c. is_alphanumeric c \<or> c = CHR ''_'') (order_field cl) \<or>
        (\<not> is_alphabetic (hd (order_field cl)) \<and> hd (order_field cl) \<noteq> CHR ''_'')
      then Inl (''Invalid field name: '' @ order_field cl)
      else
        (case order_collation cl of
           None \<Rightarrow> Inr ()
         | Some collation \<Rightarrow>
             if collation = [] then Inl ''Collation name cannot be empty''
             else if \<not> list_all collation_char collation then Inl (''Invalid collation name: '' @ collation)
             else Inr ()))"

definition order_to_sql :: "order_by_clause \<Rightarrow> string + string" where
  "order_to_sql cl =
     try_bind (order_validate cl) (\<lambda>_.
       Inr ((case order_source cl of
               JsonbPayload \<Rightarrow> ''(data->'' @ [squote] @ order_field cl @ [squote] @ '')''
             | OrderColumn \<Rightarrow> order_field cl) @
            (case order_collation cl of
               Some collation \<Rightarrow> '' COLLATE '' @ [dquote] @ collation @ [dquote]
             | None \<Rightarrow> []) @
            '' '' @ (case order_direction cl of Asc \<Rightarrow> ''ASC'' | Desc \<Rightarrow> ''DESC'') @
            (case order_nulls cl of
               Some NullsFirst \<Rightarrow> '' NULLS FIRST''
             | Some NullsLast \<Rightarrow> '' NULLS LAST''
             | None \<Rightarrow> [])))"

end
