(* ===== verification/Wire_Operator_Safety.thy ===== *)
theory Wire_Operator_Safety
  imports Wire_Operators
begin

text \<open>
  What the SQL of the wire operators guarantees: the text has exactly the placeholders of the
  values it binds, in order and right behind the caller's counter; it does not depend on the
  bound values; field names and collations are read back from it as they were given. The
  exception is the language of a full-text search, which is neither validated nor escaped.
\<close>

section \<open>Placeholders of a text\<close>

definition is_digit :: "char \<Rightarrow> bool" where
  "is_digit c \<longleftrightarrow> 48 \<le> code c \<and> code c \<le> 57"

text \<open>The numbers that follow the dollar signs of a text, from left to right.\<close>

fun placeholders :: "string \<Rightarrow> nat list" where
  "placeholders [] = []"
| "placeholders (c # s) =
     (if c = CHR ''$'' then parse_nat (takeWhile is_digit s) # placeholders s else placeholders s)"

declare placeholders.simps(2) [simp del]

lemma placeholders_skip [simp]: "c \<noteq> CHR ''$'' \<Longrightarrow> placeholders (c # s) = placeholders s"
  by (simp add: placeholders.simps(2))

lemma placeholders_append:
  "CHR ''$'' \<notin> set s \<Longrightarrow> placeholders (s @ t) = placeholders t"
  by (induction s) auto

lemma placeholders_none: "CHR ''$'' \<notin> set s \<Longrightarrow> placeholders s = []"
  using placeholders_append [of s "[]"] by simp

lemma show_nat_is_digit: "list_all is_digit (show_nat n)"
  using show_nat_digits by (fastforce simp: list_all_iff is_digit_def)

lemma show_nat_no_dollar: "CHR ''$'' \<notin> set (show_nat n)"
  using show_nat_digits [of "CHR ''$''" n] by auto

lemma takeWhile_show_nat:
  "t = [] \<or> \<not> is_digit (hd t) \<Longrightarrow> takeWhile is_digit (show_nat n @ t) = show_nat n"
  using show_nat_is_digit [of n]
  by (cases t) (auto simp: takeWhile_append2 list_all_iff takeWhile_eq_all_conv)

lemma placeholders_param:
  "t = [] \<or> \<not> is_digit (hd t) \<Longrightarrow> placeholders (CHR ''$'' # show_nat n @ t) = n # placeholders t"
  by (simp add: placeholders.simps(2) takeWhile_show_nat parse_show_nat placeholders_append show_nat_no_dollar)

section \<open>What is bound\<close>

text \<open>The values an operator binds, in order.\<close>

fun operands :: "where_operator \<Rightarrow> wvalue list" where
  "operands (Comparison c f v) = (if (c = Eq \<or> c = Neq) \<and> v = VNull then [] else [v])"
| "operands (In f vs) = vs"
| "operands (Nin f vs) = vs"
| "operands (ArrayContains f v) = [v]"
| "operands (ArrayContainedBy f v) = [v]"
| "operands (ArrayOverlaps f vs) = vs"
| "operands (ArrayLength c f n) = []"
| "operands (Text t f s) = [VString (text_param t s)]"
| "operands (IsNull f b) = []"
| "operands (Distance d f v t) = [VFloatArray v]"
| "operands (JaccardDistance f m t) = [VArray (map VString m)]"
| "operands (Search k f q l) = [VString q]"
| "operands (PlainQuery f q) = [VString q]"
| "operands (InetCheck c f) = []"
| "operands (Inet i f s) = [VString s]"
| "operands (StrictlyContains f v) = [v]"
| "operands (Ltree l f s) = [VString s]"
| "operands (MatchesAnyLquery f ps) = map VString ps"
| "operands (Depth c f n) = []"
| "operands (Lca f ps) = map VString ps"

text \<open>Binding a list of values behind a counter.\<close>

fun bind_all :: "wvalue list \<Rightarrow> pstate \<Rightarrow> pstate" where
  "bind_all [] st = st"
| "bind_all (v # vs) (n, ps) = bind_all vs (n + 1, ps(n + 1 \<mapsto> v))"

lemma bind_all_spec:
  "bind_all vs (n, ps) =
     (n + length vs, \<lambda>k. if n < k \<and> k \<le> n + length vs then Some (vs ! (k - n - 1)) else ps k)"
proof (induction vs arbitrary: n ps)
  case (Cons v vs)
  have "(v # vs) ! (k - n - 1) = (if k = n + 1 then v else vs ! (k - (n + 1) - 1))" if "n < k" for k
    using that by (cases "k - n - 1") auto
  then show ?case by (auto simp: Cons.IH fun_eq_iff)
qed (auto simp: fun_eq_iff)

lemma with_one_eq: "with_one v (n, ps) f = (f (CHR ''$'' # show_nat (n + 1)), bind_all [v] (n, ps))"
  by (simp add: with_one_def bind_param_def Let_def)

lemma bind_params_eq:
  "bind_params suffix vs (n, ps) =
     (map (\<lambda>k. CHR ''$'' # show_nat k @ suffix) [n + 1..<n + 1 + length vs], bind_all vs (n, ps))"
proof (induction vs arbitrary: n ps)
  case (Cons v vs)
  have "[n + 1..<n + 1 + length (v # vs)] = (n + 1) # [n + 1 + 1..<n + 1 + 1 + length vs]"
    using upt_conv_Cons [of "n + 1" "n + 1 + length (v # vs)"] by simp
  then show ?case
    unfolding bind_params.simps bind_param_def by (simp add: Cons.IH del: upt_Suc fun_upd_apply)
qed simp

lemma with_many_eq:
  "with_many suffix vs (n, ps) f =
     (f (join '', '' (map (\<lambda>k. CHR ''$'' # show_nat k @ suffix) [n + 1..<n + 1 + length vs])),
      bind_all vs (n, ps))"
  by (simp only: with_many_def bind_params_eq Let_def prod.case)

lemmas bind_eqs = with_one_eq with_many_eq is_null_def

lemma operator_sql_state: "snd (operator_sql sf oper (n, ps)) = bind_all (operands oper) (n, ps)"
  by (cases oper) (simp_all add: bind_eqs del: bind_all.simps, simp_all)

section \<open>Field names\<close>

definition name_char :: "char \<Rightarrow> bool" where
  "name_char c \<longleftrightarrow> is_alphanumeric c \<or> c = CHR ''_''"

lemma valid_field_name_chars: "is_valid_field_name s \<Longrightarrow> list_all name_char s"
  by (auto simp: is_valid_field_name_def name_char_def list_all_iff split: list.splits if_splits)

fun field_names :: "field \<Rightarrow> string list" where
  "field_names (JsonbField name) = [name]"
| "field_names (DirectColumn name) = [name]"
| "field_names (JsonbPath path) = path"

lemma validate_path_iff: "validate_path path = Inr () \<longleftrightarrow> (\<forall>s \<in> set path. is_valid_field_name s)"
  by (induction path) auto

lemma field_validate_iff: "field_validate f = Inr () \<longleftrightarrow> (\<forall>s \<in> set (field_names f). is_valid_field_name s)"
  by (cases f) (simp_all add: validate_path_iff)

lemma generate_eq_Inr:
  "generate_where_operator_sql sf oper st = Inr r \<longleftrightarrow>
     field_validate (op_field oper) = Inr () \<and> (\<forall>t. op_threshold oper = Some t \<longrightarrow> is_finite t) \<and>
     r = operator_sql sf oper st"
  by (auto simp: generate_where_operator_sql_def operator_validate_def split: sum.splits option.splits if_splits)

lemma name_char_no_special: "list_all name_char s \<Longrightarrow> CHR ''$'' \<notin> set s \<and> squote \<notin> set s"
  by (auto simp: list_all_iff name_char_def char_class_defs)

lemma path_sql_no_dollar: "\<forall>s \<in> set path. CHR ''$'' \<notin> set s \<Longrightarrow> CHR ''$'' \<notin> set (path_sql path)"
  by (induction path rule: path_sql.induct) auto

lemma field_sql_no_dollar:
  assumes "field_validate f = Inr ()"
  shows "CHR ''$'' \<notin> set (field_to_sql f)"
proof -
  have "\<forall>s \<in> set (field_names f). CHR ''$'' \<notin> set s"
    using assms valid_field_name_chars name_char_no_special by (auto simp: field_validate_iff)
  then show ?thesis by (cases f) (auto simp: path_sql_no_dollar)
qed

lemma placeholders_join:
  assumes "CHR ''$'' \<notin> set suffix" "suffix = [] \<or> \<not> is_digit (hd suffix)" "t = [] \<or> \<not> is_digit (hd t)"
  shows "placeholders (join '', '' (map (\<lambda>k. CHR ''$'' # show_nat k @ suffix) ks) @ t) = ks @ placeholders t"
proof (induction ks)
  case (Cons k ks)
  let ?r = "(if ks = [] then [] else '', '' @ join '', '' (map (\<lambda>k. CHR ''$'' # show_nat k @ suffix) ks)) @ t"
  have "suffix @ ?r = [] \<or> \<not> is_digit (hd (suffix @ ?r))"
    using assms(2,3) by (auto simp: is_digit_def hd_append)
  then have "placeholders (CHR ''$'' # show_nat k @ suffix @ ?r) = k # placeholders (suffix @ ?r)"
    by (rule placeholders_param)
  also have "placeholders (suffix @ ?r) = placeholders ?r" using assms(1) by (rule placeholders_append)
  finally show ?case using Cons by (auto simp: join_Cons)
qed simp

lemmas placeholders_join_plain = placeholders_join [of "[]", simplified]

section \<open>The SQL text\<close>

definition op_language :: "where_operator \<Rightarrow> string option" where
  "op_language oper = (case oper of Search _ _ _ l \<Rightarrow> l | _ \<Rightarrow> None)"

lemmas render_defs = text_sql_def anywhere_def distance_sql_def search_function_def inet_check_sql_def
  private_ranges_def within_def inet_sql_def ltree_sql_def comparison_sql_def length_sql_def depth_sql_def

lemma field_cast_no_dollar: "CHR ''$'' \<notin> set (field_cast f v)"
  by (cases v) (simp_all add: field_cast_def split: field.splits)

lemma placeholders_last: "placeholders (CHR ''$'' # show_nat n) = [n]"
  using placeholders_param [of "[]" n] by simp

lemma upt_one: "[k..<Suc k] = [k]"
  by simp

lemma operator_sql_placeholders:
  assumes field: "CHR ''$'' \<notin> set (field_to_sql (op_field oper))"
    and lang: "\<forall>l. op_language oper = Some l \<longrightarrow> CHR ''$'' \<notin> set l"
    and show_f: "\<forall>t. CHR ''$'' \<notin> set (sf t)"
  shows "placeholders (fst (operator_sql sf oper (n, ps))) = [n + 1..<n + 1 + length (operands oper)]"
proof -
  note [simp] = bind_eqs placeholders_append placeholders_param placeholders_last placeholders_join
    placeholders_none show_nat_no_dollar field_cast_no_dollar show_f [rule_format] is_digit_def upt_one
  note [simp del] = bind_all.simps upt_Suc field_to_sql.simps
  show ?thesis
  proof (cases oper)
    case (Comparison c f v)
    then show ?thesis using field by (cases c) (simp_all add: render_defs)
  next
    case (Search k f q l)
    then show ?thesis
      using field lang by (cases k; cases l) (simp_all add: render_defs op_language_def)
  next
    case (Text t f s)
    then show ?thesis using field by (cases t) (simp_all add: render_defs)
  next
    case (Distance d f v t)
    then show ?thesis using field by (cases d) (simp_all add: render_defs)
  next
    case (InetCheck c f)
    then show ?thesis using field by (cases c) (simp_all add: render_defs)
  next
    case (Inet i f s)
    then show ?thesis using field by (cases i) (simp_all add: render_defs)
  next
    case (Ltree l f s)
    then show ?thesis using field by (cases l) (simp_all add: render_defs)
  next
    case (Depth c f n)
    then show ?thesis using field by (cases c) (simp_all add: render_defs)
  next
    case (ArrayLength c f n)
    then show ?thesis using field by (cases c) (simp_all add: render_defs)
  qed (use field in \<open>simp_all add: placeholders_join_plain\<close>)
qed

text \<open>
  Parameter binding of the wire operators: generating an accepted operator advances the
  caller's counter by the number of values it binds, binds exactly the numbers behind the old
  counter, in order, to those values, leaves every other binding alone, and the placeholders of
  the SQL text are exactly these numbers in ascending order. (The language of a text search and
  the rendering of a threshold must not bring dollar signs of their own.)
\<close>

theorem wire_placeholders:
  assumes "generate_where_operator_sql sf oper (n, ps) = Inr (sql, n', ps')"
    and "\<forall>l. op_language oper = Some l \<longrightarrow> CHR ''$'' \<notin> set l" and "\<forall>t. CHR ''$'' \<notin> set (sf t)"
  shows "n' = n + length (operands oper) \<and> placeholders sql = [n + 1..<n' + 1] \<and>
    ps' = (\<lambda>k. if n < k \<and> k \<le> n' then Some (operands oper ! (k - n - 1)) else ps k)"
proof -
  have ok: "field_validate (op_field oper) = Inr ()" "operator_sql sf oper (n, ps) = (sql, n', ps')"
    using assms(1) by (auto simp: generate_eq_Inr)
  have "(n', ps') = bind_all (operands oper) (n, ps)"
    using operator_sql_state [of sf oper n ps] ok(2) by simp
  moreover have "placeholders sql = [n + 1..<n + 1 + length (operands oper)]"
    using operator_sql_placeholders [OF field_sql_no_dollar [OF ok(1)] assms(2,3), of n ps] ok(2)
    by (simp only: fst_conv)
  ultimately show ?thesis by (simp add: bind_all_spec)
qed

theorem wire_placeholders_witness:
  "placeholders ''price IN ($4, $5)'' = [4..<6] \<and>
   generate_where_operator_sql (\<lambda>_. ''0.5'') (In (DirectColumn ''price'') [VNumber 1, VNull]) (3, Map.empty) =
     Inr (''price IN ($4, $5)'', 5, [4 \<mapsto> VNumber 1, 5 \<mapsto> VNull])"
proof -
  have digits: "show_nat 4 = ''4''" "show_nat 5 = ''5''" by code_simp+
  have gen: "generate_where_operator_sql (\<lambda>_. ''0.5'') (In (DirectColumn ''price'') [VNumber 1, VNull]) (3, Map.empty) =
     Inr (''price IN ($4, $5)'', 5, [4 \<mapsto> VNumber 1, 5 \<mapsto> VNull])"
    by (simp add: generate_where_operator_sql_def operator_validate_def op_threshold_def is_valid_field_name_def
        char_class_defs with_many_def bind_param_def digits)
  from wire_placeholders [OF this] gen show ?thesis by (simp add: op_language_def)
qed

section \<open>The text does not depend on the values\<close>

definition erase_wvalue :: "wvalue \<Rightarrow> wvalue" where
  "erase_wvalue v = (case v of
     VString _ \<Rightarrow> VString [] | VNumber _ \<Rightarrow> VNumber 0 | VBool _ \<Rightarrow> VBool False | VNull \<Rightarrow> VNull
   | VArray _ \<Rightarrow> VArray [] | VFloatArray _ \<Rightarrow> VFloatArray [] | VRawSql _ \<Rightarrow> VRawSql [])"

fun erase_operator :: "where_operator \<Rightarrow> where_operator" where
  "erase_operator (Comparison c f v) = Comparison c f (erase_wvalue v)"
| "erase_operator (In f vs) = In f (map (\<lambda>_. VNull) vs)"
| "erase_operator (Nin f vs) = Nin f (map (\<lambda>_. VNull) vs)"
| "erase_operator (ArrayContains f v) = ArrayContains f VNull"
| "erase_operator (ArrayContainedBy f v) = ArrayContainedBy f VNull"
| "erase_operator (ArrayOverlaps f vs) = ArrayOverlaps f (map (\<lambda>_. VNull) vs)"
| "erase_operator (Text t f s) = Text t f []"
| "erase_operator (Distance d f v t) = Distance d f [] t"
| "erase_operator (JaccardDistance f m t) = JaccardDistance f [] t"
| "erase_operator (Search k f q l) = Search k f [] l"
| "erase_operator (PlainQuery f q) = PlainQuery f []"
| "erase_operator (Inet i f s) = Inet i f []"
| "erase_operator (StrictlyContains f v) = StrictlyContains f VNull"
| "erase_operator (Ltree l f s) = Ltree l f []"
| "erase_operator (MatchesAnyLquery f ps) = MatchesAnyLquery f (map (\<lambda>_. []) ps)"
| "erase_operator (Lca f ps) = Lca f (map (\<lambda>_. []) ps)"
| "erase_operator oper = oper"

lemma erase_wvalue_cast: "field_cast f (erase_wvalue v) = field_cast f v" "erase_wvalue v = VNull \<longleftrightarrow> v = VNull"
  by (cases v; simp add: erase_wvalue_def field_cast_def split: field.splits)+

lemma operator_sql_erase:
  "fst (operator_sql sf oper (n, ps)) = fst (operator_sql sf (erase_operator oper) (n, qs))"
  by (cases oper) (simp_all add: bind_eqs erase_wvalue_cast del: bind_all.simps upt_Suc)

text \<open>
  Injection safety of the wire operators: two accepted operators that differ only in bound
  values, even raw SQL values, have the same SQL text at the same counter. Only the field, the
  kind and number of the values, a threshold, a length or depth, and the language of a text
  search reach the text.
\<close>

theorem wire_sql_value_independent:
  assumes "generate_where_operator_sql sf oper (n, ps) = Inr (sql, st)"
    and "generate_where_operator_sql sf oper' (n, qs) = Inr (sql', st')"
    and "erase_operator oper = erase_operator oper'"
  shows "sql = sql'"
  using assms operator_sql_erase [of sf oper n ps undefined] operator_sql_erase [of sf oper' n qs undefined]
  by (metis fst_conv generate_eq_Inr)

theorem wire_sql_value_independent_witness:
  "fst (operator_sql (\<lambda>_. []) (PlainQuery (DirectColumn ''body'') ''a'') (0, Map.empty)) =
   fst (operator_sql (\<lambda>_. []) (PlainQuery (DirectColumn ''body'') ''b'') (0, Map.empty))"
proof -
  have "generate_where_operator_sql (\<lambda>_. []) (PlainQuery (DirectColumn ''body'') q) (0, Map.empty) =
    Inr (operator_sql (\<lambda>_. []) (PlainQuery (DirectColumn ''body'') q) (0, Map.empty))" for q
    by (simp add: generate_where_operator_sql_def operator_validate_def op_threshold_def is_valid_field_name_def
        char_class_defs)
  then show ?thesis
    by (intro wire_sql_value_independent [of "\<lambda>_. []" "PlainQuery (DirectColumn ''body'') ''a''" 0 Map.empty _
          "snd (operator_sql (\<lambda>_. []) (PlainQuery (DirectColumn ''body'') ''a'') (0, Map.empty))"
          "PlainQuery (DirectColumn ''body'') ''b''" Map.empty _
          "snd (operator_sql (\<lambda>_. []) (PlainQuery (DirectColumn ''body'') ''b'') (0, Map.empty))"])
      (simp_all del: operator_sql.simps)
qed

section \<open>Names are read back\<close>

lemma scan_quoted_plain:
  "squote \<notin> set s \<Longrightarrow> \<forall>r. rest \<noteq> squote # r \<Longrightarrow>
     scan_quoted squote squote ([squote] @ s @ [squote] @ rest) = Some (s, rest)"
  using scan_quoted_quote_with [of rest squote squote s] by (simp add: quote_with_def replace_char_id)

lemma scan_quoted_plain_dquote:
  "dquote \<notin> set s \<Longrightarrow> \<forall>r. rest \<noteq> dquote # r \<Longrightarrow>
     scan_quoted dquote dquote ([dquote] @ s @ [dquote] @ rest) = Some (s, rest)"
  using scan_quoted_quote_with [of rest dquote dquote s] by (simp add: quote_with_def replace_char_id)

lemma path_sql_head: "\<forall>r. path_sql path \<noteq> squote # r"
  by (induction path rule: path_sql.induct) auto

lemma scan_path_sql:
  "path \<noteq> [] \<Longrightarrow> \<forall>s \<in> set path. squote \<notin> set s \<Longrightarrow> scan_path (length path) (path_sql path) = Some path"
proof (induction path rule: path_sql.induct)
  case (2 s)
  then show ?case using scan_quoted_plain [of s "[]"] by simp
next
  case (3 s p path)
  then show ?case
    using scan_quoted_plain [of s "path_sql (p # path)"] path_sql_head [of "p # path"] by simp
qed simp

lemma valid_name_no_quote: "is_valid_field_name s \<Longrightarrow> squote \<notin> set s"
  using valid_field_name_chars name_char_no_special by blast

text \<open>
  Field names in SQL: an accepted JSON path is rendered as the data column and path operators
  from which the database reads back exactly the segments of the path, and an accepted ORDER BY
  clause with a collation contains it as one quoted identifier that is read back unchanged and
  followed only by the direction and the handling of nulls.
\<close>

theorem wire_names_read_back:
  "(field_validate (JsonbPath path) = Inr () \<and> path \<noteq> [] \<longrightarrow>
     (\<exists>ops. field_to_sql (JsonbPath path) = ''(data'' @ ops @ '')'' \<and> scan_path (length path) ops = Some path)) \<and>
   (order_to_sql cl = Inr sql \<and> order_collation cl = Some coll \<longrightarrow>
     (\<exists>pre rest. sql = pre @ '' COLLATE '' @ rest \<and>
        scan_quoted dquote dquote rest =
          Some (coll, '' '' @ (case order_direction cl of Asc \<Rightarrow> ''ASC'' | Desc \<Rightarrow> ''DESC'') @
            (case order_nulls cl of Some NullsFirst \<Rightarrow> '' NULLS FIRST'' | Some NullsLast \<Rightarrow> '' NULLS LAST'' | None \<Rightarrow> []))))"
proof (intro conjI impI)
  assume "field_validate (JsonbPath path) = Inr () \<and> path \<noteq> []"
  then show "\<exists>ops. field_to_sql (JsonbPath path) = ''(data'' @ ops @ '')'' \<and> scan_path (length path) ops = Some path"
    using scan_path_sql [of path] valid_name_no_quote by (auto simp: validate_path_iff)
next
  let ?tail = "'' '' @ (case order_direction cl of Asc \<Rightarrow> ''ASC'' | Desc \<Rightarrow> ''DESC'') @
    (case order_nulls cl of Some NullsFirst \<Rightarrow> '' NULLS FIRST'' | Some NullsLast \<Rightarrow> '' NULLS LAST'' | None \<Rightarrow> [])"
  assume *: "order_to_sql cl = Inr sql \<and> order_collation cl = Some coll"
  then have "order_validate cl = Inr ()" by (auto simp: order_to_sql_def try_bind_eq_Inr)
  then have "list_all collation_char coll"
    using * by (auto simp: order_validate_def split: if_splits option.splits)
  then have "dquote \<notin> set coll" by (auto simp: list_all_iff collation_char_def char_class_defs)
  then have "scan_quoted dquote dquote ([dquote] @ coll @ [dquote] @ ?tail) = Some (coll, ?tail)"
    by (intro scan_quoted_plain_dquote) simp_all
  moreover obtain pre where "sql = pre @ '' COLLATE '' @ [dquote] @ coll @ [dquote] @ ?tail"
    using * by (auto simp: order_to_sql_def try_bind_eq_Inr)
  ultimately show "\<exists>pre rest. sql = pre @ '' COLLATE '' @ rest \<and> scan_quoted dquote dquote rest = Some (coll, ?tail)"
    by blast
qed

theorem wire_names_read_back_witness:
  "(\<exists>ops. field_to_sql (JsonbPath [''user'', ''name'']) = ''(data'' @ ops @ '')'' \<and>
     scan_path (length [''user'', ''name'']) ops = Some [''user'', ''name''])"
  using wire_names_read_back [of "[''user'', ''name'']"]
  by (simp add: is_valid_field_name_def char_class_defs del: field_to_sql.simps scan_path.simps)

text \<open>
  The language of a full-text search is written into the SQL between quotes as it is. A
  language with a quote ends the literal early: the operator passes validation, the database
  reads \<open>english\<close> as the language and the rest of the text as SQL.
\<close>

theorem wire_language_injected:
  "\<exists>st. generate_where_operator_sql sf
     (Search Matches (DirectColumn ''body'') ''x'' (Some (''english'' @ [squote] @ '', $1) OR TRUE --''))) (0, Map.empty) =
   Inr (''body @@ plainto_tsquery('' @ ([squote] @ ''english'' @ [squote] @ '', $1) OR TRUE --'' @ [squote] @ '', $1)''), st) \<and>
   scan_quoted squote squote ([squote] @ ''english'' @ [squote] @ '', $1) OR TRUE --'' @ [squote] @ '', $1)'') =
     Some (''english'', '', $1) OR TRUE --'' @ [squote] @ '', $1)'')"
proof -
  have "show_nat (Suc 0) = ''1''" by code_simp
  then show ?thesis
    by (simp add: generate_where_operator_sql_def operator_validate_def op_threshold_def is_valid_field_name_def
        char_class_defs with_one_def bind_param_def search_function_def scan_quoted_def)
qed

lemma wire_escape_like_eq: "wire_escape_like = escape_like_literal"
  by (simp add: fun_eq_iff wire_escape_like_def escape_like_literal_def)

text \<open>
  The substring operators escape the text themselves: the pattern the database matches holds
  of exactly the strings that contain, start with or end with the given text. A caller who
  escapes wildcards beforehand therefore matches the wrong strings: for \<open>50%\<close> escaped by the
  caller, the text \<open>50%\<close> is not found.
\<close>

theorem wire_substring_operators:
  "(\<exists>p. operands (Text Contains f s) = [VString p] \<and>
     (\<forall>t. like_match (''%'' @ p @ ''%'') t \<longleftrightarrow> (\<exists>u v. t = u @ s @ v))) \<and>
   (\<exists>p. operands (Text Startswith f s) = [VString p] \<and> (\<forall>t. like_match p t \<longleftrightarrow> (\<exists>v. t = s @ v))) \<and>
   (\<exists>p. operands (Text Endswith f s) = [VString p] \<and> (\<forall>t. like_match p t \<longleftrightarrow> (\<exists>u. t = u @ s))) \<and>
   (\<exists>p. operands (Text Contains f (wire_escape_like ''50%'')) = [VString p] \<and> \<not> like_match (''%'' @ p @ ''%'') ''50%'')"
proof -
  have within: "like_match (''%'' @ wire_escape_like s @ ''%'') t \<longleftrightarrow> (\<exists>u v. t = u @ s @ v)" for s t
    by (auto simp: wire_escape_like_eq like_percent like_escape_append like_percent_only)
  have double: "\<not> like_match (''%'' @ wire_escape_like (wire_escape_like ''50%'') @ ''%'') ''50%''"
  proof
    assume "like_match (''%'' @ wire_escape_like (wire_escape_like ''50%'') @ ''%'') ''50%''"
    then obtain u v where "''50%'' = u @ wire_escape_like ''50%'' @ v" unfolding within by blast
    then have "length ''50%'' = length (u @ wire_escape_like ''50%'' @ v)" by (rule arg_cong)
    then show False by (simp add: wire_escape_like_def)
  qed
  show ?thesis
    using within [of s] double like_escape_append [of s "[]"]
    by (simp add: text_param_def wire_escape_like_eq like_escape_append like_percent_only like_percent)
qed

end
