(* ===== verification/Order_By.thy ===== *)
theory Order_By
  imports Where_Clause
begin

text \<open>
  ORDER BY clauses of the query executor: the data and the parser from GraphQL input of
  \<open>fraiseql-db/src/types/sql_hints.rs\<close>, the part of the schema that describes fields
  (\<open>fraiseql-core/src/schema/field_type.rs\<close>, \<open>graphql_type_defs.rs\<close>), and how the executor adds
  field types and native columns to a parsed clause
  (\<open>fraiseql-core/src/runtime/executor/query.rs\<close>).
\<close>

section \<open>Fields of the schema\<close>

datatype field_type =
    FT_String | FT_Int | FT_Float | FT_Boolean | FT_Id | FT_DateTime | FT_Date | FT_Time | FT_Json
  | FT_Uuid | FT_Decimal | FT_Vector | FT_Scalar string | FT_List field_type | FT_Object string
  | FT_Enum string | FT_Input string | FT_Interface string | FT_Union string

datatype field_deny_policy = Reject | Mask

record field_definition =
  field_name :: string
  fd_field_type :: field_type
  field_alias :: "string option"
  requires_scope :: "string option"
  on_deny :: field_deny_policy

definition output_name :: "field_definition \<Rightarrow> string" where
  "output_name f = (case field_alias f of Some a \<Rightarrow> a | None \<Rightarrow> field_name f)"

datatype cardinality = OneToMany | ManyToOne | OneToOne

record relationship =
  rel_name :: string
  target_type :: string
  rel_cardinality :: cardinality
  foreign_key :: string
  referenced_key :: string

record type_definition =
  type_name :: string
  type_fields :: "field_definition list"
  relationships :: "relationship list"
  type_sql_source :: string
  is_error :: bool

definition find_field :: "type_definition \<Rightarrow> string \<Rightarrow> field_definition option" where
  "find_field td name = find (\<lambda>f. field_name f = name) (type_fields td)"

definition find_field_by_output_name :: "type_definition \<Rightarrow> string \<Rightarrow> field_definition option" where
  "find_field_by_output_name td name = find (\<lambda>f. output_name f = name) (type_fields td)"

definition searchable_fields :: "type_definition \<Rightarrow> field_definition list" where
  "searchable_fields td = filter (\<lambda>f. fd_field_type f = FT_String) (type_fields td)"

section \<open>Clauses\<close>

datatype order_by_field_type =
  OB_Text | OB_Integer | OB_Numeric | OB_Boolean | OB_DateTime | OB_Date | OB_Time

datatype order_direction = Asc | Desc

definition as_sql :: "order_direction \<Rightarrow> string" where
  "as_sql d = (case d of Asc \<Rightarrow> ''ASC'' | Desc \<Rightarrow> ''DESC'')"

record order_by_clause =
  order_field :: string
  direction :: order_direction
  order_field_type :: order_by_field_type
  native_column :: "string option"

definition order_by_new :: "string \<Rightarrow> order_direction \<Rightarrow> order_by_clause" where
  "order_by_new f d = \<lparr>order_field = f, direction = d, order_field_type = OB_Text, native_column = None\<rparr>"

definition storage_key :: "order_by_clause \<Rightarrow> string" where
  "storage_key c = to_snake_case (order_field c)"

definition is_ascii_letter :: "char \<Rightarrow> bool" where
  "is_ascii_letter c \<longleftrightarrow> (65 \<le> code c \<and> code c \<le> 90) \<or> (97 \<le> code c \<and> code c \<le> 122)"

definition is_ascii_alnum :: "char \<Rightarrow> bool" where
  "is_ascii_alnum c \<longleftrightarrow> is_ascii_letter c \<or> (48 \<le> code c \<and> code c \<le> 57)"

definition validate_order_field_name :: "string \<Rightarrow> db_error + unit" where
  "validate_order_field_name field =
     (let first_ok = (case field of [] \<Rightarrow> False | c # _ \<Rightarrow> is_ascii_letter c \<or> c = CHR ''_'');
          rest_ok = list_all (\<lambda>c. is_ascii_alnum c \<or> c = CHR ''_'') (tl field)
      in if first_ok \<and> rest_ok then Inr ()
         else Inl (Validation (''orderBy field name '' @ [squote] @ field @ [squote] @
           '' contains invalid characters; only [_A-Za-z][_0-9A-Za-z]* is allowed'')))"

definition to_ascii_uppercase :: "string \<Rightarrow> string" where
  "to_ascii_uppercase s = map (\<lambda>c. if 97 \<le> code c \<and> code c \<le> 122 then char_of (code c - 32) else c) s"

definition parse_direction :: "string \<Rightarrow> db_error + order_direction" where
  "parse_direction dir_str =
     (if to_ascii_uppercase dir_str = ''ASC'' then Inr Asc
      else if to_ascii_uppercase dir_str = ''DESC'' then Inr Desc
      else Inl (Validation (''orderBy direction '' @ [squote] @ dir_str @ [squote] @ '' must be ASC or DESC'')))"

definition order_entry :: "string \<times> json \<Rightarrow> db_error + order_by_clause" where
  "order_entry e =
     (case e of (field, dir_val) \<Rightarrow>
        (case as_str dir_val of
           None \<Rightarrow> Inl (Validation (''orderBy direction for '' @ [squote] @ field @ [squote] @ '' must be a string''))
         | Some dir_str \<Rightarrow>
             try_bind (parse_direction dir_str) (\<lambda>d.
             try_bind (validate_order_field_name field) (\<lambda>_. Inr (order_by_new field d)))))"

definition order_item :: "json \<Rightarrow> db_error + order_by_clause" where
  "order_item item =
     (case item of
        JObject obj \<Rightarrow>
          (case Option.bind (map_of obj ''field'') as_str of
             None \<Rightarrow> Inl (Validation (''orderBy item missing '' @ [squote] @ ''field'' @ [squote] @ '' string''))
           | Some field \<Rightarrow>
               let dir_str = (case Option.bind (map_of obj ''direction'') as_str of Some s \<Rightarrow> s | None \<Rightarrow> ''ASC'') in
               try_bind (parse_direction dir_str) (\<lambda>d.
               try_bind (validate_order_field_name field) (\<lambda>_. Inr (order_by_new field d))))
      | _ \<Rightarrow> Inl (Validation ''orderBy array items must be objects''))"

definition order_by_from_graphql_json :: "json \<Rightarrow> db_error + order_by_clause list" where
  "order_by_from_graphql_json value =
     (case value of
        JObject obj \<Rightarrow> collect_results order_entry obj
      | JArray arr \<Rightarrow> collect_results order_item arr
      | _ \<Rightarrow> Inl (Validation ''orderBy must be an object or array''))"

section \<open>What the executor adds\<close>

definition field_type_to_order_by_type :: "field_type \<Rightarrow> order_by_field_type" where
  "field_type_to_order_by_type ft =
     (case ft of
        FT_Int \<Rightarrow> OB_Integer | FT_Float \<Rightarrow> OB_Numeric | FT_Decimal \<Rightarrow> OB_Numeric | FT_Boolean \<Rightarrow> OB_Boolean
      | FT_DateTime \<Rightarrow> OB_DateTime | FT_Date \<Rightarrow> OB_Date | FT_Time \<Rightarrow> OB_Time | _ \<Rightarrow> OB_Text)"

definition find_type :: "type_definition list \<Rightarrow> string \<Rightarrow> type_definition option" where
  "find_type types name = find (\<lambda>t. type_name t = name) types"

definition enrich_order_by_clause ::
  "type_definition option \<Rightarrow> (string \<rightharpoonup> string) \<Rightarrow> order_by_clause \<Rightarrow> order_by_clause" where
  "enrich_order_by_clause type_def native_columns clause =
     (let clause1 =
            (case type_def of
               Some td \<Rightarrow>
                 (case find_field td (order_field clause) of
                    Some fd \<Rightarrow> clause\<lparr>order_field_type := field_type_to_order_by_type (fd_field_type fd)\<rparr>
                  | None \<Rightarrow> clause)
             | None \<Rightarrow> clause);
          key = storage_key clause1
      in if native_columns key \<noteq> None then clause1\<lparr>native_column := Some key\<rparr> else clause1)"

definition enrich_order_by_clauses ::
  "order_by_clause list \<Rightarrow> type_definition list \<Rightarrow> string \<Rightarrow> (string \<rightharpoonup> string) \<Rightarrow> order_by_clause list" where
  "enrich_order_by_clauses clauses types return_type native_columns =
     map (enrich_order_by_clause (find_type types return_type) native_columns) clauses"

end
