(* ===== verification/Executor.thy ===== *)
theory Executor
  imports Order_By
begin

text \<open>
  The query executor (\<open>fraiseql-core/src/runtime/executor/query.rs\<close>, \<open>mod.rs\<close>): from a matched
  query to the call of the database adapter. Each entry point is a function to the first error
  or to the call it makes.

  \<^item> The matched query is an argument. The schema's types are a list; \<open>HashMap\<close>s are maps;
    \<open>IndexMap\<close>s are lists of pairs in their order.
  \<^item> The row-level security policy is a trait object in the source: here an argument, a function
    from the security context and the query's name to an optional clause or an error.
  \<^item> The clock of the token check is the argument \<open>now\<close>.
  \<^item> Not part of the model: the projection hint, the session variables set before a query, the
    response cache (taken as disabled) and the projection of the rows.
\<close>

section \<open>Queries and callers\<close>

datatype injected_param_source = Jwt string

datatype cursor_type = CursorInt64 | CursorUuid

record auto_params =
  has_where :: bool
  has_order_by :: bool
  has_limit :: bool
  has_offset :: bool

record query_definition =
  query_name :: string
  return_type :: string
  returns_list :: bool
  query_arguments :: "(string \<times> field_type) list"
  sql_source :: "string option"
  query_auto_params :: auto_params
  relay :: bool
  relay_cursor_column :: "string option"
  relay_cursor_type :: cursor_type
  inject_params :: "(string \<times> injected_param_source) list"
  requires_role :: "string option"
  native_columns :: "string \<rightharpoonup> string"
  query_rest_path :: "string option"
  query_rest_method :: "string option"
  cache_ttl_seconds :: "nat option"

record query_match =
  query_def :: query_definition
  match_arguments :: "string \<rightharpoonup> json"

record security_context =
  user_id :: string
  roles :: "string list"
  tenant_id :: "string option"
  scopes :: "string list"
  attributes :: "string \<rightharpoonup> json"
  expires_at :: int

definition is_expired :: "int \<Rightarrow> security_context \<Rightarrow> bool" where
  "is_expired now ctx \<longleftrightarrow> expires_at ctx \<le> now"

type_synonym rls_policy = "security_context \<Rightarrow> string \<Rightarrow> db_error + where_clause option"

section \<open>Injected parameters\<close>

definition resolve_inject_value ::
  "string \<Rightarrow> injected_param_source \<Rightarrow> security_context \<Rightarrow> db_error + json" where
  "resolve_inject_value param_name source ctx =
     (case source of Jwt claim \<Rightarrow>
        (case (if claim = ''sub'' then Some (JString (user_id ctx))
               else if claim = ''tenant_id'' \<or> claim = ''org_id'' then map_option JString (tenant_id ctx)
               else attributes ctx claim) of
           Some v \<Rightarrow> Inr v
         | None \<Rightarrow> Inl (Validation (''Inject param '' @ [squote] @ param_name @ [squote] @ '': JWT claim '' @
             [squote] @ claim @ [squote] @ '' not present in token''))))"

definition pg_type_to_cast :: "string \<Rightarrow> string" where
  "pg_type_to_cast data_type =
     (let t = to_lowercase data_type in
      if t = ''uuid'' then ''uuid''
      else if t \<in> {''integer'', ''int'', ''int4''} then ''int4''
      else if t \<in> {''bigint'', ''int8''} then ''int8''
      else if t \<in> {''smallint'', ''int2''} then ''int2''
      else if t \<in> {''boolean'', ''bool''} then ''bool''
      else if t \<in> {''numeric'', ''decimal''} then ''numeric''
      else if t \<in> {''double precision'', ''float8''} then ''float8''
      else if t \<in> {''real'', ''float4''} then ''float4''
      else if t \<in> {''timestamp without time zone'', ''timestamp''} then ''timestamp''
      else if t \<in> {''timestamp with time zone'', ''timestamptz''} then ''timestamptz''
      else if t = ''date'' then ''date''
      else if t \<in> {''time without time zone'', ''time''} then ''time''
      else [])"

definition inject_param_where_clause :: "string \<Rightarrow> json \<Rightarrow> (string \<rightharpoonup> string) \<Rightarrow> where_clause" where
  "inject_param_where_clause col v native =
     (case native col of
        Some pg_type \<Rightarrow> NativeField col (pg_type_to_cast pg_type) Eq v
      | None \<Rightarrow> Field [col] Eq v)"

text \<open>The condition of every injected parameter; the first claim that is missing is the error.\<close>

definition inject_conditions :: "query_definition \<Rightarrow> security_context \<Rightarrow> db_error + where_clause list" where
  "inject_conditions q ctx =
     collect_results (\<lambda>(col, source).
       try_bind (resolve_inject_value col source ctx) (\<lambda>v.
         Inr (inject_param_where_clause col v (native_columns q)))) (inject_params q)"

definition and_all :: "where_clause list \<Rightarrow> where_clause option" where
  "and_all conditions = (case conditions of [] \<Rightarrow> None | [c] \<Rightarrow> Some c | _ \<Rightarrow> Some (WhereAnd conditions))"

text \<open>The policy's clause in front of the injected conditions.\<close>

definition with_rls :: "where_clause option \<Rightarrow> where_clause list \<Rightarrow> where_clause option" where
  "with_rls rls conditions = and_all (case rls of Some c \<Rightarrow> c # conditions | None \<Rightarrow> conditions)"

definition security_where ::
  "query_definition \<Rightarrow> where_clause option \<Rightarrow> string \<Rightarrow> security_context option \<Rightarrow> db_error + where_clause option" where
  "security_where q rls missing ctx =
     (if inject_params q = [] then Inr rls
      else
        (case ctx of
           None \<Rightarrow> Inl (Validation (''Query '' @ [squote] @ query_name q @ [squote] @ missing))
         | Some c \<Rightarrow> try_bind (inject_conditions q c) (\<lambda>conditions. Inr (with_rls rls conditions))))"

section \<open>Arguments\<close>

definition AUTO_PARAM_NAMES :: "string list" where
  "AUTO_PARAM_NAMES = [''where'', ''limit'', ''offset'', ''orderBy'', ''first'', ''last'', ''after'', ''before'']"

text \<open>The parsed \<open>where\<close> argument, when the query takes one.\<close>

definition user_where :: "query_definition \<Rightarrow> (string \<rightharpoonup> json) \<Rightarrow> db_error + where_clause option" where
  "user_where q args =
     (if has_where (query_auto_params q) then
        (case args ''where'' of
           None \<Rightarrow> Inr None
         | Some v \<Rightarrow> try_bind (from_graphql_json v) (\<lambda>c. Inr (Some c)))
      else Inr None)"

definition compose_where :: "where_clause option \<Rightarrow> where_clause option \<Rightarrow> where_clause option" where
  "compose_where sec user =
     (case (sec, user) of
        (None, None) \<Rightarrow> None
      | (Some s, None) \<Rightarrow> Some s
      | (None, Some u) \<Rightarrow> Some u
      | (Some s, Some u) \<Rightarrow> Some (WhereAnd [s, u]))"

definition explicit_conditions ::
  "(string \<times> field_type) list \<Rightarrow> (string \<rightharpoonup> json) \<Rightarrow> (string \<rightharpoonup> string) \<Rightarrow> where_clause list" where
  "explicit_conditions defined args native =
     List.map_filter (\<lambda>name. map_option (\<lambda>v. inject_param_where_clause name v native) (args name))
       (filter (\<lambda>name. name \<notin> set AUTO_PARAM_NAMES) (map fst defined))"

definition combine_explicit_arg_where ::
  "where_clause option \<Rightarrow> (string \<times> field_type) list \<Rightarrow> (string \<rightharpoonup> json) \<Rightarrow> (string \<rightharpoonup> string) \<Rightarrow> where_clause option" where
  "combine_explicit_arg_where existing defined args native =
     (let explicit = explicit_conditions defined args native in
      if explicit = [] then existing
      else and_all ((case existing of Some prev \<Rightarrow> [prev] | None \<Rightarrow> []) @ explicit))"

text \<open>\<open>v.as_u64()\<close> and \<open>u32::try_from(v).ok()\<close> on an argument.\<close>

definition arg_u32 :: "(string \<rightharpoonup> json) \<Rightarrow> string \<Rightarrow> nat option" where
  "arg_u32 args name =
     (case Option.bind (args name) as_u64 of
        Some n \<Rightarrow> if n < 2 ^ 32 then Some n else None
      | None \<Rightarrow> None)"

definition order_by_argument ::
  "type_definition list \<Rightarrow> query_definition \<Rightarrow> (string \<rightharpoonup> json) \<Rightarrow> db_error + order_by_clause list option" where
  "order_by_argument types q args =
     (case args ''orderBy'' of
        None \<Rightarrow> Inr None
      | Some v \<Rightarrow>
          try_bind (order_by_from_graphql_json v) (\<lambda>clauses.
            Inr (Some (enrich_order_by_clauses clauses types (return_type q) (native_columns q)))))"

section \<open>Entry points\<close>

text \<open>What the executor asks of the adapter.\<close>

record adapter_query =
  source :: string
  where_part :: "where_clause option"
  limit_part :: "nat option"
  offset_part :: "nat option"
  order_part :: "order_by_clause list option"

definition require_sql_source :: "query_definition \<Rightarrow> db_error + string" where
  "require_sql_source q =
     (case sql_source q of Some s \<Rightarrow> Inr s | None \<Rightarrow> Inl (Validation ''Query has no SQL source''))"

definition not_found :: "query_definition \<Rightarrow> db_error" where
  "not_found q = Validation (''Query '' @ [squote] @ query_name q @ [squote] @ '' not found in schema'')"

abbreviation missing_context :: string where
  "missing_context \<equiv> '' has inject params but was called without a security context''"

definition evaluate_rls ::
  "rls_policy option \<Rightarrow> security_context option \<Rightarrow> query_definition \<Rightarrow> db_error + where_clause option" where
  "evaluate_rls rls ctx q =
     (case (rls, ctx) of (Some policy, Some c) \<Rightarrow> policy c (query_name q) | _ \<Rightarrow> Inr None)"

text \<open>
  The guards shared by the authenticated entry point and its relay branch: the token and the
  role. \<open>True\<close> as result routes to the relay handler.
\<close>

definition authenticated_guards :: "int \<Rightarrow> query_definition \<Rightarrow> security_context \<Rightarrow> db_error + bool" where
  "authenticated_guards now q ctx =
     (if is_expired now ctx then Inl (Validation ''Security token has expired'')
      else
        (case requires_role q of
           Some role \<Rightarrow> if role \<notin> set (roles ctx) then Inl (not_found q) else Inr (relay q)
         | None \<Rightarrow> Inr (relay q)))"

text \<open>\<open>execute_regular_query_with_security\<close> for a query that is not a relay query.\<close>

definition regular_query_with_security ::
  "type_definition list \<Rightarrow> rls_policy option \<Rightarrow> query_match \<Rightarrow> security_context \<Rightarrow> db_error + adapter_query" where
  "regular_query_with_security types rls qm ctx =
     (let q = query_def qm; args = match_arguments qm in
      try_bind (evaluate_rls rls (Some ctx) q) (\<lambda>rls_where.
      try_bind (require_sql_source q) (\<lambda>src.
      try_bind (security_where q rls_where missing_context (Some ctx)) (\<lambda>sec.
      try_bind (user_where q args) (\<lambda>user.
      let combined = combine_explicit_arg_where (compose_where sec user) (query_arguments q) args (native_columns q);
          limit = (if has_limit (query_auto_params q) then arg_u32 args ''limit'' else None);
          offset = (if has_offset (query_auto_params q) then arg_u32 args ''offset'' else None)
      in try_bind (if has_order_by (query_auto_params q) then order_by_argument types q args else Inr None) (\<lambda>ord.
        Inr \<lparr>source = src, where_part = combined, limit_part = limit, offset_part = offset, order_part = ord\<rparr>))))))"

text \<open>\<open>execute_regular_query\<close>: the guards of a caller without a security context, and the query.\<close>

definition anonymous_guards :: "query_definition \<Rightarrow> db_error + bool" where
  "anonymous_guards q =
     (if requires_role q \<noteq> None then Inl (not_found q)
      else if inject_params q \<noteq> [] then
        Inl (Validation (''Query '' @ [squote] @ query_name q @ [squote] @ missing_context))
      else Inr (relay q))"

definition regular_query ::
  "type_definition list \<Rightarrow> query_match \<Rightarrow> db_error + adapter_query" where
  "regular_query types qm =
     (let q = query_def qm; args = match_arguments qm in
      try_bind (require_sql_source q) (\<lambda>src.
      try_bind (user_where q args) (\<lambda>user.
      let combined = combine_explicit_arg_where user (query_arguments q) args (native_columns q);
          limit = (if has_limit (query_auto_params q) then arg_u32 args ''limit'' else None);
          offset = (if has_offset (query_auto_params q) then arg_u32 args ''offset'' else None)
      in try_bind (if has_order_by (query_auto_params q) then order_by_argument types q args else Inr None) (\<lambda>ord.
        Inr \<lparr>source = src, where_part = combined, limit_part = limit, offset_part = offset, order_part = ord\<rparr>))))"

text \<open>\<open>execute_query_direct\<close>, the entry point of the REST transport.\<close>

definition execute_query_direct ::
  "type_definition list \<Rightarrow> rls_policy option \<Rightarrow> query_match \<Rightarrow> security_context option \<Rightarrow> db_error + adapter_query" where
  "execute_query_direct types rls qm ctx =
     (let q = query_def qm; args = match_arguments qm in
      try_bind (evaluate_rls rls ctx q) (\<lambda>rls_where.
      try_bind (require_sql_source q) (\<lambda>src.
      try_bind (user_where q args) (\<lambda>user.
      try_bind (order_by_argument types q args) (\<lambda>ord.
      let user' = combine_explicit_arg_where user (query_arguments q) args (native_columns q);
          composed = compose_where rls_where user'
      in try_bind
           (case ctx of
              Some c \<Rightarrow> try_bind (collect_results (\<lambda>(name, s). resolve_inject_value name s c) (inject_params q)) (\<lambda>_. Inr ())
            | None \<Rightarrow> Inr ())
           (\<lambda>_. Inr \<lparr>source = src, where_part = composed, limit_part = arg_u32 args ''limit'',
                 offset_part = arg_u32 args ''offset'', order_part = ord\<rparr>))))))"

text \<open>\<open>count_rows\<close>: the clause whose rows are counted.\<close>

definition count_rows ::
  "rls_policy option \<Rightarrow> query_match \<Rightarrow> security_context option \<Rightarrow> db_error + adapter_query" where
  "count_rows rls qm ctx =
     (let q = query_def qm in
      try_bind (evaluate_rls rls ctx q) (\<lambda>rls_where.
      try_bind (require_sql_source q) (\<lambda>src.
      try_bind (security_where q rls_where '' has inject params but no security context is available'' ctx) (\<lambda>sec.
      try_bind (user_where q (match_arguments qm)) (\<lambda>user.
        Inr \<lparr>source = src, where_part = compose_where sec user, limit_part = None, offset_part = None,
             order_part = None\<rparr>)))))"

text \<open>\<open>execute_node_query\<close>: the row with the decoded identifier from the view of the type.\<close>

definition execute_node_query :: "(string \<rightharpoonup> string) \<Rightarrow> string \<Rightarrow> string \<Rightarrow> db_error + adapter_query" where
  "execute_node_query node_type_index ty uuid =
     (case node_type_index ty of
        None \<Rightarrow> Inl (Validation (''node query: no registered SQL view for type '' @ [squote] @ ty @ [squote]))
      | Some src \<Rightarrow>
          Inr \<lparr>source = src, where_part = Some (Field [''id''] Eq (JString uuid)), limit_part = Some 1,
               offset_part = None, order_part = None\<rparr>)"

end
