(* ===== verification/Relay.thy ===== *)
theory Relay
  imports Executor Where_Generator Utf8
begin

text \<open>
  Relay connections: cursors and node identifiers (\<open>fraiseql-core/src/runtime/relay.rs\<close>), the
  keyset-paginated query of the executor (\<open>execute_relay_query\<close> in
  \<open>fraiseql-core/src/runtime/executor/query.rs\<close>) and the page query of the PostgreSQL adapter
  (\<open>fraiseql-db/src/postgres/adapter/relay.rs\<close>).

  \<^item> Base64 is code of another package: its encoder and decoder are arguments.
  \<^item> Cursor text is a list of Unicode scalar values. \<open>from_utf8\<close> accepts exactly the byte strings
    that are the encoding of what the lossy decoder makes of them.
  \<^item> The \<open>u32\<close> addition of the fetch limit wraps, as in the release profile.
  \<^item> The count query and the connection's \<open>totalCount\<close> are not modelled, nor is the execution of
    the SQL; \<open>page_rows\<close> says what the page query selects from a table.
\<close>

section \<open>Cursors\<close>

type_synonym bytes = "8 word list"

definition from_utf8 :: "bytes \<Rightarrow> utext option" where
  "from_utf8 bs = (let s = from_utf8_lossy bs in if as_bytes s = bs then Some s else None)"

definition encode_edge_cursor :: "(bytes \<Rightarrow> utext) \<Rightarrow> int \<Rightarrow> utext" where
  "encode_edge_cursor b64 pk = b64 (as_bytes (show_i64 pk))"

definition decode_edge_cursor :: "(utext \<Rightarrow> bytes option) \<Rightarrow> utext \<Rightarrow> int option" where
  "decode_edge_cursor unb64 cursor = Option.bind (Option.bind (unb64 cursor) from_utf8) parse_i64"

definition encode_uuid_cursor :: "(bytes \<Rightarrow> utext) \<Rightarrow> utext \<Rightarrow> utext" where
  "encode_uuid_cursor b64 uuid = b64 (as_bytes uuid)"

definition decode_uuid_cursor :: "(utext \<Rightarrow> bytes option) \<Rightarrow> utext \<Rightarrow> utext option" where
  "decode_uuid_cursor unb64 cursor = Option.bind (unb64 cursor) from_utf8"

definition encode_node_id :: "(bytes \<Rightarrow> utext) \<Rightarrow> utext \<Rightarrow> utext \<Rightarrow> utext" where
  "encode_node_id b64 ty uuid = b64 (as_bytes (ty @ [58] @ uuid))"

text \<open>\<open>str::split_once\<close>: before and after the first occurrence.\<close>

definition split_once :: "nat \<Rightarrow> utext \<Rightarrow> (utext \<times> utext) option" where
  "split_once c s = (if c \<in> set s then Some (takeWhile ((\<noteq>) c) s, tl (dropWhile ((\<noteq>) c) s)) else None)"

definition decode_node_id :: "(utext \<Rightarrow> bytes option) \<Rightarrow> utext \<Rightarrow> (utext \<times> utext) option" where
  "decode_node_id unb64 ident =
     Option.bind (Option.bind (Option.bind (unb64 ident) from_utf8) (split_once 58))
       (\<lambda>(t, u). if t = [] \<or> u = [] then None else Some (t, u))"

section \<open>The page query of the executor\<close>

datatype cursor_value = CInt64 int | CUuid utext

record relay_page =
  page_source :: string
  page_column :: string
  page_after :: "cursor_value option"
  page_before :: "cursor_value option"
  fetch_limit :: nat
  forward :: bool
  page_where :: "where_clause option"
  page_order :: "order_by_clause list option"
  page_size :: nat

abbreviation u32_max :: nat where "u32_max \<equiv> 2 ^ 32 - 1"

definition variable :: "json option \<Rightarrow> string \<Rightarrow> json option" where
  "variable variables name = (case variables of Some (JObject es) \<Rightarrow> map_of es name | _ \<Rightarrow> None)"

definition page_variable :: "json option \<Rightarrow> string \<Rightarrow> nat option" where
  "page_variable variables name =
     map_option (\<lambda>n. min n u32_max) (Option.bind (variable variables name) as_u64)"

definition decode_cursor ::
  "(utext \<Rightarrow> bytes option) \<Rightarrow> cursor_type \<Rightarrow> string \<Rightarrow> json option \<Rightarrow> db_error + cursor_value option" where
  "decode_cursor unb64 ct which variables =
     (case Option.bind (variable variables which) as_str of
        None \<Rightarrow> Inr None
      | Some s \<Rightarrow>
          (case (case ct of
                   CursorInt64 \<Rightarrow> map_option CInt64 (decode_edge_cursor unb64 (utext_of s))
                 | CursorUuid \<Rightarrow> map_option CUuid (decode_uuid_cursor unb64 (utext_of s))) of
             Some c \<Rightarrow> Inr (Some c)
           | None \<Rightarrow> Inl (Validation (''invalid relay cursor for `'' @ which @ ''`''))))"

definition execute_relay_query ::
  "(utext \<Rightarrow> bytes option) \<Rightarrow> type_definition list \<Rightarrow> rls_policy option \<Rightarrow> bool \<Rightarrow> query_match \<Rightarrow> json option \<Rightarrow>
   security_context option \<Rightarrow> db_error + relay_page" where
  "execute_relay_query unb64 types rls relay_adapter qm variables ctx =
     (let q = query_def qm; vars = variable variables in
      if inject_params q \<noteq> [] \<and> ctx = None then
        Inl (Validation (''Query '' @ [squote] @ query_name q @ [squote] @ missing_context))
      else
        (case sql_source q of
           None \<Rightarrow> Inl (Validation (''Relay query '' @ [squote] @ query_name q @ [squote] @ '' has no sql_source configured''))
         | Some src \<Rightarrow>
           (case relay_cursor_column q of
              None \<Rightarrow> Inl (Validation (''Relay query '' @ [squote] @ query_name q @ [squote] @ '' has no relay_cursor_column derived''))
            | Some column \<Rightarrow>
              if \<not> relay_adapter then Inl (Validation ''Relay pagination is not supported by the adapter.'')
              else
                try_bind (evaluate_rls rls ctx q) (\<lambda>rls_where.
                try_bind (security_where q rls_where missing_context ctx) (\<lambda>sec.
                let first = page_variable variables ''first''; last = page_variable variables ''last'' in
                try_bind (decode_cursor unb64 (relay_cursor_type q) ''after'' variables) (\<lambda>after.
                try_bind (decode_cursor unb64 (relay_cursor_type q) ''before'' variables) (\<lambda>before.
                let (fwd, size) =
                      (if last \<noteq> None \<and> first = None then (False, case last of Some n \<Rightarrow> n | None \<Rightarrow> 20)
                       else (True, case first of Some n \<Rightarrow> n | None \<Rightarrow> 20))
                in
                try_bind (user_where q vars) (\<lambda>user.
                try_bind (if has_order_by (query_auto_params q) then order_by_argument types q vars else Inr None) (\<lambda>ord.
                  Inr \<lparr>page_source = src, page_column = column, page_after = after, page_before = before,
                       fetch_limit = (size + 1) mod 2 ^ 32, forward = fwd, page_where = compose_where sec user,
                       page_order = ord, page_size = size\<rparr>))))))))) "

text \<open>The connection built from the rows the adapter returned: edges with their cursors.\<close>

record connection =
  edges :: "(utext \<times> json) list"
  has_next_page :: bool
  has_previous_page :: bool
  start_cursor :: "utext option"
  end_cursor :: "utext option"

definition row_cursor :: "(bytes \<Rightarrow> utext) \<Rightarrow> cursor_type \<Rightarrow> string \<Rightarrow> json \<Rightarrow> db_error + utext" where
  "row_cursor b64 ct column row =
     (case (case ct of
              CursorInt64 \<Rightarrow> map_option (encode_edge_cursor b64) (Option.bind (json_get row column) as_i64)
            | CursorUuid \<Rightarrow> map_option (encode_uuid_cursor b64 \<circ> utext_of) (Option.bind (json_get row column) as_str)) of
        Some c \<Rightarrow> Inr c
      | None \<Rightarrow> Inl (Validation (''cursor column '' @ [squote] @ column @ [squote] @ '' not found in result JSONB'')))"

definition build_connection ::
  "(bytes \<Rightarrow> utext) \<Rightarrow> cursor_type \<Rightarrow> relay_page \<Rightarrow> json list \<Rightarrow> db_error + connection" where
  "build_connection b64 ct page result_rows =
     (let has_extra = length result_rows > page_size page;
          rows = take (page_size page) result_rows;
          (next_page, previous_page) =
            (if forward page then (has_extra, page_after page \<noteq> None) else (page_before page \<noteq> None, has_extra))
      in try_bind (collect_results (\<lambda>row. try_bind (row_cursor b64 ct (page_column page) row) (\<lambda>c. Inr (c, row))) rows)
           (\<lambda>es. Inr \<lparr>edges = es, has_next_page = next_page, has_previous_page = previous_page,
              start_cursor = (if es = [] then None else Some (fst (hd es))),
              end_cursor = (if es = [] then None else Some (fst (last es)))\<rparr>))"

section \<open>The page query of the PostgreSQL adapter\<close>

datatype page_param = PCursor cursor_value | PJson json | PLimit nat

definition escape_jsonb_key :: "string \<Rightarrow> string" where
  "escape_jsonb_key key = replace_char squote [squote, squote] key"

definition cursor_condition :: "bool \<Rightarrow> string \<Rightarrow> cursor_value option \<Rightarrow> string" where
  "cursor_condition fwd quoted_col cursor =
     (let oper = (if fwd then ''>'' else ''<'') in
      case cursor of
        None \<Rightarrow> []
      | Some (CInt64 _) \<Rightarrow> quoted_col @ '' '' @ oper @ '' $1''
      | Some (CUuid _) \<Rightarrow> quoted_col @ '' '' @ oper @ '' $1::uuid'')"

definition relay_order_sql :: "bool \<Rightarrow> string \<Rightarrow> order_by_clause list option \<Rightarrow> string" where
  "relay_order_sql fwd quoted_col order_by =
     (let dir = (if fwd then ''ASC'' else ''DESC'') in
      case order_by of
        Some clauses \<Rightarrow>
          '' ORDER BY '' @ join '', ''
            (map (\<lambda>c. ''data->>'' @ [squote] @ escape_jsonb_key (order_field c) @ [squote] @ '' '' @ as_sql (direction c))
               clauses @ [quoted_col @ '' '' @ dir])
      | None \<Rightarrow> '' ORDER BY '' @ quoted_col @ '' '' @ dir)"

definition relay_page_sql :: "relay_page \<Rightarrow> db_error + string \<times> page_param list" where
  "relay_page_sql page =
     (let quoted_view = quote_postgres_identifier (page_source page);
          quoted_col = quote_postgres_identifier (page_column page);
          fwd = forward page;
          cursor = (if fwd then page_after page else page_before page);
          cursor_part = cursor_condition fwd quoted_col cursor;
          cursor_count = (if cursor = None then 0 else 1)
      in try_bind
           (case page_where page of
              None \<Rightarrow> Inr ([], [])
            | Some clause \<Rightarrow>
                try_bind (generate_with_param_offset (generator_new PostgresDialect) clause cursor_count)
                  (\<lambda>(sql, ps). Inr (''('' @ sql @ '')'', ps)))
           (\<lambda>(user_part, user_params).
              let where_sql =
                    (if cursor_part = [] \<and> user_part = [] then []
                     else if cursor_part = [] then '' WHERE '' @ user_part
                     else if user_part = [] then '' WHERE '' @ cursor_part
                     else '' WHERE '' @ cursor_part @ '' AND '' @ user_part);
                  limit_idx = cursor_count + length user_params + 1;
                  order_sql = relay_order_sql fwd quoted_col (page_order page);
                  limit_sql = '' LIMIT $'' @ show_nat limit_idx;
                  page_sql =
                    (if fwd then ''SELECT data FROM '' @ quoted_view @ where_sql @ order_sql @ limit_sql
                     else
                       ''SELECT data FROM (SELECT data, '' @ quoted_col @ '' AS _relay_cursor FROM '' @ quoted_view @
                       where_sql @ order_sql @ limit_sql @ '') _relay_page ORDER BY _relay_cursor ASC'');
                  params = (case cursor of Some c \<Rightarrow> [PCursor c] | None \<Rightarrow> []) @ map PJson user_params @
                    [PLimit (fetch_limit page)]
              in Inr (page_sql, params)))"

text \<open>
  What the page query selects, for an integer cursor and no order of the caller: the table is the
  list of the keys and rows that satisfy the filter, in ascending order of the keys.
\<close>

definition page_rows :: "bool \<Rightarrow> int option \<Rightarrow> nat \<Rightarrow> (int \<times> json) list \<Rightarrow> json list" where
  "page_rows fwd cursor limit table =
     (if fwd
      then map snd (take limit (filter (\<lambda>(k, _). case cursor of Some c \<Rightarrow> k > c | None \<Rightarrow> True) table))
      else map snd (rev (take limit (rev (filter (\<lambda>(k, _). case cursor of Some c \<Rightarrow> k < c | None \<Rightarrow> True) table)))))"

end
