(* ===== verification/Executor_Security.thy ===== *)
theory Executor_Security
  imports Executor
begin

text \<open>
  What the WHERE clause that reaches the database guarantees on each entry point of the
  executor. Truth of a clause is three-valued, as in SQL: a row is returned when the clause is
  true of it, for any truth values of the field conditions.
\<close>

section \<open>Truth of a clause\<close>

type_synonym valuation = "where_clause \<Rightarrow> bool option"

definition and3 :: "bool option list \<Rightarrow> bool option" where
  "and3 xs = (if Some False \<in> set xs then Some False else if None \<in> set xs then None else Some True)"

definition or3 :: "bool option list \<Rightarrow> bool option" where
  "or3 xs = (if Some True \<in> set xs then Some True else if None \<in> set xs then None else Some False)"

fun truth :: "valuation \<Rightarrow> where_clause \<Rightarrow> bool option" where
  "truth v (WhereAnd cs) = and3 (map (truth v) cs)"
| "truth v (WhereOr cs) = or3 (map (truth v) cs)"
| "truth v (WhereNot c) = map_option Not (truth v c)"
| "truth v c = v c"

definition passes :: "valuation \<Rightarrow> where_clause option \<Rightarrow> bool" where
  "passes v w \<longleftrightarrow> (case w of None \<Rightarrow> True | Some c \<Rightarrow> truth v c = Some True)"

lemma passes_simps [simp]:
  "passes v None"
  "passes v (Some c) \<longleftrightarrow> truth v c = Some True"
  by (simp_all add: passes_def)

lemma truth_And [simp]: "truth v (WhereAnd cs) = Some True \<longleftrightarrow> (\<forall>c \<in> set cs. truth v c = Some True)"
proof -
  have "Some False \<notin> S \<and> None \<notin> S \<longleftrightarrow> (\<forall>x \<in> S. x = Some True)" for S :: "bool option set"
    by (metis (full_types) not_None_eq option.inject)
  from this [of "truth v ` set cs"] show ?thesis by (auto simp: and3_def)
qed

declare truth.simps(1) [simp del]

lemma passes_and_all: "passes v (and_all cs) \<longleftrightarrow> (\<forall>c \<in> set cs. truth v c = Some True)"
  by (auto simp: and_all_def split: list.splits)

lemma passes_with_rls:
  "passes v (with_rls rls cs) \<longleftrightarrow> passes v rls \<and> (\<forall>c \<in> set cs. truth v c = Some True)"
  by (auto simp: with_rls_def passes_and_all split: option.splits)

lemma passes_compose: "passes v (compose_where s u) \<longleftrightarrow> passes v s \<and> passes v u"
  by (cases s; cases u) (simp_all add: compose_where_def)

lemma passes_explicit:
  "passes v (combine_explicit_arg_where w defined args native) \<longleftrightarrow>
     passes v w \<and> (\<forall>c \<in> set (explicit_conditions defined args native). truth v c = Some True)"
  by (cases w) (auto simp: combine_explicit_arg_where_def Let_def passes_and_all)

lemma security_where_Inr:
  assumes "security_where q rls msg (Some ctx) = Inr sec"
  obtains cs where "inject_conditions q ctx = Inr cs"
    "\<And>v. passes v sec \<longleftrightarrow> passes v rls \<and> (\<forall>c \<in> set cs. truth v c = Some True)"
proof (cases "inject_params q = []")
  case True
  then have "inject_conditions q ctx = Inr []" by (simp add: inject_conditions_def)
  with that [of "[]"] True assms show ?thesis by (simp add: security_where_def)
next
  case False
  with assms obtain cs where "inject_conditions q ctx = Inr cs" "sec = with_rls rls cs"
    by (auto simp: security_where_def try_bind_eq_Inr)
  with that show ?thesis by (simp add: passes_with_rls)
qed

lemma list_all2_member: "list_all2 P xs ys \<Longrightarrow> x \<in> set xs \<Longrightarrow> \<exists>y \<in> set ys. P x y"
  by (induction rule: list_all2_induct) auto

section \<open>Paths that enforce the security conditions\<close>

text \<open>
  The interface of an entry point that enforces them: when it reaches the database, every row
  that passes its clause passes the policy's clause and every injected condition.
\<close>

locale enforcing_path =
  fixes path :: "rls_policy option \<Rightarrow> query_match \<Rightarrow> security_context \<Rightarrow> db_error + where_clause option"
  assumes enforces: "path rls qm ctx = Inr w \<Longrightarrow>
    \<exists>sec cs. evaluate_rls rls (Some ctx) (query_def qm) = Inr sec \<and> inject_conditions (query_def qm) ctx = Inr cs \<and>
      (\<forall>v. passes v w \<longrightarrow> passes v sec \<and> (\<forall>c \<in> set cs. truth v c = Some True))"
begin

text \<open>Isolation: a column bound to a claim of the token can only have the token's value.\<close>

lemma isolates:
  assumes "path rls qm ctx = Inr w" and "(col, src) \<in> set (inject_params (query_def qm))"
  shows "\<exists>x. resolve_inject_value col src ctx = Inr x \<and>
    (\<forall>v. passes v w \<longrightarrow>
       truth v (inject_param_where_clause col x (native_columns (query_def qm))) = Some True)"
proof -
  let ?q = "query_def qm"
  let ?f = "\<lambda>(col, source). try_bind (resolve_inject_value col source ctx) (\<lambda>v.
    Inr (inject_param_where_clause col v (native_columns ?q)))"
  obtain cs where cs: "inject_conditions ?q ctx = Inr cs"
    "\<And>v. passes v w \<Longrightarrow> \<forall>c \<in> set cs. truth v c = Some True"
    using enforces [OF assms(1)] by blast
  have "list_all2 (\<lambda>p c. ?f p = Inr c) (inject_params ?q) cs"
    using cs(1) by (simp add: inject_conditions_def collect_results_Inr_iff)
  then obtain c where "c \<in> set cs" "?f (col, src) = Inr c"
    using list_all2_member [OF _ assms(2)] by blast
  then show ?thesis using cs(2) by (auto simp: try_bind_eq_Inr)
qed

text \<open>A policy that allows nothing lets no row through.\<close>

lemma denies:
  assumes "path (Some policy) qm ctx = Inr w" "policy ctx (query_name (query_def qm)) = Inr (Some c)"
    "truth v c \<noteq> Some True"
  shows "\<not> passes v w"
  using enforces [OF assms(1)] assms(2,3) by (auto simp: evaluate_rls_def)

end

text \<open>The regular query, written out as its steps.\<close>

lemma regular_query_with_security_Inr:
  assumes "regular_query_with_security types rls qm ctx = Inr aq"
  obtains sec cs user where
    "evaluate_rls rls (Some ctx) (query_def qm) = Inr sec" "inject_conditions (query_def qm) ctx = Inr cs"
    "user_where (query_def qm) (match_arguments qm) = Inr user" "sql_source (query_def qm) = Some (source aq)"
    "\<And>v. passes v (where_part aq) \<longleftrightarrow>
       passes v sec \<and> (\<forall>c \<in> set cs. truth v c = Some True) \<and> passes v user \<and>
       (\<forall>c \<in> set (explicit_conditions (query_arguments (query_def qm)) (match_arguments qm)
          (native_columns (query_def qm))). truth v c = Some True)"
proof -
  let ?q = "query_def qm" and ?args = "match_arguments qm"
  obtain sec src s user ord where steps:
    "evaluate_rls rls (Some ctx) ?q = Inr sec" "require_sql_source ?q = Inr src"
    "security_where ?q sec missing_context (Some ctx) = Inr s" "user_where ?q ?args = Inr user"
    "aq = \<lparr>source = src,
       where_part = combine_explicit_arg_where (compose_where s user) (query_arguments ?q) ?args (native_columns ?q),
       limit_part = (if has_limit (query_auto_params ?q) then arg_u32 ?args ''limit'' else None),
       offset_part = (if has_offset (query_auto_params ?q) then arg_u32 ?args ''offset'' else None), order_part = ord\<rparr>"
    using assms by (auto simp: regular_query_with_security_def Let_def try_bind_eq_Inr)
  obtain cs where cs: "inject_conditions ?q ctx = Inr cs"
    "\<And>v. passes v s \<longleftrightarrow> passes v sec \<and> (\<forall>c \<in> set cs. truth v c = Some True)"
    using security_where_Inr [OF steps(3)] by blast
  show ?thesis
  proof (rule that [OF steps(1) cs(1) steps(4)])
    show "sql_source ?q = Some (source aq)"
      using steps(2,5) by (auto simp: require_sql_source_def split: option.splits)
  qed (auto simp: steps(5) passes_explicit passes_compose cs(2))
qed

interpretation secured: enforcing_path "\<lambda>rls qm ctx. map_sum id where_part (regular_query_with_security types rls qm ctx)"
  for types
proof
  fix rls qm ctx w
  assume "map_sum id where_part (regular_query_with_security types rls qm ctx) = Inr w"
  then obtain aq where "regular_query_with_security types rls qm ctx = Inr aq" "w = where_part aq"
    by (cases "regular_query_with_security types rls qm ctx") auto
  then show "\<exists>sec cs. evaluate_rls rls (Some ctx) (query_def qm) = Inr sec \<and>
    inject_conditions (query_def qm) ctx = Inr cs \<and>
    (\<forall>v. passes v w \<longrightarrow> passes v sec \<and> (\<forall>c \<in> set cs. truth v c = Some True))"
    by (elim regular_query_with_security_Inr) blast
qed

interpretation counted: enforcing_path "\<lambda>rls qm ctx. map_sum id where_part (count_rows rls qm (Some ctx))"
proof
  fix rls qm ctx w
  assume "map_sum id where_part (count_rows rls qm (Some ctx)) = Inr w"
  then obtain sec s user where
    "evaluate_rls rls (Some ctx) (query_def qm) = Inr sec" "w = compose_where s user"
    "security_where (query_def qm) sec '' has inject params but no security context is available'' (Some ctx) = Inr s"
    by (cases "count_rows rls qm (Some ctx)") (auto simp: count_rows_def Let_def try_bind_eq_Inr)
  then show "\<exists>sec cs. evaluate_rls rls (Some ctx) (query_def qm) = Inr sec \<and>
    inject_conditions (query_def qm) ctx = Inr cs \<and>
    (\<forall>v. passes v w \<longrightarrow> passes v sec \<and> (\<forall>c \<in> set cs. truth v c = Some True))"
    by (elim security_where_Inr) (auto simp: passes_compose)
qed

text \<open>
  C18. The authenticated query returns exactly the permitted rows: when the executor reaches the
  database, a row passes the clause it sends if and only if it passes the policy's clause,
  every condition injected from the token, the caller's filter and the caller's explicit
  arguments. Nothing the caller writes, disjunctions and negations included, weakens the
  security conditions.
\<close>

theorem secured_query_exact:
  assumes "regular_query_with_security types rls qm ctx = Inr aq"
  shows "\<exists>sec cs user. evaluate_rls rls (Some ctx) (query_def qm) = Inr sec \<and>
    inject_conditions (query_def qm) ctx = Inr cs \<and> user_where (query_def qm) (match_arguments qm) = Inr user \<and>
    (\<forall>v. passes v (where_part aq) \<longleftrightarrow>
       passes v sec \<and> (\<forall>c \<in> set cs. truth v c = Some True) \<and> passes v user \<and>
       (\<forall>c \<in> set (explicit_conditions (query_arguments (query_def qm)) (match_arguments qm)
          (native_columns (query_def qm))). truth v c = Some True))"
  using assms by (elim regular_query_with_security_Inr) blast

text \<open>A query on a tenant's rows and a caller of that tenant.\<close>

definition tenant_query :: query_definition where
  "tenant_query = \<lparr>query_name = ''orders'', return_type = ''Order'', returns_list = True,
     query_arguments = [(''id'', FT_Id)], sql_source = Some ''v_order'',
     query_auto_params = \<lparr>has_where = True, has_order_by = True, has_limit = True, has_offset = True\<rparr>,
     relay = False, relay_cursor_column = None, relay_cursor_type = CursorInt64,
     inject_params = [(''tenant_id'', Jwt ''tenant_id'')], requires_role = None, native_columns = Map.empty,
     query_rest_path = None, query_rest_method = None, cache_ttl_seconds = None\<rparr>"

definition tenant_context :: security_context where
  "tenant_context = \<lparr>user_id = ''u1'', roles = [], tenant_id = Some ''t1'', scopes = [], attributes = Map.empty,
     expires_at = 100\<rparr>"

definition tenant_match :: "(string \<rightharpoonup> json) \<Rightarrow> query_match" where
  "tenant_match args = \<lparr>query_def = tenant_query, match_arguments = args\<rparr>"

lemmas executor_eval = tenant_match_def tenant_query_def tenant_context_def Let_def evaluate_rls_def
  require_sql_source_def security_where_def inject_conditions_def resolve_inject_value_def
  inject_param_where_clause_def with_rls_def and_all_def user_where_def compose_where_def
  combine_explicit_arg_where_def explicit_conditions_def order_by_argument_def arg_u32_def
  AUTO_PARAM_NAMES_def map_filter_simps

lemma tenant_query_secured:
  "regular_query_with_security [] None (tenant_match Map.empty) tenant_context =
     Inr \<lparr>source = ''v_order'', where_part = Some (Field [''tenant_id''] Eq (JString ''t1'')), limit_part = None,
          offset_part = None, order_part = None\<rparr>"
  by (simp add: regular_query_with_security_def executor_eval)

theorem secured_query_exact_witness:
  "\<exists>sec cs user. evaluate_rls None (Some tenant_context) tenant_query = Inr sec \<and>
    inject_conditions tenant_query tenant_context = Inr cs \<and> user_where tenant_query Map.empty = Inr user \<and>
    (\<forall>v. passes v (Some (Field [''tenant_id''] Eq (JString ''t1''))) \<longleftrightarrow>
       passes v sec \<and> (\<forall>c \<in> set cs. truth v c = Some True) \<and> passes v user \<and>
       (\<forall>c \<in> set (explicit_conditions (query_arguments tenant_query) Map.empty (native_columns tenant_query)).
          truth v c = Some True))"
  using secured_query_exact [OF tenant_query_secured] by (simp add: tenant_match_def)

text \<open>
  C19. Isolation by injected parameters on the authenticated query and on the row count: the value
  comes from the token alone, and no row passes the clause unless its column has that value.
\<close>

theorem injected_columns_isolate:
  assumes "(col, src) \<in> set (inject_params (query_def qm))"
  shows "(regular_query_with_security types rls qm ctx = Inr aq \<longrightarrow>
     (\<exists>x. resolve_inject_value col src ctx = Inr x \<and>
       (\<forall>v. passes v (where_part aq) \<longrightarrow>
          truth v (inject_param_where_clause col x (native_columns (query_def qm))) = Some True))) \<and>
   (count_rows rls qm (Some ctx) = Inr aq \<longrightarrow>
     (\<exists>x. resolve_inject_value col src ctx = Inr x \<and>
       (\<forall>v. passes v (where_part aq) \<longrightarrow>
          truth v (inject_param_where_clause col x (native_columns (query_def qm))) = Some True)))"
proof (intro conjI impI)
  assume "regular_query_with_security types rls qm ctx = Inr aq"
  then show "\<exists>x. resolve_inject_value col src ctx = Inr x \<and>
       (\<forall>v. passes v (where_part aq) \<longrightarrow>
          truth v (inject_param_where_clause col x (native_columns (query_def qm))) = Some True)"
    by (intro secured.isolates [of types rls, OF _ assms]) simp
next
  assume "count_rows rls qm (Some ctx) = Inr aq"
  then show "\<exists>x. resolve_inject_value col src ctx = Inr x \<and>
       (\<forall>v. passes v (where_part aq) \<longrightarrow>
          truth v (inject_param_where_clause col x (native_columns (query_def qm))) = Some True)"
    by (intro counted.isolates [of rls, OF _ assms]) simp
qed

theorem injected_columns_isolate_witness:
  "\<exists>x. resolve_inject_value ''tenant_id'' (Jwt ''tenant_id'') tenant_context = Inr x \<and>
     (\<forall>v. passes v (Some (Field [''tenant_id''] Eq (JString ''t1''))) \<longrightarrow>
        truth v (inject_param_where_clause ''tenant_id'' x Map.empty) = Some True)"
  using injected_columns_isolate [of "''tenant_id''" "Jwt ''tenant_id''" "tenant_match Map.empty", THEN conjunct1,
      rule_format, OF _ tenant_query_secured]
  by (simp add: tenant_match_def tenant_query_def del: truth.simps passes_simps)

text \<open>
  The direct entry point, which the REST transport uses, resolves the injected parameters and
  drops their values: on the tenant's query it sends no condition at all, so that every row of
  every tenant passes, where the authenticated entry point sends the tenant's condition. It
  also accepts a caller without a token, whom every other entry point rejects.
\<close>

theorem direct_query_drops_injection:
  "(\<exists>aq. execute_query_direct [] None (tenant_match Map.empty) (Some tenant_context) = Inr aq \<and>
     where_part aq = None) \<and>
   (\<exists>aq. execute_query_direct [] None (tenant_match Map.empty) None = Inr aq \<and> where_part aq = None) \<and>
   (\<exists>aq. regular_query_with_security [] None (tenant_match Map.empty) tenant_context = Inr aq \<and>
     where_part aq = Some (Field [''tenant_id''] Eq (JString ''t1''))) \<and>
   (\<exists>e. anonymous_guards tenant_query = Inl e) \<and> (\<exists>e. count_rows None (tenant_match Map.empty) None = Inl e)"
  by (simp add: execute_query_direct_def regular_query_with_security_def count_rows_def anonymous_guards_def
      executor_eval)

text \<open>
  What the direct entry point does enforce: a row passes its clause if and only if it passes
  the policy's clause, the caller's filter and the caller's explicit arguments.
\<close>

theorem direct_query_exact:
  assumes "execute_query_direct types rls qm ctx = Inr aq"
  shows "\<exists>sec user. evaluate_rls rls ctx (query_def qm) = Inr sec \<and>
    user_where (query_def qm) (match_arguments qm) = Inr user \<and>
    (\<forall>v. passes v (where_part aq) \<longleftrightarrow> passes v sec \<and> passes v user \<and>
       (\<forall>c \<in> set (explicit_conditions (query_arguments (query_def qm)) (match_arguments qm)
          (native_columns (query_def qm))). truth v c = Some True))"
proof -
  let ?q = "query_def qm" and ?args = "match_arguments qm"
  obtain sec user where "evaluate_rls rls ctx ?q = Inr sec" "user_where ?q ?args = Inr user"
    "where_part aq = compose_where sec (combine_explicit_arg_where user (query_arguments ?q) ?args (native_columns ?q))"
    using assms by (auto simp: execute_query_direct_def Let_def try_bind_eq_Inr)
  then show ?thesis by (simp add: passes_compose passes_explicit)
qed

theorem direct_query_exact_witness:
  "\<exists>sec user. evaluate_rls None None tenant_query = Inr sec \<and> user_where tenant_query Map.empty = Inr user \<and>
    (\<forall>v. passes v None \<longleftrightarrow> passes v sec \<and> passes v user \<and>
       (\<forall>c \<in> set (explicit_conditions (query_arguments tenant_query) Map.empty (native_columns tenant_query)).
          truth v c = Some True))"
proof -
  have "execute_query_direct [] None (tenant_match Map.empty) None =
    Inr \<lparr>source = ''v_order'', where_part = None, limit_part = None, offset_part = None, order_part = None\<rparr>"
    by (simp add: execute_query_direct_def executor_eval)
  from direct_query_exact [OF this] show ?thesis by (simp add: tenant_match_def)
qed

text \<open>
  The row count ignores the explicit arguments: for the query of one order by its identifier
  the executor selects with the identifier's condition and counts without it.
\<close>

theorem count_ignores_arguments:
  "let qm = tenant_match [''id'' \<mapsto> JString ''o7''] in
   (\<exists>aq. regular_query_with_security [] None qm tenant_context = Inr aq \<and>
      where_part aq = Some (WhereAnd [Field [''tenant_id''] Eq (JString ''t1''), Field [''id''] Eq (JString ''o7'')])) \<and>
   (\<exists>aq. count_rows None qm (Some tenant_context) = Inr aq \<and>
      where_part aq = Some (Field [''tenant_id''] Eq (JString ''t1'')))"
  by (simp add: regular_query_with_security_def count_rows_def executor_eval)


end
