(* ===== verification/Relay_Paging.thy ===== *)
theory Relay_Paging
  imports Relay Executor_Security
begin

text \<open>
  Relay connections: cursors are read back, the relay path enforces the security conditions,
  walking forward through the pages visits every row once and in order, and what goes wrong when
  walking backward and at the largest page size.
\<close>

section \<open>Cursors are read back\<close>

lemma from_utf8_as_bytes: "list_all is_scalar s \<Longrightarrow> from_utf8 (as_bytes s) = Some s"
  by (simp add: from_utf8_def from_utf8_lossy_as_bytes)

lemma show_i64_scalar: "list_all is_scalar (show_i64 n)"
  using utext_of_show_nat_digits
  by (fastforce simp: show_i64_def is_scalar_def list_all_iff)

lemma decode_encode_edge:
  assumes "\<forall>bs. unb64 (b64 bs) = Some bs" "- (2 ^ 63) \<le> pk" "pk < 2 ^ 63"
  shows "decode_edge_cursor unb64 (encode_edge_cursor b64 pk) = Some pk"
  using assms
  by (simp add: decode_edge_cursor_def encode_edge_cursor_def from_utf8_as_bytes show_i64_scalar parse_show_i64)

lemma split_once_append: "c \<notin> set t \<Longrightarrow> split_once c (t @ c # u) = Some (t, u)"
  by (induction t) (auto simp: split_once_def)

text \<open>
  Cursors and node identifiers are read back: with a Base64 decoder that inverts its encoder,
  decoding an encoded integer or UUID cursor gives the value, and decoding a node identifier
  gives the type name and the identifier, provided neither is empty and the type name has no
  colon.
\<close>

theorem cursors_round_trip:
  assumes "\<forall>bs. unb64 (b64 bs) = Some bs"
  shows "(- (2 ^ 63) \<le> pk \<and> pk < 2 ^ 63 \<longrightarrow> decode_edge_cursor unb64 (encode_edge_cursor b64 pk) = Some pk) \<and>
    (list_all is_scalar u \<longrightarrow> decode_uuid_cursor unb64 (encode_uuid_cursor b64 u) = Some u) \<and>
    (list_all is_scalar (t @ u) \<and> t \<noteq> [] \<and> u \<noteq> [] \<and> 58 \<notin> set t \<longrightarrow>
      decode_node_id unb64 (encode_node_id b64 t u) = Some (t, u))"
proof (intro conjI impI)
  assume "list_all is_scalar (t @ u) \<and> t \<noteq> [] \<and> u \<noteq> [] \<and> 58 \<notin> set t"
  then show "decode_node_id unb64 (encode_node_id b64 t u) = Some (t, u)"
    using assms from_utf8_as_bytes [of "t @ 58 # u"]
    by (simp add: decode_node_id_def encode_node_id_def split_once_append is_scalar_def)
qed (use assms in \<open>simp_all add: decode_encode_edge decode_uuid_cursor_def encode_uuid_cursor_def from_utf8_as_bytes\<close>)

text \<open>An encoding of bytes that is inverted: each byte as one character.\<close>

theorem cursors_round_trip_witness:
  "decode_edge_cursor (\<lambda>s. Some (map of_nat s)) (encode_edge_cursor (map unat) (- 42)) = Some (- 42) \<and>
   decode_node_id (\<lambda>s. Some (map of_nat s)) (encode_node_id (map unat) [85] [49]) = Some ([85], [49])"
proof -
  have "\<forall>bs :: bytes. (\<lambda>s. Some (map of_nat s)) (map unat bs) = Some bs"
    by (simp add: map_idI)
  from cursors_round_trip [OF this, of "- 42" "[49]" "[85]"] show ?thesis by (simp add: is_scalar_def)
qed

section \<open>Security on the relay path\<close>

interpretation relayed: enforcing_path
  "\<lambda>rls qm ctx. map_sum id page_where (execute_relay_query unb64 types rls adapter qm variables (Some ctx))"
  for unb64 types adapter variables
proof
  fix rls qm ctx w
  assume "map_sum id page_where (execute_relay_query unb64 types rls adapter qm variables (Some ctx)) = Inr w"
  then obtain sec s user where
    "evaluate_rls rls (Some ctx) (query_def qm) = Inr sec" "w = compose_where s user"
    "security_where (query_def qm) sec missing_context (Some ctx) = Inr s"
    by (cases "execute_relay_query unb64 types rls adapter qm variables (Some ctx)")
      (auto simp: execute_relay_query_def Let_def try_bind_eq_Inr split: option.splits if_splits)
  then show "\<exists>sec cs. evaluate_rls rls (Some ctx) (query_def qm) = Inr sec \<and>
    inject_conditions (query_def qm) ctx = Inr cs \<and>
    (\<forall>v. passes v w \<longrightarrow> passes v sec \<and> (\<forall>c \<in> set cs. truth v c = Some True))"
    by (elim security_where_Inr) (auto simp: passes_compose)
qed

text \<open>
  Relay connections enforce the security conditions: when the page query of an authenticated
  caller reaches the adapter, no row passes its clause unless every injected column has the
  token's value, and without a token a query with injected parameters is an error.
\<close>

theorem relay_query_isolates:
  assumes "(col, src) \<in> set (inject_params (query_def qm))"
  shows "(execute_relay_query unb64 types rls adapter qm variables (Some ctx) = Inr page \<longrightarrow>
     (\<exists>x. resolve_inject_value col src ctx = Inr x \<and>
       (\<forall>v. passes v (page_where page) \<longrightarrow>
          truth v (inject_param_where_clause col x (native_columns (query_def qm))) = Some True))) \<and>
    (\<exists>e. execute_relay_query unb64 types rls adapter qm variables None = Inl e)"
proof (intro conjI impI)
  assume "execute_relay_query unb64 types rls adapter qm variables (Some ctx) = Inr page"
  then show "\<exists>x. resolve_inject_value col src ctx = Inr x \<and>
       (\<forall>v. passes v (page_where page) \<longrightarrow>
          truth v (inject_param_where_clause col x (native_columns (query_def qm))) = Some True)"
    by (intro relayed.isolates [of unb64 types rls adapter _ variables, OF _ assms]) simp
next
  show "\<exists>e. execute_relay_query unb64 types rls adapter qm variables None = Inl e"
    using assms by (auto simp: execute_relay_query_def Let_def)
qed

theorem relay_query_isolates_witness:
  "\<exists>e. execute_relay_query (\<lambda>_. None) [] None True (tenant_match Map.empty) None None = Inl e"
  using relay_query_isolates [of "''tenant_id''" "Jwt ''tenant_id''" "tenant_match Map.empty" "\<lambda>_. None" "[]" None True None]
  by (simp add: tenant_match_def tenant_query_def)

section \<open>Walking forward\<close>

text \<open>A table in ascending order of its keys, whose rows contain them.\<close>

definition keyed_table :: "string \<Rightarrow> (int \<times> json) list \<Rightarrow> bool" where
  "keyed_table column table \<longleftrightarrow> sorted_wrt (<) (map fst table) \<and>
     (\<forall>(k, row) \<in> set table. Option.bind (json_get row column) as_i64 = Some k)"

lemma as_i64_range: "as_i64 x = Some k \<Longrightarrow> - (2 ^ 63) \<le> k \<and> k < 2 ^ 63"
proof (induction x rule: as_i64.induct)
  case (1 n)
  then have k: "k = int (unat n)" "unat n < 2 ^ 63" by (simp_all split: if_splits)
  then have "int (unat n) < int (2 ^ 63)" by (simp only: of_nat_less_iff)
  moreover have "(0 :: int) \<le> k" using k(1) by (simp only: of_nat_0_le_iff)
  ultimately show ?case unfolding k(1) [symmetric] by simp
next
  case (2 w)
  then show ?case using sint_ge [of w] sint_lt [of w] by simp
qed simp_all

lemma row_cursor_key:
  "keyed_table column table \<Longrightarrow> (k, row) \<in> set table \<Longrightarrow>
     row_cursor b64 CursorInt64 column row = Inr (encode_edge_cursor b64 k)"
  by (auto simp: keyed_table_def row_cursor_def split: option.splits)

lemma keyed_table_range: "keyed_table column table \<Longrightarrow> (k, row) \<in> set table \<Longrightarrow> - (2 ^ 63) \<le> k \<and> k < 2 ^ 63"
  by (auto simp: keyed_table_def bind_eq_Some_conv dest!: as_i64_range)

text \<open>The connection of a page whose rows are a part of the table.\<close>

lemma build_connection_rows:
  assumes "keyed_table (page_column page) table" "set part \<subseteq> set table"
  shows "build_connection b64 CursorInt64 page (map snd part) =
    Inr (let es = map (\<lambda>(k, row). (encode_edge_cursor b64 k, row)) (take (page_size page) part);
             extra = length part > page_size page
         in \<lparr>edges = es,
             has_next_page = (if forward page then extra else page_before page \<noteq> None),
             has_previous_page = (if forward page then page_after page \<noteq> None else extra),
             start_cursor = (if es = [] then None else Some (fst (hd es))),
             end_cursor = (if es = [] then None else Some (fst (last es)))\<rparr>)"
proof -
  have "collect_results (\<lambda>row. try_bind (row_cursor b64 CursorInt64 (page_column page) row) (\<lambda>c. Inr (c, row))) (map snd xs) =
      Inr (map (\<lambda>(k, row). (encode_edge_cursor b64 k, row)) xs)" if "set xs \<subseteq> set table" for xs
    using that by (induction xs) (auto simp: row_cursor_key [OF assms(1)])
  from this [of "take (page_size page) part"] assms(2) show ?thesis
    by (simp add: build_connection_def Let_def take_map subset_trans [OF set_take_subset])
qed

text \<open>A client that follows the end cursors from page to page.\<close>

fun walk_forward ::
  "(utext \<Rightarrow> bytes option) \<Rightarrow> (bytes \<Rightarrow> utext) \<Rightarrow> relay_page \<Rightarrow> (int \<times> json) list \<Rightarrow> nat \<Rightarrow> utext option \<Rightarrow>
   db_error + json list" where
  "walk_forward unb64 b64 page table 0 cursor = Inr []"
| "walk_forward unb64 b64 page table (Suc fuel) cursor =
     (let after = Option.bind cursor (decode_edge_cursor unb64);
          request = page\<lparr>page_after := map_option CInt64 after\<rparr>
      in try_bind (build_connection b64 CursorInt64 request (page_rows True after (fetch_limit page) table)) (\<lambda>conn.
           if has_next_page conn
           then try_bind (walk_forward unb64 b64 page table fuel (end_cursor conn)) (\<lambda>rest.
                  Inr (map snd (edges conn) @ rest))
           else Inr (map snd (edges conn))))"

lemma filter_after:
  assumes "sorted_wrt (<) (map fst (seen @ rest :: (int \<times> json) list))" "seen \<noteq> []"
  shows "filter (\<lambda>(k, _). k > fst (last seen)) (seen @ rest) = rest"
proof -
  have "filter (\<lambda>(k, _). k > fst (last seen)) seen = []"
  proof -
    obtain pre x where seen: "seen = pre @ [x]" using assms(2) by (cases seen rule: rev_cases) auto
    have "\<forall>p \<in> set pre. fst p < fst x"
      using assms(1) seen by (simp add: sorted_wrt_append)
    then have "\<not> fst x < fst p" if "p \<in> set seen" for p
      using that seen by (auto simp: not_less less_imp_le)
    then show ?thesis using seen by (simp add: filter_empty_conv case_prod_unfold)
  qed
  moreover have "filter (\<lambda>(k, _). k > fst (last seen)) rest = rest"
    using assms by (force simp: sorted_wrt_append filter_id_conv)
  ultimately show ?thesis by simp
qed

lemma filter_before:
  assumes "sorted_wrt (<) (map fst table)"
  shows "\<exists>rest. table = filter (\<lambda>(k, _). k < (c :: int)) table @ rest"
  using assms
proof (induction table)
  case (Cons p table)
  show ?case
  proof (cases "fst p < c")
    case True
    then show ?thesis using Cons by (auto split: prod.splits)
  next
    case False
    then have "filter (\<lambda>(k, _). k < c) (p # table) = []"
      using Cons.prems by (force simp: filter_empty_conv split: prod.splits)
    then show ?thesis by (metis append_Nil)
  qed
qed simp

lemma walk_forward_from:
  assumes b64: "\<forall>bs. unb64 (b64 bs) = Some bs" and table: "keyed_table (page_column page) table"
    and page: "forward page" "0 < page_size page" "fetch_limit page = page_size page + 1"
  shows "\<lbrakk>table = seen @ rest; length rest < fuel;
     cursor = (if seen = [] then None else Some (encode_edge_cursor b64 (fst (last seen))))\<rbrakk> \<Longrightarrow>
   walk_forward unb64 b64 page table fuel cursor = Inr (map snd rest)"
proof (induction fuel arbitrary: seen rest cursor)
  case (Suc fuel)
  let ?n = "page_size page" and ?after = "if seen = [] then None else Some (fst (last seen))"
  let ?page = "page\<lparr>page_after := map_option CInt64 ?after\<rparr>"
  have sorted: "sorted_wrt (<) (map fst (seen @ rest))" using table Suc.prems(1) by (simp add: keyed_table_def)
  have key: "- (2 ^ 63) \<le> fst (last seen) \<and> fst (last seen) < 2 ^ 63" if "seen \<noteq> []"
    using keyed_table_range [OF table] Suc.prems(1) that by (cases "last seen") (metis Un_iff fst_conv last_in_set set_append)
  then have after: "Option.bind cursor (decode_edge_cursor unb64) = ?after"
    using Suc.prems(3) decode_encode_edge [OF b64] by simp
  have rows: "page_rows True ?after (fetch_limit page) table = map snd (take (?n + 1) rest)"
    using filter_after [OF sorted] Suc.prems(1) page(3) by (simp add: page_rows_def del: filter_append)
  let ?es = "map (\<lambda>(k, row). (encode_edge_cursor b64 k, row)) (take ?n rest)"
  have conn: "build_connection b64 CursorInt64 ?page (page_rows True ?after (fetch_limit page) table) =
      Inr \<lparr>edges = ?es, has_next_page = length rest > ?n, has_previous_page = ?after \<noteq> None,
        start_cursor = (if ?es = [] then None else Some (fst (hd ?es))),
        end_cursor = (if ?es = [] then None else Some (fst (last ?es)))\<rparr>"
  proof -
    have "set (take (?n + 1) rest) \<subseteq> set table"
      using Suc.prems(1) set_take_subset [of "?n + 1" rest] by auto
    from build_connection_rows [OF _ this, of ?page b64] show ?thesis
      using table page(1) unfolding rows by (simp add: Let_def min_less_iff_conj)
  qed
  have edge_rows: "map snd ?es = map snd (take ?n rest)" by (simp add: case_prod_unfold comp_def)
  show ?case
  proof (cases "length rest > ?n")
    case True
    let ?seen = "seen @ take ?n rest"
    have ne: "take ?n rest \<noteq> []" using True page(2) by auto
    have "fst (last ?es) = encode_edge_cursor b64 (fst (last ?seen))"
      using ne by (simp add: last_map case_prod_unfold)
    moreover have "walk_forward unb64 b64 page table fuel (Some (encode_edge_cursor b64 (fst (last ?seen)))) =
        Inr (map snd (drop ?n rest))"
      using Suc.prems True page(2) ne by (intro Suc.IH [of ?seen]) auto
    ultimately have "walk_forward unb64 b64 page table (Suc fuel) cursor =
        Inr (map snd ?es @ map snd (drop ?n rest))"
      using conn True ne by (simp add: after Let_def del: map_map)
    then show ?thesis unfolding edge_rows by (metis append_take_drop_id map_append)
  next
    case False
    then have "walk_forward unb64 b64 page table (Suc fuel) cursor = Inr (map snd ?es)"
      using conn by (simp add: after Let_def del: map_map)
    then show ?thesis using False unfolding edge_rows by simp
  qed
qed simp


definition sample_row :: "64 word \<Rightarrow> int \<times> json" where
  "sample_row n = (uint n, JObject [(''pk'', JNumber (PosInt n))])"

definition sample_page :: relay_page where
  "sample_page = \<lparr>page_source = ''v'', page_column = ''pk'', page_after = None, page_before = None, fetch_limit = 3,
     forward = True, page_where = None, page_order = None, page_size = 2\<rparr>"

lemma sample_keyed: "keyed_table ''pk'' (map sample_row [1, 2, 3, 4, 5])"
  by (simp add: keyed_table_def sample_row_def json_get_def)

lemma byte_encoding: "\<forall>bs :: bytes. Some (map of_nat (map unat bs)) = Some bs"
  by (simp add: map_idI)


section \<open>Walking backward\<close>

lemma page_rows_backward:
  "page_rows False (Some c) limit table =
     map snd (drop (length (filter (\<lambda>(k, _). k < c) table) - limit) (filter (\<lambda>(k, _). k < c) table))"
  by (simp add: page_rows_def rev_take)

text \<open>
  A backward page misses the row next to the cursor: when more rows precede the cursor than
  the page holds, the page keeps the surplus row at the far end, which was fetched only to
  detect a previous page, and drops the row nearest to the cursor. Since the next page asks for
  rows before the first one of this page, that row is on no page.
\<close>

theorem backward_page_misses_nearest:
  assumes "keyed_table (page_column page) table" "\<not> forward page" "fetch_limit page = page_size page + 1"
    and "rows = filter (\<lambda>(k, _). k < c) table" "page_size page < length rows"
    and "build_connection b64 CursorInt64 page (page_rows False (Some c) (fetch_limit page) table) = Inr conn"
  shows "map snd (edges conn) = map snd (take (page_size page) (drop (length rows - page_size page - 1) rows)) \<and>
    has_previous_page conn \<and> snd (last rows) \<notin> set (map snd (edges conn))"
proof -
  let ?n = "page_size page" and ?part = "drop (length rows - (page_size page + 1)) rows"
  have sub: "set ?part \<subseteq> set table" using assms(4) by (auto dest: in_set_dropD)
  have conn: "edges conn = map (\<lambda>(k, row). (encode_edge_cursor b64 k, row)) (take ?n ?part)"
    "has_previous_page conn = (length ?part > ?n)"
    using build_connection_rows [OF assms(1) sub, of b64] assms(2-4,6)
    by (auto simp: page_rows_backward Let_def)
  have edge_rows: "map snd (edges conn) = map snd (take ?n ?part)"
    unfolding conn by (simp add: case_prod_unfold comp_def)
  have split: "rows = (take (length rows - Suc ?n) rows @ take ?n ?part) @ [last rows]"
  proof -
    have len: "length ?part = Suc ?n" using assms(5) by simp
    then have "?part = butlast ?part @ [last ?part]" by (metis append_butlast_last_id list.size(3) nat.distinct(1))
    moreover have "last ?part = last rows" using assms(5) by (intro last_drop) simp
    moreover have "butlast ?part = take ?n ?part" using len by (simp only: butlast_conv_take diff_Suc_1)
    ultimately have "?part = take ?n ?part @ [last rows]" by simp
    then show ?thesis by (metis (no_types, lifting) Suc_eq_plus1 append.assoc append_take_drop_id)
  qed
  have sorted: "sorted_wrt (<) (map fst rows)"
    using assms(1,4) by (auto simp: keyed_table_def sorted_wrt_filter sorted_wrt_map)
  have "snd p \<noteq> snd (last rows)" if "p \<in> set (take ?n ?part)" for p
  proof
    assume eq: "snd p = snd (last rows)"
    have "fst p < fst (last rows)"
      using sorted that by (subst (asm) split) (auto simp: sorted_wrt_append)
    moreover have "last rows \<in> set rows" using assms(5) by (intro last_in_set) auto
    then have "p \<in> set table" "last rows \<in> set table"
      using in_set_takeD [OF that] sub assms(4) by auto
    then have "fst p = fst (last rows)"
      using assms(1) eq by (simp add: keyed_table_def case_prod_unfold) (metis option.inject)
    ultimately show False by simp
  qed
  then have "snd (last rows) \<notin> set (map snd (edges conn))"
    unfolding edge_rows by (metis (no_types, lifting) image_iff set_map)
  then show ?thesis using edge_rows conn(2) assms(5) by simp
qed

theorem backward_page_misses_nearest_witness:
  "\<exists>conn. build_connection (map unat) CursorInt64 (sample_page\<lparr>forward := False, page_before := Some (CInt64 5)\<rparr>)
     (page_rows False (Some 5) 3 (map sample_row [1, 2, 3, 4, 5])) = Inr conn \<and>
   map snd (edges conn) = map snd (map sample_row [2, 3]) \<and> snd (sample_row 4) \<notin> set (map snd (edges conn))"
proof -
  let ?page = "sample_page\<lparr>forward := False, page_before := Some (CInt64 5)\<rparr>"
  let ?table = "map sample_row [1, 2, 3, 4, 5]"
  have keyed: "keyed_table (page_column ?page) ?table" using sample_keyed by (simp add: sample_page_def)
  have rows: "map sample_row [1, 2, 3, 4] = filter (\<lambda>(k, _). k < 5) ?table" by (simp add: sample_row_def)
  have "page_rows False (Some 5) 3 ?table = map snd (map sample_row [2, 3, 4])"
    unfolding page_rows_backward rows [symmetric] by simp
  then obtain conn where conn: "build_connection (map unat) CursorInt64 ?page (page_rows False (Some 5) 3 ?table) = Inr conn"
    using build_connection_rows [OF keyed, of "map sample_row [2, 3, 4]" "map unat"] by auto
  then have "build_connection (map unat) CursorInt64 ?page
      (page_rows False (Some 5) (fetch_limit ?page) ?table) = Inr conn"
    by (simp add: sample_page_def)
  from backward_page_misses_nearest [OF keyed _ _ rows _ this] conn show ?thesis
    by (auto simp: sample_page_def)
qed

text \<open>
  The fetch limit wraps: at the largest page size, or any larger request, which is clipped to
  it, one more row is a limit of zero, and the page is empty without a next page although the
  table has rows.
\<close>

theorem relay_fetch_limit_wraps:
  assumes "execute_relay_query unb64 types rls adapter qm variables ctx = Inr page"
    and "page_variable variables ''first'' = Some u32_max"
  shows "forward page \<and> fetch_limit page = 0 \<and>
    (\<exists>conn. build_connection b64 ct page (page_rows True cursor (fetch_limit page) table) = Inr conn \<and>
       edges conn = [] \<and> \<not> has_next_page conn)"
proof -
  have "forward page" "page_size page = u32_max" "fetch_limit page = (u32_max + 1) mod 2 ^ 32"
    using assms by (auto simp: execute_relay_query_def Let_def try_bind_eq_Inr split: option.splits if_splits)
  then show ?thesis by (simp add: page_rows_def build_connection_def Let_def)
qed

definition relay_match :: query_match where
  "relay_match = \<lparr>query_def = tenant_query\<lparr>inject_params := [], relay := True, relay_cursor_column := Some ''pk''\<rparr>,
     match_arguments = Map.empty\<rparr>"

theorem relay_fetch_limit_wraps_witness:
  "\<exists>page. execute_relay_query (\<lambda>_. None) [] None True relay_match
     (Some (JObject [(''first'', JNumber (PosInt 4294967295))])) None = Inr page \<and> fetch_limit page = 0"
proof -
  let ?vars = "Some (JObject [(''first'', JNumber (PosInt 4294967295))])"
  have first: "page_variable ?vars ''first'' = Some u32_max" by (simp add: page_variable_def variable_def)
  obtain page where "execute_relay_query (\<lambda>_. None) [] None True relay_match ?vars None = Inr page"
    by (simp add: execute_relay_query_def relay_match_def executor_eval decode_cursor_def variable_def
        page_variable_def)
  with relay_fetch_limit_wraps [OF this first] show ?thesis by blast
qed

end
