(* ===== verification/Field_Access.thy ===== *)
theory Field_Access
  imports Executor
begin

text \<open>
  Field-level access control: roles and their scopes
  (\<open>fraiseql-core/src/schema/security_config.rs\<close>, \<open>security/security_context.rs\<close>), the
  classification of requested fields (\<open>runtime/field_filter.rs\<close>) and the masking of denied ones
  in the result (\<open>runtime/executor/mod.rs\<close>). The theorems: a requested field without its scope
  makes the query fail or is null in every row, and what a wildcard scope grants.
\<close>

section \<open>Scopes\<close>

record role_definition =
  role_name :: string
  role_scopes :: "string list"

type_synonym security_config = "role_definition list"

definition starts_with :: "string \<Rightarrow> string \<Rightarrow> bool" where
  "starts_with p s \<longleftrightarrow> take (length p) s = p"

definition strip_suffix :: "string \<Rightarrow> string \<Rightarrow> string option" where
  "strip_suffix suf s =
     (if length suf \<le> length s \<and> drop (length s - length suf) s = suf
      then Some (take (length s - length suf) s) else None)"

definition scope_matches :: "string \<Rightarrow> string \<Rightarrow> bool" where
  "scope_matches scope required =
     (if scope = ''*'' then True
      else if scope = required then True
      else
        (case strip_suffix '':*'' scope of
           Some prefix \<Rightarrow> starts_with prefix required \<and> CHR '':'' \<in> set required
         | None \<Rightarrow>
             (case strip_suffix ''*'' scope of
                Some prefix \<Rightarrow> starts_with prefix required
              | None \<Rightarrow> False)))"

definition has_scope :: "role_definition \<Rightarrow> string \<Rightarrow> bool" where
  "has_scope role required \<longleftrightarrow> list_ex (\<lambda>scope. scope_matches scope required) (role_scopes role)"

definition find_role :: "security_config \<Rightarrow> string \<Rightarrow> role_definition option" where
  "find_role config name = find (\<lambda>r. role_name r = name) config"

definition get_role_scopes :: "security_config \<Rightarrow> string \<Rightarrow> string list" where
  "get_role_scopes config name = (case find_role config name of Some role \<Rightarrow> role_scopes role | None \<Rightarrow> [])"

definition role_has_scope :: "security_config \<Rightarrow> string \<Rightarrow> string \<Rightarrow> bool" where
  "role_has_scope config name scope = (case find_role config name of Some role \<Rightarrow> has_scope role scope | None \<Rightarrow> False)"

definition can_access_scope :: "security_context \<Rightarrow> security_config \<Rightarrow> string \<Rightarrow> bool" where
  "can_access_scope ctx config required \<longleftrightarrow> list_ex (\<lambda>name. role_has_scope config name required) (roles ctx)"

section \<open>Fields\<close>

definition can_access_field :: "security_context \<Rightarrow> security_config \<Rightarrow> field_definition \<Rightarrow> bool" where
  "can_access_field ctx config f =
     (case requires_scope f of None \<Rightarrow> True | Some scope \<Rightarrow> can_access_scope ctx config scope)"

definition filter_fields :: "security_context \<Rightarrow> security_config \<Rightarrow> field_definition list \<Rightarrow> field_definition list" where
  "filter_fields ctx config fds = filter (can_access_field ctx config) fds"

text \<open>The loop over the requested names: allowed and masked so far, or the name that is rejected.\<close>

fun classify_loop ::
  "security_context \<Rightarrow> security_config \<Rightarrow> field_definition list \<Rightarrow> string list \<Rightarrow> string list \<Rightarrow> string list \<Rightarrow>
   string + string list \<times> string list" where
  "classify_loop ctx config fds [] allowed masked = Inr (allowed, masked)"
| "classify_loop ctx config fds (name # requested) allowed masked =
     (case find (\<lambda>f. field_name f = name) fds of
        None \<Rightarrow> classify_loop ctx config fds requested (allowed @ [name]) masked
      | Some f \<Rightarrow>
          if can_access_field ctx config f
          then classify_loop ctx config fds requested (allowed @ [name]) masked
          else
            (case on_deny f of
               Mask \<Rightarrow> classify_loop ctx config fds requested allowed (masked @ [name])
             | Reject \<Rightarrow> Inl name))"

definition classify_field_access ::
  "security_context \<Rightarrow> security_config \<Rightarrow> field_definition list \<Rightarrow> string list \<Rightarrow> string + string list \<times> string list" where
  "classify_field_access ctx config fds requested = classify_loop ctx config fds requested [] []"

datatype access_error = Authorization string

definition apply_field_rbac_filtering ::
  "security_config option \<Rightarrow> type_definition list \<Rightarrow> string \<Rightarrow> string list \<Rightarrow> security_context \<Rightarrow>
   access_error + string list \<times> string list" where
  "apply_field_rbac_filtering security types ret projection_fields ctx =
     (case (security, find_type types ret) of
        (Some config, Some td) \<Rightarrow>
          (case classify_field_access ctx config (type_fields td) projection_fields of
             Inr r \<Rightarrow> Inr r
           | Inl rejected \<Rightarrow> Inl (Authorization (''Access denied: field '' @ [squote] @ rejected @ [squote] @
               '' on type '' @ [squote] @ ret @ [squote] @ '' requires a scope you do not have'')))
      | _ \<Rightarrow> Inr (projection_fields, []))"

section \<open>Masking\<close>

fun null_masked_fields :: "string list \<Rightarrow> json \<Rightarrow> json" where
  "null_masked_fields masked (JObject es) = JObject (map (\<lambda>(k, v). (k, if k \<in> set masked then JNull else v)) es)"
| "null_masked_fields masked (JArray items) = JArray (map (null_masked_fields masked) items)"
| "null_masked_fields masked v = v"

section \<open>Denied fields are not disclosed\<close>

lemma classify_loop_spec:
  "classify_loop ctx config fds requested allowed masked = Inr (a, m) \<Longrightarrow>
   \<exists>a' m'. a = allowed @ a' \<and> m = masked @ m' \<and> set a' \<union> set m' = set requested \<and>
     (\<forall>n \<in> set a'. \<forall>f. find (\<lambda>f. field_name f = n) fds = Some f \<longrightarrow> can_access_field ctx config f) \<and>
     (\<forall>n \<in> set m'. \<exists>f. find (\<lambda>f. field_name f = n) fds = Some f \<and> \<not> can_access_field ctx config f \<and> on_deny f = Mask)"
proof (induction requested arbitrary: allowed masked)
  case (Cons name requested)
  show ?case
  proof (cases "find (\<lambda>f. field_name f = name) fds")
    case None
    with Cons.prems Cons.IH [of "allowed @ [name]" masked] show ?thesis by fastforce
  next
    case (Some f)
    show ?thesis
    proof (cases "can_access_field ctx config f")
      case True
      with Some Cons.prems Cons.IH [of "allowed @ [name]" masked] show ?thesis by fastforce
    next
      case False
      with Some Cons.prems have "on_deny f = Mask" by (cases "on_deny f") auto
      with Some False Cons.prems Cons.IH [of allowed "masked @ [name]"] show ?thesis by fastforce
    qed
  qed
qed simp

lemma classify_loop_error:
  "classify_loop ctx config fds requested allowed masked = Inl n \<Longrightarrow>
   n \<in> set requested \<and>
   (\<exists>f. find (\<lambda>f. field_name f = n) fds = Some f \<and> \<not> can_access_field ctx config f \<and> on_deny f = Reject)"
  by (induction requested arbitrary: allowed masked)
    (auto split: option.splits if_splits field_deny_policy.splits)

lemma classify_loop_rejects:
  "\<lbrakk>n \<in> set requested; find (\<lambda>f. field_name f = n) fds = Some f; \<not> can_access_field ctx config f;
    on_deny f = Reject\<rbrakk> \<Longrightarrow> \<exists>n'. classify_loop ctx config fds requested allowed masked = Inl n'"
  by (induction requested arbitrary: allowed masked)
    (auto split: option.splits field_deny_policy.splits)

lemma map_of_masked:
  "map_of (map (\<lambda>(k, v). (k, if k \<in> set masked then JNull else v)) es) k =
     (if k \<in> set masked then map_option (\<lambda>_. JNull) (map_of es k) else map_of es k)"
  by (induction es) auto

text \<open>
  A field the caller lacks the scope for is not disclosed: the request fails if and only if
  some requested field is denied with the policy to reject, and otherwise every requested field
  that is denied is null or absent in every row of the masked result, while every other entry of
  the row is unchanged.
\<close>

theorem denied_fields_not_disclosed:
  "((\<exists>e. classify_field_access ctx config fds requested = Inl e) \<longleftrightarrow>
      (\<exists>n f. n \<in> set requested \<and> find (\<lambda>f. field_name f = n) fds = Some f \<and>
         \<not> can_access_field ctx config f \<and> on_deny f = Reject)) \<and>
   (\<forall>a m n f es. classify_field_access ctx config fds requested = Inr (a, m) \<and> n \<in> set requested \<and>
      find (\<lambda>f. field_name f = n) fds = Some f \<and> \<not> can_access_field ctx config f \<longrightarrow>
      json_get (null_masked_fields m (JObject es)) n \<in> {None, Some JNull}) \<and>
   (\<forall>a m n es. classify_field_access ctx config fds requested = Inr (a, m) \<and>
      (\<forall>f. find (\<lambda>f. field_name f = n) fds = Some f \<longrightarrow> can_access_field ctx config f) \<longrightarrow>
      json_get (null_masked_fields m (JObject es)) n = json_get (JObject es) n)"
proof (intro conjI allI impI)
  show "(\<exists>e. classify_field_access ctx config fds requested = Inl e) \<longleftrightarrow>
      (\<exists>n f. n \<in> set requested \<and> find (\<lambda>f. field_name f = n) fds = Some f \<and>
         \<not> can_access_field ctx config f \<and> on_deny f = Reject)"
    unfolding classify_field_access_def by (metis classify_loop_error classify_loop_rejects)
next
  fix a m n f es
  assume *: "classify_field_access ctx config fds requested = Inr (a, m) \<and> n \<in> set requested \<and>
      find (\<lambda>f. field_name f = n) fds = Some f \<and> \<not> can_access_field ctx config f"
  then have "n \<in> set m"
    using classify_loop_spec [of ctx config fds requested "[]" "[]" a m]
    by (auto simp: classify_field_access_def)
  then show "json_get (null_masked_fields m (JObject es)) n \<in> {None, Some JNull}"
    by (cases "map_of es n") (simp_all add: json_get_def map_of_masked)
next
  fix a m n es
  assume *: "classify_field_access ctx config fds requested = Inr (a, m) \<and>
      (\<forall>f. find (\<lambda>f. field_name f = n) fds = Some f \<longrightarrow> can_access_field ctx config f)"
  then have "n \<notin> set m"
    using classify_loop_spec [of ctx config fds requested "[]" "[]" a m]
    by (auto simp: classify_field_access_def)
  then show "json_get (null_masked_fields m (JObject es)) n = json_get (JObject es) n"
    by (simp add: json_get_def map_of_masked)
qed

definition sample_fields :: "field_definition list" where
  "sample_fields =
    [\<lparr>field_name = ''id'', fd_field_type = FT_Id, field_alias = None, requires_scope = None, on_deny = Reject\<rparr>,
     \<lparr>field_name = ''salary'', fd_field_type = FT_Int, field_alias = None,
       requires_scope = Some ''read:Employee.salary'', on_deny = Mask\<rparr>]"

definition sample_caller :: security_context where
  "sample_caller = \<lparr>user_id = ''u1'', roles = [''viewer''], tenant_id = None, scopes = [], attributes = Map.empty,
     expires_at = 100\<rparr>"

theorem denied_fields_not_disclosed_witness:
  "classify_field_access sample_caller [] sample_fields [''id'', ''salary''] = Inr ([''id''], [''salary'']) \<and>
   json_get (null_masked_fields [''salary''] (JObject [(''id'', JString ''e1''), (''salary'', JNumber (PosInt 9))])) ''salary'' \<in>
     {None, Some JNull} \<and>
   json_get (null_masked_fields [''salary''] (JObject [(''id'', JString ''e1''), (''salary'', JNumber (PosInt 9))])) ''id'' =
     json_get (JObject [(''id'', JString ''e1''), (''salary'', JNumber (PosInt 9))]) ''id''"
proof -
  have c: "classify_field_access sample_caller [] sample_fields [''id'', ''salary''] = Inr ([''id''], [''salary''])"
    by (simp add: classify_field_access_def sample_fields_def sample_caller_def can_access_field_def can_access_scope_def
        role_has_scope_def find_role_def)
  note facts = denied_fields_not_disclosed [of sample_caller "[]" sample_fields "[''id'', ''salary'']"]
  show ?thesis
    using c facts [THEN conjunct2, THEN conjunct1, rule_format, of "[''id'']" "[''salary'']" "''salary''"]
      facts [THEN conjunct2, THEN conjunct2, rule_format, of "[''id'']" "[''salary'']" "''id''"]
    by (simp add: sample_fields_def sample_caller_def can_access_field_def can_access_scope_def
        role_has_scope_def find_role_def del: null_masked_fields.simps)
qed

text \<open>
  A wildcard scope grants more than its documentation says: \<open>read:*\<close> is documented to match
  the scopes that start with \<open>read:\<close>, but the colon is cut off with the wildcard, so that it also
  grants every scope whose action merely begins with \<open>read\<close>, such as \<open>readwrite:User\<close>.
\<close>

theorem wildcard_scope_overmatches:
  "has_scope \<lparr>role_name = ''viewer'', role_scopes = [''read:*'']\<rparr> ''readwrite:User'' \<and>
   \<not> starts_with ''read:'' ''readwrite:User'' \<and>
   (starts_with ''read'' required \<and> CHR '':'' \<in> set required \<longleftrightarrow>
      has_scope \<lparr>role_name = ''viewer'', role_scopes = [''read:*'']\<rparr> required)"
  by (auto simp: has_scope_def scope_matches_def strip_suffix_def starts_with_def)

end
