(* ===== verification/Operator_Registry.thy ===== *)
theory Operator_Registry
  imports Where_Clause
begin

text \<open>
  The registry of filter operators (\<open>fraiseql-core/src/utils/operators.rs\<close>), against which the
  REST transport validates filters, and how it differs from the operator names that the WHERE
  parser knows (\<open>WhereOperator::from_str\<close> of \<open>fraiseql-db/src/where_clause.rs\<close>).
\<close>

datatype operator_category =
    ComparisonOp | StringOp | NullOp | ArrayOp | VectorOp | FulltextOp | ContainmentOp | NetworkOp
  | DateRangeOp | LtreeOp | SpatialOp | PathOp

record operator_info =
  op_name :: string
  sql_op :: string
  op_category :: operator_category
  requires_array :: bool
  jsonb_operator :: bool

definition op_info :: "string \<Rightarrow> string \<Rightarrow> operator_category \<Rightarrow> bool \<Rightarrow> bool \<Rightarrow> operator_info" where
  "op_info n s c a j = \<lparr>op_name = n, sql_op = s, op_category = c, requires_array = a, jsonb_operator = j\<rparr>"

definition OPERATOR_REGISTRY :: "operator_info list" where
  "OPERATOR_REGISTRY = [
     op_info ''eq'' ''='' ComparisonOp False False,
     op_info ''ne'' ''!='' ComparisonOp False False,
     op_info ''gt'' ''>'' ComparisonOp False False,
     op_info ''gte'' ''>='' ComparisonOp False False,
     op_info ''lt'' ''<'' ComparisonOp False False,
     op_info ''lte'' ''<='' ComparisonOp False False,
     op_info ''in'' ''IN'' ComparisonOp True False,
     op_info ''nin'' ''NOT IN'' ComparisonOp True False,
     op_info ''like'' ''LIKE'' StringOp False False,
     op_info ''ilike'' ''ILIKE'' StringOp False False,
     op_info ''nlike'' ''NOT LIKE'' StringOp False False,
     op_info ''nilike'' ''NOT ILIKE'' StringOp False False,
     op_info ''regex'' ''~'' StringOp False False,
     op_info ''iregex'' ''~*'' StringOp False False,
     op_info ''nregex'' ''!~'' StringOp False False,
     op_info ''niregex'' ''!~*'' StringOp False False,
     op_info ''is_null'' ''IS NULL'' NullOp False False,
     op_info ''is_not_null'' ''IS NOT NULL'' NullOp False False,
     op_info ''contains'' ''@>'' ContainmentOp False True,
     op_info ''contained_in'' ''<@'' ContainmentOp False True,
     op_info ''has_key'' ''?'' ContainmentOp False True,
     op_info ''has_any_keys'' ''?|'' ContainmentOp True True,
     op_info ''has_all_keys'' ''?&'' ContainmentOp True True,
     op_info ''array_contains'' ''@>'' ArrayOp False False,
     op_info ''array_contained_in'' ''<@'' ArrayOp False False,
     op_info ''array_overlaps'' ''&&'' ArrayOp False False,
     op_info ''cosine_distance'' ''<=>'' VectorOp False False,
     op_info ''l2_distance'' ''<->'' VectorOp False False,
     op_info ''inner_product'' ''<#>'' VectorOp False False,
     op_info ''l1_distance'' ''<+>'' VectorOp False False,
     op_info ''hamming_distance'' ''<~>'' VectorOp False False,
     op_info ''jaccard_distance'' ''<%>'' VectorOp False False,
     op_info ''search'' ''@@'' FulltextOp False False,
     op_info ''plainto_tsquery'' ''@@'' FulltextOp False False,
     op_info ''phraseto_tsquery'' ''@@'' FulltextOp False False,
     op_info ''websearch_to_tsquery'' ''@@'' FulltextOp False False,
     op_info ''startswith'' ''LIKE'' StringOp False False,
     op_info ''istartswith'' ''ILIKE'' StringOp False False,
     op_info ''endswith'' ''LIKE'' StringOp False False,
     op_info ''iendswith'' ''ILIKE'' StringOp False False,
     op_info ''icontains'' ''ILIKE'' StringOp False False,
     op_info ''imatches'' ''~*'' StringOp False False,
     op_info ''not_matches'' ''!~'' StringOp False False,
     op_info ''isIPv4'' ''family({}) = 4'' NetworkOp False False,
     op_info ''isIPv6'' ''family({}) = 6'' NetworkOp False False,
     op_info ''isPrivate'' ''CIDR_RANGE_CHECK'' NetworkOp False False,
     op_info ''isPublic'' ''NOT_CIDR_RANGE_CHECK'' NetworkOp False False,
     op_info ''inSubnet'' ''{} <<= {}'' NetworkOp False False,
     op_info ''notInSubnet'' ''NOT ({} <<= {})'' NetworkOp False False,
     op_info ''subnet_contains'' ''>>'' NetworkOp False False,
     op_info ''subnet_overlaps'' ''&&'' NetworkOp False False,
     op_info ''contains_date'' ''@>'' DateRangeOp False False,
     op_info ''adjacent'' ''-|-'' DateRangeOp False False,
     op_info ''strictly_left'' ''<<'' DateRangeOp False False,
     op_info ''strictly_right'' ''>>'' DateRangeOp False False,
     op_info ''not_left'' ''&>'' DateRangeOp False False,
     op_info ''not_right'' ''&<'' DateRangeOp False False,
     op_info ''overlaps'' ''&&'' DateRangeOp False False,
     op_info ''ancestor_of'' ''@>'' LtreeOp False False,
     op_info ''descendant_of'' ''<@'' LtreeOp False False,
     op_info ''matches_lquery'' ''~'' LtreeOp False False,
     op_info ''matches_ltxtquery'' ''@'' LtreeOp False False,
     op_info ''matches_any_lquery'' ''?'' LtreeOp True False,
     op_info ''depth_eq'' ''nlevel({}) ='' PathOp False False,
     op_info ''depth_gt'' ''nlevel({}) >'' PathOp False False,
     op_info ''depth_lt'' ''nlevel({}) <'' PathOp False False,
     op_info ''isdescendant'' ''<@'' PathOp False False,
     op_info ''distance_within'' ''distance_within'' SpatialOp False False,
     op_info ''strictly_contains'' ''@>'' ContainmentOp False True,
     op_info ''neq'' ''!='' ComparisonOp False False,
     op_info ''isnull'' ''IS NULL'' NullOp False False,
     op_info ''array_eq'' ''='' ArrayOp False False,
     op_info ''array_neq'' ''!='' ArrayOp False False,
     op_info ''array_contained_by'' ''<@'' ArrayOp False False,
     op_info ''notin'' ''NOT IN'' ComparisonOp True False]"

definition get_operator_info :: "string \<Rightarrow> operator_info option" where
  "get_operator_info name = find (\<lambda>i. op_name i = name) OPERATOR_REGISTRY"

definition is_operator :: "string \<Rightarrow> bool" where
  "is_operator name \<longleftrightarrow> name \<in> set (map op_name OPERATOR_REGISTRY)"

definition get_operators_by_category :: "operator_category \<Rightarrow> operator_info list" where
  "get_operators_by_category c = filter (\<lambda>i. op_category i = c) OPERATOR_REGISTRY"

lemma registry_names:
  "map op_name OPERATOR_REGISTRY = [''eq'', ''ne'', ''gt'', ''gte'', ''lt'', ''lte'', ''in'', ''nin'', ''like'', ''ilike'', ''nlike'', ''nilike'', ''regex'', ''iregex'', ''nregex'', ''niregex'', ''is_null'', ''is_not_null'', ''contains'', ''contained_in'', ''has_key'', ''has_any_keys'', ''has_all_keys'', ''array_contains'', ''array_contained_in'', ''array_overlaps'', ''cosine_distance'', ''l2_distance'', ''inner_product'', ''l1_distance'', ''hamming_distance'', ''jaccard_distance'', ''search'', ''plainto_tsquery'', ''phraseto_tsquery'', ''websearch_to_tsquery'', ''startswith'', ''istartswith'', ''endswith'', ''iendswith'', ''icontains'', ''imatches'', ''not_matches'', ''isIPv4'', ''isIPv6'', ''isPrivate'', ''isPublic'', ''inSubnet'', ''notInSubnet'', ''subnet_contains'', ''subnet_overlaps'', ''contains_date'', ''adjacent'', ''strictly_left'', ''strictly_right'', ''not_left'', ''not_right'', ''overlaps'', ''ancestor_of'', ''descendant_of'', ''matches_lquery'', ''matches_ltxtquery'', ''matches_any_lquery'', ''depth_eq'', ''depth_gt'', ''depth_lt'', ''isdescendant'', ''distance_within'', ''strictly_contains'', ''neq'', ''isnull'', ''array_eq'', ''array_neq'', ''array_contained_by'', ''notin'']"
  by (simp add: OPERATOR_REGISTRY_def op_info_def)

lemma from_str_unknown: "(\<exists>e. from_str n = Inl e) \<longleftrightarrow> n \<notin> set (map fst operator_table)"
  by (auto simp: from_str_def map_of_eq_None_iff weak_map_of_SomeI dest: map_of_SomeD split: option.splits) (force dest: map_of_SomeD)

text \<open>
  The registry and the WHERE parser disagree: exactly these operators pass the registry, and
  therefore the validation of a REST filter, but are unknown to the parser that the filter is
  handed to.
\<close>

theorem registry_unparsed:
  "filter (\<lambda>n. \<exists>e. from_str n = Inl e) (map op_name OPERATOR_REGISTRY) =
     [''ne'', ''is_null'', ''is_not_null'', ''contained_in'', ''has_key'', ''has_any_keys'', ''has_all_keys'', ''array_contained_in'', ''search'', ''plainto_tsquery'', ''phraseto_tsquery'', ''websearch_to_tsquery'', ''isIPv4'', ''isIPv6'', ''isPrivate'', ''isPublic'', ''inSubnet'', ''notInSubnet'', ''subnet_contains'', ''subnet_overlaps'', ''contains_date'', ''adjacent'', ''strictly_left'', ''strictly_right'', ''not_left'', ''not_right'', ''isdescendant'', ''distance_within'', ''array_eq'', ''array_neq'']"
  unfolding registry_names from_str_unknown by (simp add: operator_table_def)

end
