(* ===== verification/Rest_Params.thy ===== *)
theory Rest_Params
  imports Executor Operator_Registry Utf8
begin

text \<open>
  REST parameter extraction (\<open>fraiseql-server/src/routes/rest/params.rs\<close>) and the arguments the
  REST handler builds from it (\<open>resolve_get_query\<close> and \<open>build_fts_where_clause\<close> of
  \<open>fraiseql-server/src/routes/rest/handler.rs\<close>).

  \<^item> \<open>serde_json::from_str\<close> and the parsing of floating-point numbers are arguments, collected in
    the record \<open>text_parsers\<close>; a float is its bit pattern, and \<open>None\<close> stands for a parse error.
  \<^item> A JSON object is a \<open>BTreeMap\<close>: entries are inserted in the order of the keys.
  \<^item> \<open>parse_select_entries\<close> uses character positions as byte offsets of string slices, which panics
    when such an offset is inside a character: \<open>Panic\<close> is that outcome.
  \<^item> The lists of available names at the end of error messages are left out.
\<close>

section \<open>Outcomes and JSON objects\<close>

datatype rest_failure = Invalid string | Panic

record text_parsers =
  parse_json :: "string \<Rightarrow> json option"
  parse_f64 :: "string \<Rightarrow> u64 option"

fun str_less :: "string \<Rightarrow> string \<Rightarrow> bool" where
  "str_less s [] = False"
| "str_less [] (d # t) = True"
| "str_less (c # s) (d # t) = (code c < code d \<or> (c = d \<and> str_less s t))"

text \<open>\<open>Map::insert\<close>: replaces the value of a key or adds the entry at its place.\<close>

fun map_insert :: "string \<Rightarrow> json \<Rightarrow> (string \<times> json) list \<Rightarrow> (string \<times> json) list" where
  "map_insert k v [] = [(k, v)]"
| "map_insert k v ((k', v') # es) =
     (if k = k' then (k, v) # es
      else if str_less k k' then (k, v) # (k', v') # es
      else (k', v') # map_insert k v es)"

section \<open>Data\<close>

definition MAX_VARIABLES_COUNT :: nat where "MAX_VARIABLES_COUNT = 1000"
definition MAX_FILTER_DEPTH :: nat where "MAX_FILTER_DEPTH = 64"
definition MAX_LOGICAL_DEPTH :: nat where "MAX_LOGICAL_DEPTH = 64"

definition BRACKET_OPERATORS :: "string list" where
  "BRACKET_OPERATORS = [''eq'', ''ne'', ''gt'', ''gte'', ''lt'', ''lte'', ''in'', ''nin'', ''like'', ''ilike'',
     ''icontains'', ''startswith'', ''istartswith'', ''endswith'', ''iendswith'', ''is_null'']"

definition RESERVED_PARAMS :: "string list" where
  "RESERVED_PARAMS = [''select'', ''sort'', ''limit'', ''offset'', ''first'', ''after'', ''last'', ''before'',
     ''filter'', ''search'', ''or'', ''and'', ''not'']"

datatype delete_response = NoContent | Entity

record rest_config =
  base_path :: string
  max_page_size :: nat
  default_page_size :: nat
  max_bulk_affected :: nat
  max_filter_bytes :: nat
  delete_response :: delete_response
  default_cache_ttl :: nat
  cdn_max_age :: "nat option"
  max_embedding_depth :: nat
  include_operations :: "string list"
  exclude_operations :: "string list"

datatype pagination_params =
    OffsetPage nat nat
  | CursorPage "nat option" "string option" "nat option" "string option"
  | NoPage

datatype rest_field_spec = AllFields | Fields "string list"

datatype select_entry =
    SelField string
  | SelEmbedded string "string option" "select_entry list"
  | SelCount string

record extracted_params =
  path_params :: "(string \<times> json) list"
  where_clause_param :: "json option"
  order_by_param :: "json option"
  pagination :: pagination_params
  field_selection :: rest_field_spec
  search_query :: "string option"
  embeddings :: "select_entry list"
  embedding_filters :: "string \<rightharpoonup> json"
  embedding_counts :: "string list"

record extractor =
  ex_config :: rest_config
  ex_query :: query_definition
  ex_type :: "type_definition option"

section \<open>Type coercion\<close>

definition json_int :: "int \<Rightarrow> json" where
  "json_int v = JNumber (if v < 0 then NegInt (word_of_int v) else PosInt (word_of_int v))"

text \<open>\<open>Number::from_f64\<close> has no infinities and no NaN.\<close>

definition number_from_f64 :: "u64 \<Rightarrow> json option" where
  "number_from_f64 bits = (if unat bits div 2 ^ 52 mod 2 ^ 11 = 2 ^ 11 - 1 then None else Some (JNumber (Float bits)))"

fun trim_start :: "string \<Rightarrow> string" where
  "trim_start [] = []"
| "trim_start (c # s) = (if is_whitespace c then trim_start s else c # s)"

definition trim :: "string \<Rightarrow> string" where
  "trim s = rev (trim_start (rev (trim_start s)))"

definition coerce_to_type :: "text_parsers \<Rightarrow> string \<Rightarrow> field_type \<Rightarrow> rest_failure + json" where
  "coerce_to_type P raw ft =
     (case ft of
        FT_Int \<Rightarrow>
          (case parse_i64 (utext_of raw) of
             Some v \<Rightarrow> Inr (json_int v)
           | None \<Rightarrow> Inl (Invalid (''Expected integer value, got '' @ [squote] @ raw @ [squote] @ ''.'')))
      | FT_Boolean \<Rightarrow>
          if raw \<in> {''true'', ''1'', ''yes''} then Inr (JBool True)
          else if raw \<in> {''false'', ''0'', ''no''} then Inr (JBool False)
          else Inl (Invalid (''Expected boolean value (true/false/1/0), got '' @ [squote] @ raw @ [squote] @ ''.''))
      | FT_Json \<Rightarrow>
          (case parse_json P raw of
             Some v \<Rightarrow> Inr v
           | None \<Rightarrow> Inl (Invalid (''Expected JSON value, got '' @ [squote] @ raw @ [squote])))
      | FT_List _ \<Rightarrow>
          (case parse_json P raw of
             Some (JArray xs) \<Rightarrow> Inr (JArray xs)
           | _ \<Rightarrow> Inr (JArray (map (\<lambda>s. JString (trim s)) (split_on CHR '','' raw))))
      | _ \<Rightarrow>
          if ft = FT_Float \<or> ft = FT_Decimal then
            (case parse_f64 P raw of
               Some v \<Rightarrow> Inr (case number_from_f64 v of Some n \<Rightarrow> n | None \<Rightarrow> JString raw)
             | None \<Rightarrow> Inl (Invalid (''Expected numeric value, got '' @ [squote] @ raw @ [squote] @ ''.'')))
          else Inr (JString raw))"

section \<open>Validation\<close>

definition validate_field_name :: "extractor \<Rightarrow> string \<Rightarrow> rest_failure + unit" where
  "validate_field_name ex name =
     (case ex_type ex of
        Some td \<Rightarrow>
          if find_field_by_output_name td name = None
          then Inl (Invalid (''Unknown field '' @ [squote] @ name @ [squote] @ ''.'')) else Inr ()
      | None \<Rightarrow> Inr ())"

definition validate_bracket_operator :: "string \<Rightarrow> rest_failure + unit" where
  "validate_bracket_operator oper =
     (if oper \<notin> set BRACKET_OPERATORS
      then Inl (Invalid (''Unknown bracket operator '' @ [squote] @ oper @ [squote] @ ''.'')) else Inr ())"

definition is_valid_field :: "extractor \<Rightarrow> string \<Rightarrow> bool" where
  "is_valid_field ex name =
     (case ex_type ex of Some td \<Rightarrow> find_field_by_output_name td name \<noteq> None | None \<Rightarrow> True)"

definition coerce_field_value :: "text_parsers \<Rightarrow> extractor \<Rightarrow> string \<Rightarrow> string \<Rightarrow> rest_failure + json" where
  "coerce_field_value P ex field raw =
     (case Option.bind (ex_type ex) (\<lambda>td. find_field_by_output_name td field) of
        Some fd \<Rightarrow> coerce_to_type P raw (fd_field_type fd)
      | None \<Rightarrow> Inr (JString raw))"

definition extract_path_params ::
  "text_parsers \<Rightarrow> extractor \<Rightarrow> (string \<times> string) list \<Rightarrow> rest_failure + (string \<times> json) list" where
  "extract_path_params P ex pairs =
     collect_results (\<lambda>(name, raw).
       try_bind
         (case find (\<lambda>a. fst a = name) (query_arguments (ex_query ex)) of
            Some a \<Rightarrow> coerce_to_type P raw (snd a)
          | None \<Rightarrow> Inr (JString raw))
         (\<lambda>v. Inr (name, v))) pairs"

text \<open>A key like \<open>name[icontains]\<close>.\<close>

definition parse_bracket_key :: "string \<Rightarrow> (string \<times> string) option" where
  "parse_bracket_key key =
     (if CHR ''['' \<in> set key \<and> CHR '']'' \<in> set key then
        (let op = length (takeWhile ((\<noteq>) CHR ''['') key); cl = length (takeWhile ((\<noteq>) CHR '']'') key) in
         if cl \<le> op + 1 \<or> cl \<noteq> length key - 1 then None
         else (let field = take op key; oper = take (cl - (op + 1)) (drop (op + 1) key) in
               if field = [] \<or> oper = [] then None else Some (field, oper)))
      else None)"

section \<open>Selection\<close>

text \<open>
  Byte slices of a string: \<open>boundary\<close> is the character position of a byte offset, if it is one.
\<close>

definition boundary :: "string \<Rightarrow> nat \<Rightarrow> nat option" where
  "boundary s b = find (\<lambda>i. utf8_len (take i s) = b) [0..<Suc (length s)]"

definition byte_slice :: "string \<Rightarrow> nat \<Rightarrow> nat \<Rightarrow> rest_failure + string" where
  "byte_slice s a b =
     (case (boundary s a, boundary s b) of
        (Some i, Some j) \<Rightarrow> if i \<le> j then Inr (drop i (take j s)) else Inl Panic
      | _ \<Rightarrow> Inl Panic)"

text \<open>The characters up to the parenthesis that closes a group of the given depth.\<close>

fun closing_paren :: "string \<Rightarrow> nat \<Rightarrow> nat option" where
  "closing_paren [] depth = None"
| "closing_paren (c # s) depth =
     (let depth' = (if c = CHR ''('' then depth + 1 else if c = CHR '')'' then depth - 1 else depth) in
      if depth' = 0 then Some 0 else map_option Suc (closing_paren s depth'))"

definition skip :: "(char \<Rightarrow> bool) \<Rightarrow> string \<Rightarrow> nat \<Rightarrow> nat" where
  "skip P s i = i + length (takeWhile P (drop i s))"

definition select_name_char :: "char \<Rightarrow> bool" where
  "select_name_char c \<longleftrightarrow> c \<noteq> CHR ''('' \<and> c \<noteq> CHR '','' \<and> c \<noteq> CHR ''.'' \<and> c \<noteq> CHR '' ''"

definition split_rename :: "string \<Rightarrow> string option \<times> string" where
  "split_rename name =
     (if CHR '':'' \<in> set name
      then (Some (takeWhile ((\<noteq>) CHR '':'') name), tl (dropWhile ((\<noteq>) CHR '':'') name))
      else (None, name))"

lemma skip_mono [simp]: "i \<le> skip P s i"
  by (simp add: skip_def)

lemma skip_trans: "i \<le> j \<Longrightarrow> i \<le> skip P s j" "i < j \<Longrightarrow> i < skip P s j"
  by (auto simp: skip_def)

lemma skip_bound: "i \<le> length s \<Longrightarrow> skip P s i \<le> length s"
  using length_takeWhile_le [of P "drop i s"] by (simp add: skip_def)

lemma boundary_Some: "boundary s b = Some i \<Longrightarrow> i \<le> length s \<and> utf8_len (take i s) = b"
  by (auto simp: boundary_def find_Some_iff nth_upt simp del: upt_Suc)

lemma byte_slice_shorter: "byte_slice s a b = Inr t \<Longrightarrow> 0 < a \<Longrightarrow> length t < length s"
proof -
  assume slice: "byte_slice s a b = Inr t" and a: "0 < a"
  then obtain i j where ij: "boundary s a = Some i" "boundary s b = Some j" "i \<le> j" "t = drop i (take j s)"
    by (auto simp: byte_slice_def split: option.splits if_splits)
  then have "0 < i" using a boundary_Some [OF ij(1)] by (cases i) auto
  then show "length t < length s" using ij boundary_Some [OF ij(2)] boundary_Some [OF ij(1)]
    by (simp add: min_absorb1, linarith)
qed

lemma byte_slice_empty: "byte_slice s a a = Inr t \<Longrightarrow> t = []"
  by (auto simp: byte_slice_def split: option.splits if_splits)

lemma trim_Nil [simp]: "trim [] = []"
  by (simp add: trim_def)

lemma named_slice_progress: "byte_slice s a b = Inr t \<Longrightarrow> trim t \<noteq> [] \<Longrightarrow> a \<le> b \<Longrightarrow> a < b"
  using byte_slice_empty [of s a t] by (cases "a = b") auto

lemma advance_less: "\<not> length s \<le> skip P s i \<Longrightarrow> skip P s i < k \<Longrightarrow> length s - k < length s - i"
  using skip_mono [of i P s] by linarith

text \<open>One round of the loop from position \<open>i\<close>; the entries from there on.\<close>

function select_loop :: "string \<Rightarrow> nat \<Rightarrow> rest_failure + select_entry list" where
  "select_loop input i =
     (let len = length input; start = skip (\<lambda>c. c = CHR '','' \<or> c = CHR '' '') input i in
      if start \<ge> len then Inr []
      else
        let after_name = skip select_name_char input start in
        try_bind (byte_slice input start after_name) (\<lambda>raw_name.
        let name = trim raw_name; i1 = skip ((=) CHR '' '') input after_name in
        if name = [] then Inl (Invalid ''Empty field name in `select` parameter'')
        else if i1 < len \<and> input ! i1 = CHR ''.'' then
          let suffix_start = i1 + 1; i2 = skip (\<lambda>c. c \<noteq> CHR '','' \<and> c \<noteq> CHR '' '') input suffix_start in
          try_bind (byte_slice input suffix_start i2) (\<lambda>suffix.
          if suffix = ''count'' then try_bind (select_loop input i2) (\<lambda>es. Inr (SelCount name # es))
          else Inl (Invalid (''Unsupported dot-suffix '' @ [squote] @ suffix @ [squote] @ '' in `select`.'')))
        else if i1 < len \<and> input ! i1 = CHR ''('' then
          let (rename, relationship) = split_rename name; inner_start = i1 + 1 in
          (case closing_paren (drop inner_start input) 1 of
             None \<Rightarrow> Inl (Invalid (''Unbalanced parentheses in `select` for '' @ [squote] @ relationship @ [squote]))
           | Some n \<Rightarrow>
               try_bind (byte_slice input inner_start (inner_start + n)) (\<lambda>inner.
               try_bind (select_loop inner 0) (\<lambda>sub.
               try_bind (select_loop input (inner_start + n + 1)) (\<lambda>es.
                 Inr (SelEmbedded relationship rename sub # es)))))
        else try_bind (select_loop input i1) (\<lambda>es. Inr (SelField name # es))))"
  by pat_completeness auto
termination select_loop
proof (relation "measures [\<lambda>(s, i). length s, \<lambda>(s, i). length s - i]", goal_cases)
  case (2 input i _ start)
  then show ?case using advance_less [of input _ i] by (simp add: skip_trans less_Suc_eq_le)
next
  case (3 input i)
  then show ?case by (simp add: byte_slice_shorter)
next
  case (4 input i)
  then show ?case using advance_less [of input _ i] by (simp add: skip_trans less_Suc_eq_le trans_le_add1 le_SucI)
next
  case (5 input i _ start after_name name)
  then have "start < after_name"
    using named_slice_progress [of input start after_name name] by simp
  with 5 show ?case using advance_less [of input _ i] by (simp add: skip_trans)
qed simp

declare select_loop.simps [simp del]

definition parse_select_entries :: "string \<Rightarrow> rest_failure + select_entry list" where
  "parse_select_entries input = select_loop input 0"

fun validate_embedding_depth :: "select_entry \<Rightarrow> nat \<Rightarrow> nat \<Rightarrow> rest_failure + unit" where
  "validate_embedding_depth (SelEmbedded rel rename sub) current_depth max_depth =
     (if current_depth > max_depth then
        Inl (Invalid (''Embedding depth '' @ show_nat current_depth @ '' exceeds maximum of '' @ show_nat max_depth @
          ''. Reduce nesting in `select` parameter.''))
      else
        try_bind (collect_results (\<lambda>e. validate_embedding_depth e (current_depth + 1) max_depth) sub)
          (\<lambda>_. Inr ()))"
| "validate_embedding_depth _ current_depth max_depth = Inr ()"

definition validate_embedding_relationship_name :: "extractor \<Rightarrow> string \<Rightarrow> rest_failure + unit" where
  "validate_embedding_relationship_name ex name =
     (case ex_type ex of
        None \<Rightarrow> Inl (Invalid (''Cannot embed '' @ [squote] @ name @ [squote] @ '': type definition not available''))
      | Some td \<Rightarrow>
          if name \<notin> set (map rel_name (relationships td)) then
            Inl (Invalid (''Type '' @ [squote] @ type_name td @ [squote] @ '' has no relationship '' @ [squote] @
              name @ [squote] @ ''.''))
          else Inr ())"

definition validate_select_entry :: "extractor \<Rightarrow> select_entry \<Rightarrow> rest_failure + unit" where
  "validate_select_entry ex e =
     (case e of
        SelField name \<Rightarrow> validate_field_name ex name
      | SelEmbedded rel rename sub \<Rightarrow>
          try_bind (validate_embedding_depth e 1 (max_embedding_depth (ex_config ex)))
            (\<lambda>_. validate_embedding_relationship_name ex rel)
      | SelCount name \<Rightarrow> validate_embedding_relationship_name ex name)"

definition flat_fields :: "select_entry list \<Rightarrow> string list" where
  "flat_fields es = concat (map (\<lambda>e. case e of SelField n \<Rightarrow> [n] | _ \<Rightarrow> []) es)"

definition embedded_specs :: "select_entry list \<Rightarrow> select_entry list" where
  "embedded_specs es = filter (\<lambda>e. case e of SelEmbedded _ _ _ \<Rightarrow> True | _ \<Rightarrow> False) es"

definition count_names :: "select_entry list \<Rightarrow> string list" where
  "count_names es = concat (map (\<lambda>e. case e of SelCount n \<Rightarrow> [n] | _ \<Rightarrow> []) es)"

definition parse_select_with_embeddings ::
  "extractor \<Rightarrow> string option \<Rightarrow> rest_failure + rest_field_spec \<times> select_entry list \<times> string list" where
  "parse_select_with_embeddings ex raw =
     (case raw of
        None \<Rightarrow> Inr (AllFields, [], [])
      | Some r \<Rightarrow>
          if r = [] then Inr (AllFields, [], [])
          else
            try_bind (parse_select_entries r) (\<lambda>es.
            try_bind (collect_results (validate_select_entry ex) es) (\<lambda>_.
            Inr (if flat_fields es = [] \<and> embedded_specs es \<noteq> [] then AllFields else Fields (flat_fields es),
                 embedded_specs es, count_names es))))"

section \<open>Embedding filters\<close>

text \<open>\<open>entry(k).or_insert_with(Object)\<close> followed by an insertion when the entry is an object.\<close>

definition object_insert :: "json option \<Rightarrow> string \<Rightarrow> json \<Rightarrow> json" where
  "object_insert entry k v =
     (case entry of
        None \<Rightarrow> JObject [(k, v)]
      | Some (JObject es) \<Rightarrow> JObject (map_insert k v es)
      | Some other \<Rightarrow> other)"

definition split_dot :: "string \<Rightarrow> (string \<times> string) option" where
  "split_dot s =
     (if CHR ''.'' \<in> set s then Some (takeWhile ((\<noteq>) CHR ''.'') s, tl (dropWhile ((\<noteq>) CHR ''.'') s)) else None)"

definition embedding_filter_step ::
  "(string \<rightharpoonup> json) \<Rightarrow> string \<times> string \<Rightarrow> (string \<rightharpoonup> json)" where
  "embedding_filter_step filters kv =
     (case kv of (key, value) \<Rightarrow>
        (case Option.bind (parse_bracket_key key) (\<lambda>(full_field, oper). map_option (\<lambda>d. (d, oper)) (split_dot full_field)) of
           Some ((rel, field), oper) \<Rightarrow>
             filters(rel \<mapsto> object_insert (filters rel) field (JObject [(oper, JString value)]))
         | None \<Rightarrow>
             (case split_dot key of
                Some (rel, field) \<Rightarrow>
                  if key \<in> set RESERVED_PARAMS then filters
                  else filters(rel \<mapsto> object_insert (filters rel) field (JObject [(''eq'', JString value)]))
              | None \<Rightarrow> filters)))"

definition extract_embedding_filters :: "(string \<times> string) list \<Rightarrow> string \<rightharpoonup> json" where
  "extract_embedding_filters query_pairs = foldl embedding_filter_step Map.empty query_pairs"

section \<open>Sorting\<close>

definition sort_part :: "extractor \<Rightarrow> string \<Rightarrow> rest_failure + json" where
  "sort_part ex part0 =
     (let part = trim part0;
          (field, dir) = (case part of c # stripped \<Rightarrow> if c = CHR ''-'' then (stripped, ''DESC'') else (part, ''ASC'')
                          | [] \<Rightarrow> (part, ''ASC''))
      in try_bind (validate_field_name ex field) (\<lambda>_.
         Inr (JObject [(''direction'', JString dir), (''field'', JString field)])))"

definition parse_sort :: "extractor \<Rightarrow> string option \<Rightarrow> rest_failure + json option" where
  "parse_sort ex raw =
     (case raw of
        None \<Rightarrow> Inr None
      | Some r \<Rightarrow>
          if r = [] then Inr None
          else try_bind (collect_results (sort_part ex) (split_on CHR '','' r)) (\<lambda>parts. Inr (Some (JArray parts))))"

section \<open>The filter parameter\<close>

fun json_depth :: "json \<Rightarrow> nat" where
  "json_depth (JObject es) = 1 + foldr (\<lambda>e m. max (json_depth (snd e)) m) es 0"
| "json_depth (JArray xs) = 1 + foldr (\<lambda>v m. max (json_depth v) m) xs 0"
| "json_depth _ = 1"

fun validate_filter_value :: "extractor \<Rightarrow> json \<Rightarrow> rest_failure + unit" where
  "validate_filter_value ex (JObject es) =
     try_bind (collect_results (\<lambda>e.
       if fst e \<in> {''_or'', ''_and'', ''_not''} then
         (case snd e of
            JArray xs \<Rightarrow> try_bind (collect_results (validate_filter_value ex) xs) (\<lambda>_. Inr ())
          | _ \<Rightarrow> Inr ())
       else
         try_bind (validate_field_name ex (fst e)) (\<lambda>_.
           (case snd e of
              JObject ops \<Rightarrow>
                (case find (\<lambda>n. \<not> is_operator n) (map fst ops) of
                   Some opn \<Rightarrow> Inl (Invalid (''Unknown filter operator '' @ [squote] @ opn @ [squote] @ ''.''))
                 | None \<Rightarrow> Inr ())
            | _ \<Rightarrow> Inr ()))) es) (\<lambda>_. Inr ())"
| "validate_filter_value ex _ = Inr ()"

definition parse_filter :: "text_parsers \<Rightarrow> extractor \<Rightarrow> string option \<Rightarrow> rest_failure + json option" where
  "parse_filter P ex raw =
     (case raw of
        None \<Rightarrow> Inr None
      | Some r \<Rightarrow>
          if utf8_len r > max_filter_bytes (ex_config ex) then
            Inl (Invalid (''Filter parameter exceeds maximum size ('' @ show_nat (utf8_len r) @
              '' bytes). Maximum allowed: '' @ show_nat (max_filter_bytes (ex_config ex)) @ '' bytes.''))
          else
            (case parse_json P r of
               None \<Rightarrow> Inl (Invalid ''Invalid filter JSON'')
             | Some parsed \<Rightarrow>
                 if json_depth parsed > MAX_FILTER_DEPTH then
                   Inl (Invalid (''Filter JSON exceeds maximum nesting depth ('' @ show_nat MAX_FILTER_DEPTH @ '').''))
                 else try_bind (validate_filter_value ex parsed) (\<lambda>_. Inr (Some parsed))))"

section \<open>The merged WHERE value\<close>

definition merge_simple :: "(string \<times> json) list \<Rightarrow> string \<times> json \<Rightarrow> (string \<times> json) list" where
  "merge_simple merged fv =
     (case fv of (field, value) \<Rightarrow> map_insert field (object_insert (map_of merged field) ''eq'' value) merged)"

fun merge_brackets ::
  "text_parsers \<Rightarrow> extractor \<Rightarrow> (string \<times> string \<times> string) list \<Rightarrow> (string \<times> json) list \<Rightarrow>
   rest_failure + (string \<times> json) list" where
  "merge_brackets P ex [] merged = Inr merged"
| "merge_brackets P ex ((field, oper, value) # bs) merged =
     try_bind (coerce_field_value P ex field value) (\<lambda>coerced.
       merge_brackets P ex bs (map_insert field (object_insert (map_of merged field) oper coerced) merged))"

text \<open>A missing entry is created as an empty object before the operators are merged into it.\<close>

definition merge_filter_entry :: "(string \<times> json) list \<Rightarrow> string \<times> json \<Rightarrow> (string \<times> json) list" where
  "merge_filter_entry merged kv =
     (case kv of (key, val) \<Rightarrow>
        (let entry = (case map_of merged key of Some e \<Rightarrow> e | None \<Rightarrow> JObject []) in
         case (entry, val) of
           (JObject existing, JObject new_ops) \<Rightarrow>
             map_insert key (JObject (foldl (\<lambda>es (oper, v). map_insert oper v es) existing new_ops)) merged
         | _ \<Rightarrow> map_insert key val merged))"

definition merge_where ::
  "text_parsers \<Rightarrow> extractor \<Rightarrow> (string \<times> json) list \<Rightarrow> (string \<times> string \<times> string) list \<Rightarrow> json option \<Rightarrow>
   rest_failure + json option" where
  "merge_where P ex simple bracket filter_value =
     (if simple = [] \<and> bracket = [] \<and> filter_value = None then Inr None
      else
        try_bind (merge_brackets P ex bracket (foldl merge_simple [] simple)) (\<lambda>merged.
        let merged' = (case Option.bind filter_value as_object of
                         Some filter_obj \<Rightarrow> foldl merge_filter_entry merged filter_obj
                       | None \<Rightarrow> merged)
        in Inr (if merged' = [] then None else Some (JObject merged'))))"

section \<open>Logical groups\<close>

text \<open>Splits at the commas outside parentheses; \<open>cur\<close> is the part read so far.\<close>

fun logical_parts :: "string \<Rightarrow> string \<Rightarrow> int \<Rightarrow> string list" where
  "logical_parts [] cur depth = (if cur = [] then [] else [cur])"
| "logical_parts (c # s) cur depth =
     (if c = CHR ''('' then logical_parts s (cur @ [c]) (depth + 1)
      else if c = CHR '')'' then logical_parts s (cur @ [c]) (depth - 1)
      else if c = CHR '','' \<and> depth = 0 then cur # logical_parts s [] depth
      else logical_parts s (cur @ [c]) depth)"

definition split_logical_parts :: "string \<Rightarrow> string list" where
  "split_logical_parts input = logical_parts input [] 0"

definition parenthesised :: "string \<Rightarrow> bool" where
  "parenthesised s \<longleftrightarrow> s \<noteq> [] \<and> hd s = CHR ''('' \<and> last s = CHR '')''"

definition strip_prefix :: "string \<Rightarrow> string \<Rightarrow> string option" where
  "strip_prefix p s = (if take (length p) s = p then Some (drop (length p) s) else None)"

fun first_nested :: "string list \<Rightarrow> string \<Rightarrow> (string \<times> string) option" where
  "first_nested [] part = None"
| "first_nested (oper # ops) part =
     (case strip_prefix (oper @ ''='') part of
        Some rest \<Rightarrow> if parenthesised rest then Some (oper, rest) else first_nested ops part
      | None \<Rightarrow> first_nested ops part)"

definition parse_nested_logical :: "string \<Rightarrow> (string \<times> string) option" where
  "parse_nested_logical part = first_nested [''and'', ''or'', ''not''] part"

definition parse_logical_value :: "text_parsers \<Rightarrow> string \<Rightarrow> json" where
  "parse_logical_value P raw =
     (case parse_i64 (utext_of raw) of
        Some v \<Rightarrow> json_int v
      | None \<Rightarrow>
          (case Option.bind (parse_f64 P raw) number_from_f64 of
             Some n \<Rightarrow> n
           | None \<Rightarrow> if raw = ''true'' then JBool True else if raw = ''false'' then JBool False else JString raw))"

definition split_at_first :: "char \<Rightarrow> string \<Rightarrow> (string \<times> string) option" where
  "split_at_first c s = (if c \<in> set s then Some (takeWhile ((\<noteq>) c) s, tl (dropWhile ((\<noteq>) c) s)) else None)"

text \<open>A part without \<open>=\<close> is dropped.\<close>

definition logical_condition :: "text_parsers \<Rightarrow> string \<Rightarrow> json list" where
  "logical_condition P part =
     (case split_at_first CHR ''='' part of
        None \<Rightarrow> []
      | Some (field_op, value) \<Rightarrow>
          (case parse_bracket_key field_op of
             Some (field, oper) \<Rightarrow> [JObject [(field, JObject [(oper, parse_logical_value P value)])]]
           | None \<Rightarrow> [JObject [(field_op, JObject [(''eq'', parse_logical_value P value)])]]))"

function parse_logical_group :: "text_parsers \<Rightarrow> string \<Rightarrow> string \<Rightarrow> nat \<Rightarrow> rest_failure + json" where
  "parse_logical_group P input dsl_key depth =
     (if depth > MAX_LOGICAL_DEPTH then
        Inl (Invalid (''Logical operator nesting depth exceeds maximum ('' @ show_nat MAX_LOGICAL_DEPTH @ '').''))
      else
        let trimmed = trim input in
        if \<not> parenthesised trimmed then
          Inl (Invalid (''Logical operator value must be enclosed in parentheses: `'' @ dsl_key @ ''=(...)`. Got: `'' @
            trimmed @ ''`''))
        else
          try_bind
            (collect_results (\<lambda>part0.
               let part = trim part0 in
               if part = [] then Inr []
               else
                 (case parse_nested_logical part of
                    Some (nested_op, nested_val) \<Rightarrow>
                      try_bind (parse_logical_group P nested_val (''_'' @ nested_op) (depth + 1)) (\<lambda>v. Inr [v])
                  | None \<Rightarrow> Inr (logical_condition P part)))
               (split_logical_parts (butlast (tl trimmed))))
            (\<lambda>conditions. Inr (JObject [(dsl_key, JArray (concat conditions))])))"
  by pat_completeness auto
termination parse_logical_group
  by (relation "measure (\<lambda>(_, _, _, depth). Suc MAX_LOGICAL_DEPTH - depth)") auto

declare parse_logical_group.simps [simp del]

definition parse_logical_groups ::
  "text_parsers \<Rightarrow> (string \<times> string) list \<Rightarrow> rest_failure + json list" where
  "parse_logical_groups P groups = collect_results (\<lambda>(oper, value). parse_logical_group P value (''_'' @ oper) 1) groups"

definition merge_where_with_logical ::
  "text_parsers \<Rightarrow> extractor \<Rightarrow> (string \<times> json) list \<Rightarrow> (string \<times> string \<times> string) list \<Rightarrow> json option \<Rightarrow> json list \<Rightarrow>
   rest_failure + json option" where
  "merge_where_with_logical P ex simple bracket filter_value logical =
     try_bind (merge_where P ex simple bracket filter_value) (\<lambda>regular.
       Inr (if logical = [] then regular
            else
              (case (regular, logical) of
                 (Some regular_where, _) \<Rightarrow> Some (JObject [(''_and'', JArray (regular_where # logical))])
               | (None, [g]) \<Rightarrow> Some g
               | (None, _) \<Rightarrow> Some (JObject [(''_and'', JArray logical)]))))"

section \<open>Pagination\<close>

definition invalid_number :: "string \<Rightarrow> string \<Rightarrow> string \<Rightarrow> rest_failure" where
  "invalid_number name s expected =
     Invalid (''Invalid `'' @ name @ ''` value: '' @ [squote] @ s @ [squote] @ ''. Expected a '' @ expected @ '' integer.'')"

definition parse_page_number :: "string \<Rightarrow> string \<Rightarrow> string \<Rightarrow> rest_failure + nat" where
  "parse_page_number name expected s =
     (case parse_u64 (utext_of s) of Some v \<Rightarrow> Inr v | None \<Rightarrow> Inl (invalid_number name s expected))"

definition parse_offset_pagination ::
  "rest_config \<Rightarrow> string option \<Rightarrow> string option \<Rightarrow> rest_failure + pagination_params" where
  "parse_offset_pagination config limit_raw offset_raw =
     try_bind
       (case limit_raw of
          Some s \<Rightarrow> try_bind (parse_page_number ''limit'' ''positive'' s) (\<lambda>v. Inr (min v (max_page_size config)))
        | None \<Rightarrow> Inr (default_page_size config)) (\<lambda>limit.
     try_bind
       (case offset_raw of Some s \<Rightarrow> parse_page_number ''offset'' ''non-negative'' s | None \<Rightarrow> Inr 0) (\<lambda>offset.
     Inr (OffsetPage limit offset)))"

definition parse_cursor_pagination ::
  "rest_config \<Rightarrow> string option \<Rightarrow> string option \<Rightarrow> string option \<Rightarrow> string option \<Rightarrow> rest_failure + pagination_params" where
  "parse_cursor_pagination config first_raw after_raw last_raw before_raw =
     try_bind
       (case first_raw of
          Some s \<Rightarrow>
            try_bind (parse_page_number ''first'' ''positive'' s) (\<lambda>v. Inr (Some (min v (max_page_size config))))
        | None \<Rightarrow>
            Inr (if after_raw = None \<and> last_raw = None \<and> before_raw = None
                 then Some (default_page_size config) else None)) (\<lambda>first.
     try_bind
       (case last_raw of
          Some s \<Rightarrow> try_bind (parse_page_number ''last'' ''positive'' s) (\<lambda>v. Inr (Some v))
        | None \<Rightarrow> Inr None) (\<lambda>last.
     Inr (CursorPage first after_raw last before_raw)))"

section \<open>Extraction\<close>

text \<open>The query parameters sorted by kind; of a repeated parameter the last value counts.\<close>

record raw_params =
  simple_filters :: "(string \<times> json) list"
  bracket_filters :: "(string \<times> string \<times> string) list"
  reserved :: "string \<rightharpoonup> string"
  logical_groups :: "(string \<times> string) list"

definition no_raw_params :: raw_params where
  "no_raw_params = \<lparr>simple_filters = [], bracket_filters = [], reserved = Map.empty, logical_groups = []\<rparr>"

definition classify_param ::
  "text_parsers \<Rightarrow> extractor \<Rightarrow> string \<times> string \<Rightarrow> raw_params \<Rightarrow> rest_failure + raw_params" where
  "classify_param P ex kv raw =
     (case kv of (key, value) \<Rightarrow>
        if CHR ''.'' \<in> set key \<and> key \<notin> set RESERVED_PARAMS then Inr raw
        else
          (case parse_bracket_key key of
             Some (field, oper) \<Rightarrow>
               if CHR ''.'' \<in> set field then Inr raw
               else
                 try_bind (validate_bracket_operator oper) (\<lambda>_.
                 try_bind (validate_field_name ex field) (\<lambda>_.
                 Inr (raw\<lparr>bracket_filters := bracket_filters raw @ [(field, oper, value)]\<rparr>)))
           | None \<Rightarrow>
               if key \<in> {''or'', ''and'', ''not''} then
                 Inr (raw\<lparr>logical_groups := logical_groups raw @ [(key, value)]\<rparr>)
               else if key \<in> set RESERVED_PARAMS then Inr (raw\<lparr>reserved := (reserved raw)(key \<mapsto> value)\<rparr>)
               else if returns_list (ex_query ex) \<and> is_valid_field ex key then
                 try_bind (coerce_field_value P ex key value) (\<lambda>coerced.
                 Inr (raw\<lparr>simple_filters := simple_filters raw @ [(key, coerced)]\<rparr>))
               else if \<not> returns_list (ex_query ex) then
                 Inl (Invalid (''Unknown query parameter '' @ [squote] @ key @ [squote] @
                   '' for single-resource endpoint. Available parameters: select''))
               else Inl (Invalid (''Unknown query parameter '' @ [squote] @ key @ [squote] @ ''.''))))"

fun classify_params ::
  "text_parsers \<Rightarrow> extractor \<Rightarrow> (string \<times> string) list \<Rightarrow> raw_params \<Rightarrow> rest_failure + raw_params" where
  "classify_params P ex [] raw = Inr raw"
| "classify_params P ex (kv # kvs) raw =
     try_bind (classify_param P ex kv raw) (\<lambda>raw'. classify_params P ex kvs raw')"

definition pagination_guard :: "extractor \<Rightarrow> (string \<rightharpoonup> string) \<Rightarrow> rest_failure + unit" where
  "pagination_guard ex res =
     (if returns_list (ex_query ex) then
        let has_offset_params = (res ''limit'' \<noteq> None \<or> res ''offset'' \<noteq> None);
            has_cursor_params = (res ''first'' \<noteq> None \<or> res ''after'' \<noteq> None \<or> res ''last'' \<noteq> None \<or> res ''before'' \<noteq> None)
        in if relay (ex_query ex) \<and> has_offset_params then
             Inl (Invalid (''This endpoint uses cursor-based pagination. '' @
               ''Use `first`/`after`/`last`/`before` instead of `limit`/`offset`.''))
           else if \<not> relay (ex_query ex) \<and> has_cursor_params then
             Inl (Invalid (''This endpoint uses offset-based pagination. '' @
               ''Use `limit`/`offset` instead of `first`/`after`/`last`/`before`.''))
           else Inr ()
      else Inr ())"

definition parse_search :: "extractor \<Rightarrow> string option \<Rightarrow> rest_failure + string option" where
  "parse_search ex search_raw =
     (case search_raw of
        None \<Rightarrow> Inr None
      | Some raw \<Rightarrow>
          if \<not> returns_list (ex_query ex) then
            Inl (Invalid ''Full-text search not available on single-resource endpoints.'')
          else
            (case ex_type ex of
               Some td \<Rightarrow>
                 if searchable_fields td = [] then
                   Inl (Invalid (''Full-text search not available on '' @ [squote] @ type_name td @ [squote] @
                     ''. No searchable fields configured.''))
                 else Inr (Some raw)
             | None \<Rightarrow> Inr (Some raw)))"

definition parse_pagination :: "extractor \<Rightarrow> (string \<rightharpoonup> string) \<Rightarrow> rest_failure + pagination_params" where
  "parse_pagination ex res =
     (if \<not> returns_list (ex_query ex) then Inr NoPage
      else if relay (ex_query ex) then
        parse_cursor_pagination (ex_config ex) (res ''first'') (res ''after'') (res ''last'') (res ''before'')
      else parse_offset_pagination (ex_config ex) (res ''limit'') (res ''offset''))"

definition count_where_fields :: "json \<Rightarrow> nat" where
  "count_where_fields value = (case value of JObject es \<Rightarrow> length es | _ \<Rightarrow> 1)"

definition total_count :: "extracted_params \<Rightarrow> nat" where
  "total_count ep =
     length (path_params ep)
     + (case where_clause_param ep of Some w \<Rightarrow> count_where_fields w | None \<Rightarrow> 0)
     + (case order_by_param ep of Some _ \<Rightarrow> 1 | None \<Rightarrow> 0)
     + (case pagination ep of
          OffsetPage _ _ \<Rightarrow> 2
        | CursorPage f a l b \<Rightarrow> of_bool (f \<noteq> None) + of_bool (a \<noteq> None) + of_bool (l \<noteq> None) + of_bool (b \<noteq> None)
        | NoPage \<Rightarrow> 0)
     + (case field_selection ep of AllFields \<Rightarrow> 0 | Fields fs \<Rightarrow> length fs)
     + length (embeddings ep) + length (embedding_counts ep)"

definition extract_params ::
  "text_parsers \<Rightarrow> extractor \<Rightarrow> (string \<times> string) list \<Rightarrow> (string \<times> string) list \<Rightarrow> rest_failure + extracted_params" where
  "extract_params P ex path_pairs query_pairs =
     try_bind (extract_path_params P ex path_pairs) (\<lambda>path.
     try_bind (classify_params P ex query_pairs no_raw_params) (\<lambda>raw.
     let res = reserved raw in
     try_bind (pagination_guard ex res) (\<lambda>_.
     try_bind (parse_select_with_embeddings ex (res ''select'')) (\<lambda>(fields, embedded, counts).
     try_bind (parse_sort ex (res ''sort'')) (\<lambda>order.
     try_bind (parse_search ex (res ''search'')) (\<lambda>search.
     try_bind (parse_logical_groups P (logical_groups raw)) (\<lambda>logical.
     try_bind (parse_filter P ex (res ''filter'')) (\<lambda>filter_where.
     try_bind (merge_where_with_logical P ex (simple_filters raw) (bracket_filters raw) filter_where logical) (\<lambda>where_value.
     try_bind (parse_pagination ex res) (\<lambda>page.
     let ep = \<lparr>path_params = path, where_clause_param = where_value, order_by_param = order, pagination = page,
               field_selection = fields, search_query = search, embeddings = embedded,
               embedding_filters = extract_embedding_filters query_pairs, embedding_counts = counts\<rparr>
     in if total_count ep > MAX_VARIABLES_COUNT then
          Inl (Invalid (''Too many parameters ('' @ show_nat (total_count ep) @ ''). Maximum allowed: '' @
            show_nat MAX_VARIABLES_COUNT @ ''.''))
        else Inr ep))))))))))"

end
