(* ===== verification/Rest_Routes.thy ===== *)
theory Rest_Routes
  imports Rest_Params Field_Access
begin

text \<open>
  The REST route table: its derivation from the compiled schema
  (\<open>fraiseql-server/src/routes/rest/resource.rs\<close>) and the resolution of a request path
  (\<open>fraiseql-server/src/routes/rest/handler.rs\<close>, \<open>RestRouteTable::resolve\<close>).

  \<^item> Diagnostics are values of a datatype with the data their messages print.
  \<^item> The hash maps that group operations by return type are read in the sorted order of the types,
    as in the source, so a group is a filter of the schema's list.
\<close>

section \<open>Schema\<close>

datatype mutation_operation = MInsert string | MUpdate string | MDelete string | MCustom

text \<open>A literal of the schema; a float is its bit pattern, as in \<open>Json\<close>.\<close>

datatype graphql_value =
    GV_Null
  | GV_Boolean bool
  | GV_Int "64 word"
  | GV_Float u64
  | GV_String string
  | GV_List "graphql_value list"
  | GV_Object "(string \<times> graphql_value) list"

record argument_definition =
  arg_name :: string
  arg_type :: field_type
  arg_nullable :: bool
  default_value :: "graphql_value option"

definition required_arg :: "string \<Rightarrow> field_type \<Rightarrow> argument_definition" where
  "required_arg name t = \<lparr>arg_name = name, arg_type = t, arg_nullable = False, default_value = None\<rparr>"

definition typed_arg :: "argument_definition \<Rightarrow> string \<times> field_type" where
  "typed_arg a = (arg_name a, arg_type a)"

record union_definition =
  union_name :: string
  member_types :: "string list"

text \<open>Of an input object, the names of its fields in their order.\<close>

record input_object_definition =
  input_name :: string
  input_fields :: "string list"

datatype session_variable_source = SessionJwt string | SessionHeader string | SessionLiteral string

record session_variables_config =
  session_mappings :: "(string \<times> session_variable_source) list"
  inject_started_at :: bool

datatype naming_convention = CamelCase | Preserve

record mutation_definition =
  mutation_name :: string
  mutation_return_type :: string
  mutation_arguments :: "argument_definition list"
  mutation_operation :: mutation_operation
  mutation_rest_path :: "string option"
  mutation_rest_method :: "string option"
  upsert_function :: "string option"
  mutation_sql_source :: "string option"
  mutation_inject_params :: "(string \<times> injected_param_source) list"
  invalidates_fact_tables :: "string list"
  invalidates_views :: "string list"

record compiled_schema =
  schema_types :: "type_definition list"
  schema_queries :: "query_definition list"
  schema_mutations :: "mutation_definition list"
  schema_rest_config :: "rest_config option"
  schema_unions :: "union_definition list"
  schema_input_types :: "input_object_definition list"
  session_variables :: session_variables_config
  naming_convention :: naming_convention

definition is_primary_key :: "field_definition \<Rightarrow> bool" where
  "is_primary_key f \<longleftrightarrow> field_name f = ''id'' \<or> starts_with ''pk_'' (field_name f)"

definition writable_fields :: "type_definition \<Rightarrow> field_definition list" where
  "writable_fields td = filter (\<lambda>f. \<not> is_primary_key f) (type_fields td)"

definition rest_config_default :: rest_config where
  "rest_config_default =
     \<lparr>base_path = ''/rest/v1'', max_page_size = 1000, default_page_size = 100, max_bulk_affected = 10000,
      max_filter_bytes = 4096,
      delete_response = NoContent, default_cache_ttl = 0, cdn_max_age = None, max_embedding_depth = 3,
      include_operations = [], exclude_operations = []\<rparr>"

section \<open>Routes\<close>

datatype http_method = Get | Post | Put | Patch | Delete

definition method_text :: "http_method \<Rightarrow> string" where
  "method_text hm = (case hm of Get \<Rightarrow> ''GET'' | Post \<Rightarrow> ''POST'' | Put \<Rightarrow> ''PUT'' | Patch \<Rightarrow> ''PATCH'' | Delete \<Rightarrow> ''DELETE'')"

definition parse_http_method :: "string \<Rightarrow> http_method option" where
  "parse_http_method s =
     (let u = to_ascii_uppercase s in
      if u = ''GET'' then Some Get else if u = ''POST'' then Some Post else if u = ''PUT'' then Some Put
      else if u = ''PATCH'' then Some Patch else if u = ''DELETE'' then Some Delete else None)"

datatype update_coverage = Full | Partial

datatype route_source = RQuery (source_operation: string) | RMutation (source_operation: string)

record rest_route =
  route_method :: http_method
  route_path :: string
  route_source :: route_source
  route_coverage :: "update_coverage option"
  success_status :: nat

record rest_resource =
  resource_name :: string
  resource_type :: string
  id_arg :: "string option"
  resource_routes :: "rest_route list"

datatype diagnostic =
    DerivedName string string
  | PrimaryKeyPath string string
  | Classified string string update_coverage
  | ReadsWriteTable string string
  | WritesView string string
  | KeyFieldType string field_type
  | IntegerId string
  | RouteConflict http_method string string string

record rest_route_table =
  table_base_path :: string
  resources :: "rest_resource list"
  diagnostics :: "diagnostic list"

section \<open>Names\<close>

definition ends_with :: "string \<Rightarrow> string \<Rightarrow> bool" where
  "ends_with suf s \<longleftrightarrow> strip_suffix suf s \<noteq> None"

definition should_skip_query :: "query_definition \<Rightarrow> bool" where
  "should_skip_query q \<longleftrightarrow> ends_with ''_aggregate'' (query_name q) \<or> ends_with ''_window'' (query_name q)"

definition is_filtered_out :: "string \<Rightarrow> rest_config \<Rightarrow> bool" where
  "is_filtered_out name config \<longleftrightarrow>
     (include_operations config \<noteq> [] \<and> name \<notin> set (include_operations config)) \<or>
     name \<in> set (exclude_operations config)"

definition strip_cqrs_prefix :: "string \<Rightarrow> string" where
  "strip_cqrs_prefix name =
     (case strip_prefix ''v_'' name of
        Some r \<Rightarrow> r
      | None \<Rightarrow>
          (case strip_prefix ''tv_'' name of
             Some r \<Rightarrow> r
           | None \<Rightarrow> (case strip_prefix ''tb_'' name of Some r \<Rightarrow> r | None \<Rightarrow> name)))"

definition to_ascii_lowercase :: "string \<Rightarrow> string" where
  "to_ascii_lowercase s = map (\<lambda>c. if 65 \<le> code c \<and> code c \<le> 90 then char_of (code c + 32) else c) s"

text \<open>An upper-case letter behind the first character gets the separator in front.\<close>

definition separate_words :: "char \<Rightarrow> string \<Rightarrow> string" where
  "separate_words sep s =
     concat (map (\<lambda>(i, c). (if is_uppercase c \<and> i > 0 then [sep] else []) @ to_ascii_lowercase [c]) (enumerate 0 s))"

definition type_name_to_snake :: "string \<Rightarrow> string" where
  "type_name_to_snake name = separate_words CHR ''_'' name"

definition camel_to_kebab :: "string \<Rightarrow> string" where
  "camel_to_kebab s =
     (let result = separate_words CHR ''-'' s in if starts_with ''-'' result then tl result else result)"

definition simple_pluralize :: "string \<Rightarrow> string" where
  "simple_pluralize word =
     (if ends_with ''ics'' word \<or> ends_with ''ies'' word then word
      else if ends_with ''ss'' word \<or> ends_with ''x'' word \<or> ends_with ''ch'' word \<or> ends_with ''sh'' word
      then word @ ''es''
      else if ends_with ''s'' word then word @ ''es''
      else if ends_with ''y'' word \<and> \<not> ends_with ''ey'' word \<and> \<not> ends_with ''ay'' word \<and> \<not> ends_with ''oy'' word
      then butlast word @ ''ies''
      else word @ ''s'')"

definition derive_resource_name :: "string \<Rightarrow> query_definition list \<Rightarrow> string \<times> diagnostic list" where
  "derive_resource_name ty queries =
     (let last_resort = (let name = simple_pluralize (type_name_to_snake ty) in (name, [DerivedName ty name])) in
      case find returns_list queries of
        Some q \<Rightarrow> (query_name q, [])
      | None \<Rightarrow>
          (case queries of
             [] \<Rightarrow> last_resort
           | q # _ \<Rightarrow>
               (case sql_source q of
                  None \<Rightarrow> last_resort
                | Some sql \<Rightarrow>
                    let stripped = strip_cqrs_prefix sql in
                    if stripped \<noteq> [] then (simple_pluralize stripped, []) else last_resort)))"

text \<open>\<open>str::find\<close> of a substring.\<close>

fun find_substring :: "string \<Rightarrow> string \<Rightarrow> nat option" where
  "find_substring p [] = (if p = [] then Some 0 else None)"
| "find_substring p (c # s) = (if starts_with p (c # s) then Some 0 else map_option Suc (find_substring p s))"

definition derive_action_name :: "string \<Rightarrow> string \<Rightarrow> string" where
  "derive_action_name mutation ty =
     camel_to_kebab
       (case find_substring (to_ascii_lowercase ty) (to_ascii_lowercase mutation) of
          Some pos \<Rightarrow> take pos mutation @ drop (pos + length ty) mutation
        | None \<Rightarrow> mutation)"

section \<open>Derivation\<close>

definition is_id_like_type :: "field_type \<Rightarrow> bool" where
  "is_id_like_type ft \<longleftrightarrow> ft \<in> {FT_Id, FT_Uuid, FT_Int, FT_String}"

definition is_id_like_arg :: "string \<times> field_type \<Rightarrow> bool" where
  "is_id_like_arg a \<longleftrightarrow> (fst a = ''id'' \<or> starts_with ''pk_'' (fst a)) \<and> is_id_like_type (snd a)"

definition detect_id_arg ::
  "type_definition \<Rightarrow> mutation_definition list \<Rightarrow> query_definition list \<Rightarrow> string option \<times> diagnostic list" where
  "detect_id_arg td mutations queries =
     (let all_args = map typed_arg (concat (map mutation_arguments mutations)) @
            concat (map query_arguments (filter (\<lambda>q. \<not> returns_list q) queries))
      in case find (\<lambda>a. fst a = ''id'' \<and> is_id_like_type (snd a)) all_args of
           Some a \<Rightarrow> (Some (fst a), [])
         | None \<Rightarrow>
             (case find (\<lambda>a. starts_with ''pk_'' (fst a) \<and> is_id_like_type (snd a)) all_args of
                Some a \<Rightarrow> (Some (fst a), [PrimaryKeyPath (type_name td) (fst a)])
              | None \<Rightarrow>
                  if find_field td ''id'' \<noteq> None then (Some ''id'', [])
                  else
                    (case find (\<lambda>f. starts_with ''pk_'' (field_name f)) (type_fields td) of
                       Some pk \<Rightarrow> (Some (field_name pk), [PrimaryKeyPath (type_name td) (field_name pk)])
                     | None \<Rightarrow> (None, []))))"

definition validate_cqrs_query :: "string \<Rightarrow> string \<Rightarrow> diagnostic list" where
  "validate_cqrs_query sql name = (if starts_with ''tb_'' sql then [ReadsWriteTable name sql] else [])"

definition validate_cqrs_mutation :: "mutation_operation \<Rightarrow> string \<Rightarrow> diagnostic list" where
  "validate_cqrs_mutation oper name =
     (case (case oper of MInsert t \<Rightarrow> Some t | MUpdate t \<Rightarrow> Some t | MDelete t \<Rightarrow> Some t | MCustom \<Rightarrow> None) of
        None \<Rightarrow> []
      | Some table \<Rightarrow> if starts_with ''v_'' table \<or> starts_with ''tv_'' table then [WritesView name table] else [])"

definition validate_field_types :: "type_definition \<Rightarrow> diagnostic list" where
  "validate_field_types td =
     concat (map (\<lambda>f.
       let name = field_name f in
       if starts_with ''pk_'' name \<or> starts_with ''fk_'' name then
         (if fd_field_type f \<notin> {FT_Int, FT_Id} then [KeyFieldType name (fd_field_type f)] else [])
       else if name = ''id'' \<and> fd_field_type f = FT_Int then [IntegerId (type_name td)] else []) (type_fields td))"

definition classify_update_coverage :: "mutation_definition \<Rightarrow> string list \<Rightarrow> update_coverage" where
  "classify_update_coverage m writable_names =
     (let arg_names = map fst (filter (\<lambda>a. \<not> is_id_like_arg a) (map typed_arg (mutation_arguments m))) in
      if list_all (\<lambda>wf. wf \<in> set arg_names) writable_names then Full else Partial)"

definition collection_path :: "string \<Rightarrow> string" where
  "collection_path resource = ''/'' @ resource"

definition item_path :: "string \<Rightarrow> string \<Rightarrow> string" where
  "item_path resource ident = ''/'' @ resource @ ''/{'' @ ident @ ''}''"

definition query_route :: "string \<Rightarrow> string option \<Rightarrow> query_definition \<Rightarrow> rest_route list" where
  "query_route resource ident q =
     (let route = (\<lambda>hm path. \<lparr>route_method = hm, route_path = path, route_source = RQuery (query_name q),
                    route_coverage = None, success_status = 200\<rparr>)
      in case query_rest_path q of
           Some override \<Rightarrow>
             [route (case Option.bind (query_rest_method q) parse_http_method of Some hm \<Rightarrow> hm | None \<Rightarrow> Get) override]
         | None \<Rightarrow>
             if returns_list q then [route Get (collection_path resource)]
             else (case ident of Some i \<Rightarrow> [route Get (item_path resource i)] | None \<Rightarrow> []))"

definition derive_mutation_routes ::
  "mutation_definition \<Rightarrow> string \<Rightarrow> string \<Rightarrow> string option \<Rightarrow> string list \<Rightarrow> rest_config \<Rightarrow>
   rest_route list \<times> diagnostic list" where
  "derive_mutation_routes m ty resource ident writable_names config =
     (let route = (\<lambda>hm path cov status. \<lparr>route_method = hm, route_path = path,
            route_source = RMutation (mutation_name m), route_coverage = cov, success_status = status\<rparr>);
          action = derive_action_name (mutation_name m) ty
      in case mutation_operation m of
           MInsert _ \<Rightarrow> ([route Post (collection_path resource) None 201], [])
         | MUpdate _ \<Rightarrow>
             (let coverage = classify_update_coverage m writable_names in
              ((case (coverage, ident) of
                  (Full, Some i) \<Rightarrow>
                    [route Put (item_path resource i) (Some Full) 200, route Patch (item_path resource i) (Some Full) 200]
                | (Partial, Some i) \<Rightarrow> [route Patch (item_path resource i @ ''/'' @ action) (Some Partial) 200]
                | (_, None) \<Rightarrow> []),
               [Classified (mutation_name m) ty coverage]))
         | MDelete _ \<Rightarrow>
             ((case ident of
                 Some i \<Rightarrow> [route Delete (item_path resource i) None (if delete_response config = Entity then 200 else 204)]
               | None \<Rightarrow> []), [])
         | MCustom \<Rightarrow>
             ((case ident of
                 Some i \<Rightarrow> [route Post (item_path resource i @ ''/'' @ action) None 200]
               | None \<Rightarrow> [route Post (collection_path resource @ ''/'' @ action) None 200]), []))"

definition mutation_route ::
  "mutation_definition \<Rightarrow> string \<Rightarrow> string \<Rightarrow> string option \<Rightarrow> string list \<Rightarrow> rest_config \<Rightarrow>
   rest_route list \<times> diagnostic list" where
  "mutation_route m ty resource ident writable_names config =
     (case mutation_rest_path m of
        Some override \<Rightarrow>
          ([\<lparr>route_method = (case Option.bind (mutation_rest_method m) parse_http_method of Some hm \<Rightarrow> hm | None \<Rightarrow> Post),
             route_path = override, route_source = RMutation (mutation_name m), route_coverage = None,
             success_status = 200\<rparr>], [])
      | None \<Rightarrow> derive_mutation_routes m ty resource ident writable_names config)"

definition derive_resource ::
  "string \<Rightarrow> type_definition \<Rightarrow> query_definition list \<Rightarrow> mutation_definition list \<Rightarrow> rest_config \<Rightarrow>
   rest_resource option \<times> diagnostic list" where
  "derive_resource ty td queries mutations config =
     (let (resource, d1) = derive_resource_name ty queries;
          d2 = concat (map (\<lambda>q. case sql_source q of Some sql \<Rightarrow> validate_cqrs_query sql (query_name q) | None \<Rightarrow> []) queries);
          d3 = concat (map (\<lambda>m. validate_cqrs_mutation (mutation_operation m) (mutation_name m)) mutations);
          d4 = validate_field_types td;
          (ident, d5) = detect_id_arg td mutations queries;
          writable_names = map field_name (writable_fields td);
          derived = map (\<lambda>m. mutation_route m ty resource ident writable_names config) mutations;
          routes = concat (map (query_route resource ident) queries) @ concat (map fst derived)
      in (if routes = [] then None
          else Some \<lparr>resource_name = resource, resource_type = ty, id_arg = ident, resource_routes = routes\<rparr>,
          d1 @ d2 @ d3 @ d4 @ d5 @ concat (map snd derived)))"

text \<open>The first route whose method and path an earlier route already has, with that route's operation.\<close>

fun detect_conflicts :: "rest_route list \<Rightarrow> (http_method \<times> string \<rightharpoonup> string) \<Rightarrow> diagnostic + unit" where
  "detect_conflicts [] seen = Inr ()"
| "detect_conflicts (r # rs) seen =
     (let key = (route_method r, route_path r); current = source_operation (route_source r) in
      case seen key of
        Some prev \<Rightarrow> Inl (RouteConflict (route_method r) (route_path r) prev current)
      | None \<Rightarrow> detect_conflicts rs (seen(key \<mapsto> current)))"

fun insert_name :: "string \<Rightarrow> string list \<Rightarrow> string list" where
  "insert_name n [] = [n]"
| "insert_name n (k # ks) = (if n = k then k # ks else if str_less n k then n # k # ks else k # insert_name n ks)"

definition exposed_queries :: "compiled_schema \<Rightarrow> rest_config \<Rightarrow> query_definition list" where
  "exposed_queries schema config =
     filter (\<lambda>q. \<not> should_skip_query q \<and> \<not> is_filtered_out (query_name q) config \<and>
       find_type (schema_types schema) (return_type q) \<noteq> None) (schema_queries schema)"

definition exposed_mutations :: "compiled_schema \<Rightarrow> rest_config \<Rightarrow> mutation_definition list" where
  "exposed_mutations schema config =
     filter (\<lambda>m. \<not> is_filtered_out (mutation_name m) config \<and>
       find_type (schema_types schema) (mutation_return_type m) \<noteq> None) (schema_mutations schema)"

definition from_compiled_schema :: "compiled_schema \<Rightarrow> diagnostic + rest_route_table" where
  "from_compiled_schema schema =
     (let config = (case schema_rest_config schema of Some c \<Rightarrow> c | None \<Rightarrow> rest_config_default);
          queries = exposed_queries schema config;
          mutations = exposed_mutations schema config;
          all_types = foldr insert_name (map return_type queries @ map mutation_return_type mutations) [];
          derived = List.map_filter (\<lambda>ty.
            map_option (\<lambda>td. derive_resource ty td (filter (\<lambda>q. return_type q = ty) queries)
              (filter (\<lambda>m. mutation_return_type m = ty) mutations) config)
            (find_type (schema_types schema) ty)) all_types;
          found = List.map_filter fst derived
      in try_bind (detect_conflicts (concat (map resource_routes found)) Map.empty) (\<lambda>_.
           Inr \<lparr>table_base_path = base_path config, resources = found, diagnostics = concat (map snd derived)\<rparr>))"

section \<open>Resolution\<close>

text \<open>The non-empty segments of a path; leading slashes do not matter for them.\<close>

definition path_segments :: "string \<Rightarrow> string list" where
  "path_segments path = filter (\<lambda>s. s \<noteq> []) (split_on CHR ''/'' (dropWhile ((=) CHR ''/'') path))"

definition is_parameter :: "string \<Rightarrow> bool" where
  "is_parameter pattern \<longleftrightarrow> pattern \<noteq> [] \<and> hd pattern = CHR ''{'' \<and> last pattern = CHR ''}''"

fun match_segments :: "string list \<Rightarrow> string list \<Rightarrow> (string \<times> string) list option" where
  "match_segments [] [] = Some []"
| "match_segments (p # ps) (s # ss) =
     (if is_parameter p then map_option (\<lambda>r. (butlast (tl p), s) # r) (match_segments ps ss)
      else if p \<noteq> s then None
      else match_segments ps ss)"
| "match_segments _ _ = None"

definition match_route_path :: "string \<Rightarrow> string list \<Rightarrow> (string \<times> string) list option" where
  "match_route_path pattern segments = match_segments (path_segments pattern) segments"

fun resolve_routes :: "rest_route list \<Rightarrow> http_method \<Rightarrow> string list \<Rightarrow> (rest_route \<times> (string \<times> string) list) option" where
  "resolve_routes [] hm segments = None"
| "resolve_routes (r # rs) hm segments =
     (if route_method r \<noteq> hm then resolve_routes rs hm segments
      else
        (case match_route_path (route_path r) segments of
           Some params \<Rightarrow> Some (r, params)
         | None \<Rightarrow> resolve_routes rs hm segments))"

definition table_routes :: "rest_route_table \<Rightarrow> rest_route list" where
  "table_routes table = concat (map resource_routes (resources table))"

definition resolve :: "rest_route_table \<Rightarrow> string \<Rightarrow> http_method \<Rightarrow> (rest_route \<times> (string \<times> string) list) option" where
  "resolve table relative_path hm = resolve_routes (table_routes table) hm (path_segments relative_path)"

end
