(* ===== verification/Rest_Handler.thy ===== *)
theory Rest_Handler
  imports Rest_Routes
begin

text \<open>
  The REST handler (\<open>fraiseql-server/src/routes/rest/handler.rs\<close>): the \<open>Prefer\<close> header, errors, the
  query of a GET request, response headers (\<open>cache_control.rs\<close>) and bodies.

  \<^item> Header values are ASCII text, as \<open>HeaderValue::to_str\<close> guarantees, so a prefix of \<open>n\<close> characters
    is one of \<open>n\<close> bytes. Response headers are a list in the order of insertion.
  \<^item> The database is an argument, as is the request identifier that is generated when a request has
    none.
\<close>

section \<open>The Prefer header\<close>

datatype count_mode = Exact | Planned | Estimated
datatype handling_preference = Lenient | Strict

record prefer_header =
  count_exact :: bool
  count_planned :: bool
  count_estimated :: bool
  return_representation :: bool
  return_minimal :: bool
  resolution :: "string option"
  tx_rollback :: bool
  handling :: "handling_preference option"
  max_affected :: "nat option"

definition prefer_default :: prefer_header where
  "prefer_default = \<lparr>count_exact = False, count_planned = False, count_estimated = False,
     return_representation = False, return_minimal = False, resolution = None, tx_rollback = False,
     handling = None, max_affected = None\<rparr>"

definition count_preference :: "prefer_header \<Rightarrow> count_mode option" where
  "count_preference p =
     (if count_exact p then Some Exact else if count_planned p then Some Planned
      else if count_estimated p then Some Estimated else None)"

definition applied_header_value :: "prefer_header \<Rightarrow> string option" where
  "applied_header_value p =
     (let parts =
        (if count_exact p then [''count=exact''] else if count_planned p then [''count=planned'']
         else if count_estimated p then [''count=estimated''] else []) @
        (if return_representation p then [''return=representation'']
         else if return_minimal p then [''return=minimal''] else []) @
        (if tx_rollback p then [''tx=rollback''] else []) @
        (case handling p of Some Strict \<Rightarrow> [''handling=strict''] | Some Lenient \<Rightarrow> [''handling=lenient''] | None \<Rightarrow> [])
      in if parts = [] then None else Some (join '', '' parts))"

definition eq_ignore_ascii_case :: "string \<Rightarrow> string \<Rightarrow> bool" where
  "eq_ignore_ascii_case s t \<longleftrightarrow> to_ascii_lowercase s = to_ascii_lowercase t"

definition strip_prefix_ci :: "string \<Rightarrow> string \<Rightarrow> string option" where
  "strip_prefix_ci s prefix =
     (if length prefix \<le> length s \<and> eq_ignore_ascii_case (take (length prefix) s) prefix
      then Some (drop (length prefix) s) else None)"

definition set_count :: "count_mode \<Rightarrow> prefer_header \<Rightarrow> prefer_header" where
  "set_count c p = p\<lparr>count_exact := (c = Exact), count_planned := (c = Planned), count_estimated := (c = Estimated)\<rparr>"

definition apply_preference :: "prefer_header \<Rightarrow> string \<Rightarrow> prefer_header" where
  "apply_preference p pref0 =
     (let pref = trim pref0; is = eq_ignore_ascii_case pref in
      if is ''count=exact'' then set_count Exact p
      else if is ''count=planned'' then set_count Planned p
      else if is ''count=estimated'' then set_count Estimated p
      else if is ''return=representation'' then p\<lparr>return_representation := True, return_minimal := False\<rparr>
      else if is ''return=minimal'' then p\<lparr>return_minimal := True, return_representation := False\<rparr>
      else if is ''tx=rollback'' then p\<lparr>tx_rollback := True\<rparr>
      else if is ''tx=commit'' then p\<lparr>tx_rollback := False\<rparr>
      else if is ''handling=strict'' then p\<lparr>handling := Some Strict\<rparr>
      else if is ''handling=lenient'' then p\<lparr>handling := Some Lenient\<rparr>
      else
        (case strip_prefix_ci pref ''resolution='' of
           Some v \<Rightarrow> p\<lparr>resolution := Some v\<rparr>
         | None \<Rightarrow>
             (case strip_prefix_ci pref ''max-affected='' of
                Some v \<Rightarrow> (case parse_u64 (utext_of v) of Some n \<Rightarrow> p\<lparr>max_affected := Some n\<rparr> | None \<Rightarrow> p)
              | None \<Rightarrow> p)))"

definition parse_prefer :: "string \<Rightarrow> prefer_header" where
  "parse_prefer header_value = foldl apply_preference prefer_default (split_on CHR '','' header_value)"

definition merge_prefer :: "prefer_header \<Rightarrow> string \<Rightarrow> prefer_header" where
  "merge_prefer result0 s =
     (let parsed = parse_prefer s;
          r1 = (case count_preference parsed of Some c \<Rightarrow> set_count c result0 | None \<Rightarrow> result0);
          r2 = (if return_representation parsed then r1\<lparr>return_representation := True, return_minimal := False\<rparr> else r1);
          r3 = (if return_minimal parsed then r2\<lparr>return_minimal := True, return_representation := False\<rparr> else r2);
          r4 = (if tx_rollback parsed then r3\<lparr>tx_rollback := True\<rparr> else r3);
          r5 = (if handling parsed \<noteq> None then r4\<lparr>handling := handling parsed\<rparr> else r4);
          r6 = (if resolution parsed \<noteq> None then r5\<lparr>resolution := resolution parsed\<rparr> else r5)
      in if max_affected parsed \<noteq> None then r6\<lparr>max_affected := max_affected parsed\<rparr> else r6)"

text \<open>The values of all \<open>Prefer\<close> headers of a request.\<close>

definition prefer_from_headers :: "string list \<Rightarrow> prefer_header" where
  "prefer_from_headers values = foldl merge_prefer prefer_default values"

section \<open>Responses and errors\<close>

record rest_response =
  response_status :: nat
  response_headers :: "(string \<times> string) list"
  response_body :: "json option"

record rest_error =
  error_status :: nat
  error_code :: string
  error_message :: string
  error_details :: "json option"

definition bad_request :: "string \<Rightarrow> rest_error" where
  "bad_request msg = \<lparr>error_status = 400, error_code = ''BAD_REQUEST'', error_message = msg, error_details = None\<rparr>"

definition forbidden :: rest_error where
  "forbidden = \<lparr>error_status = 403, error_code = ''FORBIDDEN'', error_message = ''Access denied'', error_details = None\<rparr>"

definition rest_not_found :: "string \<Rightarrow> rest_error" where
  "rest_not_found msg = \<lparr>error_status = 404, error_code = ''NOT_FOUND'', error_message = msg, error_details = None\<rparr>"

definition unprocessable_entity :: "string \<Rightarrow> json \<Rightarrow> rest_error" where
  "unprocessable_entity msg details =
     \<lparr>error_status = 422, error_code = ''UNPROCESSABLE_ENTITY'', error_message = msg, error_details = Some details\<rparr>"

definition internal_error :: "string \<Rightarrow> rest_error" where
  "internal_error msg =
     \<lparr>error_status = 500, error_code = ''INTERNAL_SERVER_ERROR'', error_message = msg, error_details = None\<rparr>"

definition error_to_json :: "rest_error \<Rightarrow> json" where
  "error_to_json e =
     JObject [(''error'', JObject ([(''code'', JString (error_code e))] @
       (case error_details e of Some d \<Rightarrow> [(''details'', d)] | None \<Rightarrow> []) @
       [(''message'', JString (error_message e))]))]"

text \<open>An outcome of the handler: a response value, an error, or the panic of the parameter parser.\<close>

datatype rest_outcome_error = Failed rest_error | Panicked

definition from_validation :: "string \<Rightarrow> rest_outcome_error" where
  "from_validation msg = Failed (bad_request (''Validation error: '' @ msg))"

fun lift_params :: "rest_failure + 'a \<Rightarrow> rest_outcome_error + 'a" where
  "lift_params (Inl (Invalid msg)) = Inl (from_validation msg)"
| "lift_params (Inl Panic) = Inl Panicked"
| "lift_params (Inr v) = Inr v"

section \<open>GET\<close>

definition build_fts_where_clause :: "string \<Rightarrow> type_definition option \<Rightarrow> json option" where
  "build_fts_where_clause query type_def =
     (case type_def of
        None \<Rightarrow> None
      | Some td \<Rightarrow>
          let clauses = map (\<lambda>f. JObject [(field_name f, JObject [(''websearch_query'', JString query)])])
                (searchable_fields td)
          in case clauses of
               [] \<Rightarrow> None
             | [c] \<Rightarrow> Some c
             | _ \<Rightarrow> Some (JObject [(''_or'', JArray clauses)]))"

definition json_nat :: "nat \<Rightarrow> json" where
  "json_nat n = JNumber (PosInt (of_nat n))"

record resolved_get_query =
  resolved_query_name :: string
  resolved_match :: query_match
  resolved_variables :: "(string \<times> json) list"
  resolved_params :: extracted_params

definition where_argument :: "json option \<Rightarrow> json option \<Rightarrow> json option" where
  "where_argument regular fts =
     (case (regular, fts) of
        (Some r, Some f) \<Rightarrow> Some (JObject [(''_and'', JArray [r, f])])
      | (Some r, None) \<Rightarrow> Some r
      | (None, Some f) \<Rightarrow> Some f
      | (None, None) \<Rightarrow> None)"

definition order_argument :: "json option \<Rightarrow> json option \<Rightarrow> json option" where
  "order_argument order fts =
     (case order of
        Some v \<Rightarrow> Some v
      | None \<Rightarrow> if fts \<noteq> None then Some (JArray [JObject [(''_relevance'', JString ''desc'')]]) else None)"

definition get_arguments :: "extracted_params \<Rightarrow> type_definition option \<Rightarrow> (string \<times> json) list" where
  "get_arguments params type_def =
     (let fts = Option.bind (search_query params) (\<lambda>query. build_fts_where_clause query type_def);
          a1 = foldl (\<lambda>m (k, v). map_insert k v m) [] (path_params params);
          a2 = (case where_argument (where_clause_param params) fts of Some w \<Rightarrow> map_insert ''where'' w a1 | None \<Rightarrow> a1);
          a3 = (case order_argument (order_by_param params) fts of Some v \<Rightarrow> map_insert ''orderBy'' v a2 | None \<Rightarrow> a2)
      in case pagination params of
           OffsetPage limit offset \<Rightarrow>
             let a4 = map_insert ''limit'' (json_nat limit) a3 in
             if offset > 0 then map_insert ''offset'' (json_nat offset) a4 else a4
         | _ \<Rightarrow> a3)"

definition insert_some :: "string \<Rightarrow> json option \<Rightarrow> (string \<times> json) list \<Rightarrow> (string \<times> json) list" where
  "insert_some k v m = (case v of Some x \<Rightarrow> map_insert k x m | None \<Rightarrow> m)"

definition get_variables :: "pagination_params \<Rightarrow> (string \<times> json) list \<Rightarrow> (string \<times> json) list" where
  "get_variables page arguments =
     (case page of
        CursorPage fst_n after lst_n before \<Rightarrow>
          insert_some ''before'' (map_option JString before)
            (insert_some ''last'' (map_option json_nat lst_n)
              (insert_some ''after'' (map_option JString after)
                (insert_some ''first'' (map_option json_nat fst_n) arguments)))
      | _ \<Rightarrow> arguments)"

definition is_lowercase :: "char \<Rightarrow> bool" where
  "is_lowercase c \<longleftrightarrow> (97 \<le> code c \<and> code c \<le> 122) \<or> code c \<in> {170, 181, 186} \<or> (223 \<le> code c \<and> code c \<noteq> 247)"

fun casing_loop :: "bool \<Rightarrow> bool \<Rightarrow> bool \<Rightarrow> string \<Rightarrow> string" where
  "casing_loop first prev_upper prev_lower [] = []"
| "casing_loop first prev_upper prev_lower (c # s) =
     (if is_uppercase c then
        (let next_is_lower = (case s of d # _ \<Rightarrow> is_lowercase d | [] \<Rightarrow> False) in
         (if \<not> first \<and> (prev_lower \<or> (prev_upper \<and> next_is_lower)) then ''_'' else []) @
         to_ascii_lowercase [c] @ casing_loop False True False s)
      else c # casing_loop False False (is_lowercase c) s)"

definition casing_to_snake_case :: "string \<Rightarrow> string" where
  "casing_to_snake_case s = (if list_ex is_uppercase s then casing_loop True False False s else s)"

text \<open>
  The linear scan; the index of a compiled schema gives the same result when the names are
  distinct.
\<close>

definition find_query :: "query_definition list \<Rightarrow> string \<Rightarrow> query_definition option" where
  "find_query queries name =
     (case find (\<lambda>q. query_name q = name) queries of
        Some q \<Rightarrow> Some q
      | None \<Rightarrow> find (\<lambda>q. query_name q = casing_to_snake_case name) queries)"

definition find_mutation :: "mutation_definition list \<Rightarrow> string \<Rightarrow> mutation_definition option" where
  "find_mutation mutations name =
     (case find (\<lambda>m. mutation_name m = name) mutations of
        Some m \<Rightarrow> Some m
      | None \<Rightarrow> find (\<lambda>m. mutation_name m = casing_to_snake_case name) mutations)"

text \<open>The role is looked up among the scopes of the caller.\<close>

definition role_check :: "query_definition \<Rightarrow> security_context option \<Rightarrow> bool" where
  "role_check q ctx =
     (case requires_role q of
        None \<Rightarrow> True
      | Some role \<Rightarrow> (case ctx of Some c \<Rightarrow> role \<in> set (scopes c) | None \<Rightarrow> False))"

definition resolve_get_query ::
  "text_parsers \<Rightarrow> compiled_schema \<Rightarrow> rest_config \<Rightarrow> rest_route_table \<Rightarrow> string \<Rightarrow> (string \<times> string) list \<Rightarrow>
   security_context option \<Rightarrow> rest_outcome_error + resolved_get_query" where
  "resolve_get_query P schema config table relative_path query_pairs ctx =
     (case resolve table relative_path Get of
        None \<Rightarrow> Inl (Failed (rest_not_found ''Route not found''))
      | Some (route, path_pairs) \<Rightarrow>
          (case route_source route of
             RMutation _ \<Rightarrow> Inl (Failed (internal_error ''GET route backed by mutation''))
           | RQuery name \<Rightarrow>
               (case find_query (schema_queries schema) name of
                  None \<Rightarrow> Inl (Failed (rest_not_found (''Query not found: '' @ name)))
                | Some q \<Rightarrow>
                    if \<not> role_check q ctx then Inl (Failed forbidden)
                    else
                      let type_def = find_type (schema_types schema) (return_type q) in
                      try_bind (lift_params (extract_params P \<lparr>ex_config = config, ex_query = q, ex_type = type_def\<rparr>
                          path_pairs query_pairs)) (\<lambda>params.
                        let arguments = get_arguments params type_def in
                        Inr \<lparr>resolved_query_name = name,
                             resolved_match = \<lparr>query_def = q, match_arguments = map_of arguments\<rparr>,
                             resolved_variables = get_variables (pagination params) arguments,
                             resolved_params = params\<rparr>))))"

section \<open>Response headers\<close>

definition insert_header :: "string \<Rightarrow> string \<Rightarrow> (string \<times> string) list \<Rightarrow> (string \<times> string) list" where
  "insert_header k v hs = filter (\<lambda>h. fst h \<noteq> k) hs @ [(k, v)]"

definition set_preference_applied :: "string list \<Rightarrow> (string \<times> string) list \<Rightarrow> (string \<times> string) list" where
  "set_preference_applied prefs hs =
     (let ps = filter (\<lambda>p. p \<noteq> []) prefs in
      if ps = [] then hs else insert_header ''preference-applied'' (join '', '' ps) hs)"

definition set_request_id :: "string option \<Rightarrow> string \<Rightarrow> (string \<times> string) list \<Rightarrow> (string \<times> string) list" where
  "set_request_id requested generated hs =
     insert_header ''x-request-id'' (case requested of Some i \<Rightarrow> i | None \<Rightarrow> generated) hs"

record cache_context =
  is_get :: bool
  has_auth :: bool
  query_ttl :: "nat option"
  default_ttl :: nat
  cdn_ttl :: "nat option"

definition apply_cache_headers :: "cache_context \<Rightarrow> (string \<times> string) list \<Rightarrow> (string \<times> string) list" where
  "apply_cache_headers ctx hs =
     (if is_get ctx then
        let max_age = (case query_ttl ctx of Some t \<Rightarrow> t | None \<Rightarrow> default_ttl ctx);
            visibility = (if has_auth ctx then ''private'' else ''public'');
            shared = (if has_auth ctx then []
              else (case cdn_ttl ctx of Some t \<Rightarrow> '', s-maxage='' @ show_nat t | None \<Rightarrow> []))
        in insert_header ''vary'' ''Authorization, Accept, Prefer''
             (insert_header ''cache-control'' (visibility @ '', max-age='' @ show_nat max_age @ shared) hs)
      else insert_header ''cache-control'' ''no-store'' hs)"

section \<open>The GET response\<close>

definition extract_relay_page_info :: "json \<Rightarrow> json option" where
  "extract_relay_page_info data = json_get data ''pageInfo''"

definition response_data :: "json \<Rightarrow> json" where
  "response_data result =
     (case json_get result ''data'' of
        Some (JObject es) \<Rightarrow> (case es of e # _ \<Rightarrow> snd e | [] \<Rightarrow> JNull)
      | Some other \<Rightarrow> other
      | None \<Rightarrow> result)"

definition response_meta :: "json \<Rightarrow> nat option \<Rightarrow> pagination_params \<Rightarrow> json option" where
  "response_meta data rows_total page =
     (case page of
        OffsetPage limit offset \<Rightarrow>
          Some (JObject (insert_some ''total'' (map_option json_nat rows_total)
            [(''limit'', json_nat limit), (''offset'', json_nat offset)]))
      | CursorPage fst_n after lst_n before \<Rightarrow>
          (let info = extract_relay_page_info data;
               m1 = insert_some ''hasNextPage'' (Option.bind info (\<lambda>i. json_get i ''hasNextPage'')) [];
               m2 = insert_some ''hasPreviousPage'' (Option.bind info (\<lambda>i. json_get i ''hasPreviousPage'')) m1;
               m3 = insert_some ''first'' (map_option json_nat fst_n) m2;
               m4 = insert_some ''after'' (map_option JString after) m3;
               m5 = insert_some ''last'' (map_option json_nat lst_n) m4;
               m6 = insert_some ''before'' (map_option JString before) m5
           in Some (JObject (insert_some ''total'' (map_option json_nat rows_total) m6)))
      | NoPage \<Rightarrow> None)"

definition build_query_response :: "json \<Rightarrow> nat option \<Rightarrow> pagination_params \<Rightarrow> json" where
  "build_query_response result rows_total page =
     (let data = response_data result in
      JObject (insert_some ''meta'' (response_meta data rows_total page) [(''data'', data)]))"

section \<open>The database\<close>

text \<open>
  The database as the handler sees it: the result of a query with its selected fields, in its
  envelope, and the number of rows of a count; an error is the text of its message.
\<close>

record database =
  run_query :: "query_definition \<Rightarrow> string list \<Rightarrow> adapter_query \<Rightarrow> string + json"
  run_count :: "adapter_query \<Rightarrow> string + nat"

record rest_request =
  request_id :: "string option"
  prefer_values :: "string list"
  authorization :: bool
  caller :: "security_context option"

text \<open>Errors of the executor; the name of an operator is left out of the message.\<close>

definition from_db_error :: "db_error \<Rightarrow> rest_outcome_error" where
  "from_db_error e =
     (case e of Validation msg \<Rightarrow> from_validation msg | ValidationOp a oper b \<Rightarrow> from_validation (a @ b))"

definition lift_db :: "db_error + 'a \<Rightarrow> rest_outcome_error + 'a" where
  "lift_db r = (case r of Inl e \<Rightarrow> Inl (from_db_error e) | Inr v \<Rightarrow> Inr v)"

definition lift_adapter :: "string + 'a \<Rightarrow> rest_outcome_error + 'a" where
  "lift_adapter r = (case r of Inl msg \<Rightarrow> Inl (Failed (internal_error msg)) | Inr v \<Rightarrow> Inr v)"

definition query_direct ::
  "database \<Rightarrow> rls_policy option \<Rightarrow> compiled_schema \<Rightarrow> query_match \<Rightarrow> string list \<Rightarrow> security_context option \<Rightarrow>
   rest_outcome_error + json" where
  "query_direct db rls schema qm names ctx =
     try_bind (lift_db (execute_query_direct (schema_types schema) rls qm ctx)) (\<lambda>aq.
       lift_adapter (run_query db (query_def qm) names aq))"

definition query_count ::
  "database \<Rightarrow> rls_policy option \<Rightarrow> query_match \<Rightarrow> security_context option \<Rightarrow> rest_outcome_error + nat" where
  "query_count db rls qm ctx =
     try_bind (lift_db (count_rows rls qm ctx)) (\<lambda>aq. lift_adapter (run_count db aq))"

end
