(* ===== verification/Rest_Embedding.thy ===== *)
theory Rest_Embedding
  imports Rest_Handler
begin

text \<open>
  Embedded resources (\<open>fraiseql-server/src/routes/rest/embedding.rs\<close>) and the GET handler that
  uses them (\<open>handle_get\<close> of \<open>handler.rs\<close>).

  \<^item> A row is a JSON value; the in-place updates of the source return the new value.
  \<^item> Of the entries inside an embedding only the plain fields are used, as in the source.
\<close>

section \<open>Rows and relationships\<close>

text \<open>\<open>as_object_mut\<close> followed by an insertion.\<close>

definition set_field :: "string \<Rightarrow> json \<Rightarrow> json \<Rightarrow> json" where
  "set_field k v row = (case row of JObject es \<Rightarrow> JObject (map_insert k v es) | _ \<Rightarrow> row)"

definition find_relationship :: "type_definition \<Rightarrow> string \<Rightarrow> relationship option" where
  "find_relationship td name = find (\<lambda>r. rel_name r = name) (relationships td)"

definition extract_join_key :: "json \<Rightarrow> relationship \<Rightarrow> json option" where
  "extract_join_key row rel =
     (let key_field = (if rel_cardinality rel \<in> {ManyToOne, OneToOne} then foreign_key rel else referenced_key rel) in
      case json_get row key_field of
        Some v \<Rightarrow> if v = JNull then None else Some v
      | None \<Rightarrow> None)"

definition filter_field :: "relationship \<Rightarrow> string" where
  "filter_field rel = (if rel_cardinality rel \<in> {ManyToOne, OneToOne} then referenced_key rel else foreign_key rel)"

definition set_empty_embedding :: "string \<Rightarrow> cardinality \<Rightarrow> json \<Rightarrow> json" where
  "set_empty_embedding output kind row =
     set_field output (case kind of OneToMany \<Rightarrow> JArray [] | _ \<Rightarrow> JNull) row"

definition find_list_query_for_type :: "query_definition list \<Rightarrow> string \<Rightarrow> query_definition option" where
  "find_list_query_for_type queries ty = find (\<lambda>q. return_type q = ty \<and> returns_list q) queries"

definition extract_query_data :: "json \<Rightarrow> string \<Rightarrow> json option" where
  "extract_query_data result name = Option.bind (json_get result ''data'') (\<lambda>d. json_get d name)"

section \<open>Embedding\<close>

text \<open>The condition on the join field, with the entries of the filter inserted over it.\<close>

definition embedding_where :: "relationship \<Rightarrow> json \<Rightarrow> json option \<Rightarrow> json" where
  "embedding_where rel key filter_value =
     (let base = [(filter_field rel, JObject [(''eq'', key)])] in
      JObject (case Option.bind filter_value as_object of
        Some es \<Rightarrow> foldl (\<lambda>m (k, v). map_insert k v m) base es
      | None \<Rightarrow> base))"

definition embedded_value :: "cardinality \<Rightarrow> json option \<Rightarrow> json" where
  "embedded_value kind data =
     (case kind of
        OneToMany \<Rightarrow> (case data of Some (JArray xs) \<Rightarrow> JArray xs | Some other \<Rightarrow> JArray [other] | None \<Rightarrow> JArray [])
      | _ \<Rightarrow> (case data of Some (JArray (x # xs)) \<Rightarrow> x | Some other \<Rightarrow> other | None \<Rightarrow> JNull))"

definition embed_into_single ::
  "database \<Rightarrow> rls_policy option \<Rightarrow> compiled_schema \<Rightarrow> rest_config \<Rightarrow> security_context option \<Rightarrow> relationship \<Rightarrow> string \<Rightarrow>
   string list \<Rightarrow> json option \<Rightarrow> json \<Rightarrow> rest_outcome_error + json" where
  "embed_into_single db rls schema config ctx rel output names filter_value row =
     (case (extract_join_key row rel, find_list_query_for_type (schema_queries schema) (target_type rel)) of
        (Some key, Some q) \<Rightarrow>
          try_bind (query_direct db rls schema
              \<lparr>query_def = q, match_arguments = [''where'' \<mapsto> embedding_where rel key filter_value,
                 ''limit'' \<mapsto> json_nat (max_page_size config)]\<rparr> names ctx) (\<lambda>result.
            Inr (set_field output (embedded_value (rel_cardinality rel) (extract_query_data result (query_name q))) row))
      | _ \<Rightarrow> Inr (set_empty_embedding output (rel_cardinality rel) row))"

text \<open>The rows of an array in order, a single object, or data of another shape as it is.\<close>

definition each_row :: "(json \<Rightarrow> rest_outcome_error + json) \<Rightarrow> json \<Rightarrow> rest_outcome_error + json" where
  "each_row f data =
     (case data of
        JArray rows \<Rightarrow> try_bind (collect_results f rows) (\<lambda>rows'. Inr (JArray rows'))
      | JObject es \<Rightarrow> f (JObject es)
      | _ \<Rightarrow> Inr data)"

definition no_relationship :: "string \<Rightarrow> string \<Rightarrow> rest_outcome_error" where
  "no_relationship ty name =
     Failed (bad_request (''Type '' @ [squote] @ ty @ [squote] @ '' has no relationship '' @ [squote] @ name @ [squote]))"

definition parent_not_found :: "string \<Rightarrow> rest_outcome_error" where
  "parent_not_found ty = Failed (internal_error (''Parent type not found: '' @ ty))"

fun embed_specs ::
  "database \<Rightarrow> rls_policy option \<Rightarrow> compiled_schema \<Rightarrow> rest_config \<Rightarrow> security_context option \<Rightarrow> string \<Rightarrow> type_definition \<Rightarrow>
   (string \<rightharpoonup> json) \<Rightarrow> select_entry list \<Rightarrow> json \<Rightarrow> rest_outcome_error + json" where
  "embed_specs db rls schema config ctx ty td filters [] data = Inr data"
| "embed_specs db rls schema config ctx ty td filters (SelEmbedded name rename sub # specs) data =
     (case find_relationship td name of
        None \<Rightarrow> Inl (no_relationship ty name)
      | Some rel \<Rightarrow>
          let output = (case rename of Some r \<Rightarrow> r | None \<Rightarrow> name) in
          try_bind (each_row (embed_into_single db rls schema config ctx rel output (flat_fields sub) (filters name)) data)
            (embed_specs db rls schema config ctx ty td filters specs))"
| "embed_specs db rls schema config ctx ty td filters (_ # specs) data =
     embed_specs db rls schema config ctx ty td filters specs data"

definition execute_embeddings ::
  "database \<Rightarrow> rls_policy option \<Rightarrow> compiled_schema \<Rightarrow> rest_config \<Rightarrow> security_context option \<Rightarrow> string \<Rightarrow>
   (string \<rightharpoonup> json) \<Rightarrow> select_entry list \<Rightarrow> json \<Rightarrow> rest_outcome_error + json" where
  "execute_embeddings db rls schema config ctx ty filters specs data =
     (if specs = [] then Inr data
      else
        (case find_type (schema_types schema) ty of
           None \<Rightarrow> Inl (parent_not_found ty)
         | Some td \<Rightarrow> embed_specs db rls schema config ctx ty td filters specs data))"

section \<open>Counts\<close>

definition count_related ::
  "database \<Rightarrow> rls_policy option \<Rightarrow> compiled_schema \<Rightarrow> security_context option \<Rightarrow> relationship \<Rightarrow> json \<Rightarrow>
   rest_outcome_error + nat" where
  "count_related db rls schema ctx rel row =
     (case (extract_join_key row rel, find_list_query_for_type (schema_queries schema) (target_type rel)) of
        (Some key, Some q) \<Rightarrow>
          query_count db rls \<lparr>query_def = q, match_arguments = [''where'' \<mapsto> embedding_where rel key None]\<rparr> ctx
      | _ \<Rightarrow> Inr 0)"

fun count_specs ::
  "database \<Rightarrow> rls_policy option \<Rightarrow> compiled_schema \<Rightarrow> security_context option \<Rightarrow> string \<Rightarrow> type_definition \<Rightarrow>
   string list \<Rightarrow> json \<Rightarrow> rest_outcome_error + json" where
  "count_specs db rls schema ctx ty td [] data = Inr data"
| "count_specs db rls schema ctx ty td (name # names) data =
     (case find_relationship td name of
        None \<Rightarrow> Inl (no_relationship ty name)
      | Some rel \<Rightarrow>
          try_bind (each_row (\<lambda>row. try_bind (count_related db rls schema ctx rel row) (\<lambda>n.
              Inr (set_field (name @ ''_count'') (json_nat n) row))) data)
            (count_specs db rls schema ctx ty td names))"

definition execute_embedding_counts ::
  "database \<Rightarrow> rls_policy option \<Rightarrow> compiled_schema \<Rightarrow> security_context option \<Rightarrow> string \<Rightarrow> string list \<Rightarrow> json \<Rightarrow>
   rest_outcome_error + json" where
  "execute_embedding_counts db rls schema ctx ty names data =
     (if names = [] then Inr data
      else
        (case find_type (schema_types schema) ty of
           None \<Rightarrow> Inl (parent_not_found ty)
         | Some td \<Rightarrow> count_specs db rls schema ctx ty td names data))"

section \<open>The GET handler\<close>

definition selected_names :: "rest_field_spec \<Rightarrow> string list" where
  "selected_names spec = (case spec of AllFields \<Rightarrow> [] | Fields fs \<Rightarrow> fs)"

definition get_headers ::
  "rest_config \<Rightarrow> query_definition \<Rightarrow> string \<Rightarrow> rest_request \<Rightarrow> nat option \<Rightarrow> (string \<times> string) list" where
  "get_headers config q generated req rows_total =
     (let prefer = prefer_from_headers (prefer_values req);
          h1 = set_request_id (request_id req) generated [];
          h2 = (if rows_total = None then h1 else set_preference_applied [''count=exact''] h1);
          h3 = (if (count_planned prefer \<or> count_estimated prefer) \<and> rows_total \<noteq> None
                then insert_header ''x-preference-fallback'' ''count=exact'' h2 else h2)
      in apply_cache_headers \<lparr>is_get = True, has_auth = authorization req, query_ttl = cache_ttl_seconds q,
           default_ttl = default_cache_ttl config, cdn_ttl = cdn_max_age config\<rparr> h3)"

text \<open>The data of the body is replaced by the data with its embeddings.\<close>

definition embed_body ::
  "database \<Rightarrow> rls_policy option \<Rightarrow> compiled_schema \<Rightarrow> rest_config \<Rightarrow> security_context option \<Rightarrow> string \<Rightarrow> extracted_params \<Rightarrow>
   json \<Rightarrow> rest_outcome_error + json" where
  "embed_body db rls schema config ctx ty params body =
     (if embeddings params = [] \<and> embedding_counts params = [] then Inr body
      else
        (case json_get body ''data'' of
           None \<Rightarrow> Inr body
         | Some data \<Rightarrow>
             try_bind (execute_embeddings db rls schema config ctx ty (embedding_filters params) (embeddings params) data) (\<lambda>d1.
             try_bind (execute_embedding_counts db rls schema ctx ty (embedding_counts params) d1) (\<lambda>d2.
             Inr (set_field ''data'' d2 body)))))"

definition handle_get ::
  "text_parsers \<Rightarrow> database \<Rightarrow> rls_policy option \<Rightarrow> compiled_schema \<Rightarrow> rest_config \<Rightarrow> rest_route_table \<Rightarrow> string \<Rightarrow> string \<Rightarrow>
   (string \<times> string) list \<Rightarrow> rest_request \<Rightarrow> rest_outcome_error + rest_response" where
  "handle_get P db rls schema config table generated relative_path query_pairs req =
     try_bind (resolve_get_query P schema config table relative_path query_pairs (caller req)) (\<lambda>rq.
     let qm = resolved_match rq; params = resolved_params rq in
     try_bind (query_direct db rls schema qm (selected_names (field_selection params)) (caller req)) (\<lambda>result.
     try_bind
       (if count_preference (prefer_from_headers (prefer_values req)) = None then Inr None
        else try_bind (query_count db rls qm (caller req)) (\<lambda>n. Inr (Some n))) (\<lambda>rows_total.
     try_bind (embed_body db rls schema config (caller req) (return_type (query_def qm)) params
         (build_query_response result rows_total (pagination params))) (\<lambda>body.
     Inr \<lparr>response_status = 200, response_headers = get_headers config (query_def qm) generated req rows_total,
          response_body = Some body\<rparr>))))"

end
