(* ===== verification/Rest_Bulk.thy ===== *)
theory Rest_Bulk
  imports Rest_Embedding
begin

text \<open>
  Mutations behind the REST transport: the executor's entry points for them
  (\<open>execute_mutation_with_security\<close>, \<open>execute_mutation_batch\<close> and \<open>execute_bulk_by_filter\<close> of
  \<open>fraiseql-core/src/runtime/executor/query.rs\<close>, \<open>execute_mutation\<close> of \<open>handler.rs\<close>) and the bulk
  handler (\<open>fraiseql-server/src/routes/rest/bulk.rs\<close>).

  \<^item> Writing changes a state of any type, which is passed along; an operation gives its result
    or error and the state after it. Reads go to the database of \<open>Rest_Handler\<close>.
  \<^item> What runs a GraphQL document and what runs a named mutation for an anonymous caller are
    arguments, as is the printing of a JSON value; an error is the REST error it becomes.
\<close>

section \<open>Actions\<close>

type_synonym ('s, 'a) action = "('s, rest_outcome_error, 'a) effect"

record 's backend =
  render :: "json \<Rightarrow> string"
  run_document :: "string \<Rightarrow> security_context option \<Rightarrow> ('s, json) action"
  run_mutation :: "string \<Rightarrow> json \<Rightarrow> ('s, json) action"

section \<open>The executor\<close>

text \<open>The document of a mutation: every entry of the arguments as \<open>key: value\<close>.\<close>

definition mutation_document :: "(json \<Rightarrow> string) \<Rightarrow> string \<Rightarrow> json \<Rightarrow> string" where
  "mutation_document print_value name arguments =
     (let args_str = (case arguments of
            JObject es \<Rightarrow> join '', '' (map (\<lambda>(k, v). k @ '': '' @ print_value v) es)
          | _ \<Rightarrow> [])
      in if args_str = [] then ''mutation { '' @ name @ '' { status entity_id message } }''
         else ''mutation { '' @ name @ ''('' @ args_str @ '') { status entity_id message } }'')"

definition execute_mutation_with_security ::
  "'s backend \<Rightarrow> string \<Rightarrow> json \<Rightarrow> security_context option \<Rightarrow> ('s, json) action" where
  "execute_mutation_with_security B name arguments ctx = run_document B (mutation_document (render B) name arguments) ctx"

definition execute_mutation :: "'s backend \<Rightarrow> string \<Rightarrow> json \<Rightarrow> security_context option \<Rightarrow> ('s, json) action" where
  "execute_mutation B name variables ctx =
     (case ctx of
        Some c \<Rightarrow> execute_mutation_with_security B name variables (Some c)
      | None \<Rightarrow> run_mutation B name variables)"

record bulk_result =
  affected_rows :: nat
  bulk_entities :: "json list option"

fun run_batch :: "'s backend \<Rightarrow> string \<Rightarrow> json list \<Rightarrow> security_context option \<Rightarrow> ('s, json list) action" where
  "run_batch B name [] ctx = lift_result (Inr [])"
| "run_batch B name (item # items) ctx =
     and_then (execute_mutation_with_security B name item ctx) (\<lambda>r.
     and_then (run_batch B name items ctx) (\<lambda>rs. lift_result (Inr (r # rs))))"

definition execute_mutation_batch ::
  "'s backend \<Rightarrow> string \<Rightarrow> json list \<Rightarrow> security_context option \<Rightarrow> ('s, bulk_result) action" where
  "execute_mutation_batch B name items ctx =
     and_then (run_batch B name items ctx) (\<lambda>rs.
       lift_result (Inr \<lparr>affected_rows = length rs, bulk_entities = Some rs\<rparr>))"

definition matching_rows :: "json \<Rightarrow> nat" where
  "matching_rows result =
     (case json_get result ''data'' of
        Some (JObject (e # es)) \<Rightarrow> (case snd e of JArray xs \<Rightarrow> length xs | _ \<Rightarrow> 1)
      | _ \<Rightarrow> 1)"

text \<open>The identifier's field and the maximum are not used.\<close>

definition execute_bulk_by_filter ::
  "database \<Rightarrow> 's backend \<Rightarrow> rls_policy option \<Rightarrow> compiled_schema \<Rightarrow> query_match \<Rightarrow> string list \<Rightarrow> string \<Rightarrow> json option \<Rightarrow>
   string \<Rightarrow> nat \<Rightarrow> security_context option \<Rightarrow> ('s, bulk_result) action" where
  "execute_bulk_by_filter db B rls schema qm names mutation body id_field max_rows ctx =
     and_then (lift_result (query_direct db rls schema qm names ctx)) (\<lambda>found.
     and_then (execute_mutation_with_security B mutation (case body of Some b \<Rightarrow> b | None \<Rightarrow> JObject []) ctx) (\<lambda>result.
     lift_result (Inr \<lparr>affected_rows = matching_rows found, bulk_entities = Some [result]\<rparr>)))"

section \<open>The bulk handler\<close>

definition MAX_BULK_INSERT_ITEMS :: nat where "MAX_BULK_INSERT_ITEMS = 1000"

definition NON_FILTER :: "string list" where
  "NON_FILTER = [''select'', ''sort'', ''limit'', ''offset'', ''first'', ''after'', ''last'', ''before'', ''filter'']"

definition has_filter_params :: "(string \<times> string) list \<Rightarrow> bool" where
  "has_filter_params query_params =
     list_ex (\<lambda>(key, _). key = ''filter'' \<or> CHR ''['' \<in> set key \<or> key \<notin> set NON_FILTER) query_params"

definition remove_typename :: "json \<Rightarrow> json" where
  "remove_typename v = (case v of JObject es \<Rightarrow> JObject (filter (\<lambda>e. fst e \<noteq> ''__typename'') es) | _ \<Rightarrow> v)"

definition extract_entity_from_result :: "json \<Rightarrow> json option" where
  "extract_entity_from_result result =
     (case json_get result ''data'' of
        Some (JObject (e # es)) \<Rightarrow>
          (case json_get (snd e) ''entity'' of
             Some entity \<Rightarrow> if entity = JNull then None else Some (remove_typename entity)
           | None \<Rightarrow>
               (case snd e of
                  JObject (x # xs) \<Rightarrow>
                    if remove_typename (snd e) = JObject [] then None else Some (remove_typename (snd e))
                | _ \<Rightarrow> None))
      | _ \<Rightarrow> None)"

text \<open>Results that are strings are parsed first.\<close>

definition result_entities :: "text_parsers \<Rightarrow> bulk_result \<Rightarrow> json list" where
  "result_entities P r =
     List.map_filter (\<lambda>v. case v of
         JString s \<Rightarrow> Option.bind (parse_json P s) extract_entity_from_result
       | _ \<Rightarrow> extract_entity_from_result v)
       (case bulk_entities r of Some vs \<Rightarrow> vs | None \<Rightarrow> [])"

definition set_rows_affected :: "nat \<Rightarrow> (string \<times> string) list \<Rightarrow> (string \<times> string) list" where
  "set_rows_affected n hs = insert_header ''x-rows-affected'' (show_nat n) hs"

definition upsert_mutation ::
  "mutation_definition list \<Rightarrow> string \<Rightarrow> string option \<Rightarrow> rest_outcome_error + string" where
  "upsert_mutation mutations name res =
     (case res of
        None \<Rightarrow> Inr name
      | Some r \<Rightarrow>
          (case find_mutation mutations name of
             None \<Rightarrow> Inl (Failed (bad_request (''Mutation '' @ [squote] @ name @ [squote] @ '' not found'')))
           | Some md \<Rightarrow>
               if r = ''merge-duplicates'' \<or> r = ''ignore-duplicates'' then
                 (case upsert_function md of
                    Some f \<Rightarrow> Inr f
                  | None \<Rightarrow>
                      Inl (Failed (bad_request ''Upsert not available - no compiler-generated upsert function exists'')))
               else Inr name))"

definition insert_response :: "text_parsers \<Rightarrow> prefer_header \<Rightarrow> string \<Rightarrow> rest_request \<Rightarrow> bulk_result \<Rightarrow> rest_response" where
  "insert_response P prefer generated req results =
     (let hs = set_rows_affected (affected_rows results) (set_request_id (request_id req) generated []);
          applied = (case resolution prefer of Some r \<Rightarrow> [''resolution='' @ r] | None \<Rightarrow> []) @
            (if tx_rollback prefer then [''tx=rollback''] else [])
      in if return_minimal prefer then
           \<lparr>response_status = 201, response_headers = set_preference_applied (applied @ [''return=minimal'']) hs,
            response_body = None\<rparr>
         else
           \<lparr>response_status = 201,
            response_headers = set_preference_applied
              (applied @ (if return_representation prefer then [''return=representation''] else [])) hs,
            response_body = Some (JArray (result_entities P results))\<rparr>)"

definition handle_bulk_insert ::
  "text_parsers \<Rightarrow> 's backend \<Rightarrow> mutation_definition list \<Rightarrow> json list \<Rightarrow> string \<Rightarrow> string \<Rightarrow> rest_request \<Rightarrow>
   ('s, rest_response) action" where
  "handle_bulk_insert P B mutations items name generated req =
     (let prefer = prefer_from_headers (prefer_values req) in
      if items = [] then lift_result (Inl (Failed (bad_request ''Bulk insert requires at least one item'')))
      else if length items > MAX_BULK_INSERT_ITEMS then
        lift_result (Inl (Failed (bad_request (''Bulk insert limited to '' @ show_nat MAX_BULK_INSERT_ITEMS @
          '' items, got '' @ show_nat (length items)))))
      else
        and_then (lift_result (upsert_mutation mutations name (resolution prefer))) (\<lambda>f.
        and_then (execute_mutation_batch B f items (caller req)) (\<lambda>results.
        lift_result (Inr (insert_response P prefer generated req results)))))"

definition bulk_response :: "text_parsers \<Rightarrow> prefer_header \<Rightarrow> string \<Rightarrow> rest_request \<Rightarrow> bulk_result \<Rightarrow> rest_response" where
  "bulk_response P prefer generated req r =
     (let hs = set_rows_affected (affected_rows r) (set_request_id (request_id req) generated []);
          applied = (if tx_rollback prefer then [''tx=rollback''] else [])
      in if return_representation prefer then
           \<lparr>response_status = 200, response_headers = set_preference_applied (applied @ [''return=representation'']) hs,
            response_body = Some (JArray (result_entities P r))\<rparr>
         else if return_minimal prefer \<or> affected_rows r = 0 then
           \<lparr>response_status = 204,
            response_headers = set_preference_applied
              (applied @ (if return_minimal prefer then [''return=minimal''] else [])) hs,
            response_body = None\<rparr>
         else \<lparr>response_status = 200, response_headers = set_preference_applied applied hs, response_body = None\<rparr>)"

datatype bulk_operation = BulkUpdate | BulkDelete

definition operation_text :: "bulk_operation \<Rightarrow> string" where
  "operation_text oper = (case oper of BulkUpdate \<Rightarrow> ''update'' | BulkDelete \<Rightarrow> ''delete'')"

definition operation_matches :: "bulk_operation \<Rightarrow> mutation_operation \<Rightarrow> bool" where
  "operation_matches oper mo =
     (case (mo, oper) of (MUpdate _, BulkUpdate) \<Rightarrow> True | (MDelete _, BulkDelete) \<Rightarrow> True | _ \<Rightarrow> False)"

definition route_mutation :: "mutation_definition list \<Rightarrow> bulk_operation \<Rightarrow> rest_route \<Rightarrow> string option" where
  "route_mutation mutations oper route =
     (case route_source route of
        RMutation name \<Rightarrow>
          (case find_mutation mutations name of
             Some md \<Rightarrow> if operation_matches oper (mutation_operation md) then Some name else None
           | None \<Rightarrow> None)
      | RQuery _ \<Rightarrow> None)"

definition list_query_of :: "string \<Rightarrow> rest_route \<Rightarrow> string option" where
  "list_query_of resource route =
     (case route_source route of
        RQuery name \<Rightarrow> if route_path route = collection_path resource then Some name else None
      | RMutation _ \<Rightarrow> None)"

fun first_some :: "('a \<Rightarrow> 'b option) \<Rightarrow> 'a list \<Rightarrow> 'b option" where
  "first_some f [] = None"
| "first_some f (x # xs) = (case f x of Some y \<Rightarrow> Some y | None \<Rightarrow> first_some f xs)"

definition resolve_bulk_mutation ::
  "mutation_definition list \<Rightarrow> rest_route_table \<Rightarrow> string \<Rightarrow> bulk_operation \<Rightarrow>
   rest_outcome_error + rest_resource \<times> string \<times> string" where
  "resolve_bulk_mutation mutations table relative_path oper =
     (let resource = (case path_segments relative_path of s # _ \<Rightarrow> s | [] \<Rightarrow> []) in
      case find (\<lambda>r. resource_name r = resource) (resources table) of
        None \<Rightarrow> Inl (Failed (rest_not_found (''Resource '' @ [squote] @ resource @ [squote] @ '' not found'')))
      | Some r \<Rightarrow>
          (case first_some (route_mutation mutations oper) (resource_routes r) of
             None \<Rightarrow> Inl (Failed (bad_request (''No '' @ operation_text oper @ '' mutation found for resource '' @
               [squote] @ resource @ [squote])))
           | Some mutation \<Rightarrow>
               (case first_some (list_query_of resource) (resource_routes r) of
                  None \<Rightarrow> Inl (Failed (internal_error (''No list query found for resource '' @ [squote] @ resource @ [squote])))
                | Some query \<Rightarrow> Inr (r, mutation, query))))"

definition bulk_id_fields :: "type_definition option \<Rightarrow> string list" where
  "bulk_id_fields td =
     (let ids = (case td of Some t \<Rightarrow> map output_name (filter is_primary_key (type_fields t)) | None \<Rightarrow> []) in
      if ids = [] then [''id''] else ids)"

definition build_filter_query_match ::
  "text_parsers \<Rightarrow> compiled_schema \<Rightarrow> rest_config \<Rightarrow> string \<Rightarrow> (string \<times> string) list \<Rightarrow> string \<Rightarrow>
   rest_outcome_error + query_match \<times> string list" where
  "build_filter_query_match P schema config query query_params ty =
     (case find_query (schema_queries schema) query of
        None \<Rightarrow> Inl (Failed (internal_error (''Query '' @ [squote] @ query @ [squote] @ '' not found'')))
      | Some q \<Rightarrow>
          let td = find_type (schema_types schema) ty in
          try_bind (lift_params (extract_params P \<lparr>ex_config = config, ex_query = q, ex_type = td\<rparr> [] query_params)) (\<lambda>params.
            Inr (\<lparr>query_def = q,
                  match_arguments = (case where_clause_param params of Some w \<Rightarrow> [''where'' \<mapsto> w] | None \<Rightarrow> Map.empty)\<rparr>,
                 bulk_id_fields td)))"

definition handle_bulk_filter_operation ::
  "text_parsers \<Rightarrow> database \<Rightarrow> 's backend \<Rightarrow> rls_policy option \<Rightarrow> compiled_schema \<Rightarrow> rest_config \<Rightarrow> rest_route_table \<Rightarrow> string \<Rightarrow>
   string \<Rightarrow> json \<Rightarrow> (string \<times> string) list \<Rightarrow> rest_request \<Rightarrow> bulk_operation \<Rightarrow> ('s, rest_response) action" where
  "handle_bulk_filter_operation P db B rls schema config table generated relative_path body query_params req oper =
     (let prefer = prefer_from_headers (prefer_values req) in
      if \<not> has_filter_params query_params then
        lift_result (Inl (Failed (bad_request (''Bulk '' @ operation_text oper @ '' requires at least one filter parameter''))))
      else
        and_then (lift_result (resolve_bulk_mutation (schema_mutations schema) table relative_path oper))
          (\<lambda>(resource, mutation, query).
        and_then (lift_result (build_filter_query_match P schema config query query_params (resource_type resource)))
          (\<lambda>(qm, names).
        and_then (execute_bulk_by_filter db B rls schema qm names mutation (Some body)
            (case id_arg resource of Some i \<Rightarrow> i | None \<Rightarrow> ''id'')
            (case max_affected prefer of Some n \<Rightarrow> n | None \<Rightarrow> max_bulk_affected config) (caller req)) (\<lambda>r.
        lift_result (Inr (bulk_response P prefer generated req r))))))"

definition handle_bulk_update ::
  "text_parsers \<Rightarrow> database \<Rightarrow> 's backend \<Rightarrow> rls_policy option \<Rightarrow> compiled_schema \<Rightarrow> rest_config \<Rightarrow> rest_route_table \<Rightarrow> string \<Rightarrow>
   string \<Rightarrow> json \<Rightarrow> (string \<times> string) list \<Rightarrow> rest_request \<Rightarrow> ('s, rest_response) action" where
  "handle_bulk_update P db B rls schema config table generated relative_path body query_params req =
     handle_bulk_filter_operation P db B rls schema config table generated relative_path body query_params req BulkUpdate"

definition handle_bulk_delete ::
  "text_parsers \<Rightarrow> database \<Rightarrow> 's backend \<Rightarrow> rls_policy option \<Rightarrow> compiled_schema \<Rightarrow> rest_config \<Rightarrow> rest_route_table \<Rightarrow> string \<Rightarrow>
   string \<Rightarrow> (string \<times> string) list \<Rightarrow> rest_request \<Rightarrow> ('s, rest_response) action" where
  "handle_bulk_delete P db B rls schema config table generated relative_path query_params req =
     handle_bulk_filter_operation P db B rls schema config table generated relative_path (JObject []) query_params req BulkDelete"

end
