(* ===== verification/Rest_Mutations.thy ===== *)
theory Rest_Mutations
  imports Rest_Bulk
begin

text \<open>
  The mutating requests of the REST handler (\<open>handle_post\<close>, \<open>handle_put\<close>, \<open>handle_patch\<close> and
  \<open>handle_delete\<close> of \<open>fraiseql-server/src/routes/rest/handler.rs\<close>) and the idempotency store
  (\<open>idempotency.rs\<close>).

  \<^item> Writing changes a state, as in \<open>Rest_Bulk\<close>; the world of a handler is that state together with
    the idempotency store, if one is configured.
  \<^item> Instants and durations are numbers; the clock readings of a request are arguments. The hash
    of the body is an argument.
  \<^item> The concurrent map is an association list whose order is the iteration order.
\<close>

section \<open>The idempotency store\<close>

record stored_response =
  stored_status :: nat
  stored_headers :: "(string \<times> string) list"
  stored_body :: "json option"

datatype idempotency_check = New | Replay stored_response | Conflict

record idempotency_entry =
  entry_response :: stored_response
  body_hash :: u64
  created_at :: nat

record idempotency_store =
  entries :: "(string \<times> idempotency_entry) list"
  ttl :: nat
  max_entries :: nat

definition store_new :: "nat \<Rightarrow> nat \<Rightarrow> idempotency_store" where
  "store_new t n = \<lparr>entries = [], ttl = t, max_entries = n\<rparr>"

definition entry_expired :: "idempotency_store \<Rightarrow> nat \<Rightarrow> idempotency_entry \<Rightarrow> bool" where
  "entry_expired st now e \<longleftrightarrow> now - created_at e > ttl st"

definition remove_keys :: "string set \<Rightarrow> (string \<times> idempotency_entry) list \<Rightarrow> (string \<times> idempotency_entry) list" where
  "remove_keys ks es = filter (\<lambda>e. fst e \<notin> ks) es"

definition evict_expired :: "nat \<Rightarrow> idempotency_store \<Rightarrow> idempotency_store" where
  "evict_expired now st =
     (let expired_keys = map fst (take 100 (filter (\<lambda>e. entry_expired st now (snd e)) (entries st))) in
      st\<lparr>entries := remove_keys (set expired_keys) (entries st)\<rparr>)"

fun find_oldest :: "(string \<times> idempotency_entry) list \<Rightarrow> (string \<times> idempotency_entry) option" where
  "find_oldest [] = None"
| "find_oldest (e # es) =
     (case find_oldest es of
        None \<Rightarrow> Some e
      | Some e' \<Rightarrow> if created_at (snd e) \<le> created_at (snd e') then Some e else Some e')"

definition find_oldest_key :: "idempotency_store \<Rightarrow> string option" where
  "find_oldest_key st = map_option fst (find_oldest (entries st))"

definition store_check :: "nat \<Rightarrow> string \<Rightarrow> u64 \<Rightarrow> idempotency_store \<Rightarrow> idempotency_store \<times> idempotency_check" where
  "store_check now key h st =
     (case map_of (entries st) key of
        Some e \<Rightarrow>
          if entry_expired st now e then (st\<lparr>entries := remove_keys {key} (entries st)\<rparr>, New)
          else if body_hash e = h then (st, Replay (entry_response e))
          else (st, Conflict)
      | None \<Rightarrow> (st, New))"

definition cap_entries :: "idempotency_store \<Rightarrow> idempotency_store" where
  "cap_entries st =
     (if length (entries st) \<ge> max_entries st then
        (case find_oldest_key st of
           Some k \<Rightarrow> st\<lparr>entries := remove_keys {k} (entries st)\<rparr>
         | None \<Rightarrow> st)
      else st)"

definition store_store :: "nat \<Rightarrow> string \<Rightarrow> u64 \<Rightarrow> stored_response \<Rightarrow> idempotency_store \<Rightarrow> idempotency_store" where
  "store_store now key h response st =
     (let st2 = cap_entries (evict_expired now st) in
      st2\<lparr>entries := remove_keys {key} (entries st2) @
        [(key, \<lparr>entry_response = response, body_hash = h, created_at = now\<rparr>)]\<rparr>)"

definition create_store :: "nat \<Rightarrow> idempotency_store" where
  "create_store ttl_seconds = store_new (ttl_seconds * 1000000000) 10000"

section \<open>Variables\<close>

definition coerce_path_param_value :: "string \<Rightarrow> json" where
  "coerce_path_param_value value =
     (case parse_i64 (utext_of value) of
        Some n \<Rightarrow> json_int n
      | None \<Rightarrow> if value = ''true'' then JBool True else if value = ''false'' then JBool False else JString value)"

definition path_variables :: "(string \<times> string) list \<Rightarrow> (string \<times> json) list" where
  "path_variables params = foldl (\<lambda>m (k, v). map_insert k (coerce_path_param_value v) m) [] params"

definition build_mutation_variables :: "(string \<times> string) list \<Rightarrow> json \<Rightarrow> (string \<times> json) list" where
  "build_mutation_variables params body =
     (case body of
        JObject es \<Rightarrow> foldl (\<lambda>m (k, v). map_insert k v m) (path_variables params) es
      | _ \<Rightarrow> path_variables params)"

definition validate_put_body :: "json \<Rightarrow> type_definition \<Rightarrow> rest_outcome_error + unit" where
  "validate_put_body body td =
     (case body of
        JObject es \<Rightarrow>
          (let missing_fields = filter (\<lambda>n. map_of es n = None) (map output_name (writable_fields td)) in
           if missing_fields = [] then Inr ()
           else Inl (Failed (unprocessable_entity
             (''PUT requires all writable fields; '' @ show_nat (length missing_fields) @ '' missing'')
             (JObject [(''missing_fields'', JArray (map (\<lambda>n. JObject [(''field'', JString n),
               (''message'', JString (''Required field '' @ [squote] @ n @ [squote] @ '' is missing''))]) missing_fields))]))))
      | _ \<Rightarrow> Inl (Failed (bad_request ''PUT body must be a JSON object'')))"

definition extract_delete_entity :: "json \<Rightarrow> string \<Rightarrow> json option" where
  "extract_delete_entity result mutation =
     Option.bind (json_get result ''data'') (\<lambda>d.
     Option.bind (json_get d mutation) (\<lambda>mr.
     Option.bind
       (case json_get mr ''entity'' of
          Some e \<Rightarrow> if e = JNull then None else Some e
        | None \<Rightarrow> (case mr of JObject (e # es) \<Rightarrow> Some mr | _ \<Rightarrow> None)) (\<lambda>entity.
     let cleaned = (case entity of
           JObject es \<Rightarrow> JObject (filter (\<lambda>e. fst e \<noteq> ''__typename'') es) | _ \<Rightarrow> entity)
     in if cleaned = JNull \<or> cleaned = JObject [] then None else Some cleaned)))"

section \<open>Requests\<close>

record 's world =
  db_state :: 's
  idempotency :: "idempotency_store option"

text \<open>An action on the database's state in the world of the handler.\<close>

definition on_db :: "('s, 'a) action \<Rightarrow> ('s world, 'a) action" where
  "on_db act = (\<lambda>w. case act (db_state w) of (r, s) \<Rightarrow> (r, w\<lparr>db_state := s\<rparr>))"

definition mutation_headers :: "rest_config \<Rightarrow> string \<Rightarrow> rest_request \<Rightarrow> (string \<times> string) list \<Rightarrow> (string \<times> string) list" where
  "mutation_headers config generated req extra =
     apply_cache_headers \<lparr>is_get = False, has_auth = authorization req, query_ttl = None,
       default_ttl = default_cache_ttl config, cdn_ttl = cdn_max_age config\<rparr>
       (foldl (\<lambda>hs (k, v). insert_header k v hs) (set_request_id (request_id req) generated []) extra)"

definition mutation_source :: "rest_route \<Rightarrow> string \<Rightarrow> rest_outcome_error + string" where
  "mutation_source route verb =
     (case route_source route of
        RMutation name \<Rightarrow> Inr name
      | RQuery _ \<Rightarrow> Inl (Failed (internal_error (verb @ '' route backed by query''))))"

definition effective_mutation ::
  "mutation_definition list \<Rightarrow> string \<Rightarrow> string option \<Rightarrow> rest_outcome_error + string" where
  "effective_mutation mutations name res =
     (case res of
        None \<Rightarrow> Inr name
      | Some r \<Rightarrow>
          if r = ''merge-duplicates'' \<or> r = ''ignore-duplicates'' then
            (case Option.bind (find_mutation mutations name) upsert_function of
               Some f \<Rightarrow> Inr f
             | None \<Rightarrow> Inl (Failed (bad_request ''Upsert not available - no compiler-generated upsert function exists'')))
          else Inr name)"

definition stored_response_to_rest :: "stored_response \<Rightarrow> string option \<Rightarrow> string \<Rightarrow> rest_response" where
  "stored_response_to_rest stored requested generated =
     \<lparr>response_status = stored_status stored,
      response_headers = insert_header ''idempotency-key'' ''replayed=true''
        (foldl (\<lambda>hs (k, v). insert_header k v hs) (set_request_id requested generated []) (stored_headers stored)),
      response_body = stored_body stored\<rparr>"

definition conflict_error :: rest_error where
  "conflict_error = \<lparr>error_status = 422, error_code = ''IDEMPOTENCY_CONFLICT'',
     error_message = ''Idempotency-Key reused with different request body'', error_details = None\<rparr>"

definition to_stored :: "rest_response \<Rightarrow> stored_response" where
  "to_stored r = \<lparr>stored_status = response_status r, stored_headers = response_headers r, stored_body = response_body r\<rparr>"

text \<open>The execution of a single POST, without the idempotency key.\<close>

definition execute_post ::
  "'s backend \<Rightarrow> mutation_definition list \<Rightarrow> rest_config \<Rightarrow> string \<Rightarrow> rest_request \<Rightarrow> rest_route \<Rightarrow> string \<Rightarrow> json \<Rightarrow>
   ('s, rest_response) action" where
  "execute_post B mutations config generated req route name variables =
     (let res = resolution (prefer_from_headers (prefer_values req)) in
      and_then (lift_result (effective_mutation mutations name res)) (\<lambda>f.
      and_then (execute_mutation B f variables (caller req)) (\<lambda>result.
      lift_result (Inr \<lparr>response_status = success_status route,
           response_headers = mutation_headers config generated req
             (case res of
                Some r \<Rightarrow> [(''preference-applied'', ''resolution='' @ r), (''x-rows-affected'', ''1'')]
              | None \<Rightarrow> []),
           response_body = Some result\<rparr>))))"

text \<open>
  A single POST under a key: the key is checked at \<open>now\<close>, the response of a new key is stored at
  \<open>later\<close>.
\<close>

definition idempotent_post ::
  "string \<Rightarrow> u64 \<Rightarrow> nat \<Rightarrow> nat \<Rightarrow> rest_request \<Rightarrow> string \<Rightarrow> idempotency_store \<Rightarrow> ('s, rest_response) action \<Rightarrow>
   ('s world, rest_response) action" where
  "idempotent_post key h now later req generated st run =
     (\<lambda>w. case store_check now key h st of
        (st1, Replay stored) \<Rightarrow>
          (Inr (stored_response_to_rest stored (request_id req) generated), w\<lparr>idempotency := Some st1\<rparr>)
      | (st1, Conflict) \<Rightarrow> (Inl (Failed conflict_error), w\<lparr>idempotency := Some st1\<rparr>)
      | (st1, New) \<Rightarrow>
          (case on_db run (w\<lparr>idempotency := Some st1\<rparr>) of
             (Inl e, w1) \<Rightarrow> (Inl e, w1)
           | (Inr r, w1) \<Rightarrow> (Inr r, w1\<lparr>idempotency := Some (store_store later key h (to_stored r) st1)\<rparr>)))"

definition handle_post ::
  "text_parsers \<Rightarrow> 's backend \<Rightarrow> (json \<Rightarrow> u64) \<Rightarrow> mutation_definition list \<Rightarrow> rest_config \<Rightarrow> rest_route_table \<Rightarrow> string \<Rightarrow> string \<Rightarrow>
   json \<Rightarrow> string option \<Rightarrow> rest_request \<Rightarrow> nat \<Rightarrow> nat \<Rightarrow> ('s world, rest_response) action" where
  "handle_post P B hash mutations config table generated relative_path body key req now later =
     (case resolve table relative_path Post of
        None \<Rightarrow> lift_result (Inl (Failed (rest_not_found ''Route not found'')))
      | Some (route, params) \<Rightarrow>
          and_then (lift_result (mutation_source route ''POST'')) (\<lambda>name.
            case body of
              JArray items \<Rightarrow>
                if params \<noteq> [] then
                  lift_result (Inl (Failed (bad_request ''Array body not allowed on single-resource endpoint'')))
                else on_db (handle_bulk_insert P B mutations items name generated req)
            | _ \<Rightarrow>
                let run = execute_post B mutations config generated req route name
                      (JObject (build_mutation_variables params body))
                in (\<lambda>w. case (key, idempotency w) of
                       (Some k, Some st) \<Rightarrow> idempotent_post k (hash body) now later req generated st run w
                     | _ \<Rightarrow> on_db run w)))"

definition ok_response :: "rest_config \<Rightarrow> string \<Rightarrow> rest_request \<Rightarrow> json \<Rightarrow> rest_response" where
  "ok_response config generated req result =
     \<lparr>response_status = 200, response_headers = mutation_headers config generated req [], response_body = Some result\<rparr>"

definition handle_put ::
  "'s backend \<Rightarrow> compiled_schema \<Rightarrow> rest_config \<Rightarrow> rest_route_table \<Rightarrow> string \<Rightarrow> string \<Rightarrow> json \<Rightarrow> rest_request \<Rightarrow>
   ('s, rest_response) action" where
  "handle_put B schema config table generated relative_path body req =
     (case resolve table relative_path Put of
        None \<Rightarrow> lift_result (Inl (Failed (rest_not_found ''Route not found'')))
      | Some (route, params) \<Rightarrow>
          and_then (lift_result (mutation_source route ''PUT'')) (\<lambda>name.
          and_then (lift_result
            (case Option.bind (find_mutation (schema_mutations schema) name)
                    (\<lambda>md. find_type (schema_types schema) (mutation_return_type md)) of
               Some td \<Rightarrow> validate_put_body body td
             | None \<Rightarrow> Inr ())) (\<lambda>_.
          and_then (execute_mutation B name (JObject (build_mutation_variables params body)) (caller req)) (\<lambda>result.
          lift_result (Inr (ok_response config generated req result))))))"

definition patch_content_type_ok :: "string option \<Rightarrow> bool" where
  "patch_content_type_ok ct =
     (case ct of
        None \<Rightarrow> True
      | Some s \<Rightarrow> find_substring ''application/json'' (to_lowercase s) \<noteq> None \<or>
          find_substring ''application/merge-patch+json'' (to_lowercase s) \<noteq> None)"

definition handle_patch ::
  "text_parsers \<Rightarrow> database \<Rightarrow> 's backend \<Rightarrow> rls_policy option \<Rightarrow> compiled_schema \<Rightarrow> rest_config \<Rightarrow> rest_route_table \<Rightarrow> string \<Rightarrow>
   string \<Rightarrow> json \<Rightarrow> (string \<times> string) list \<Rightarrow> string option \<Rightarrow> rest_request \<Rightarrow> ('s, rest_response) action" where
  "handle_patch P db B rls schema config table generated relative_path body query_params content_type req =
     (if \<not> patch_content_type_ok content_type then
        lift_result (Inl (Failed (bad_request
          ''PATCH requires Content-Type: application/json or application/merge-patch+json'')))
      else
        (case resolve table relative_path Patch of
           Some (route, p # ps) \<Rightarrow>
             and_then (lift_result (mutation_source route ''PATCH'')) (\<lambda>name.
             and_then (execute_mutation B name (JObject (build_mutation_variables (p # ps) body)) (caller req)) (\<lambda>result.
             lift_result (Inr (ok_response config generated req result))))
         | _ \<Rightarrow> handle_bulk_update P db B rls schema config table generated relative_path body query_params req))"

definition delete_response_of ::
  "rest_config \<Rightarrow> string \<Rightarrow> rest_request \<Rightarrow> string \<Rightarrow> json \<Rightarrow> rest_response" where
  "delete_response_of config generated req name result =
     (let prefer = prefer_from_headers (prefer_values req);
          headers = mutation_headers config generated req [];
          want_entity = (if return_representation prefer then True else if return_minimal prefer then False
            else delete_response config = Entity)
      in if want_entity then
           (case extract_delete_entity result name of
              Some entity \<Rightarrow>
                \<lparr>response_status = 200,
                 response_headers = (if return_representation prefer
                   then set_preference_applied [''return=representation''] headers else headers),
                 response_body = Some entity\<rparr>
            | None \<Rightarrow>
                \<lparr>response_status = 204,
                 response_headers = (if return_representation prefer
                   then insert_header ''x-preference-fallback'' ''entity-unavailable''
                     (set_preference_applied [''return=minimal''] headers) else headers),
                 response_body = None\<rparr>)
         else
           \<lparr>response_status = 204,
            response_headers = (if return_minimal prefer
              then set_preference_applied [''return=minimal''] headers else headers),
            response_body = None\<rparr>)"

definition handle_delete ::
  "text_parsers \<Rightarrow> database \<Rightarrow> 's backend \<Rightarrow> rls_policy option \<Rightarrow> compiled_schema \<Rightarrow> rest_config \<Rightarrow> rest_route_table \<Rightarrow> string \<Rightarrow>
   string \<Rightarrow> (string \<times> string) list \<Rightarrow> rest_request \<Rightarrow> ('s, rest_response) action" where
  "handle_delete P db B rls schema config table generated relative_path query_params req =
     (case resolve table relative_path Delete of
        Some (route, p # ps) \<Rightarrow>
          and_then (lift_result (mutation_source route ''DELETE'')) (\<lambda>name.
          and_then (execute_mutation B name (JObject (path_variables (p # ps))) (caller req)) (\<lambda>result.
          lift_result (Inr (delete_response_of config generated req name result))))
      | _ \<Rightarrow> handle_bulk_delete P db B rls schema config table generated relative_path query_params req)"

end
