(* ===== verification/Rest_Paging.thy ===== *)
theory Rest_Paging
  imports Rest_Mutations
begin

text \<open>
  Properties of REST listings: how the page size, the search and the filters of a GET request
  reach the database, through the parameter extractor, the handler and the executor.
\<close>

section \<open>Objects\<close>

lemma map_of_map_insert [simp]: "map_of (map_insert k v m) = (map_of m)(k \<mapsto> v)"
  by (induction k v m rule: map_insert.induct) (auto simp: fun_eq_iff)

lemma map_of_insert_all:
  "map_of (foldl (\<lambda>m (k, v). map_insert k (f v) m) m es) = map_of m ++ map_of (rev (map (\<lambda>(k, v). (k, f v)) es))"
  by (induction es arbitrary: m) (auto simp: map_add_def fun_eq_iff split: option.splits)

lemma map_of_insert_some [simp]:
  "map_of (insert_some k v m) = (case v of Some x \<Rightarrow> (map_of m)(k \<mapsto> x) | None \<Rightarrow> map_of m)"
  by (simp add: insert_some_def split: option.splits)

section \<open>Resolved queries\<close>

lemma lift_params_Inr [simp]: "lift_params r = Inr v \<longleftrightarrow> r = Inr v"
  by (cases r rule: lift_params.cases) auto

lemma lift_db_Inr [simp]: "lift_db r = Inr v \<longleftrightarrow> r = Inr v"
  by (cases r) (auto simp: lift_db_def)

abbreviation get_extractor :: "compiled_schema \<Rightarrow> rest_config \<Rightarrow> query_definition \<Rightarrow> extractor" where
  "get_extractor schema config q \<equiv>
     \<lparr>ex_config = config, ex_query = q, ex_type = find_type (schema_types schema) (return_type q)\<rparr>"

lemma extract_params_Inr:
  assumes "extract_params P ex path_pairs query_pairs = Inr ep"
  obtains raw where
    "extract_path_params P ex path_pairs = Inr (path_params ep)"
    "classify_params P ex query_pairs no_raw_params = Inr raw"
    "parse_select_with_embeddings ex (reserved raw ''select'') = Inr (field_selection ep, embeddings ep, embedding_counts ep)"
    "parse_search ex (reserved raw ''search'') = Inr (search_query ep)"
    "parse_pagination ex (reserved raw) = Inr (pagination ep)"
    "total_count ep \<le> MAX_VARIABLES_COUNT"
  using assms
  by (auto simp: extract_params_def Let_def try_bind_eq_Inr split: prod.splits if_splits)

lemma resolved_facts:
  fixes q params td
  assumes "resolve_get_query P schema config table path pairs ctx = Inr rq"
  defines "q \<equiv> query_def (resolved_match rq)" and "params \<equiv> resolved_params rq"
    and "td \<equiv> find_type (schema_types schema) (return_type (query_def (resolved_match rq)))"
  shows resolved_arguments: "match_arguments (resolved_match rq) = map_of (get_arguments params td)"
    and resolved_role: "role_check q ctx"
    and resolved_extract: "\<exists>path_pairs. extract_params P (get_extractor schema config q) path_pairs pairs = Inr params"
  using assms
  by (auto simp: resolve_get_query_def Let_def try_bind_eq_Inr split: option.splits prod.splits route_source.splits if_splits)

lemma resolved_pagination:
  assumes "resolve_get_query P schema config table path pairs ctx = Inr rq"
  obtains res where "parse_pagination (get_extractor schema config (query_def (resolved_match rq))) res =
    Inr (pagination (resolved_params rq))"
  using resolved_extract [OF assms] by (elim exE extract_params_Inr)

lemma resolved_search:
  assumes "resolve_get_query P schema config table path pairs ctx = Inr rq"
  obtains raw where "parse_search (get_extractor schema config (query_def (resolved_match rq))) raw =
    Inr (search_query (resolved_params rq))"
  using resolved_extract [OF assms] by (elim exE extract_params_Inr)

lemma direct_limit:
  assumes "execute_query_direct types rls qm ctx = Inr aq"
  shows "limit_part aq = arg_u32 (match_arguments qm) ''limit''" "offset_part aq = arg_u32 (match_arguments qm) ''offset''"
  using assms by (auto simp: execute_query_direct_def Let_def try_bind_eq_Inr)

lemma get_arguments_limit:
  "map_of (get_arguments params td) ''limit'' =
     (case pagination params of
        OffsetPage limit offset \<Rightarrow> Some (json_nat limit)
      | _ \<Rightarrow> map_of (rev (path_params params)) ''limit'')"
  using map_of_insert_all [of "\<lambda>x. x" "[]" "path_params params"]
  by (auto simp: get_arguments_def Let_def map_add_def split: option.splits pagination_params.splits)

lemma get_arguments_order:
  "map_of (get_arguments params td) ''orderBy'' =
     (case order_argument (order_by_param params) (Option.bind (search_query params) (\<lambda>query. build_fts_where_clause query td)) of
        Some v \<Rightarrow> Some v
      | None \<Rightarrow> map_of (rev (path_params params)) ''orderBy'')"
  using map_of_insert_all [of "\<lambda>x. x" "[]" "path_params params"]
  by (auto simp: get_arguments_def Let_def map_add_def split: option.splits pagination_params.splits)

lemma get_arguments_where:
  "map_of (get_arguments params td) ''where'' =
     (case where_argument (where_clause_param params) (Option.bind (search_query params) (\<lambda>query. build_fts_where_clause query td)) of
        Some v \<Rightarrow> Some v
      | None \<Rightarrow> map_of (rev (path_params params)) ''where'')"
  using map_of_insert_all [of "\<lambda>x. x" "[]" "path_params params"]
  by (auto simp: get_arguments_def Let_def map_add_def split: option.splits pagination_params.splits)

lemma as_u64_json_nat: "n < 2 ^ 64 \<Longrightarrow> as_u64 (json_nat n) = Some n"
  by (simp add: json_nat_def unsigned_of_nat take_bit_nat_eq_self)

section \<open>A sample schema\<close>

definition sample_user :: type_definition where
  "sample_user = \<lparr>type_name = ''User'',
     type_fields = [\<lparr>field_name = ''name'', fd_field_type = FT_String, field_alias = None, requires_scope = None, on_deny = Reject\<rparr>,
       \<lparr>field_name = ''age'', fd_field_type = FT_Int, field_alias = None, requires_scope = None, on_deny = Reject\<rparr>],
     relationships = [], type_sql_source = ''v_user'', is_error = False\<rparr>"

definition sample_users :: "bool \<Rightarrow> query_definition" where
  "sample_users is_relay = \<lparr>query_name = ''users'', return_type = ''User'', returns_list = True, query_arguments = [],
     sql_source = Some ''v_user'', query_auto_params = \<lparr>has_where = True, has_order_by = True, has_limit = True, has_offset = True\<rparr>,
     relay = is_relay, relay_cursor_column = None, relay_cursor_type = CursorInt64, inject_params = [],
     requires_role = None, native_columns = Map.empty, query_rest_path = None, query_rest_method = None, cache_ttl_seconds = None\<rparr>"

definition sample_schema :: "bool \<Rightarrow> compiled_schema" where
  "sample_schema is_relay = \<lparr>schema_types = [sample_user], schema_queries = [sample_users is_relay], schema_mutations = [],
     schema_rest_config = None, schema_unions = [], schema_input_types = [],
     session_variables = \<lparr>session_mappings = [], inject_started_at = False\<rparr>, naming_convention = Preserve\<rparr>"

definition sample_table :: rest_route_table where
  "sample_table = \<lparr>table_base_path = ''/rest/v1'', resources = [\<lparr>resource_name = ''users'', resource_type = ''User'',
     id_arg = None, resource_routes = [\<lparr>route_method = Get, route_path = ''/users'', route_source = RQuery ''users'',
       route_coverage = None, success_status = 200\<rparr>]\<rparr>], diagnostics = []\<rparr>"

definition no_parsers :: text_parsers where
  "no_parsers = \<lparr>parse_json = \<lambda>_. None, parse_f64 = \<lambda>_. None\<rparr>"

lemmas sample_defs = sample_user_def sample_users_def sample_schema_def sample_table_def no_parsers_def

lemma sample_table_derived: "from_compiled_schema (sample_schema is_relay) = Inr sample_table"
  by (cases is_relay) (simp_all only:, code_simp+)

lemma sample_resolve:
  "resolve sample_table ''/users'' Get = Some (hd (resource_routes (hd (resources sample_table))), [])"
  by (simp add: resolve_def table_routes_def match_route_path_def path_segments_def sample_table_def is_parameter_def)

lemmas extract_eval = extract_params_def extract_path_params_def classify_param_def parse_bracket_key_def
  RESERVED_PARAMS_def no_raw_params_def pagination_guard_def parse_select_with_embeddings_def parse_sort_def
  parse_search_def parse_logical_groups_def parse_filter_def merge_where_with_logical_def merge_where_def
  parse_pagination_def parse_offset_pagination_def parse_cursor_pagination_def parse_page_number_def
  parse_u64_def utext_of_def digits_value_def total_count_def MAX_VARIABLES_COUNT_def extract_embedding_filters_def
  embedding_filter_step_def split_dot_def

lemma direct_reaches:
  assumes "sql_source (query_def qm) = Some src" "match_arguments qm ''where'' = None" "match_arguments qm ''orderBy'' = None"
  shows "\<exists>aq. execute_query_direct types None qm None = Inr aq"
  using assms
  by (simp add: execute_query_direct_def evaluate_rls_def require_sql_source_def user_where_def order_by_argument_def Let_def)

text \<open>A request on the sample schema.\<close>

abbreviation sample_get :: "bool \<Rightarrow> (string \<times> string) list \<Rightarrow> rest_outcome_error + resolved_get_query" where
  "sample_get is_relay pairs \<equiv>
     resolve_get_query no_parsers (sample_schema is_relay) rest_config_default sample_table ''/users'' pairs None"

lemma sample_get_eval:
  "sample_get is_relay pairs =
     try_bind (lift_params (extract_params no_parsers (get_extractor (sample_schema is_relay) rest_config_default
         (sample_users is_relay)) [] pairs)) (\<lambda>params.
       let arguments = get_arguments params (Some sample_user) in
       Inr \<lparr>resolved_query_name = ''users'',
            resolved_match = \<lparr>query_def = sample_users is_relay, match_arguments = map_of arguments\<rparr>,
            resolved_variables = get_variables (pagination params) arguments, resolved_params = params\<rparr>)"
  unfolding resolve_get_query_def sample_resolve
  by (simp add: sample_table_def sample_schema_def sample_users_def sample_user_def find_query_def find_type_def role_check_def Let_def)

section \<open>Page sizes\<close>

lemma page_number_bound: "parse_page_number name expected s = Inr v \<Longrightarrow> v < 2 ^ 64"
  by (auto simp: parse_page_number_def parse_u64_def split: option.splits if_splits list.splits)

lemma parse_pagination_list:
  assumes "parse_pagination ex res = Inr page" "returns_list (ex_query ex)"
  shows "\<not> relay (ex_query ex) \<Longrightarrow> \<exists>limit offset. page = OffsetPage limit offset \<and>
      limit \<le> max (max_page_size (ex_config ex)) (default_page_size (ex_config ex)) \<and>
      (limit = default_page_size (ex_config ex) \<or> limit \<le> max_page_size (ex_config ex))"
    and "relay (ex_query ex) \<Longrightarrow> \<exists>fst_n after lst_n before. page = CursorPage fst_n after lst_n before"
  using assms
  by (auto simp: parse_pagination_def parse_offset_pagination_def parse_cursor_pagination_def try_bind_eq_Inr
      split: option.splits if_splits)

text \<open>
  C30. A REST listing with offset pagination never asks the database for more rows than the
  configuration allows: whatever the request says, the limit that reaches the database exists and
  is at most the maximum page size, or the default page size when that is larger. (Both are below
  \<open>2 ^ 32\<close>; the executor drops larger limits.)
\<close>

theorem rest_page_bounded:
  assumes "resolve_get_query P schema config table path pairs ctx = Inr rq"
    and "execute_query_direct (schema_types schema) rls (resolved_match rq) ctx = Inr aq"
    and "returns_list (query_def (resolved_match rq))" "\<not> relay (query_def (resolved_match rq))"
    and "max_page_size config < 2 ^ 32" "default_page_size config < 2 ^ 32"
  shows "\<exists>n. limit_part aq = Some n \<and> n \<le> max (max_page_size config) (default_page_size config)"
proof -
  let ?ex = "get_extractor schema config (query_def (resolved_match rq))"
  obtain res where "parse_pagination ?ex res = Inr (pagination (resolved_params rq))"
    using assms(1) by (rule resolved_pagination)
  then obtain limit offset where page: "pagination (resolved_params rq) = OffsetPage limit offset"
      "limit \<le> max (max_page_size config) (default_page_size config)"
    using parse_pagination_list(1) [of ?ex res] assms(3,4) by auto
  then have "limit < 2 ^ 32" using assms(5,6) by linarith
  moreover have "limit < 2 ^ 64" using \<open>limit < 2 ^ 32\<close> by simp
  ultimately have "arg_u32 (match_arguments (resolved_match rq)) ''limit'' = Some limit"
    using page(1) by (simp add: resolved_arguments [OF assms(1)] arg_u32_def get_arguments_limit as_u64_json_nat)
  then show ?thesis using direct_limit(1) [OF assms(2)] page(2) by simp
qed

theorem rest_page_bounded_witness:
  "\<exists>rq aq n. resolve_get_query no_parsers (sample_schema False) rest_config_default sample_table ''/users''
      [(''limit'', ''5000'')] None = Inr rq \<and>
    execute_query_direct (schema_types (sample_schema False)) None (resolved_match rq) None = Inr aq \<and>
    limit_part aq = Some n \<and> n \<le> 1000"
proof -
  have q: "returns_list (sample_users False)" "\<not> relay (sample_users False)" by (simp_all add: sample_users_def)
  obtain rq where r: "sample_get False [(''limit'', ''5000'')] = Inr rq" "query_def (resolved_match rq) = sample_users False"
      "match_arguments (resolved_match rq) ''where'' = None" "match_arguments (resolved_match rq) ''orderBy'' = None"
    using q by (simp add: sample_get_eval extract_eval Let_def get_arguments_where get_arguments_order
        where_argument_def order_argument_def)
  obtain aq where aq: "execute_query_direct (schema_types (sample_schema False)) None (resolved_match rq) None = Inr aq"
    using direct_reaches [of "resolved_match rq", OF _ r(3,4)] r(2) by (auto simp: sample_users_def)
  show ?thesis using r aq rest_page_bounded [OF r(1) aq] q by (auto simp: rest_config_default_def)
qed

text \<open>
  Over REST the pagination of a relay query is lost: the page size goes into the variables,
  which the direct entry point of the executor ignores. Whatever page size the request gives and
  whatever the maximum, the query reaches the database without a limit. (No path parameter is
  called \<open>limit\<close>.)
\<close>

theorem rest_relay_unpaged:
  assumes "resolve_get_query P schema config table path pairs ctx = Inr rq"
    and "execute_query_direct (schema_types schema) rls (resolved_match rq) ctx = Inr aq"
    and "returns_list (query_def (resolved_match rq))" "relay (query_def (resolved_match rq))"
    and "''limit'' \<notin> fst ` set (path_params (resolved_params rq))"
  shows "limit_part aq = None"
proof -
  let ?ex = "get_extractor schema config (query_def (resolved_match rq))"
  obtain res where "parse_pagination ?ex res = Inr (pagination (resolved_params rq))"
    using assms(1) by (rule resolved_pagination)
  then obtain a b c d where page: "pagination (resolved_params rq) = CursorPage a b c d"
    using parse_pagination_list(2) [of ?ex res] assms(3,4) by auto
  have "map_of (rev (path_params (resolved_params rq))) ''limit'' = None"
    using assms(5) by (simp add: map_of_eq_None_iff)
  then have "arg_u32 (match_arguments (resolved_match rq)) ''limit'' = None"
    using page by (simp add: resolved_arguments [OF assms(1)] arg_u32_def get_arguments_limit)
  then show ?thesis using direct_limit(1) [OF assms(2)] by simp
qed

theorem rest_relay_unpaged_witness:
  "\<exists>rq aq. resolve_get_query no_parsers (sample_schema True) rest_config_default sample_table ''/users''
      [(''first'', ''5'')] None = Inr rq \<and>
    execute_query_direct (schema_types (sample_schema True)) None (resolved_match rq) None = Inr aq \<and> limit_part aq = None"
proof -
  have q: "returns_list (sample_users True)" "relay (sample_users True)" by (simp_all add: sample_users_def)
  obtain rq where r: "sample_get True [(''first'', ''5'')] = Inr rq" "query_def (resolved_match rq) = sample_users True"
      "match_arguments (resolved_match rq) ''where'' = None" "match_arguments (resolved_match rq) ''orderBy'' = None"
      "path_params (resolved_params rq) = []"
    using q by (simp add: sample_get_eval extract_eval Let_def get_arguments_where get_arguments_order
        where_argument_def order_argument_def)
  obtain aq where aq: "execute_query_direct (schema_types (sample_schema True)) None (resolved_match rq) None = Inr aq"
    using direct_reaches [of "resolved_match rq", OF _ r(3,4)] r(2) by (auto simp: sample_users_def)
  show ?thesis using r aq rest_relay_unpaged [OF r(1) aq] q by auto
qed

section \<open>Search\<close>

text \<open>
  A full-text search without an explicit sort never succeeds: the handler asks for an order by
  relevance in a form that the parser of orders does not accept, so the executor returns an error
  whatever the data.
\<close>

theorem rest_search_needs_sort:
  assumes "resolve_get_query P schema config table path pairs ctx = Inr rq"
    and "search_query (resolved_params rq) = Some text" "order_by_param (resolved_params rq) = None"
    and "find_type (schema_types schema) (return_type (query_def (resolved_match rq))) = Some td"
  shows "\<exists>e. execute_query_direct (schema_types schema) rls (resolved_match rq) ctx = Inl e"
proof -
  obtain raw where "parse_search (get_extractor schema config (query_def (resolved_match rq))) raw =
      Inr (search_query (resolved_params rq))"
    using assms(1) by (rule resolved_search)
  then have "searchable_fields td \<noteq> []"
    using assms(2,4) by (auto simp: parse_search_def split: option.splits if_splits)
  then have "build_fts_where_clause text (Some td) \<noteq> None"
    by (auto simp: build_fts_where_clause_def Let_def split: list.splits)
  then have "match_arguments (resolved_match rq) ''orderBy'' = Some (JArray [JObject [(''_relevance'', JString ''desc'')]])"
    using assms(2-4) by (simp add: resolved_arguments [OF assms(1)] get_arguments_order order_argument_def)
  then have "\<exists>e. order_by_argument (schema_types schema) (query_def (resolved_match rq))
      (match_arguments (resolved_match rq)) = Inl e"
    by (simp add: order_by_argument_def order_by_from_graphql_json_def order_item_def)
  then show ?thesis
    by (cases "execute_query_direct (schema_types schema) rls (resolved_match rq) ctx")
      (auto simp: execute_query_direct_def Let_def try_bind_eq_Inr)
qed

theorem rest_search_needs_sort_witness:
  "\<exists>rq e. resolve_get_query no_parsers (sample_schema False) rest_config_default sample_table ''/users''
      [(''search'', ''ann'')] None = Inr rq \<and>
    execute_query_direct (schema_types (sample_schema False)) None (resolved_match rq) None = Inl e"
proof -
  have q: "returns_list (sample_users False)" "\<not> relay (sample_users False)" "return_type (sample_users False) = ''User''"
    by (simp_all add: sample_users_def)
  have t: "find_type (schema_types (sample_schema False)) ''User'' = Some sample_user"
    by (simp add: sample_schema_def sample_user_def find_type_def)
  have f: "searchable_fields sample_user \<noteq> []" by (simp add: sample_user_def searchable_fields_def)
  obtain rq where r: "sample_get False [(''search'', ''ann'')] = Inr rq" "query_def (resolved_match rq) = sample_users False"
        "search_query (resolved_params rq) = Some ''ann''" "order_by_param (resolved_params rq) = None"
    using q t f by (simp add: sample_get_eval extract_eval Let_def)
  show ?thesis using r rest_search_needs_sort [OF r(1,3,4)] t q by auto
qed

end
