(* ===== verification/Rest_Related.thy ===== *)
theory Rest_Related
  imports Rest_Paging
begin

text \<open>
  Properties of embedded resources: which related rows a request gets, and who may read them.
\<close>

section \<open>Objects with sorted keys\<close>

lemma str_less_irrefl [simp]: "\<not> str_less s s"
  by (induction s) auto

lemma str_less_trans: "str_less s t \<Longrightarrow> str_less t u \<Longrightarrow> str_less s u"
proof (induction s t arbitrary: u rule: str_less.induct)
  case (2 d t)
  then show ?case by (cases u) auto
next
  case (3 c s d t)
  then show ?case by (cases u) auto
qed simp

lemma str_less_total: "s \<noteq> t \<Longrightarrow> \<not> str_less s t \<Longrightarrow> str_less t s"
  by (induction s t rule: str_less.induct) (auto simp: neq_Nil_conv not_less_iff_gr_or_eq)

abbreviation sorted_keys :: "(string \<times> json) list \<Rightarrow> bool" where
  "sorted_keys m \<equiv> sorted_wrt (\<lambda>e e'. str_less (fst e) (fst e')) m"

lemma map_insert_keys: "fst ` set (map_insert k v m) = insert k (fst ` set m)"
  by (induction k v m rule: map_insert.induct) auto

lemma map_insert_sorted: "sorted_keys m \<Longrightarrow> sorted_keys (map_insert k v m)"
proof (induction k v m rule: map_insert.induct)
  case (2 k v k' v' es)
  have "str_less k' (fst e)" if "e \<in> set (map_insert k v es)" "k \<noteq> k'" "\<not> str_less k k'" for e
  proof -
    have "fst e = k \<or> fst e \<in> fst ` set es" using that(1) map_insert_keys [of k v es] by (metis imageI insertE)
    then show ?thesis using that 2(2) str_less_total [of k k'] by auto
  qed
  with 2 show ?case by (auto intro: str_less_trans)
qed simp

text \<open>Objects that differ at most in the value of one key.\<close>

definition same_but :: "string \<Rightarrow> (string \<times> json) list \<Rightarrow> (string \<times> json) list \<Rightarrow> bool" where
  "same_but f m m' \<longleftrightarrow> list_all2 (\<lambda>e e'. fst e = fst e' \<and> (fst e \<noteq> f \<longrightarrow> snd e = snd e')) m m'"

lemma same_but_refl: "same_but f m m"
  by (simp add: same_but_def list_all2_refl)

lemma same_but_insert: "same_but f m m' \<Longrightarrow> same_but f (map_insert k v m) (map_insert k v m')"
proof (induction m arbitrary: m')
  case (Cons e m)
  then obtain e' m'' where "m' = e' # m''" by (auto simp: same_but_def list_all2_Cons1)
  then show ?case using Cons by (cases e, cases e') (auto simp: same_but_def)
qed (simp add: same_but_def)

lemma same_but_absent: "same_but f m m' \<Longrightarrow> f \<notin> fst ` set m \<Longrightarrow> m = m'"
  unfolding same_but_def by (induction rule: list_all2_induct) (auto simp: prod_eq_iff)

lemma map_insert_overwrites:
  "same_but f m m' \<Longrightarrow> sorted_keys m \<Longrightarrow> map_insert f v m = map_insert f v m'"
proof (induction m arbitrary: m')
  case (Cons e m)
  then obtain e' m'' where m': "m' = e' # m''" "fst e = fst e'" "fst e \<noteq> f \<longrightarrow> snd e = snd e'" "same_but f m m''"
    by (auto simp: same_but_def list_all2_Cons1)
  show ?case
  proof (cases "str_less f (fst e) \<or> fst e = f")
    case True
    then have "f \<notin> fst ` set m" using Cons(3) by (auto dest: str_less_trans)
    then have "m = m''" using m'(4) same_but_absent by blast
    then show ?thesis using m' True by (cases e, cases e') auto
  next
    case False
    then show ?thesis using m' Cons by (cases e, cases e') auto
  qed
qed (simp add: same_but_def)

lemma insert_all_overwrites:
  assumes "same_but f m m'" "sorted_keys m" "f \<in> fst ` set es"
  shows "foldl (\<lambda>m (k, v). map_insert k v m) m es = foldl (\<lambda>m (k, v). map_insert k v m) m' es"
  using assms
proof (induction es arbitrary: m m')
  case (Cons e es)
  show ?case
  proof (cases "fst e = f")
    case True
    then show ?thesis using map_insert_overwrites [OF Cons(2,3)] by (cases e) simp
  next
    case False
    then show ?thesis
      using Cons.IH [OF same_but_insert [OF Cons(2)] map_insert_sorted [OF Cons(3)]] Cons(4) by (cases e) auto
  qed
qed simp

section \<open>The join condition\<close>

lemma embedding_where_overridden:
  assumes "filter_field rel \<in> fst ` set es"
  shows "embedding_where rel key (Some (JObject es)) = embedding_where rel key' (Some (JObject es))"
proof -
  let ?b = "\<lambda>key. [(filter_field rel, JObject [(''eq'', key)])]"
  have "same_but (filter_field rel) (?b key) (?b key')" by (simp add: same_but_def)
  then show ?thesis using insert_all_overwrites [OF _ _ assms, of "?b key" "?b key'"]
    by (simp add: embedding_where_def Let_def)
qed

text \<open>
  A filter on the join field replaces the join: when the filter of an embedding has an entry
  for the field that links the related rows to their parent, every parent row gets the same
  related rows, those of the filter, whichever parent they belong to.
\<close>

theorem embedding_filter_replaces_join:
  assumes "filter_field rel \<in> fst ` set es"
  shows "\<exists>outcome. \<forall>row. extract_join_key row rel \<noteq> None \<longrightarrow>
    embed_into_single db rls schema config ctx rel output names (Some (JObject es)) row =
      try_bind outcome (\<lambda>v. Inr (set_field output v row))"
proof (cases "find_list_query_for_type (schema_queries schema) (target_type rel)")
  case None
  then show ?thesis
    by (intro exI [of _ "Inr (case rel_cardinality rel of OneToMany \<Rightarrow> JArray [] | _ \<Rightarrow> JNull)"])
      (auto simp: embed_into_single_def set_empty_embedding_def)
next
  case (Some q)
  let ?run = "\<lambda>key. query_direct db rls schema \<lparr>query_def = q, match_arguments =
    [''where'' \<mapsto> embedding_where rel key (Some (JObject es)), ''limit'' \<mapsto> json_nat (max_page_size config)]\<rparr> names ctx"
  have "?run key = ?run JNull" for key
    using embedding_where_overridden [OF assms, of key JNull] by simp
  then show ?thesis
    by (intro exI [of _ "try_bind (?run JNull) (\<lambda>result.
        Inr (embedded_value (rel_cardinality rel) (extract_query_data result (query_name q))))"])
      (auto simp: embed_into_single_def Some try_bind_def split: sum.splits)
qed

section \<open>A sample schema\<close>

definition user_posts :: relationship where
  "user_posts = \<lparr>rel_name = ''posts'', target_type = ''Post'', rel_cardinality = OneToMany, foreign_key = ''fk_user'',
     referenced_key = ''pk_user''\<rparr>"

definition admin_posts :: query_definition where
  "admin_posts = (sample_users False)\<lparr>query_name := ''posts'', return_type := ''Post'', sql_source := Some ''v_post'',
     requires_role := Some ''admin''\<rparr>"

definition blog_schema :: compiled_schema where
  "blog_schema = (sample_schema False)\<lparr>schema_types := [sample_user\<lparr>relationships := [user_posts]\<rparr>,
      \<lparr>type_name = ''Post'', type_fields = [], relationships = [], type_sql_source = ''v_post'', is_error = False\<rparr>],
     schema_queries := [sample_users False, admin_posts]\<rparr>"

definition blog_user :: "string \<Rightarrow> json" where
  "blog_user key = JObject [(''pk_user'', JString key)]"

definition blog_database :: database where
  "blog_database = \<lparr>run_query = \<lambda>q names aq. Inr (JObject [(''data'', JObject [(query_name q, JArray [JString ''secret''])])]),
     run_count = \<lambda>aq. Inr 1\<rparr>"

lemmas blog_defs = user_posts_def admin_posts_def blog_schema_def blog_user_def blog_database_def

theorem embedding_filter_replaces_join_witness:
  "\<exists>outcome.
    embed_into_single blog_database None blog_schema rest_config_default None user_posts ''posts'' [''title'']
      (Some (JObject [(''fk_user'', JObject [(''eq'', JString ''2'')])])) (blog_user ''1'') =
      try_bind outcome (\<lambda>v. Inr (set_field ''posts'' v (blog_user ''1''))) \<and>
    embed_into_single blog_database None blog_schema rest_config_default None user_posts ''posts'' [''title'']
      (Some (JObject [(''fk_user'', JObject [(''eq'', JString ''2'')])])) (blog_user ''3'') =
      try_bind outcome (\<lambda>v. Inr (set_field ''posts'' v (blog_user ''3'')))"
proof -
  have key: "extract_join_key (blog_user k) user_posts \<noteq> None" for k
    by (simp add: extract_join_key_def json_get_def blog_user_def user_posts_def)
  have "filter_field user_posts \<in> fst ` set [(''fk_user'', JObject [(''eq'', JString ''2'')])]"
    by (simp add: filter_field_def user_posts_def)
  from embedding_filter_replaces_join [OF this, of blog_database None blog_schema rest_config_default None "''posts''" "[''title'']"]
  show ?thesis using key by blast
qed

section \<open>Who may read related rows\<close>

lemma from_graphql_json_join:
  assumes "f \<notin> {''_and'', ''_or'', ''_not''}"
  shows "from_graphql_json (JObject [(f, JObject [(''eq'', key)])]) = Inr (Field [to_snake_case f] Eq key)"
  using assms
  by (simp add: from_graphql_json_def parse_where_object_def parse_clause_object.simps parse_entries.simps(2)
      parse_entry.simps parse_ops.simps(2) from_str_def operator_table_def)

lemma auto_arguments_only:
  assumes "dom args \<subseteq> set AUTO_PARAM_NAMES"
  shows "combine_explicit_arg_where existing defined args native = existing"
proof -
  have "explicit_conditions defined args native = []"
    using assms by (induction defined) (auto simp: explicit_conditions_def map_filter_simps split: option.splits)
  then show ?thesis by (simp add: combine_explicit_arg_where_def)
qed

lemma anonymous_embedding_query:
  assumes "sql_source q = Some src" "filter_field rel \<notin> {''_and'', ''_or'', ''_not''}"
  shows "\<exists>aq. execute_query_direct types rls \<lparr>query_def = q, match_arguments =
      [''where'' \<mapsto> embedding_where rel key None, ''limit'' \<mapsto> json_nat n]\<rparr> None = Inr aq \<and> source aq = src \<and>
    where_part aq = (if has_where (query_auto_params q) then Some (Field [to_snake_case (filter_field rel)] Eq key) else None)"
  using assms
  by (auto simp: execute_query_direct_def evaluate_rls_def require_sql_source_def user_where_def embedding_where_def
      from_graphql_json_join order_by_argument_def auto_arguments_only AUTO_PARAM_NAMES_def compose_where_def Let_def
      split: option.splits)

text \<open>
  The role a query requires does not protect its rows from being embedded. A listing that
  requires a role is refused to an anonymous caller; as the target of a relationship it is run for
  that caller, whatever the row-level policy, and the related rows are put into the parent row. The
  only condition is the join, and even that is missing when the listing takes no filter.
\<close>

theorem embedding_skips_role:
  assumes "extract_join_key row rel = Some key" "filter_field rel \<notin> {''_and'', ''_or'', ''_not''}"
    and "find_list_query_for_type (schema_queries schema) (target_type rel) = Some q"
    and "sql_source q = Some src" "requires_role q = Some role"
  shows "\<not> role_check q None \<and> (\<exists>aq. source aq = src \<and>
    where_part aq = (if has_where (query_auto_params q) then Some (Field [to_snake_case (filter_field rel)] Eq key) else None) \<and>
    embed_into_single db rls schema config None rel output names None row =
      try_bind (lift_adapter (run_query db q names aq)) (\<lambda>result.
        Inr (set_field output (embedded_value (rel_cardinality rel) (extract_query_data result (query_name q))) row)))"
proof -
  obtain aq where "execute_query_direct (schema_types schema) rls \<lparr>query_def = q, match_arguments =
      [''where'' \<mapsto> embedding_where rel key None, ''limit'' \<mapsto> json_nat (max_page_size config)]\<rparr> None = Inr aq" "source aq = src"
      "where_part aq = (if has_where (query_auto_params q) then Some (Field [to_snake_case (filter_field rel)] Eq key) else None)"
    using anonymous_embedding_query [OF assms(4,2)] by blast
  then show ?thesis using assms
    by (intro conjI exI [of _ aq]) (simp_all add: role_check_def embed_into_single_def query_direct_def lift_db_def)
qed

theorem embedding_skips_role_witness:
  "\<not> role_check admin_posts None \<and>
   embed_into_single blog_database None blog_schema rest_config_default None user_posts ''posts'' [] None (blog_user ''1'') =
     Inr (JObject [(''pk_user'', JString ''1''), (''posts'', JArray [JString ''secret''])])"
proof -
  have "extract_join_key (blog_user ''1'') user_posts = Some (JString ''1'')"
    "filter_field user_posts \<notin> {''_and'', ''_or'', ''_not''}"
    "find_list_query_for_type (schema_queries blog_schema) (target_type user_posts) = Some admin_posts"
    "sql_source admin_posts = Some ''v_post''" "requires_role admin_posts = Some ''admin''"
    by (simp_all add: extract_join_key_def json_get_def filter_field_def find_list_query_for_type_def blog_defs sample_users_def)
  from embedding_skips_role [OF this, of blog_database None rest_config_default "''posts''" "[]"]
  show ?thesis
    by (auto simp: blog_database_def lift_adapter_def embedded_value_def extract_query_data_def json_get_def set_field_def
        blog_user_def user_posts_def admin_posts_def)
qed

end
