(* ===== verification/Rest_Selection.thy ===== *)
theory Rest_Selection
  imports Rest_Related
begin

text \<open>
  Properties of the \<open>select\<close> parameter: what an accepted selection refers to, and when the parser
  panics.
\<close>

section \<open>Accepted selections\<close>

fun select_depth :: "select_entry \<Rightarrow> nat" where
  "select_depth (SelEmbedded rel rename sub) = Suc (foldr (\<lambda>e m. max (select_depth e) m) sub 0)"
| "select_depth _ = 0"

lemma foldr_max_le: "foldr (\<lambda>e m. max (f e) m) xs 0 \<le> n \<longleftrightarrow> (\<forall>e \<in> set xs. f e \<le> (n :: nat))"
  by (induction xs) auto

lemma collect_results_unit: "(\<exists>ys. collect_results f xs = Inr ys) \<longleftrightarrow> (\<forall>x \<in> set xs. \<exists>y. f x = Inr y)"
  by (induction xs) (auto simp: try_bind_eq_Inr)

lemma validate_embedding_depth_bound:
  "validate_embedding_depth e d n = Inr u \<Longrightarrow> select_depth e = 0 \<or> d + select_depth e \<le> Suc n"
proof (induction e d n arbitrary: u rule: validate_embedding_depth.induct)
  case (1 rel rename sub d n)
  then have "d \<le> n" and ys: "\<exists>ys. collect_results (\<lambda>e. validate_embedding_depth e (d + 1) n) sub = Inr ys"
    by (auto simp: try_bind_eq_Inr split: if_splits)
  have "select_depth e \<le> n - d" if "e \<in> set sub" for e
    using 1(1) [OF _ that] \<open>d \<le> n\<close> ys that unfolding collect_results_unit by fastforce
  then have "foldr (\<lambda>e m. max (select_depth e) m) sub 0 \<le> n - d" by (simp add: foldr_max_le)
  then show ?case using \<open>d \<le> n\<close> by simp
qed auto

text \<open>
  C31. An accepted selection refers only to what the type has: its plain fields are fields of the
  type, its embeddings and counts are relationships of the type, and no embedding is nested deeper
  than the configured maximum.
\<close>

theorem accepted_selection_known:
  assumes "parse_select_with_embeddings ex (Some r) = Inr (spec, embedded, counts)" "ex_type ex = Some td"
  shows "(case spec of AllFields \<Rightarrow> True | Fields fs \<Rightarrow> \<forall>f \<in> set fs. find_field_by_output_name td f \<noteq> None) \<and>
    (\<forall>e \<in> set embedded. (\<exists>rel rename sub. e = SelEmbedded rel rename sub \<and> rel \<in> rel_name ` set (relationships td)) \<and>
       select_depth e \<le> max_embedding_depth (ex_config ex)) \<and>
    set counts \<subseteq> rel_name ` set (relationships td)"
proof (cases "r = []")
  case True
  then show ?thesis using assms by (auto simp: parse_select_with_embeddings_def)
next
  case False
  then obtain es ys where es: "collect_results (validate_select_entry ex) es = Inr ys"
      "embedded = embedded_specs es" "counts = count_names es"
      "spec = (if flat_fields es = [] \<and> embedded_specs es \<noteq> [] then AllFields else Fields (flat_fields es))"
    using assms(1) by (simp add: parse_select_with_embeddings_def try_bind_eq_Inr) blast
  have valid: "\<exists>y. validate_select_entry ex e = Inr y" if "e \<in> set es" for e
    using es(1) that collect_results_unit [of "validate_select_entry ex" es] by auto
  have "find_field_by_output_name td n \<noteq> None" if "SelField n \<in> set es" for n
    using valid [OF that] assms(2) by (auto simp: validate_select_entry_def validate_field_name_def split: if_splits)
  moreover have "n \<in> rel_name ` set (relationships td)" if "SelCount n \<in> set es" for n
    using valid [OF that] assms(2)
    by (auto simp: validate_select_entry_def validate_embedding_relationship_name_def split: if_splits)
  moreover have "rel \<in> rel_name ` set (relationships td) \<and>
      select_depth (SelEmbedded rel rename sub) \<le> max_embedding_depth (ex_config ex)"
    if "SelEmbedded rel rename sub \<in> set es" for rel rename sub
    using valid [OF that] assms(2) validate_embedding_depth_bound [of "SelEmbedded rel rename sub" 1 "max_embedding_depth (ex_config ex)"]
    by (auto simp: validate_select_entry_def validate_embedding_relationship_name_def try_bind_eq_Inr
        simp del: validate_embedding_depth.simps split: if_splits)
  ultimately show ?thesis using es(2-4)
    by (auto simp: flat_fields_def embedded_specs_def count_names_def split: select_entry.splits)
qed

definition blog_extractor :: extractor where
  "blog_extractor = \<lparr>ex_config = rest_config_default, ex_query = sample_users False,
     ex_type = Some (sample_user\<lparr>relationships := [user_posts]\<rparr>)\<rparr>"

theorem accepted_selection_known_witness:
  "parse_select_with_embeddings blog_extractor (Some ''age,posts(t)'') =
     Inr (Fields [''age''], [SelEmbedded ''posts'' None [SelField ''t'']], []) \<and>
   find_field_by_output_name (sample_user\<lparr>relationships := [user_posts]\<rparr>) ''age'' \<noteq> None \<and>
   select_depth (SelEmbedded ''posts'' None [SelField ''t'']) \<le> 3 \<and>
   ''posts'' \<in> rel_name ` set (relationships (sample_user\<lparr>relationships := [user_posts]\<rparr>))"
proof -
  have parsed: "parse_select_with_embeddings blog_extractor (Some ''age,posts(t)'') =
     Inr (Fields [''age''], [SelEmbedded ''posts'' None [SelField ''t'']], [])"
    by code_simp
  show ?thesis
    using parsed accepted_selection_known [OF parsed, of "sample_user\<lparr>relationships := [user_posts]\<rparr>"]
    by (simp add: blog_extractor_def rest_config_default_def)
qed

section \<open>Panics\<close>

abbreviation ascii :: "string \<Rightarrow> bool" where
  "ascii s \<equiv> \<forall>c \<in> set s. code c < 128"

lemma utf8_len_ascii: "ascii s \<Longrightarrow> utf8_len s = length s"
  by (induction s) (auto simp: utf8_len_def)

lemma boundary_ascii:
  assumes "ascii s" "b \<le> length s"
  shows "boundary s b = Some b"
proof -
  have "ascii (take i s)" for i using assms(1) in_set_takeD by fast
  then have "utf8_len (take i s) = min i (length s)" for i
    using utf8_len_ascii [of "take i s"] by simp
  then show ?thesis using assms(2) unfolding boundary_def find_Some_iff
    by (auto simp: nth_upt less_Suc_eq_le simp del: upt_Suc intro!: exI [of _ b])
qed

lemma byte_slice_ascii: "ascii s \<Longrightarrow> a \<le> b \<Longrightarrow> b \<le> length s \<Longrightarrow> byte_slice s a b = Inr (drop a (take b s))"
  by (simp add: byte_slice_def boundary_ascii)

lemma closing_paren_bound: "closing_paren s d = Some n \<Longrightarrow> n < length s"
  by (induction s arbitrary: d n) (auto simp: Let_def split: if_splits)

lemma try_bind_panic: "try_bind r f = Inl Panic \<longleftrightarrow> r = Inl Panic \<or> (\<exists>v. r = Inr v \<and> f v = Inl Panic)"
  by (cases r) auto

lemma select_loop_no_panic: "ascii input \<Longrightarrow> select_loop input i \<noteq> Inl Panic"
proof (induction input i rule: select_loop.induct)
  case (1 input i)
  let ?start = "skip (\<lambda>c. c = CHR '','' \<or> c = CHR '' '') input i"
  let ?after = "skip select_name_char input ?start"
  let ?i1 = "skip ((=) CHR '' '') input ?after"
  show ?case
  proof (cases "?start \<ge> length input")
    case False
    have name: "byte_slice input ?start ?after = Inr (drop ?start (take ?after input))"
      using False 1(5) by (simp add: byte_slice_ascii skip_bound)
    consider (empty) "trim (drop ?start (take ?after input)) = []"
      | (dot) "trim (drop ?start (take ?after input)) \<noteq> []" "?i1 < length input \<and> input ! ?i1 = CHR ''.''"
      | (paren) "trim (drop ?start (take ?after input)) \<noteq> []" "\<not> (?i1 < length input \<and> input ! ?i1 = CHR ''.'')"
          "?i1 < length input \<and> input ! ?i1 = CHR ''(''"
      | (plain) "trim (drop ?start (take ?after input)) \<noteq> []" "\<not> (?i1 < length input \<and> input ! ?i1 = CHR ''.'')"
          "\<not> (?i1 < length input \<and> input ! ?i1 = CHR ''('')"
      by blast
    then show ?thesis
    proof cases
      case empty
      then show ?thesis using False name by (subst select_loop.simps) (simp add: Let_def)
    next
      case dot
      let ?i2 = "skip (\<lambda>c. c \<noteq> CHR '','' \<and> c \<noteq> CHR '' '') input (?i1 + 1)"
      have suffix: "byte_slice input (?i1 + 1) ?i2 = Inr (drop (?i1 + 1) (take ?i2 input))"
        using dot(2) 1(5) by (intro byte_slice_ascii skip_bound) auto
      have "select_loop input ?i2 \<noteq> Inl Panic" if "drop (?i1 + 1) (take ?i2 input) = ''count''"
        using 1(1) [OF refl refl False refl name refl refl dot refl refl suffix that 1(5)] .
      then show ?thesis using False name dot suffix
        by (subst select_loop.simps) (simp add: Let_def try_bind_panic)
    next
      case paren
      show ?thesis
      proof (cases "closing_paren (drop (?i1 + 1) input) 1")
        case None
        then show ?thesis using False name paren
          by (subst select_loop.simps) (simp add: Let_def split: prod.split)
      next
        case (Some n)
        let ?inner = "drop (?i1 + 1) (take (?i1 + 1 + n) input)"
        have inner: "byte_slice input (?i1 + 1) (?i1 + 1 + n) = Inr ?inner"
          using closing_paren_bound [OF Some] 1(5) by (intro byte_slice_ascii) auto
        have "ascii ?inner" using 1(5) by (meson in_set_dropD in_set_takeD)
        then have "select_loop ?inner 0 \<noteq> Inl Panic"
          using 1(2) [OF refl refl False refl name refl refl paren refl surjective_pairing [symmetric] refl Some inner] by blast
        moreover have "select_loop input (?i1 + 1 + n + 1) \<noteq> Inl Panic" if "select_loop ?inner 0 = Inr sub" for sub
          using 1(3) [OF refl refl False refl name refl refl paren refl surjective_pairing [symmetric] refl Some inner that 1(5)] .
        ultimately show ?thesis using False name paren Some inner
          by (subst select_loop.simps) (auto simp: Let_def try_bind_panic split: prod.splits)
      qed
    next
      case plain
      have "select_loop input ?i1 \<noteq> Inl Panic"
        using 1(4) [OF refl refl False refl name refl refl plain 1(5)] .
      then show ?thesis using False name plain
        by (subst select_loop.simps) (auto simp: Let_def try_bind_panic)
    qed
  qed (subst select_loop.simps, simp add: Let_def)
qed

text \<open>
  The parser of the \<open>select\<close> parameter uses positions of characters as positions of bytes. On
  ASCII text the two are the same and it never panics, however the text is formed; a name that is a
  single character beyond ASCII makes it panic. So a client can crash the handling of a listing
  with one character.
\<close>

theorem select_panics_beyond_ascii:
  "(list_all (\<lambda>c. code c < 128) input \<longrightarrow> parse_select_entries input \<noteq> Inl Panic) \<and>
   (128 \<le> code c \<and> (rest = [] \<or> hd rest \<in> {CHR '','', CHR ''('', CHR ''.'', CHR '' ''}) \<longrightarrow>
     parse_select_entries (c # rest) = Inl Panic)"
proof (intro conjI impI)
  show "parse_select_entries input \<noteq> Inl Panic" if "list_all (\<lambda>c. code c < 128) input"
    using that select_loop_no_panic by (simp add: parse_select_entries_def list_all_iff)
  assume c: "128 \<le> code c \<and> (rest = [] \<or> hd rest \<in> {CHR '','', CHR ''('', CHR ''.'', CHR '' ''})"
  then have special: "c \<noteq> CHR '',''" "c \<noteq> CHR '' ''" "c \<noteq> CHR ''(''" "c \<noteq> CHR ''.''" by auto
  have "takeWhile select_name_char rest = []"
    using c by (cases rest) (auto simp: select_name_char_def)
  then have pos: "skip (\<lambda>c. c = CHR '','' \<or> c = CHR '' '') (c # rest) 0 = 0" "skip select_name_char (c # rest) 0 = 1"
    using special by (auto simp: skip_def select_name_char_def)
  have "utf8_len (take i (c # rest)) \<noteq> 1" for i
    using c by (cases i) (auto simp: utf8_len_def)
  then have "boundary (c # rest) 1 = None" by (auto simp: boundary_def find_None_iff simp del: upt_Suc)
  then have "byte_slice (c # rest) 0 1 = Inl Panic"
    by (simp add: byte_slice_def split: option.splits)
  then show "parse_select_entries (c # rest) = Inl Panic"
    using pos by (simp add: parse_select_entries_def Let_def select_loop.simps [of "c # rest" 0])
qed

theorem select_panics_beyond_ascii_witness:
  "parse_select_entries ''name,posts((,.'' \<noteq> Inl Panic \<and> parse_select_entries [CHR 0xE9] = Inl Panic \<and>
   resolve_get_query no_parsers (sample_schema False) rest_config_default sample_table ''/users'' [(''select'', [CHR 0xE9])] None =
     Inl Panicked"
proof -
  have p: "parse_select_entries [CHR 0xE9] = Inl Panic" "parse_select_entries ''name,posts((,.'' \<noteq> Inl Panic"
    using select_panics_beyond_ascii [of "''name,posts((,.''" "CHR 0xE9" "[]"] by simp_all
  moreover have "sample_get False [(''select'', [CHR 0xE9])] = Inl Panicked"
    using p(1) by (simp add: sample_get_eval extract_eval Let_def sample_users_def)
  ultimately show ?thesis by simp
qed

end
