(* ===== verification/Rest_Writes.thy ===== *)
theory Rest_Writes
  imports Rest_Paging
begin

text \<open>
  Properties of the writing requests of the REST transport: which mutations a request runs, with
  which arguments, and when it is answered from the idempotency store.
\<close>

section \<open>Bulk inserts\<close>

lemma run_batch_append:
  "run_batch B name (xs @ ys) ctx s =
     and_then (run_batch B name xs ctx) (\<lambda>rs. and_then (run_batch B name ys ctx) (\<lambda>rs'. lift_result (Inr (rs @ rs')))) s"
proof (induction xs arbitrary: s)
  case Nil
  then show ?case by (auto simp: and_then_def split: prod.splits sum.splits)
next
  case (Cons x xs)
  then show ?case by (auto simp: and_then_def split: prod.splits sum.splits)
qed

lemma run_batch_length: "run_batch B name xs ctx s = (Inr rs, s') \<Longrightarrow> length rs = length xs"
  by (induction xs arbitrary: s rs) (auto simp: and_then_Inr)

text \<open>
  A bulk insert is not atomic: when an item fails, the request answers with that item's error
  and the writes of all items before it stay; the items behind it are not tried.
\<close>

theorem bulk_insert_keeps_prefix:
  assumes "resolution (prefer_from_headers (prefer_values req)) = None"
    and "length (xs @ y # ys) \<le> MAX_BULK_INSERT_ITEMS"
    and "run_batch B name xs (caller req) s = (Inr rs, s1)"
    and "execute_mutation_with_security B name y (caller req) s1 = (Inl e, s2)"
  shows "handle_bulk_insert P B mutations (xs @ y # ys) name generated req s = (Inl e, s2)"
proof -
  have "run_batch B name (y # ys) (caller req) s1 = (Inl e, s2)"
    using assms(4) by (simp add: and_then_stop)
  then have "run_batch B name (xs @ y # ys) (caller req) s = (Inl e, s2)"
    unfolding run_batch_append using assms(3) by (simp add: and_then_step and_then_stop del: run_batch.simps)
  then show ?thesis using assms(1,2)
    by (simp add: handle_bulk_insert_def upsert_mutation_def execute_mutation_batch_def and_then_stop
        del: run_batch.simps)
qed

text \<open>
  A database for the examples: its state is the list of the documents it was given; a document of
  the given text fails.
\<close>

definition recorder :: "string \<Rightarrow> string list backend" where
  "recorder bad = \<lparr>render = \<lambda>_. ''1'',
     run_document = \<lambda>doc ctx log. if doc = bad then (Inl (Failed (internal_error ''failed'')), log)
       else (Inr (JObject []), log @ [doc]),
     run_mutation = \<lambda>name vars log. (Inr (JObject []), log @ [name])\<rparr>"

definition plain_request :: "string list \<Rightarrow> rest_request" where
  "plain_request prefer = \<lparr>request_id = None, prefer_values = prefer, authorization = False, caller = None\<rparr>"

theorem bulk_insert_keeps_prefix_witness:
  "handle_bulk_insert no_parsers (recorder ''mutation { add(b: 1) { status entity_id message } }'') []
     [JObject [(''a'', JNull)], JObject [(''b'', JNull)], JObject [(''c'', JNull)]] ''add'' ''id'' (plain_request []) [] =
   (Inl (Failed (internal_error ''failed'')), [''mutation { add(a: 1) { status entity_id message } }''])"
proof -
  have "handle_bulk_insert no_parsers (recorder ''mutation { add(b: 1) { status entity_id message } }'') []
      ([JObject [(''a'', JNull)]] @ JObject [(''b'', JNull)] # [JObject [(''c'', JNull)]]) ''add'' ''id'' (plain_request []) [] =
    (Inl (Failed (internal_error ''failed'')), [''mutation { add(a: 1) { status entity_id message } }''])"
    by (rule bulk_insert_keeps_prefix)
      (simp_all add: plain_request_def prefer_from_headers_def prefer_default_def MAX_BULK_INSERT_ITEMS_def
        execute_mutation_with_security_def mutation_document_def recorder_def and_then_def)
  then show ?thesis by simp
qed

text \<open>
  The preference \<open>tx=rollback\<close> is acknowledged and not honoured: a bulk insert of which every
  item succeeds leaves the state after all of its writes, and its response says that the
  preference was applied.
\<close>

theorem bulk_rollback_ignored:
  assumes "prefer_from_headers (prefer_values req) = prefer_default\<lparr>tx_rollback := True\<rparr>"
    and "items \<noteq> []" "length items \<le> MAX_BULK_INSERT_ITEMS"
    and "run_batch B name items (caller req) s = (Inr rs, s')"
  shows "\<exists>r. handle_bulk_insert P B mutations items name generated req s = (Inr r, s') \<and>
     response_status r = 201 \<and> (''preference-applied'', ''tx=rollback'') \<in> set (response_headers r)"
  using assms
  by (simp add: handle_bulk_insert_def upsert_mutation_def execute_mutation_batch_def and_then_step insert_response_def
      prefer_default_def set_preference_applied_def insert_header_def)

theorem bulk_rollback_ignored_witness:
  "\<exists>r. handle_bulk_insert no_parsers (recorder []) [] [JObject [(''a'', JNull)]] ''add'' ''id''
      (plain_request [''tx=rollback'']) [] = (Inr r, [''mutation { add(a: 1) { status entity_id message } }'']) \<and>
    response_status r = 201 \<and> (''preference-applied'', ''tx=rollback'') \<in> set (response_headers r)"
proof (rule bulk_rollback_ignored)
  show "prefer_from_headers (prefer_values (plain_request [''tx=rollback''])) = prefer_default\<lparr>tx_rollback := True\<rparr>"
    by code_simp
qed (simp_all add: MAX_BULK_INSERT_ITEMS_def plain_request_def execute_mutation_with_security_def mutation_document_def
    recorder_def and_then_def)

section \<open>Bulk updates and deletes\<close>

lemma bulk_by_filter_Inr:
  assumes "execute_bulk_by_filter db B rls schema qm names mutation (Some body) id_field max_rows ctx s = (Inr r, s')"
  shows "\<exists>result. run_document B (mutation_document (render B) mutation body) ctx s = (Inr result, s') \<and>
    bulk_entities r = Some [result]"
  using assms
  by (auto simp: execute_bulk_by_filter_def and_then_Inr execute_mutation_with_security_def split: sum.splits)

text \<open>
  A bulk update or delete does not depend on its filter: whatever rows the filter selects,
  however many, and whatever maximum the client or the configuration sets, a request that
  succeeds has run the mutation of the resource exactly once, with the body as its arguments and
  nothing of the filter or of the rows it found.
\<close>

theorem bulk_filter_not_applied:
  assumes "handle_bulk_filter_operation P db B rls schema config table generated path body pairs req oper s = (Inr r, s')"
    and "resolve_bulk_mutation (schema_mutations schema) table path oper = Inr (resource, mutation, query)"
  shows "\<exists>result. run_document B (mutation_document (render B) mutation body) (caller req) s = (Inr result, s')"
  using assms
  by (auto simp: handle_bulk_filter_operation_def Let_def and_then_Inr split: if_splits sum.splits prod.splits
      dest!: bulk_by_filter_Inr)

definition sample_mutation :: "string \<Rightarrow> mutation_operation \<Rightarrow> (string \<times> field_type) list \<Rightarrow> mutation_definition" where
  "sample_mutation name oper args = \<lparr>mutation_name = name, mutation_return_type = ''User'', mutation_arguments = map (\<lambda>(n, t). required_arg n t) args,
     mutation_operation = oper, mutation_rest_path = None, mutation_rest_method = None, upsert_function = None,
     mutation_sql_source = None, mutation_inject_params = [], invalidates_fact_tables = [], invalidates_views = []\<rparr>"

definition write_schema :: compiled_schema where
  "write_schema = sample_schema False\<lparr>schema_mutations :=
     [sample_mutation ''createUser'' (MInsert ''tb_user'') [(''name'', FT_String)],
      sample_mutation ''updateUser'' (MUpdate ''tb_user'') [(''id'', FT_Id), (''name'', FT_String), (''age'', FT_Int)],
      sample_mutation ''deleteUser'' (MDelete ''tb_user'') [(''id'', FT_Id)]]\<rparr>"

definition write_route :: "http_method \<Rightarrow> string \<Rightarrow> string \<Rightarrow> update_coverage option \<Rightarrow> nat \<Rightarrow> rest_route" where
  "write_route hm path name cov status = \<lparr>route_method = hm, route_path = path, route_source = RMutation name,
     route_coverage = cov, success_status = status\<rparr>"

definition write_table :: rest_route_table where
  "write_table = \<lparr>table_base_path = ''/rest/v1'', resources = [\<lparr>resource_name = ''users'', resource_type = ''User'',
     id_arg = Some ''id'', resource_routes =
       [\<lparr>route_method = Get, route_path = ''/users'', route_source = RQuery ''users'', route_coverage = None,
         success_status = 200\<rparr>,
        write_route Post ''/users'' ''createUser'' None 201, write_route Put ''/users/{id}'' ''updateUser'' (Some Full) 200,
        write_route Patch ''/users/{id}'' ''updateUser'' (Some Full) 200,
        write_route Delete ''/users/{id}'' ''deleteUser'' None 204]\<rparr>],
     diagnostics = [Classified ''updateUser'' ''User'' Full]\<rparr>"

lemma write_table_derived: "from_compiled_schema write_schema = Inr write_table"
  by code_simp

text \<open>Every query finds three rows.\<close>

definition three_rows :: database where
  "three_rows = \<lparr>run_query = \<lambda>q names aq. Inr (JObject [(''data'', JObject [(query_name q, JArray [JNull, JNull, JNull])])]),
     run_count = \<lambda>aq. Inr 3\<rparr>"

lemma write_table_bulk:
  "resolve_bulk_mutation (schema_mutations write_schema) write_table ''/users'' BulkDelete =
     Inr (hd (resources write_table), ''deleteUser'', ''users'')"
  by code_simp

lemma name_filter_match:
  "\<exists>w. build_filter_query_match no_parsers write_schema rest_config_default ''users'' [(''name[eq]'', ''x'')] ''User'' =
     Inr (\<lparr>query_def = sample_users False, match_arguments = [''where'' \<mapsto> JObject [(''name'', JObject [(''eq'', JString ''x'')])]]\<rparr>, w)"
proof -
  have q: "returns_list (sample_users False)" "\<not> relay (sample_users False)" by (simp_all add: sample_users_def)
  have f: "find_query (schema_queries write_schema) ''users'' = Some (sample_users False)"
    "find_type (schema_types write_schema) ''User'' = Some sample_user"
    by (simp_all add: write_schema_def sample_schema_def sample_users_def find_query_def find_type_def sample_user_def)
  have n: "find_field_by_output_name sample_user ''name'' = Some (hd (type_fields sample_user))"
    "fd_field_type (hd (type_fields sample_user)) = FT_String"
    by (simp_all add: sample_user_def find_field_by_output_name_def output_name_def)
  show ?thesis unfolding build_filter_query_match_def
    using q f n by (simp add: extract_eval Let_def validate_bracket_operator_def BRACKET_OPERATORS_def validate_field_name_def
        coerce_field_value_def coerce_to_type_def object_insert_def count_where_fields_def)
qed

lemma max_affected_one: "prefer_from_headers [''max-affected=1''] = prefer_default\<lparr>max_affected := Some 1\<rparr>"
proof -
  have "\<not> list_ex (eq_ignore_ascii_case ''max-affected=1'') [''count=exact'', ''count=planned'', ''count=estimated'',
      ''return=representation'', ''return=minimal'', ''tx=rollback'', ''tx=commit'', ''handling=strict'', ''handling=lenient'']"
    "split_on CHR '','' ''max-affected=1'' = [''max-affected=1'']" "trim ''max-affected=1'' = ''max-affected=1''"
    "strip_prefix_ci ''max-affected=1'' ''resolution='' = None"
    "strip_prefix_ci ''max-affected=1'' ''max-affected='' = Some ''1''"
    by code_simp+
  moreover have "parse_u64 (utext_of ''1'') = Some 1"
    by (simp add: parse_u64_def utext_of_def digits_value_def)
  ultimately have "parse_prefer ''max-affected=1'' = prefer_default\<lparr>max_affected := Some 1\<rparr>"
    by (simp add: parse_prefer_def apply_preference_def Let_def)
  then show ?thesis
    by (simp add: prefer_from_headers_def merge_prefer_def Let_def prefer_default_def count_preference_def)
qed

theorem bulk_filter_not_applied_witness:
  "\<exists>r. handle_bulk_delete no_parsers three_rows (recorder []) None write_schema rest_config_default write_table ''id'' ''/users''
      [(''name[eq]'', ''x'')] (plain_request [''max-affected=1'']) [] =
    (Inr r, [''mutation { deleteUser { status entity_id message } }'']) \<and> (''x-rows-affected'', ''3'') \<in> set (response_headers r)"
proof -
  let ?h = "handle_bulk_filter_operation no_parsers three_rows (recorder []) None write_schema rest_config_default write_table
      ''id'' ''/users'' (JObject []) [(''name[eq]'', ''x'')] (plain_request [''max-affected=1'']) BulkDelete []"
  obtain w where w: "build_filter_query_match no_parsers write_schema rest_config_default ''users'' [(''name[eq]'', ''x'')] ''User'' =
     Inr (\<lparr>query_def = sample_users False, match_arguments = [''where'' \<mapsto> JObject [(''name'', JObject [(''eq'', JString ''x'')])]]\<rparr>, w)"
    using name_filter_match by blast
  have d: "query_direct three_rows None write_schema \<lparr>query_def = sample_users False, match_arguments =
      [''where'' \<mapsto> JObject [(''name'', JObject [(''eq'', JString ''x'')])]]\<rparr> w None =
      Inr (JObject [(''data'', JObject [(''users'', JArray [JNull, JNull, JNull])])])"
    by code_simp
  have t: "resource_type (hd (resources write_table)) = ''User''" by (simp add: write_table_def)
  have run: "run_document (recorder []) (mutation_document (render (recorder [])) ''deleteUser'' (JObject [])) None [] =
      (Inr (JObject []), [''mutation { deleteUser { status entity_id message } }''])"
    by (simp add: recorder_def mutation_document_def)
  have p: "prefer_from_headers (prefer_values (plain_request [''max-affected=1''])) = prefer_default\<lparr>max_affected := Some 1\<rparr>"
    "caller (plain_request [''max-affected=1'']) = None"
    using max_affected_one by (simp_all add: plain_request_def)
  have three: "show_nat (Suc (Suc (Suc 0))) = ''3''" by code_simp
  obtain r s' where r: "?h = (Inr r, s')" "(''x-rows-affected'', ''3'') \<in> set (response_headers r)"
    using w d write_table_bulk t run p three
    by (simp add: handle_bulk_filter_operation_def has_filter_params_def NON_FILTER_def execute_bulk_by_filter_def
        execute_mutation_with_security_def and_then_step matching_rows_def json_get_def bulk_response_def prefer_default_def
        set_preference_applied_def set_rows_affected_def insert_header_def)
  show ?thesis using bulk_filter_not_applied [OF r(1) write_table_bulk] r
    by (simp add: handle_bulk_delete_def recorder_def mutation_document_def)
qed

section \<open>Arguments of a mutation\<close>

lemma build_mutation_variables_lookup:
  "map_of (build_mutation_variables params (JObject es)) = map_of (path_variables params) ++ map_of (rev es)"
  using map_of_insert_all [of "\<lambda>x. x" "path_variables params" es] by (simp add: build_mutation_variables_def)

text \<open>
  The body of a PATCH overrides the path: a mutation on \<open>/users/1\<close> whose body has an \<open>id\<close> runs
  with the identifier of the body. In general every entry of the body is the argument the mutation
  gets under its name, whatever the path parameters are; the path only decides where the body is
  silent.
\<close>

theorem patch_body_overrides_path:
  assumes "resolve table path Patch = Some (route, p # ps)" "route_source route = RMutation name"
    and "patch_content_type_ok content_type" "caller req = None"
  shows "\<exists>vars. handle_patch P db B rls schema config table generated path (JObject es) pairs content_type req s =
      and_then (run_mutation B name (JObject vars)) (\<lambda>result. lift_result (Inr (ok_response config generated req result))) s \<and>
    map_of vars = map_of (path_variables (p # ps)) ++ map_of (rev es)"
  using assms
  by (auto simp: handle_patch_def mutation_source_def execute_mutation_def build_mutation_variables_lookup
      intro!: exI [of _ "build_mutation_variables (p # ps) (JObject es)"])

theorem patch_body_overrides_path_witness:
  "\<exists>vars. handle_patch no_parsers three_rows (recorder []) None write_schema rest_config_default write_table ''id'' ''/users/1''
      (JObject [(''id'', JString ''2'')]) [] None (plain_request []) [] =
      and_then (run_mutation (recorder []) ''updateUser'' (JObject vars))
        (\<lambda>result. lift_result (Inr (ok_response rest_config_default ''id'' (plain_request []) result))) [] \<and>
    map_of vars ''id'' = Some (JString ''2'')"
proof -
  have r: "resolve write_table ''/users/1'' Patch =
      Some (write_route Patch ''/users/{id}'' ''updateUser'' (Some Full) 200, [(''id'', ''1'')])"
    by code_simp
  have n: "route_source (write_route Patch ''/users/{id}'' ''updateUser'' (Some Full) 200) = RMutation ''updateUser''"
    by (simp add: write_route_def)
  have c: "patch_content_type_ok None" "caller (plain_request []) = None"
    by (simp_all add: patch_content_type_ok_def plain_request_def)
  obtain vars where "handle_patch no_parsers three_rows (recorder []) None write_schema rest_config_default write_table ''id''
      ''/users/1'' (JObject [(''id'', JString ''2'')]) [] None (plain_request []) [] =
      and_then (run_mutation (recorder []) ''updateUser'' (JObject vars))
        (\<lambda>result. lift_result (Inr (ok_response rest_config_default ''id'' (plain_request []) result))) []"
      "map_of vars = map_of (path_variables [(''id'', ''1'')]) ++ map_of (rev [(''id'', JString ''2'')])"
    using patch_body_overrides_path [OF r n c, of no_parsers three_rows "recorder []" None write_schema
        rest_config_default "''id''" "[(''id'', JString ''2'')]" "[]" "[]"] by blast
  then show ?thesis by (intro exI [of _ vars]) simp
qed

text \<open>
  The keys of a body are copied into the text of a GraphQL document without any check. A body
  with a single entry, under a key chosen by the client, makes an authenticated POST run a document
  that calls a second mutation \<open>b\<close> of the client's choice behind the mutation \<open>a\<close> of the route.
\<close>

theorem rest_body_key_injects:
  assumes "resolve table path Post = Some (route, [])" "route_source route = RMutation a"
    and "caller req = Some ctx" "resolution (prefer_from_headers (prefer_values req)) = None"
  shows "handle_post P B hash mutations config table generated path
      (JObject [(x @ '': 1) { status entity_id message } '' @ b @ ''('' @ y, v)]) None req now later w =
    on_db (and_then
      (run_document B (''mutation { '' @ a @ ''('' @ x @ '': 1) { status entity_id message } '' @
         b @ ''('' @ y @ '': '' @ render B v @ '') { status entity_id message } }'') (Some ctx))
      (\<lambda>result. lift_result (Inr \<lparr>response_status = success_status route,
         response_headers = mutation_headers config generated req [], response_body = Some result\<rparr>))) w"
  using assms
  by (simp add: handle_post_def mutation_source_def execute_post_def effective_mutation_def execute_mutation_def
      execute_mutation_with_security_def mutation_document_def build_mutation_variables_def path_variables_def on_db_def)

theorem rest_body_key_injects_witness:
  "\<exists>r w. handle_post no_parsers (recorder []) (\<lambda>_. 0) (schema_mutations write_schema) rest_config_default write_table ''id'' ''/users''
      (JObject [(''name: 1) { status entity_id message } deleteUser(id'', JNull)]) None
      ((plain_request [])\<lparr>caller := Some sample_caller\<rparr>) 0 0 \<lparr>db_state = [], idempotency = None\<rparr> = (Inr r, w) \<and>
    db_state w = [''mutation { createUser(name: 1) { status entity_id message } deleteUser(id: 1) { status entity_id message } }'']"
proof -
  have r: "resolve write_table ''/users'' Post = Some (write_route Post ''/users'' ''createUser'' None 201, [])"
    by code_simp
  have a: "route_source (write_route Post ''/users'' ''createUser'' None 201) = RMutation ''createUser''"
    by (simp add: write_route_def)
  have c: "caller ((plain_request [])\<lparr>caller := Some sample_caller\<rparr>) = Some sample_caller"
    "resolution (prefer_from_headers (prefer_values ((plain_request [])\<lparr>caller := Some sample_caller\<rparr>))) = None"
    by (simp_all add: plain_request_def prefer_from_headers_def prefer_default_def)
  show ?thesis
    using rest_body_key_injects [OF r a c, of no_parsers "recorder []" "\<lambda>_. 0" "schema_mutations write_schema"
        rest_config_default "''id''" "''name''" "''deleteUser''" "''id''" JNull 0 0 "\<lparr>db_state = [], idempotency = None\<rparr>"]
    by (simp add: on_db_def recorder_def and_then_def)
qed

section \<open>Idempotency\<close>

text \<open>
  The interface of a store of responses, as the handler uses it: what a check answers depends on
  what the store knows of the key, and a stored response is known afterwards.
\<close>

locale response_store =
  fixes check :: "nat \<Rightarrow> string \<Rightarrow> u64 \<Rightarrow> 'st \<Rightarrow> 'st \<times> idempotency_check"
    and store :: "nat \<Rightarrow> string \<Rightarrow> u64 \<Rightarrow> stored_response \<Rightarrow> 'st \<Rightarrow> 'st"
    and known :: "'st \<Rightarrow> string \<Rightarrow> idempotency_entry option"
    and lifetime :: "'st \<Rightarrow> nat"
  assumes check_unknown: "known st k = None \<Longrightarrow> check now k h st = (st, New)"
    and check_live: "known st k = Some e \<Longrightarrow> now - created_at e \<le> lifetime st \<Longrightarrow>
      check now k h st = (st, if body_hash e = h then Replay (entry_response e) else Conflict)"
    and store_known: "known (store now k h r st) k = Some \<lparr>entry_response = r, body_hash = h, created_at = now\<rparr>"
    and store_lifetime: "lifetime (store now k h r st) = lifetime st"
begin

lemma check_after_store:
  assumes "now' - now \<le> lifetime st"
  shows "check now' k h' (store now k h r st) = (store now k h r st, if h' = h then Replay r else Conflict)"
  using assms check_live [OF store_known [of now k h r st], of now' h'] by (auto simp: store_lifetime)

end

lemma map_of_remove_keys: "map_of (remove_keys ks es) k = (if k \<in> ks then None else map_of es k)"
  unfolding remove_keys_def by (induction es) auto

interpretation memory: response_store store_check store_store "\<lambda>st. map_of (entries st)" ttl
proof
  fix now k h r st
  show "map_of (entries (store_store now k h r st)) k = Some \<lparr>entry_response = r, body_hash = h, created_at = now\<rparr>"
    by (simp add: store_store_def Let_def map_add_def map_of_remove_keys)
  show "ttl (store_store now k h r st) = ttl st"
    by (simp add: store_store_def cap_entries_def evict_expired_def Let_def split: option.splits)
qed (auto simp: store_check_def entry_expired_def)



text \<open>The states an in-memory store can get into from an empty one.\<close>

inductive reachable_store :: "nat \<Rightarrow> nat \<Rightarrow> idempotency_store \<Rightarrow> bool" for t n where
  empty: "reachable_store t n (store_new t n)"
| check: "reachable_store t n st \<Longrightarrow> reachable_store t n (fst (store_check now k h st))"
| store: "reachable_store t n st \<Longrightarrow> reachable_store t n (store_store now k h r st)"

lemma remove_keys_distinct [simp]: "distinct (map fst es) \<Longrightarrow> distinct (map fst (remove_keys ks es))"
  unfolding remove_keys_def by (rule distinct_map_filter)

lemma remove_keys_length: "length (remove_keys ks es) \<le> length es"
  by (simp add: remove_keys_def)

lemma remove_key_length: "k \<in> fst ` set es \<Longrightarrow> length (remove_keys {k} es) < length es"
  unfolding remove_keys_def by (metis (mono_tags, lifting) image_iff insertI1 length_filter_less)

lemma find_oldest_in: "find_oldest es = Some e \<Longrightarrow> e \<in> set es"
  by (induction es arbitrary: e) (auto split: option.splits if_splits)

lemma find_oldest_Some: "es \<noteq> [] \<Longrightarrow> \<exists>e. find_oldest es = Some e"
  by (cases es) (auto split: option.splits)

lemma cap_entries_length:
  assumes "0 < max_entries st" "length (entries st) \<le> max_entries st"
  shows "length (entries (cap_entries st)) < max_entries st"
proof (cases "length (entries st) < max_entries st")
  case False
  then have "entries st \<noteq> []" using assms(1) by auto
  then obtain e where "find_oldest (entries st) = Some e" using find_oldest_Some by blast
  then show ?thesis
    using False assms(2) remove_key_length [of "fst e" "entries st"] find_oldest_in [of "entries st" e]
    by (simp add: cap_entries_def find_oldest_key_def)
qed (simp add: cap_entries_def)

lemma store_parameters [simp]:
  "max_entries (store_store now k h r st) = max_entries st" "max_entries (evict_expired now st) = max_entries st"
  "max_entries (cap_entries st) = max_entries st" "max_entries (fst (store_check now k h st)) = max_entries st"
  by (simp_all add: store_store_def cap_entries_def evict_expired_def store_check_def Let_def split: option.splits)

text \<open>
  C33. The in-memory idempotency store never holds more than its maximal number of entries, and at
  most one entry per key, whatever is checked and stored, and when.
\<close>

theorem store_bounded:
  assumes "reachable_store t n st" "0 < n"
  shows "length (entries st) \<le> n \<and> distinct (map fst (entries st))"
proof -
  have "max_entries st = n \<and> length (entries st) \<le> n \<and> distinct (map fst (entries st))"
    using assms
  proof (induction rule: reachable_store.induct)
    case empty
    then show ?case by (simp add: store_new_def)
  next
    case (check st now k h)
    then show ?case using remove_keys_length [of "{k}" "entries st"]
      by (auto simp: store_check_def split: option.splits)
  next
    case (store st now k h r)
    let ?st1 = "evict_expired now st"
    have "length (entries ?st1) \<le> n" "distinct (map fst (entries ?st1))"
      using store remove_keys_length le_trans by (fastforce simp: evict_expired_def Let_def)+
    moreover have "distinct (map fst (entries (cap_entries ?st1)))"
      using calculation(2) by (simp add: cap_entries_def split: option.splits)
    moreover have "length (entries (cap_entries ?st1)) < n"
      using cap_entries_length [of ?st1] store calculation(1) by simp
    moreover have "k \<notin> fst ` set (remove_keys {k} (entries (cap_entries ?st1)))"
      by (auto simp: remove_keys_def)
    ultimately show ?case using store remove_keys_length [of "{k}" "entries (cap_entries ?st1)"]
      by (simp add: store_store_def Let_def)
  qed
  then show ?thesis by simp
qed

definition created :: stored_response where
  "created = \<lparr>stored_status = 201, stored_headers = [], stored_body = None\<rparr>"

theorem store_bounded_witness:
  "length (entries (store_store 2 ''b'' 0 created (store_store 1 ''a'' 0 created (store_new 5 1)))) \<le> 1 \<and>
   distinct (map fst (entries (store_store 2 ''b'' 0 created (store_store 1 ''a'' 0 created (store_new 5 1)))))"
  by (rule store_bounded [of 5 1]) (rule reachable_store.intros | simp)+

end
