(* ===== verification/Rest_Routing.thy ===== *)
theory Rest_Routing
  imports Rest_Writes
begin

text \<open>
  Properties of the REST routes: which route a request is resolved to, and which operations a
  derived route table exposes.
\<close>

section \<open>Resolution\<close>

text \<open>When a segment of a pattern fits a segment of a path, and the parameters it binds.\<close>

definition segment_fits :: "string \<Rightarrow> string \<Rightarrow> bool" where
  "segment_fits p s \<longleftrightarrow> is_parameter p \<or> p = s"

definition route_fits :: "http_method \<Rightarrow> string list \<Rightarrow> rest_route \<Rightarrow> bool" where
  "route_fits hm segments r \<longleftrightarrow>
     route_method r = hm \<and> list_all2 segment_fits (path_segments (route_path r)) segments"

definition bound_parameters :: "string list \<Rightarrow> string list \<Rightarrow> (string \<times> string) list" where
  "bound_parameters ps ss =
     concat (map (\<lambda>(p, s). if is_parameter p then [(butlast (tl p), s)] else []) (zip ps ss))"

lemma match_segments_spec:
  "match_segments ps ss = (if list_all2 segment_fits ps ss then Some (bound_parameters ps ss) else None)"
  by (induction ps ss rule: match_segments.induct) (auto simp: segment_fits_def bound_parameters_def)

text \<open>
  A request goes to the first route of the table with its method whose pattern fits the segments
  of the path, where a segment in braces fits anything and any other only itself; the parameters
  are the segments under the names in braces, in order; and a request is not found exactly if no
  route fits.
\<close>

theorem resolve_first_fit:
  "resolve table path hm =
     map_option (\<lambda>r. (r, bound_parameters (path_segments (route_path r)) (path_segments path)))
       (find (route_fits hm (path_segments path)) (table_routes table))"
proof -
  have "resolve_routes rs hm ss = map_option (\<lambda>r. (r, bound_parameters (path_segments (route_path r)) ss))
      (find (route_fits hm ss) rs)" for rs ss
    by (induction rs) (auto simp: match_route_path_def match_segments_spec route_fits_def)
  then show ?thesis by (simp add: resolve_def)
qed

section \<open>Derived tables\<close>

lemma detect_conflicts_distinct:
  assumes "detect_conflicts rs seen = Inr ()"
  shows "distinct (map (\<lambda>r. (route_method r, route_path r)) rs)"
    and "(\<lambda>r. (route_method r, route_path r)) ` set rs \<inter> dom seen = {}"
  using assms by (induction rs arbitrary: seen) (auto simp: Let_def split: option.splits if_splits, fastforce+)

lemma query_route_source: "r \<in> set (query_route resource ident q) \<Longrightarrow> route_source r = RQuery (query_name q)"
  by (auto simp: query_route_def Let_def split: option.splits if_splits)

lemma mutation_route_source:
  "r \<in> set (fst (mutation_route m ty resource ident names config)) \<Longrightarrow> route_source r = RMutation (mutation_name m)"
  by (auto simp: mutation_route_def derive_mutation_routes_def Let_def
      split: option.splits mutation_operation.splits update_coverage.splits)

lemma derived_resource_sources:
  assumes "fst (derive_resource ty td queries mutations config) = Some res" "r \<in> set (resource_routes res)"
  shows "route_source r \<in> RQuery ` query_name ` set queries \<union> RMutation ` mutation_name ` set mutations"
proof -
  have "r \<in> set (concat (map (query_route (fst (derive_resource_name ty queries)) (fst (detect_id_arg td mutations queries))) queries)) \<or>
    r \<in> set (concat (map fst (map (\<lambda>m. mutation_route m ty (fst (derive_resource_name ty queries))
      (fst (detect_id_arg td mutations queries)) (map field_name (writable_fields td)) config) mutations)))"
    using assms by (auto simp: derive_resource_def Let_def split: prod.splits if_splits)
  then show ?thesis using query_route_source mutation_route_source by (auto simp: image_iff)
qed

definition exposed_config :: "compiled_schema \<Rightarrow> rest_config" where
  "exposed_config schema = (case schema_rest_config schema of Some c \<Rightarrow> c | None \<Rightarrow> rest_config_default)"

lemma derived_table:
  assumes "from_compiled_schema schema = Inr table"
  shows table_distinct: "detect_conflicts (table_routes table) Map.empty = Inr ()"
    and table_sources: "r \<in> set (table_routes table) \<Longrightarrow>
      route_source r \<in> RQuery ` query_name ` set (exposed_queries schema (exposed_config schema)) \<union>
        RMutation ` mutation_name ` set (exposed_mutations schema (exposed_config schema))"
proof -
  show "detect_conflicts (table_routes table) Map.empty = Inr ()"
    using assms by (auto simp: from_compiled_schema_def Let_def try_bind_eq_Inr table_routes_def)
  assume "r \<in> set (table_routes table)"
  then obtain ty td res ds where d: "derive_resource ty td
      (filter (\<lambda>q. return_type q = ty) (exposed_queries schema (exposed_config schema)))
      (filter (\<lambda>m. mutation_return_type m = ty) (exposed_mutations schema (exposed_config schema)))
      (exposed_config schema) = (Some res, ds)" "r \<in> set (resource_routes res)"
    using assms
    by (auto simp: from_compiled_schema_def Let_def try_bind_eq_Inr table_routes_def set_map_filter exposed_config_def)
  from d(1) have "fst (derive_resource ty td
      (filter (\<lambda>q. return_type q = ty) (exposed_queries schema (exposed_config schema)))
      (filter (\<lambda>m. mutation_return_type m = ty) (exposed_mutations schema (exposed_config schema)))
      (exposed_config schema)) = Some res"
    by simp
  from derived_resource_sources [OF this d(2)]
  show "route_source r \<in> RQuery ` query_name ` set (exposed_queries schema (exposed_config schema)) \<union>
      RMutation ` mutation_name ` set (exposed_mutations schema (exposed_config schema))"
    by auto
qed

text \<open>
  The routes derived from a schema are unambiguous and expose only what the configuration
  allows: no two have the same method and path, and every request that is resolved runs a query or
  mutation of the schema that is neither excluded nor left out of a non-empty include list, and
  never an aggregate or window query.
\<close>

theorem derived_routes_exposed:
  assumes "from_compiled_schema schema = Inr table"
  shows "distinct (map (\<lambda>r. (route_method r, route_path r)) (table_routes table)) \<and>
    (case resolve table path hm of
       None \<Rightarrow> True
     | Some (r, params) \<Rightarrow>
         \<not> is_filtered_out (source_operation (route_source r)) (exposed_config schema) \<and>
         (case route_source r of
            RQuery n \<Rightarrow> n \<in> query_name ` {q \<in> set (schema_queries schema). \<not> should_skip_query q}
          | RMutation n \<Rightarrow> n \<in> mutation_name ` set (schema_mutations schema)))"
proof (intro conjI)
  show "distinct (map (\<lambda>r. (route_method r, route_path r)) (table_routes table))"
    using table_distinct [OF assms] by (rule detect_conflicts_distinct(1))
  have "\<not> is_filtered_out (source_operation (route_source r)) (exposed_config schema) \<and>
      (case route_source r of
         RQuery n \<Rightarrow> n \<in> query_name ` {q \<in> set (schema_queries schema). \<not> should_skip_query q}
       | RMutation n \<Rightarrow> n \<in> mutation_name ` set (schema_mutations schema))"
    if "r \<in> set (table_routes table)" for r
    using table_sources [OF assms that] by (auto simp: exposed_queries_def exposed_mutations_def)
  moreover have "r \<in> set (table_routes table)" if "resolve table path hm = Some (r, params)" for r params
  proof -
    have "resolve_routes rs hm ss = Some (r, params) \<Longrightarrow> r \<in> set rs" for rs ss
      by (induction rs) (auto split: if_splits option.splits)
    then show ?thesis using that by (simp add: resolve_def)
  qed
  ultimately show "case resolve table path hm of
       None \<Rightarrow> True
     | Some (r, params) \<Rightarrow>
         \<not> is_filtered_out (source_operation (route_source r)) (exposed_config schema) \<and>
         (case route_source r of
            RQuery n \<Rightarrow> n \<in> query_name ` {q \<in> set (schema_queries schema). \<not> should_skip_query q}
          | RMutation n \<Rightarrow> n \<in> mutation_name ` set (schema_mutations schema))"
    by (auto split: option.splits)
qed

theorem derived_routes_exposed_witness:
  "distinct (map (\<lambda>r. (route_method r, route_path r)) (table_routes write_table)) \<and>
   (case resolve write_table ''/users/7'' Patch of
      None \<Rightarrow> False
    | Some (r, params) \<Rightarrow> source_operation (route_source r) = ''updateUser'' \<and>
        \<not> is_filtered_out ''updateUser'' (exposed_config write_schema))"
proof -
  have "resolve write_table ''/users/7'' Patch =
      Some (write_route Patch ''/users/{id}'' ''updateUser'' (Some Full) 200, [(''id'', ''7'')])"
    by code_simp
  then show ?thesis using derived_routes_exposed [OF write_table_derived, of "''/users/7''" Patch]
    by (simp add: write_route_def)
qed

end
