(* ===== verification/Projection.thy ===== *)
theory Projection
  imports Rest_Handler
begin

text \<open>
  The projection of database results to GraphQL responses
  (\<open>fraiseql-core/src/runtime/projection.rs\<close>): field mappings, the mapper, the envelopes, and the
  mappings derived from a type of the schema.

  \<^item> The methods return a \<open>Result\<close> and never an error, so they are total functions here.
  \<^item> A string is parsed again as JSON by an argument; the parser's result counts only when it is
    no larger than the text it was read from, as every JSON parser's is
    (\<open>parses_no_larger\<close>), so that the recursion ends whatever the argument.
\<close>

section \<open>Field mappings\<close>

datatype field_mapping =
  FieldMapping
    (fm_source: string)
    (fm_output: string)
    (source_fallback: "string option")
    (nested_typename: "string option")
    (nested_fields: "field_mapping list option")

definition simple_mapping :: "string \<Rightarrow> field_mapping" where
  "simple_mapping name = FieldMapping name name None None None"

definition aliased_mapping :: "string \<Rightarrow> string \<Rightarrow> field_mapping" where
  "aliased_mapping src alias = FieldMapping src alias None None None"

definition nested_object_aliased :: "string \<Rightarrow> string \<Rightarrow> string \<Rightarrow> field_mapping list \<Rightarrow> field_mapping" where
  "nested_object_aliased src alias typename fms = FieldMapping src alias None (Some typename) (Some fms)"

definition nested_object :: "string \<Rightarrow> string \<Rightarrow> field_mapping list \<Rightarrow> field_mapping" where
  "nested_object name typename fms = FieldMapping name name None (Some typename) (Some fms)"

fun with_nested_typename :: "string \<Rightarrow> field_mapping \<Rightarrow> field_mapping" where
  "with_nested_typename typename (FieldMapping src out fb _ nested) = FieldMapping src out fb (Some typename) nested"

fun with_nested_fields :: "field_mapping list \<Rightarrow> field_mapping \<Rightarrow> field_mapping" where
  "with_nested_fields fms (FieldMapping src out fb typename _) = FieldMapping src out fb typename (Some fms)"

section \<open>The mapper\<close>

record projection_mapper =
  mapper_fields :: "field_mapping list"
  mapper_typename :: "string option"
  federation_mode :: bool

definition mapper_with_mappings :: "field_mapping list \<Rightarrow> projection_mapper" where
  "mapper_with_mappings fms = \<lparr>mapper_fields = fms, mapper_typename = None, federation_mode = False\<rparr>"

definition mapper_new :: "string list \<Rightarrow> projection_mapper" where
  "mapper_new names = mapper_with_mappings (map simple_mapping names)"

definition with_typename :: "string \<Rightarrow> projection_mapper \<Rightarrow> projection_mapper" where
  "with_typename typename m = m\<lparr>mapper_typename := Some typename\<rparr>"

definition with_federation_mode :: "bool \<Rightarrow> projection_mapper \<Rightarrow> projection_mapper" where
  "with_federation_mode enabled m = m\<lparr>federation_mode := enabled\<rparr>"

text \<open>The characters a value needs at least when it is written as JSON.\<close>

fun text_size :: "json \<Rightarrow> nat" where
  "text_size (JString s) = Suc (length s)"
| "text_size (JArray xs) = Suc (sum_list (map text_size xs))"
| "text_size (JObject es) = Suc (sum_list (map (\<lambda>(k, v). Suc (text_size v)) es))"
| "text_size _ = 1"

definition parses_no_larger :: "text_parsers \<Rightarrow> bool" where
  "parses_no_larger P \<longleftrightarrow> (\<forall>s v. parse_json P s = Some v \<longrightarrow> text_size v \<le> length s)"

text \<open>An object or array encoded in a string.\<close>

definition reparse :: "text_parsers \<Rightarrow> string \<Rightarrow> json option" where
  "reparse P s =
     (case parse_json P s of
        Some (JObject es) \<Rightarrow> if text_size (JObject es) \<le> length s then Some (JObject es) else None
      | Some (JArray xs) \<Rightarrow> if text_size (JArray xs) \<le> length s then Some (JArray xs) else None
      | _ \<Rightarrow> None)"

lemma reparse_size: "reparse P s = Some v \<Longrightarrow> text_size v < Suc (length s)"
  by (auto simp: reparse_def split: option.splits json.splits if_splits)

lemma text_size_entry: "map_of es k = Some v \<Longrightarrow> text_size v < text_size (JObject es)"
proof -
  assume "map_of es k = Some v"
  then have "(k, v) \<in> set es" by (rule map_of_SomeD)
  then have "Suc (text_size v) \<le> sum_list (map (\<lambda>(k, v). Suc (text_size v)) es)"
    by (force intro: member_le_sum_list)
  then show ?thesis by simp
qed

lemma text_size_item: "v \<in> set xs \<Longrightarrow> text_size v < text_size (JArray xs)"
  using member_le_sum_list [of "text_size v" "map text_size xs"] by force

function (sequential) project_nested_value :: "text_parsers \<Rightarrow> json \<Rightarrow> field_mapping \<Rightarrow> json" where
  "project_nested_value P (JObject es) f =
     (case nested_typename f of
        None \<Rightarrow> JObject es
      | Some typename \<Rightarrow>
          (case nested_fields f of
             Some fms \<Rightarrow>
               JObject (foldl (\<lambda>result nf.
                 case map_of es (fm_source nf) of
                   Some v \<Rightarrow> map_insert (fm_output nf) (project_nested_value P v nf) result
                 | None \<Rightarrow> result) [(''__typename'', JString typename)] fms)
           | None \<Rightarrow> JObject (foldl (\<lambda>result (k, v). map_insert k v result) [(''__typename'', JString typename)] es)))"
| "project_nested_value P (JArray xs) f =
     (if nested_typename f \<noteq> None then JArray (map (\<lambda>item. project_nested_value P item f) xs) else JArray xs)"
| "project_nested_value P (JString s) f =
     (case reparse P s of Some v \<Rightarrow> project_nested_value P v f | None \<Rightarrow> JString s)"
| "project_nested_value P v f = v"
  by pat_completeness auto
termination
  by (relation "measure (\<lambda>(P, v, f). text_size v)")
    (auto simp: text_size_entry text_size_item reparse_size simp del: text_size.simps(2,3))

definition source_value :: "(string \<times> json) list \<Rightarrow> field_mapping \<Rightarrow> json option" where
  "source_value es f =
     (case map_of es (fm_source f) of
        Some v \<Rightarrow> Some v
      | None \<Rightarrow> Option.bind (source_fallback f) (map_of es))"

definition project_json_object :: "text_parsers \<Rightarrow> projection_mapper \<Rightarrow> (string \<times> json) list \<Rightarrow> (string \<times> json) list" where
  "project_json_object P m es =
     foldl (\<lambda>result f.
       case source_value es f of
         Some v \<Rightarrow> map_insert (fm_output f) (project_nested_value P v f) result
       | None \<Rightarrow> result)
       (case mapper_typename m of Some t \<Rightarrow> [(''__typename'', JString t)] | None \<Rightarrow> []) (mapper_fields m)"

definition project_json_array :: "text_parsers \<Rightarrow> projection_mapper \<Rightarrow> json list \<Rightarrow> json list" where
  "project_json_array P m xs = map (\<lambda>item. case item of JObject es \<Rightarrow> JObject (project_json_object P m es) | _ \<Rightarrow> item) xs"

definition project :: "text_parsers \<Rightarrow> projection_mapper \<Rightarrow> json \<Rightarrow> json" where
  "project P m v =
     (case v of
        JObject es \<Rightarrow> JObject (project_json_object P m es)
      | JArray xs \<Rightarrow> JArray (project_json_array P m xs)
      | _ \<Rightarrow> v)"

section \<open>The result projector\<close>

text \<open>The root selection is given by the names of its fields, when there is one.\<close>

definition configure_typename_from_selections ::
  "string list list \<Rightarrow> string \<Rightarrow> projection_mapper \<Rightarrow> projection_mapper" where
  "configure_typename_from_selections selections entity_type m =
     (case selections of
        root # _ \<Rightarrow> if ''__typename'' \<in> set root then with_typename entity_type m else m
      | [] \<Rightarrow> m)"

definition project_results :: "text_parsers \<Rightarrow> projection_mapper \<Rightarrow> json list \<Rightarrow> bool \<Rightarrow> json" where
  "project_results P m results is_list =
     (if is_list then JArray (map (project P m) results)
      else case results of first # _ \<Rightarrow> project P m first | [] \<Rightarrow> JNull)"

definition wrap_in_data_envelope :: "json \<Rightarrow> string \<Rightarrow> json" where
  "wrap_in_data_envelope result name = JObject [(''data'', JObject [(name, result)])]"

definition add_typename :: "string \<Rightarrow> json \<Rightarrow> json" where
  "add_typename typename v = (case v of JObject es \<Rightarrow> JObject (map_insert ''__typename'' (JString typename) es) | _ \<Rightarrow> v)"

definition add_typename_only :: "json \<Rightarrow> string \<Rightarrow> json" where
  "add_typename_only data typename =
     (case data of
        JObject es \<Rightarrow> add_typename typename data
      | JArray xs \<Rightarrow> JArray (map (add_typename typename) xs)
      | _ \<Rightarrow> data)"

definition wrap_error :: "string \<Rightarrow> json" where
  "wrap_error message = JObject [(''errors'', JArray [JObject [(''message'', JString message)]])]"

section \<open>Mappings of a type\<close>

fun camel_loop :: "bool \<Rightarrow> string \<Rightarrow> string" where
  "camel_loop capitalise [] = []"
| "camel_loop capitalise (c # s) =
     (if c = CHR ''_'' then camel_loop True s
      else (if capitalise then to_ascii_uppercase [c] else [c]) @ camel_loop False s)"

definition to_camel_case :: "string \<Rightarrow> string" where
  "to_camel_case snake = camel_loop False snake"

definition inner_type :: "field_type \<Rightarrow> field_type option" where
  "inner_type t = (case t of FT_List inner \<Rightarrow> Some inner | _ \<Rightarrow> None)"

definition referenced_type :: "field_type \<Rightarrow> string option" where
  "referenced_type t =
     (case t of FT_Object n \<Rightarrow> Some n | FT_Enum n \<Rightarrow> Some n | FT_Input n \<Rightarrow> Some n | FT_Interface n \<Rightarrow> Some n
      | FT_Union n \<Rightarrow> Some n | _ \<Rightarrow> None)"

definition field_reference :: "type_definition list \<Rightarrow> field_definition \<Rightarrow> type_definition option" where
  "field_reference types f =
     (let inner = (case inner_type (fd_field_type f) of Some t \<Rightarrow> t | None \<Rightarrow> fd_field_type f)
      in Option.bind (referenced_type inner) (find_type types))"

definition is_requested :: "string list option \<Rightarrow> field_definition \<Rightarrow> bool" where
  "is_requested requested f = (case requested of None \<Rightarrow> True | Some names \<Rightarrow> field_name f \<in> set names)"

definition fallback_of :: "string \<Rightarrow> string option" where
  "fallback_of name = (if to_camel_case name \<noteq> name then Some name else None)"

lemma find_type_Some: "find_type types n = Some td \<Longrightarrow> td \<in> set types \<and> type_name td = n"
  by (auto simp: find_type_def find_Some_iff)

lemma field_reference_Some: "field_reference types f = Some td \<Longrightarrow> td \<in> set types"
  by (auto simp: field_reference_def Let_def bind_eq_Some_conv dest: find_type_Some)

function build_field_mappings_from_type ::
  "field_definition list \<Rightarrow> type_definition list \<Rightarrow> string list option \<Rightarrow> string list \<Rightarrow> field_mapping list" where
  "build_field_mappings_from_type fds types requested visited =
     map (\<lambda>f.
       let src = to_camel_case (field_name f); out = field_name f; fb = fallback_of (field_name f) in
       case field_reference types f of
         Some td \<Rightarrow>
           if type_name td \<notin> set visited then
             FieldMapping src out fb (Some (type_name td))
               (Some (build_field_mappings_from_type (type_fields td) types None (type_name td # visited)))
           else FieldMapping src out fb None None
       | None \<Rightarrow> FieldMapping src out fb None None)
       (filter (is_requested requested) fds)"
  by pat_completeness auto
termination
proof (relation "measure (\<lambda>(fds, types, requested, visited). card (type_name ` set types - set visited))")
  fix types td and f :: field_definition and visited :: "string list"
  assume "field_reference types f = Some td" and new: "type_name td \<notin> set visited"
  then have "type_name td \<in> type_name ` set types" by (auto dest: field_reference_Some)
  then have "type_name ` set types - set (type_name td # visited) \<subset> type_name ` set types - set visited"
    using new by auto
  then have "card (type_name ` set types - set (type_name td # visited)) < card (type_name ` set types - set visited)"
    by (intro psubset_card_mono) auto
  then show "((type_fields td, types, None, type_name td # visited), (fds, types, requested, visited))
      \<in> measure (\<lambda>(fds, types, requested, visited). card (type_name ` set types - set visited))" for fds requested
    by simp
qed simp

declare build_field_mappings_from_type.simps [simp del]

end
