(* ===== verification/Mutation_Result.thy ===== *)
theory Mutation_Result
  imports Projection
begin

text \<open>
  The \<open>app.mutation_response\<close> row (\<open>fraiseql-core/src/runtime/mutation_result.rs\<close>,
  \<open>runtime/cascade.rs\<close>): its deserialization column by column, the legal combinations, and the
  outcome the executor works with; and how the PostgreSQL adapter calls a function and reads its
  rows (\<open>fraiseql-db/src/postgres/adapter/database.rs\<close>).

  \<^item> A row is a map from column names to JSON values. The UUID parser, the texts of
    deserialization errors and the printing of JSON are arguments.
  \<^item> Of a column of a PostgreSQL row the model has what the client library gives for each of the
    types the adapter asks for in turn.
\<close>

section \<open>Errors\<close>

datatype fraiseql_error = InvalidRequest db_error | DatabaseFailure string "string option"

abbreviation validation :: "string \<Rightarrow> fraiseql_error" where
  "validation msg \<equiv> InvalidRequest (Validation msg)"

datatype mutation_error_class =
    ClassValidation | ClassConflict | ClassNotFound | ClassUnauthorized | ClassForbidden | ClassInternal
  | ClassTransactionFailed | ClassTimeout | ClassRateLimited | ClassServiceUnavailable

datatype cascade_error_code =
    CodeValidationError | CodeConflict | CodeNotFound | CodeUnauthorized | CodeForbidden | CodeInternalError
  | CodeTransactionFailed | CodeTimeout | CodeRateLimited | CodeServiceUnavailable

definition class_text :: "mutation_error_class \<Rightarrow> string" where
  "class_text c =
     (case c of ClassValidation \<Rightarrow> ''validation'' | ClassConflict \<Rightarrow> ''conflict'' | ClassNotFound \<Rightarrow> ''not_found''
      | ClassUnauthorized \<Rightarrow> ''unauthorized'' | ClassForbidden \<Rightarrow> ''forbidden'' | ClassInternal \<Rightarrow> ''internal''
      | ClassTransactionFailed \<Rightarrow> ''transaction_failed'' | ClassTimeout \<Rightarrow> ''timeout''
      | ClassRateLimited \<Rightarrow> ''rate_limited'' | ClassServiceUnavailable \<Rightarrow> ''service_unavailable'')"

definition to_cascade_code :: "mutation_error_class \<Rightarrow> cascade_error_code" where
  "to_cascade_code c =
     (case c of ClassValidation \<Rightarrow> CodeValidationError | ClassConflict \<Rightarrow> CodeConflict | ClassNotFound \<Rightarrow> CodeNotFound
      | ClassUnauthorized \<Rightarrow> CodeUnauthorized | ClassForbidden \<Rightarrow> CodeForbidden | ClassInternal \<Rightarrow> CodeInternalError
      | ClassTransactionFailed \<Rightarrow> CodeTransactionFailed | ClassTimeout \<Rightarrow> CodeTimeout
      | ClassRateLimited \<Rightarrow> CodeRateLimited | ClassServiceUnavailable \<Rightarrow> CodeServiceUnavailable)"

definition error_classes :: "mutation_error_class list" where
  "error_classes = [ClassValidation, ClassConflict, ClassNotFound, ClassUnauthorized, ClassForbidden, ClassInternal,
     ClassTransactionFailed, ClassTimeout, ClassRateLimited, ClassServiceUnavailable]"

definition class_of_label :: "string \<Rightarrow> mutation_error_class option" where
  "class_of_label s = find (\<lambda>c. class_text c = s) error_classes"

section \<open>The row\<close>

type_synonym function_row = "string \<rightharpoonup> json"

record row_readers =
  texts :: text_parsers
  parse_uuid :: "string \<Rightarrow> string option"
  row_error :: "function_row \<Rightarrow> string"
  json_text :: "json \<Rightarrow> string"
  started_at :: string

record mutation_response =
  succeeded :: bool
  state_changed :: bool
  error_class :: "mutation_error_class option"
  status_detail :: "string option"
  http_status :: "int option"
  row_message :: "string option"
  entity_id :: "string option"
  entity_type :: "string option"
  row_entity :: json
  updated_fields :: "string list"
  row_cascade :: json
  error_detail :: json
  row_metadata :: json

text \<open>
  Columns as \<open>serde\<close> reads them: a boolean is required; an optional column may be absent or null;
  a column with a default may be absent but must have its type when it is there.
\<close>

definition de_optional :: "(json \<Rightarrow> 'a option) \<Rightarrow> json option \<Rightarrow> 'a option option" where
  "de_optional read v =
     (case v of None \<Rightarrow> Some None | Some JNull \<Rightarrow> Some None | Some x \<Rightarrow> map_option Some (read x))"

definition de_json :: "json option \<Rightarrow> json" where
  "de_json v = (case v of None \<Rightarrow> JNull | Some x \<Rightarrow> x)"

fun de_i16 :: "json \<Rightarrow> int option" where
  "de_i16 (JNumber (PosInt n)) = (if unat n < 2 ^ 15 then Some (uint n) else None)"
| "de_i16 (JNumber (NegInt n)) = (if - (2 ^ 15) \<le> sint n then Some (sint n) else None)"
| "de_i16 _ = None"

fun de_class :: "json \<Rightarrow> mutation_error_class option" where
  "de_class (JString s) = class_of_label s"
| "de_class (JObject [(s, JNull)]) = class_of_label s"
| "de_class _ = None"

fun de_strings :: "json list \<Rightarrow> string list option" where
  "de_strings [] = Some []"
| "de_strings (JString s # xs) = map_option ((#) s) (de_strings xs)"
| "de_strings (x # xs) = None"

definition de_string_vec :: "json option \<Rightarrow> string list option" where
  "de_string_vec v = (case v of None \<Rightarrow> Some [] | Some (JArray xs) \<Rightarrow> de_strings xs | Some _ \<Rightarrow> None)"

definition deserialize_row :: "row_readers \<Rightarrow> function_row \<Rightarrow> mutation_response option" where
  "deserialize_row R row =
     Option.bind (Option.bind (row ''succeeded'') as_bool) (\<lambda>ok.
     Option.bind (Option.bind (row ''state_changed'') as_bool) (\<lambda>changed.
     Option.bind (de_optional de_class (row ''error_class'')) (\<lambda>cls.
     Option.bind (de_optional as_str (row ''status_detail'')) (\<lambda>detail.
     Option.bind (de_optional de_i16 (row ''http_status'')) (\<lambda>status.
     Option.bind (de_optional as_str (row ''message'')) (\<lambda>msg.
     Option.bind (de_optional (\<lambda>v. Option.bind (as_str v) (parse_uuid R)) (row ''entity_id'')) (\<lambda>eid.
     Option.bind (de_optional as_str (row ''entity_type'')) (\<lambda>etype.
     Option.bind (de_string_vec (row ''updated_fields'')) (\<lambda>upd.
       Some \<lparr>succeeded = ok, state_changed = changed, error_class = cls, status_detail = detail, http_status = status,
         row_message = msg, entity_id = eid, entity_type = etype, row_entity = de_json (row ''entity''),
         updated_fields = upd, row_cascade = de_json (row ''cascade''), error_detail = de_json (row ''error_detail''),
         row_metadata = de_json (row ''metadata'')\<rparr>)))))))))"

section \<open>The outcome\<close>

datatype mutation_outcome =
    Success json "string option" "string option" "json option"
  | MutationFailed mutation_error_class string json

definition HTTP_STATUS_MIN :: int where "HTTP_STATUS_MIN = 100"
definition HTTP_STATUS_MAX :: int where "HTTP_STATUS_MAX = 599"

definition show_int :: "int \<Rightarrow> string" where
  "show_int i = (if i < 0 then ''-'' @ show_nat (nat (- i)) else show_nat (nat i))"

definition filter_null :: "json \<Rightarrow> json option" where
  "filter_null v = (if v = JNull then None else Some v)"

definition to_outcome :: "mutation_response \<Rightarrow> fraiseql_error + mutation_outcome" where
  "to_outcome row =
     try_bind (case http_status row of
        Some status \<Rightarrow>
          if HTTP_STATUS_MIN \<le> status \<and> status \<le> HTTP_STATUS_MAX then Inr ()
          else Inl (validation (''mutation_response '' @ [squote] @ ''http_status'' @ [squote] @ '' out of range: '' @
            show_int status @ '' (expected 100..=599)''))
      | None \<Rightarrow> Inr ())
      (\<lambda>_.
      if succeeded row then
        (if error_class row \<noteq> None then Inl (validation ''mutation_response: succeeded=true but error_class is set'')
         else Inr (Success (row_entity row) (entity_type row) (entity_id row) (filter_null (row_cascade row))))
      else if state_changed row then
        Inl (validation (''mutation_response: succeeded=false with state_changed=true is illegal '' @
          ''(partial-failure rows are builder-rejected)''))
      else
        (case error_class row of
           None \<Rightarrow> Inl (validation ''mutation_response: succeeded=false requires error_class'')
         | Some cls \<Rightarrow>
             Inr (MutationFailed cls (case row_message row of Some m \<Rightarrow> m | None \<Rightarrow> []) (error_detail row))))"

definition parse_mutation_row :: "row_readers \<Rightarrow> function_row \<Rightarrow> fraiseql_error + mutation_outcome" where
  "parse_mutation_row R row =
     (case deserialize_row R row of
        None \<Rightarrow> Inl (validation (''mutation_response row failed to deserialize: '' @ row_error R row))
      | Some parsed \<Rightarrow> to_outcome parsed)"

section \<open>The PostgreSQL adapter\<close>

record pg_column =
  pg_name :: string
  get_i32 :: "int option"
  get_i64 :: "int option"
  get_f64 :: "u64 option"
  get_string :: "string option"
  get_bool :: "bool option"
  get_json :: "json option"

text \<open>\<open>json!\<close> of a float: null unless it is finite.\<close>

definition json_float :: "u64 \<Rightarrow> json" where
  "json_float x = (case number_from_f64 x of Some v \<Rightarrow> v | None \<Rightarrow> JNull)"

definition column_value :: "pg_column \<Rightarrow> json" where
  "column_value col =
     (case get_i32 col of Some i \<Rightarrow> json_int i | None \<Rightarrow>
     (case get_i64 col of Some i \<Rightarrow> json_int i | None \<Rightarrow>
     (case get_f64 col of Some x \<Rightarrow> json_float x | None \<Rightarrow>
     (case get_string col of Some s \<Rightarrow> JString s | None \<Rightarrow>
     (case get_bool col of Some b \<Rightarrow> JBool b | None \<Rightarrow>
     (case get_json col of Some v \<Rightarrow> v | None \<Rightarrow> JNull))))))"

definition row_to_map :: "pg_column list \<Rightarrow> function_row" where
  "row_to_map cols = foldl (\<lambda>m col. m(pg_name col \<mapsto> column_value col)) Map.empty cols"

datatype flex_param = FlexNull | FlexText string

definition flex_param_of :: "(json \<Rightarrow> string) \<Rightarrow> json \<Rightarrow> flex_param" where
  "flex_param_of render v = (case v of JNull \<Rightarrow> FlexNull | JString s \<Rightarrow> FlexText s | _ \<Rightarrow> FlexText (render v))"

definition function_call_sql :: "string \<Rightarrow> nat \<Rightarrow> string" where
  "function_call_sql name n =
     ''SELECT * FROM '' @ quote_postgres_identifier name @ ''('' @
     join '', '' (map (\<lambda>i. ''$'' @ show_nat i) [1..<Suc n]) @ '')''"

record 's pg_client =
  acquire :: "('s, fraiseql_error, unit) effect"
  start_transaction :: "('s, fraiseql_error, unit) effect"
  commit_transaction :: "('s, fraiseql_error, unit) effect"
  execute_sql :: "string \<Rightarrow> flex_param list \<Rightarrow> ('s, fraiseql_error, unit) effect"
  query_sql :: "string \<Rightarrow> flex_param list \<Rightarrow> ('s, fraiseql_error, pg_column list list) effect"

text \<open>
  With mutation timing the call runs in a transaction that sets the timing variable first. An error
  drops the transaction; the rollback is part of the client's step that failed.
\<close>

definition pg_execute_function_call ::
  "'s pg_client \<Rightarrow> (json \<Rightarrow> string) \<Rightarrow> string option \<Rightarrow> string \<Rightarrow> json list \<Rightarrow> ('s, fraiseql_error, function_row list) effect" where
  "pg_execute_function_call C render timing name args =
     (let sql = function_call_sql name (length args); params = map (flex_param_of render) args in
      and_then (acquire C) (\<lambda>_.
        case timing of
          Some variable \<Rightarrow>
            and_then (start_transaction C) (\<lambda>_.
            and_then (execute_sql C ''SELECT set_config($1, clock_timestamp()::text, true)'' [FlexText variable]) (\<lambda>_.
            and_then (query_sql C sql params) (\<lambda>rows.
            and_then (commit_transaction C) (\<lambda>_.
            lift_result (Inr (map row_to_map rows))))))
        | None \<Rightarrow> and_then (query_sql C sql params) (\<lambda>rows. lift_result (Inr (map row_to_map rows)))))"

fun set_configs :: "'s pg_client \<Rightarrow> (string \<times> string) list \<Rightarrow> ('s, fraiseql_error, unit) effect" where
  "set_configs C [] = lift_result (Inr ())"
| "set_configs C ((name, value) # vars) =
     and_then (execute_sql C ''SELECT set_config($1, $2, true)'' [FlexText name, FlexText value]) (\<lambda>_. set_configs C vars)"

definition pg_set_session_variables :: "'s pg_client \<Rightarrow> (string \<times> string) list \<Rightarrow> ('s, fraiseql_error, unit) effect" where
  "pg_set_session_variables C vars =
     (if vars = [] then lift_result (Inr ()) else and_then (acquire C) (\<lambda>_. set_configs C vars))"

end
