(* ===== verification/Suggestions.thy ===== *)
theory Suggestions
  imports Prelude
begin

text \<open>
  "Did you mean" suggestions (\<open>fraiseql-core/src/runtime/matcher.rs\<close>, \<open>suggest_similar\<close> and
  \<open>levenshtein\<close>). The two-row table is compared with alignments, sequences of single-character
  edits between two texts. The sort by distance is stable in the model; the source's is not, so
  the order of equally distant suggestions is the model's own.
\<close>

section \<open>The table\<close>

text \<open>The inner loop: the cells of \<open>curr\<close> behind the one just written.\<close>

fun next_cells :: "char \<Rightarrow> string \<Rightarrow> nat list \<Rightarrow> nat \<Rightarrow> nat list" where
  "next_cells c (d # b) (diag # up # prev) left =
     (let v = (if c = d then diag else 1 + min (min diag up) left) in v # next_cells c b (up # prev) v)"
| "next_cells c b prev left = []"

text \<open>The outer loop from row \<open>i\<close> on.\<close>

fun table_rows :: "nat \<Rightarrow> string \<Rightarrow> string \<Rightarrow> nat list \<Rightarrow> nat list" where
  "table_rows i [] b prev = prev"
| "table_rows i (c # a) b prev = table_rows (Suc i) a b (i # next_cells c b prev i)"

definition abs_diff :: "nat \<Rightarrow> nat \<Rightarrow> nat" where
  "abs_diff m n = (if m < n then n - m else m - n)"

definition levenshtein :: "string \<Rightarrow> string \<Rightarrow> nat" where
  "levenshtein a b =
     (let m = length a; n = length b in
      if abs_diff m n > 2 then abs_diff m n
      else table_rows 1 a b [0..<Suc n] ! n)"

definition suggest_similar :: "string \<Rightarrow> string list \<Rightarrow> string list" where
  "suggest_similar needle haystack =
     (let ranked = List.map_filter (\<lambda>candidate.
            let d = levenshtein needle candidate in if d \<le> 2 then Some (d, candidate) else None) haystack
      in map snd (take 3 (sort_key fst ranked)))"

section \<open>Alignments\<close>

text \<open>\<open>alignment n a b\<close>: \<open>n\<close> insertions, deletions and replacements of a character turn \<open>a\<close> into \<open>b\<close>.\<close>

inductive alignment :: "nat \<Rightarrow> string \<Rightarrow> string \<Rightarrow> bool" where
  finished: "alignment 0 [] []"
| keep: "alignment n a b \<Longrightarrow> alignment n (c # a) (c # b)"
| delete: "alignment n a b \<Longrightarrow> alignment (Suc n) (c # a) b"
| insert: "alignment n a b \<Longrightarrow> alignment (Suc n) a (c # b)"
| replace: "alignment n a b \<Longrightarrow> alignment (Suc n) (c # a) (d # b)"

fun edits :: "string \<Rightarrow> string \<Rightarrow> nat" where
  "edits [] b = length b"
| "edits a [] = length a"
| "edits (c # a) (d # b) = (if c = d then edits a b else 1 + min (min (edits a b) (edits a (d # b))) (edits (c # a) b))"

lemma edits_Nil [simp]: "edits a [] = length a"
  by (cases a) auto

lemma edits_sym: "edits a b = edits b a"
  by (induction a b rule: edits.induct) (auto simp: min.commute min.left_commute min.assoc)

lemma edits_grow_if:
  assumes "\<And>d b'. b = d # b' \<Longrightarrow> edits a b' \<le> Suc (edits a b)"
  shows "edits (c # a) b \<le> Suc (edits a b)"
  using assms by (cases b) (auto simp: min_def)

lemma edits_shrink: "edits a b \<le> Suc (edits a (d # b))"
proof (induction a arbitrary: b d)
  case (Cons x a)
  have grow: "edits (x # a) b \<le> Suc (edits a b)"
    by (rule edits_grow_if) (simp add: Cons.IH)
  show ?case
    using grow Cons.IH [of b d] by (auto simp: min_def)
qed simp

lemma edits_delete: "edits (c # a) b \<le> Suc (edits a b)"
  by (rule edits_grow_if) (simp add: edits_shrink)

lemma edits_insert: "edits a (c # b) \<le> Suc (edits a b)"
  using edits_delete [of c b a] by (simp add: edits_sym)

lemma edits_minimal: "alignment n a b \<Longrightarrow> edits a b \<le> n"
proof (induction rule: alignment.induct)
  case (delete n a b c)
  then show ?case using edits_delete [of c a b] by simp
next
  case (insert n a b c)
  then show ?case using edits_insert [of a c b] by simp
qed (auto simp: min_def)

lemma alignment_all: "alignment (length a) a [] \<and> alignment (length a) [] a"
  by (induction a) (auto intro: alignment.intros)

lemma alignment_edits: "alignment (edits a b) a b"
  by (induction a b rule: edits.induct) (auto intro: alignment.intros simp: alignment_all min_def simp flip: length_Cons)

lemma alignment_append: "alignment n a b \<Longrightarrow> alignment m a' b' \<Longrightarrow> alignment (n + m) (a @ a') (b @ b')"
  by (induction rule: alignment.induct) (auto intro: alignment.intros)

lemma alignment_rev: "alignment n a b \<Longrightarrow> alignment n (rev a) (rev b)"
proof (induction rule: alignment.induct)
  case (keep n a b c)
  then show ?case using alignment_append [of n "rev a" "rev b" 0 "[c]" "[c]"] by (auto intro: alignment.intros)
next
  case (delete n a b c)
  then show ?case using alignment_append [of n "rev a" "rev b" 1 "[c]" "[]"] by (auto intro: alignment.intros)
next
  case (insert n a b c)
  then show ?case using alignment_append [of n "rev a" "rev b" 1 "[]" "[c]"] by (auto intro: alignment.intros)
next
  case (replace n a b c d)
  then show ?case using alignment_append [of n "rev a" "rev b" 1 "[c]" "[d]"] by (auto intro: alignment.intros)
qed (auto intro: alignment.intros)

lemma edits_rev [simp]: "edits (rev a) (rev b) = edits a b"
proof (rule antisym)
  show "edits (rev a) (rev b) \<le> edits a b"
    by (rule edits_minimal, rule alignment_rev, rule alignment_edits)
  have "alignment (edits (rev a) (rev b)) (rev (rev a)) (rev (rev b))"
    by (rule alignment_rev, rule alignment_edits)
  then show "edits a b \<le> edits (rev a) (rev b)"
    by (simp add: edits_minimal)
qed

lemma edits_diff: "abs_diff (length a) (length b) \<le> edits a b"
proof -
  have "length a \<le> length b + n \<and> length b \<le> length a + n" if "alignment n a b" for n
    using that by (induction rule: alignment.induct) auto
  from this [OF alignment_edits] show ?thesis by (auto simp: abs_diff_def)
qed

section \<open>The table computes the distance\<close>

text \<open>A row: the distances of one text to the prefixes of the other, from length \<open>k\<close> on.\<close>

definition prefix_distances :: "string \<Rightarrow> string \<Rightarrow> string \<Rightarrow> nat list" where
  "prefix_distances a p b = map (\<lambda>j. edits a (p @ take j b)) [0..<Suc (length b)]"

lemma prefix_distances_simps [simp]:
  "prefix_distances a p [] = [edits a p]"
  "prefix_distances a p (d # b) = edits a p # prefix_distances a (p @ [d]) b"
proof -
  have "[0..<Suc (length (d # b))] = 0 # map Suc [0..<Suc (length b)]"
    unfolding map_Suc_upt by (simp add: upt_conv_Cons del: upt_Suc)
  then show "prefix_distances a p (d # b) = edits a p # prefix_distances a (p @ [d]) b"
    by (simp add: prefix_distances_def del: upt_Suc)
qed (simp add: prefix_distances_def)

lemma edits_snoc:
  "edits (a @ [c]) (b @ [d]) =
     (if c = d then edits a b else 1 + min (min (edits a b) (edits a (b @ [d]))) (edits (a @ [c]) b))"
  using edits.simps(3) [of c "rev a" d "rev b"] edits_rev [of "a @ [c]" "b @ [d]"] edits_rev [of a "b @ [d]"]
    edits_rev [of "a @ [c]" b]
  by (simp del: edits.simps edits_rev) (auto simp del: edits.simps)

lemma next_cells_distances:
  "next_cells c b (prefix_distances a p b) (edits (a @ [c]) p) = tl (prefix_distances (a @ [c]) p b)"
proof (induction b arbitrary: p)
  case (Cons d b)
  have step: "(if c = d then edits a p else 1 + min (min (edits a p) (edits a (p @ [d]))) (edits (a @ [c]) p)) =
      edits (a @ [c]) (p @ [d])"
    by (simp add: edits_snoc)
  show ?case
    using Cons.IH [of "p @ [d]"] step by (cases b) (simp_all add: Let_def)
qed simp

lemma next_row_distances:
  "Suc (length a) # next_cells c b (prefix_distances a [] b) (Suc (length a)) = prefix_distances (a @ [c]) [] b"
  using next_cells_distances [of c b a "[]"] by (cases b) simp_all

lemma table_rows_distances:
  "table_rows (Suc (length a)) a' b (prefix_distances a [] b) = prefix_distances (a @ a') [] b"
proof (induction a' arbitrary: a)
  case (Cons c a')
  show ?case
    using Cons.IH [of "a @ [c]"] by (simp add: next_row_distances)
qed simp

lemma levenshtein_edits: "levenshtein a b = (if abs_diff (length a) (length b) > 2 then abs_diff (length a) (length b) else edits a b)"
proof -
  have "prefix_distances [] [] b = [0..<Suc (length b)]"
    by (rule nth_equalityI) (simp_all add: prefix_distances_def del: upt_Suc)
  then have "table_rows 1 a b [0..<Suc (length b)] = prefix_distances a [] b"
    using table_rows_distances [of "[]" a b] by simp
  then show ?thesis
    by (simp add: levenshtein_def Let_def prefix_distances_def del: upt_Suc)
qed

lemma levenshtein_near: "levenshtein a b \<le> 2 \<longleftrightarrow> edits a b \<le> 2" "levenshtein a b \<le> 2 \<Longrightarrow> levenshtein a b = edits a b"
  using edits_diff [of a b] by (auto simp: levenshtein_edits)

lemma edits_le: "edits a b \<le> k \<longleftrightarrow> (\<exists>n\<le>k. alignment n a b)"
  using alignment_edits edits_minimal order_trans by blast

section \<open>Suggestions are the nearest names\<close>

lemma suggest_alt:
  "suggest_similar needle haystack =
     take 3 (sort_key (edits needle) (filter (\<lambda>c. edits needle c \<le> 2) haystack))"
proof -
  have ranked: "List.map_filter (\<lambda>c. let d = levenshtein needle c in if d \<le> 2 then Some (d, c) else None) haystack =
      map (\<lambda>c. (edits needle c, c)) (filter (\<lambda>c. edits needle c \<le> 2) haystack)"
    by (induction haystack) (auto simp: map_filter_simps Let_def levenshtein_near)
  have sorted: "sort_key fst (map (\<lambda>c. (f c, c)) xs) = map (\<lambda>c. (f c, c)) (sort_key f xs)" for f :: "string \<Rightarrow> nat" and xs
  proof (induction xs)
    case (Cons x xs)
    have "insort_key fst (f x, x) (map (\<lambda>c. (f c, c)) ys) = map (\<lambda>c. (f c, c)) (insort_key f x ys)" for ys
      by (induction ys) auto
    then show ?case using Cons by simp
  qed simp
  show ?thesis
    by (simp add: suggest_similar_def ranked sorted take_map comp_def)
qed

text \<open>
  C29. The suggestions for an unknown name are the nearest ones: there are at most three, each is a
  name of the schema that at most two single-character edits turn into the given name, they come
  in the order of their distance, and a name within that distance that is left out is no nearer
  than any that is suggested, and is left out only when three are. The early return on the
  lengths never loses a suggestion.
\<close>

theorem suggestions_nearest:
  "length (suggest_similar needle haystack) \<le> 3 \<and>
   sorted (map (edits needle) (suggest_similar needle haystack)) \<and>
   (\<forall>s \<in> set (suggest_similar needle haystack). s \<in> set haystack \<and> (\<exists>n\<le>2. alignment n needle s)) \<and>
   (\<forall>c \<in> set haystack. \<forall>n\<le>2. alignment n needle c \<longrightarrow> c \<notin> set (suggest_similar needle haystack) \<longrightarrow>
      length (suggest_similar needle haystack) = 3 \<and>
      (\<forall>s \<in> set (suggest_similar needle haystack). \<exists>k\<le>n. alignment k needle s))"
proof -
  let ?near = "sort_key (edits needle) (filter (\<lambda>c. edits needle c \<le> 2) haystack)"
  have sorted: "sorted (map (edits needle) ?near)" by simp
  have left_out: "length (take 3 ?near) = 3 \<and> (\<forall>s \<in> set (take 3 ?near). edits needle s \<le> n)"
    if "c \<in> set haystack" "n \<le> 2" "alignment n needle c" "c \<notin> set (take 3 ?near)" for c n
  proof -
    have "c \<in> set ?near" using that edits_minimal [of n needle c] by auto
    then have c: "c \<in> set (drop 3 ?near)"
      using that(4) by (metis UnE append_take_drop_id set_append)
    have "sorted (map (edits needle) (take 3 ?near @ drop 3 ?near))"
      using sorted by (simp only: append_take_drop_id)
    then have "\<forall>s \<in> set (take 3 ?near). edits needle s \<le> edits needle c"
      unfolding map_append sorted_append using c by auto
    moreover have "3 \<le> length ?near" using c by (cases "3 \<le> length ?near") auto
    ultimately show ?thesis using edits_minimal [OF that(3)] by fastforce
  qed
  show ?thesis
    unfolding suggest_alt
    using left_out sorted by (auto simp: edits_le sorted_wrt_take take_map [symmetric] dest: in_set_takeD)
qed

theorem suggestions_nearest_witness:
  "suggest_similar ''usr'' [''posts'', ''users'', ''user''] = [''user'', ''users''] \<and>
   (\<exists>n\<le>2. alignment n ''usr'' ''users'')"
proof -
  have computed: "suggest_similar ''usr'' [''posts'', ''users'', ''user''] = [''user'', ''users'']" by code_simp
  then show ?thesis
    using suggestions_nearest [of "''usr''" "[''posts'', ''users'', ''user'']"] by simp
qed

end
