(* ===== verification/Mutation_Executor.thy ===== *)
theory Mutation_Executor
  imports Mutation_Result Suggestions
begin

text \<open>
  The mutation executor (\<open>fraiseql-core/src/runtime/executor/mutation.rs\<close>): the positional
  arguments of the database function, the call, the invalidation of caches, and the response.

  \<^item> The database adapter is a record of effects; the response cache, when there is one, is a
    function on the state, because what it returns is discarded.
  \<^item> Type selections are an association list from type names to fields, with the fields common to
    all types under the empty name.
\<close>

section \<open>Literals\<close>

fun literal_to_json :: "graphql_value \<Rightarrow> json" where
  "literal_to_json GV_Null = JNull"
| "literal_to_json (GV_Boolean b) = JBool b"
| "literal_to_json (GV_Int i) = json_int (sint i)"
| "literal_to_json (GV_Float x) = json_float x"
| "literal_to_json (GV_String s) = JString s"
| "literal_to_json (GV_List vs) = JArray (map literal_to_json vs)"
| "literal_to_json (GV_Object es) = JObject (foldl (\<lambda>m (k, v). map_insert k v m) [] (map (\<lambda>(k, v). (k, literal_to_json v)) es))"

section \<open>The adapter\<close>

record 's mutation_adapter =
  supports_mutations :: bool
  set_session_variables :: "(string \<times> string) list \<Rightarrow> ('s, fraiseql_error, unit) effect"
  execute_function_call :: "string \<Rightarrow> json list \<Rightarrow> ('s, fraiseql_error, function_row list) effect"
  bump_fact_table_versions :: "string list \<Rightarrow> ('s, fraiseql_error, unit) effect"
  invalidate_by_entity :: "string \<Rightarrow> string \<Rightarrow> ('s, fraiseql_error, unit) effect"
  invalidate_list_queries :: "string list \<Rightarrow> ('s, fraiseql_error, unit) effect"
  invalidate_view_entries :: "string list \<Rightarrow> ('s, fraiseql_error, unit) effect"
  response_cache :: "(string list \<Rightarrow> 's \<Rightarrow> 's) option"

section \<open>Looking up the mutation\<close>

definition find_input_type :: "compiled_schema \<Rightarrow> string \<Rightarrow> input_object_definition option" where
  "find_input_type schema name = find (\<lambda>i. input_name i = name) (schema_input_types schema)"

definition find_union :: "compiled_schema \<Rightarrow> string \<Rightarrow> union_definition option" where
  "find_union schema name = find (\<lambda>u. union_name u = name) (schema_unions schema)"

definition casing_to_camel_case :: "string \<Rightarrow> string" where
  "casing_to_camel_case s = (if CHR ''_'' \<in> set s then camel_loop False s else s)"

definition display_name :: "compiled_schema \<Rightarrow> string \<Rightarrow> string" where
  "display_name schema name = (case naming_convention schema of CamelCase \<Rightarrow> casing_to_camel_case name | Preserve \<Rightarrow> name)"

definition quoted :: "string \<Rightarrow> string" where
  "quoted s = [squote] @ s @ [squote]"

definition mutation_not_found :: "compiled_schema \<Rightarrow> string \<Rightarrow> fraiseql_error" where
  "mutation_not_found schema name =
     validation (''Mutation '' @ quoted name @ '' not found in schema'' @
       (case suggest_similar name (map (\<lambda>m. display_name schema (mutation_name m)) (schema_mutations schema)) of
          [] \<Rightarrow> []
        | [s] \<Rightarrow> ''. Did you mean '' @ quoted s @ ''?''
        | [a, b] \<Rightarrow> ''. Did you mean '' @ quoted a @ '' or '' @ quoted b @ ''?''
        | a # b # c # _ \<Rightarrow> ''. Did you mean '' @ quoted a @ '', '' @ quoted b @ '', or '' @ quoted c @ ''?''))"

definition locate_mutation :: "compiled_schema \<Rightarrow> string \<Rightarrow> fraiseql_error + mutation_definition" where
  "locate_mutation schema name =
     (case find_mutation (schema_mutations schema) name of
        Some m \<Rightarrow> Inr m
      | None \<Rightarrow> Inl (mutation_not_found schema name))"

definition mutation_function :: "mutation_definition \<Rightarrow> string \<Rightarrow> fraiseql_error + string" where
  "mutation_function m name =
     (let missing = Inl (validation (''Mutation '' @ quoted name @ '' has no sql_source configured''));
          table_or = (\<lambda>table. if table \<noteq> [] then Inr table else missing)
      in case mutation_sql_source m of
           Some src \<Rightarrow> Inr src
         | None \<Rightarrow>
             (case mutation_operation m of
                MInsert table \<Rightarrow> table_or table
              | MUpdate table \<Rightarrow> table_or table
              | MDelete table \<Rightarrow> table_or table
              | MCustom \<Rightarrow> missing))"

section \<open>Arguments\<close>

definition input_type_name :: "mutation_definition \<Rightarrow> string option" where
  "input_type_name m =
     (case mutation_arguments m of
        [a] \<Rightarrow> if arg_name a = ''input'' then (case arg_type a of FT_Input n \<Rightarrow> Some n | _ \<Rightarrow> None) else None
      | _ \<Rightarrow> None)"

definition is_update :: "mutation_definition \<Rightarrow> bool" where
  "is_update m = (case mutation_operation m of MUpdate _ \<Rightarrow> True | _ \<Rightarrow> False)"

definition input_object :: "(string \<times> json) list option \<Rightarrow> (string \<times> json) list option" where
  "input_object vars = Option.bind vars (\<lambda>es. Option.bind (map_of es ''input'') as_object)"

definition or_null :: "json option \<Rightarrow> json" where
  "or_null v = (case v of Some x \<Rightarrow> x | None \<Rightarrow> JNull)"

definition supplied :: "(string \<times> json) list option \<Rightarrow> string \<Rightarrow> json option" where
  "supplied vars name = Option.bind vars (\<lambda>es. map_of es name)"

definition argument_value :: "(string \<times> json) list option \<Rightarrow> argument_definition \<Rightarrow> json" where
  "argument_value vars a =
     (case supplied vars (arg_name a) of
        Some v \<Rightarrow> v
      | None \<Rightarrow> or_null (map_option literal_to_json (default_value a)))"

definition is_missing :: "(string \<times> json) list option \<Rightarrow> argument_definition \<Rightarrow> bool" where
  "is_missing vars a \<longleftrightarrow> supplied vars (arg_name a) = None \<and> \<not> arg_nullable a \<and> default_value a = None"

text \<open>The missing required arguments and the positional values.\<close>

definition client_args ::
  "compiled_schema \<Rightarrow> mutation_definition \<Rightarrow> (string \<times> json) list option \<Rightarrow> string list \<times> json list" where
  "client_args schema m vars =
     (let absent = (case mutation_arguments m of a # _ \<Rightarrow> if arg_nullable a then [] else [''input''] | [] \<Rightarrow> []) in
      if is_update m \<and> input_type_name m \<noteq> None then
        (case input_object vars of Some es \<Rightarrow> ([], [JObject es]) | None \<Rightarrow> (absent, []))
      else
        (case Option.bind (input_type_name m) (find_input_type schema) of
           Some input \<Rightarrow>
             (case input_object vars of
                Some es \<Rightarrow> ([], map (\<lambda>n. or_null (map_of es n)) (input_fields input))
              | None \<Rightarrow> (absent, []))
         | None \<Rightarrow>
             (map arg_name (filter (is_missing vars) (mutation_arguments m)),
              map (argument_value vars) (mutation_arguments m))))"

definition injected_args ::
  "mutation_definition \<Rightarrow> string \<Rightarrow> security_context option \<Rightarrow> fraiseql_error + json list" where
  "injected_args m name ctx =
     (if mutation_inject_params m = [] then Inr []
      else
        (case ctx of
           None \<Rightarrow> Inl (validation (''Mutation '' @ quoted name @
             '' requires inject params but no security context is available (unauthenticated request)''))
         | Some c \<Rightarrow>
             map_sum InvalidRequest id
               (collect_results (\<lambda>(param, src). resolve_inject_value param src c) (mutation_inject_params m))))"

definition function_args ::
  "compiled_schema \<Rightarrow> mutation_definition \<Rightarrow> string \<Rightarrow> json option \<Rightarrow> security_context option \<Rightarrow> fraiseql_error + json list" where
  "function_args schema m name variables ctx =
     (case client_args schema m (Option.bind variables as_object) of (missing, args) \<Rightarrow>
        if missing \<noteq> [] then
          Inl (validation (''Mutation '' @ quoted name @ '' is missing required argument(s): '' @ join '', '' missing))
        else try_bind (injected_args m name ctx) (\<lambda>injected. Inr (args @ injected)))"

section \<open>Session variables\<close>

definition attribute_text :: "(json \<Rightarrow> string) \<Rightarrow> json \<Rightarrow> string" where
  "attribute_text render v = (case v of JString s \<Rightarrow> s | _ \<Rightarrow> render v)"

definition session_value :: "(json \<Rightarrow> string) \<Rightarrow> security_context \<Rightarrow> session_variable_source \<Rightarrow> string option" where
  "session_value render ctx src =
     (case src of
        SessionJwt claim \<Rightarrow>
          (case attributes ctx claim of
             Some v \<Rightarrow> Some (attribute_text render v)
           | None \<Rightarrow>
               if claim = ''sub'' \<or> claim = ''user_id'' then Some (user_id ctx)
               else if claim = ''tenant_id'' then tenant_id ctx else None)
      | SessionHeader header \<Rightarrow> map_option (attribute_text render) (attributes ctx header)
      | SessionLiteral value \<Rightarrow> Some value)"

definition resolve_session_variables ::
  "row_readers \<Rightarrow> session_variables_config \<Rightarrow> security_context \<Rightarrow> (string \<times> string) list" where
  "resolve_session_variables R config ctx =
     (if inject_started_at config then [(''fraiseql.started_at'', started_at R)] else []) @
     List.map_filter (\<lambda>(name, src). map_option (Pair name) (session_value (json_text R) ctx src)) (session_mappings config)"

definition apply_session_variables ::
  "row_readers \<Rightarrow> compiled_schema \<Rightarrow> 's mutation_adapter \<Rightarrow> security_context option \<Rightarrow> ('s, fraiseql_error, unit) effect" where
  "apply_session_variables R schema A ctx =
     (let sv = session_variables schema in
      case ctx of
        Some c \<Rightarrow>
          if session_mappings sv \<noteq> [] \<or> inject_started_at sv
          then set_session_variables A (resolve_session_variables R sv c)
          else lift_result (Inr ())
      | None \<Rightarrow> lift_result (Inr ()))"

section \<open>Invalidation\<close>

definition is_success :: "mutation_outcome \<Rightarrow> bool" where
  "is_success oc = (case oc of Success _ _ _ _ \<Rightarrow> True | _ \<Rightarrow> False)"

definition bump_versions :: "'s mutation_adapter \<Rightarrow> mutation_definition \<Rightarrow> mutation_outcome \<Rightarrow> ('s, fraiseql_error, unit) effect" where
  "bump_versions A m oc =
     (if is_success oc \<and> invalidates_fact_tables m \<noteq> []
      then bump_fact_table_versions A (invalidates_fact_tables m) else lift_result (Inr ()))"

text \<open>The view of a type, when it names one.\<close>

definition type_view :: "compiled_schema \<Rightarrow> string \<Rightarrow> string option" where
  "type_view schema name =
     Option.bind (find_type (schema_types schema) name)
       (\<lambda>t. if type_sql_source t \<noteq> [] then Some (type_sql_source t) else None)"

definition drop_responses :: "'s mutation_adapter \<Rightarrow> string list \<Rightarrow> ('s, fraiseql_error, unit) effect" where
  "drop_responses A views = (\<lambda>s. (Inr (), case response_cache A of Some rc \<Rightarrow> rc views s | None \<Rightarrow> s))"

definition invalidate_entity ::
  "compiled_schema \<Rightarrow> 's mutation_adapter \<Rightarrow> string option \<Rightarrow> string option \<Rightarrow> ('s, fraiseql_error, unit) effect" where
  "invalidate_entity schema A etype eid =
     (case (etype, eid) of
        (Some t, Some i) \<Rightarrow>
          and_then (invalidate_by_entity A t i) (\<lambda>_.
            case type_view schema t of Some view \<Rightarrow> drop_responses A [view] | None \<Rightarrow> lift_result (Inr ()))
      | _ \<Rightarrow> lift_result (Inr ()))"

definition views_to_invalidate :: "compiled_schema \<Rightarrow> mutation_definition \<Rightarrow> string list" where
  "views_to_invalidate schema m =
     (if invalidates_views m = [] then
        (case type_view schema (mutation_return_type m) of Some view \<Rightarrow> [view] | None \<Rightarrow> [])
      else invalidates_views m)"

definition invalidate_declared_views ::
  "compiled_schema \<Rightarrow> 's mutation_adapter \<Rightarrow> mutation_definition \<Rightarrow> string option \<Rightarrow> ('s, fraiseql_error, unit) effect" where
  "invalidate_declared_views schema A m eid =
     (let views = views_to_invalidate schema m in
      if (eid = None \<or> invalidates_views m \<noteq> []) \<and> views \<noteq> [] then
        and_then (if eid = None then invalidate_list_queries A views else invalidate_view_entries A views)
          (\<lambda>_. drop_responses A views)
      else lift_result (Inr ()))"

definition invalidate_caches ::
  "compiled_schema \<Rightarrow> 's mutation_adapter \<Rightarrow> mutation_definition \<Rightarrow> mutation_outcome \<Rightarrow> ('s, fraiseql_error, unit) effect" where
  "invalidate_caches schema A m oc =
     (case oc of
        Success _ etype eid _ \<Rightarrow>
          and_then (invalidate_entity schema A etype eid) (\<lambda>_. invalidate_declared_views schema A m eid)
      | MutationFailed _ _ _ \<Rightarrow> lift_result (Inr ()))"

section \<open>The response\<close>

type_synonym type_selections = "(string \<times> string list) list"

definition selection_for_type :: "type_selections \<Rightarrow> string \<Rightarrow> string list option" where
  "selection_for_type selections name =
     (case (map_of selections [], map_of selections name) of
        (None, None) \<Rightarrow> None
      | (Some c, None) \<Rightarrow> Some c
      | (None, Some s) \<Rightarrow> Some s
      | (Some c, Some s) \<Rightarrow> Some (c @ s))"

definition success_typename :: "compiled_schema \<Rightarrow> string \<Rightarrow> string option \<Rightarrow> string" where
  "success_typename schema ret etype =
     (case etype of
        Some t \<Rightarrow> t
      | None \<Rightarrow>
          (case Option.bind (find_union schema ret) (\<lambda>u.
             find (\<lambda>t. case find_type (schema_types schema) t of None \<Rightarrow> True | Some td \<Rightarrow> \<not> is_error td) (member_types u)) of
             Some t \<Rightarrow> t
           | None \<Rightarrow> ret))"

definition object_entries :: "json \<Rightarrow> (string \<times> json) list" where
  "object_entries v = (case v of JObject es \<Rightarrow> es | _ \<Rightarrow> [])"

definition success_json ::
  "text_parsers \<Rightarrow> compiled_schema \<Rightarrow> string \<Rightarrow> type_selections \<Rightarrow> json \<Rightarrow> string option \<Rightarrow> json option \<Rightarrow> json" where
  "success_json P schema ret selections entity etype cascade =
     (let typename = success_typename schema ret etype;
          names = (case selection_for_type selections typename of
              Some fs \<Rightarrow> fs
            | None \<Rightarrow> map fst (object_entries entity));
          mapper = with_typename typename (mapper_with_mappings (map simple_mapping names));
          projected = project_json_object P mapper (object_entries entity)
      in JObject (case cascade of Some c \<Rightarrow> map_insert ''cascade'' c projected | None \<Rightarrow> projected))"

definition union_error_type :: "compiled_schema \<Rightarrow> string \<Rightarrow> type_definition option" where
  "union_error_type schema ret =
     Option.bind (find_union schema ret) (\<lambda>u.
       find is_error (List.map_filter (find_type (schema_types schema)) (member_types u)))"

definition error_json ::
  "text_parsers \<Rightarrow> compiled_schema \<Rightarrow> string \<Rightarrow> type_selections \<Rightarrow> mutation_error_class \<Rightarrow> json \<Rightarrow> json" where
  "error_json P schema ret selections cls metadata =
     (let status = JString (class_text cls) in
      case union_error_type schema ret of
        Some td \<Rightarrow>
          let mapper = with_typename (type_name td) (mapper_with_mappings
                (build_field_mappings_from_type (type_fields td) (schema_types schema)
                  (selection_for_type selections (type_name td)) []))
          in JObject (map_insert ''status'' status (project_json_object P mapper (object_entries metadata)))
      | None \<Rightarrow> JObject [(''__typename'', JString ret), (''status'', status)])"

definition outcome_json ::
  "text_parsers \<Rightarrow> compiled_schema \<Rightarrow> string \<Rightarrow> type_selections \<Rightarrow> mutation_outcome \<Rightarrow> json" where
  "outcome_json P schema ret selections oc =
     (case oc of
        Success entity etype eid cascade \<Rightarrow> success_json P schema ret selections entity etype cascade
      | MutationFailed cls msg metadata \<Rightarrow> error_json P schema ret selections cls metadata)"

section \<open>Executing a mutation\<close>

definition first_row :: "string \<Rightarrow> function_row list \<Rightarrow> fraiseql_error + function_row" where
  "first_row name rows =
     (case rows of
        row # _ \<Rightarrow> Inr row
      | [] \<Rightarrow> Inl (validation (''Mutation '' @ quoted name @ '': function returned no rows'')))"

definition execute_mutation_query_with_security ::
  "row_readers \<Rightarrow> compiled_schema \<Rightarrow> 's mutation_adapter \<Rightarrow> string \<Rightarrow> json option \<Rightarrow> security_context option \<Rightarrow> type_selections \<Rightarrow>
   ('s, fraiseql_error, json) effect" where
  "execute_mutation_query_with_security R schema A name variables ctx selections =
     and_then (lift_result (locate_mutation schema name)) (\<lambda>m.
     and_then (lift_result (mutation_function m name)) (\<lambda>f.
     and_then (lift_result (function_args schema m name variables ctx)) (\<lambda>args.
     and_then (apply_session_variables R schema A ctx) (\<lambda>_.
     and_then (execute_function_call A f args) (\<lambda>rows.
     and_then (lift_result (try_bind (first_row name rows) (parse_mutation_row R))) (\<lambda>oc.
     and_then (bump_versions A m oc) (\<lambda>_.
     and_then (invalidate_caches schema A m oc) (\<lambda>_.
     lift_result (Inr (wrap_in_data_envelope
       (outcome_json (texts R) schema (mutation_return_type m) selections oc) name))))))))))"

definition execute_mutation_query ::
  "row_readers \<Rightarrow> compiled_schema \<Rightarrow> 's mutation_adapter \<Rightarrow> string \<Rightarrow> json option \<Rightarrow> type_selections \<Rightarrow> ('s, fraiseql_error, json) effect" where
  "execute_mutation_query R schema A name variables selections =
     (if \<not> supports_mutations A then
        lift_result (Inl (validation (''Mutation '' @ quoted name @
          '' cannot be executed: the configured database adapter does not support mutations. '' @
          ''Use PostgresAdapter, MySqlAdapter, or SqlServerAdapter for mutation operations.'')))
      else execute_mutation_query_with_security R schema A name variables None selections)"

text \<open>The entry point of adapters known to support mutations at compile time.\<close>

definition execute_mutation_direct ::
  "row_readers \<Rightarrow> compiled_schema \<Rightarrow> 's mutation_adapter \<Rightarrow> string \<Rightarrow> json option \<Rightarrow> type_selections \<Rightarrow> ('s, fraiseql_error, json) effect" where
  "execute_mutation_direct R schema A name variables selections =
     execute_mutation_query_with_security R schema A name variables None selections"

end
