(* ===== verification/Mutation_Safety.thy ===== *)
theory Mutation_Safety
  imports Mutation_Executor Rest_Paging
begin

text \<open>
  Properties of the mutation executor: where the values taken from the token stand among the
  arguments of the database function, which rows it accepts, what of an entity it returns, and
  what it leaves in the caches.
\<close>

text \<open>The steps of a mutation that succeeds, and of one whose function was called.\<close>

lemma mutation_succeeds:
  assumes "execute_mutation_query_with_security R schema A name variables ctx selections s = (Inr v, s')"
    and "locate_mutation schema name = Inr m"
  shows "\<exists>f args s1 rows s2. mutation_function m name = Inr f \<and> function_args schema m name variables ctx = Inr args \<and>
    apply_session_variables R schema A ctx s = (Inr (), s1) \<and> execute_function_call A f args s1 = (Inr rows, s2)"
  using assms by (auto simp: execute_mutation_query_with_security_def and_then_Inr simp del: and_then_lift)

lemma mutation_called:
  assumes "locate_mutation schema name = Inr m" "mutation_function m name = Inr f"
    and "function_args schema m name variables ctx = Inr args"
    and "apply_session_variables R schema A ctx s = (Inr (), s1)"
    and "execute_function_call A f args s1 = (Inr rows, s2)"
  shows "execute_mutation_query_with_security R schema A name variables ctx selections s =
    (case try_bind (first_row name rows) (parse_mutation_row R) of
       Inl e \<Rightarrow> (Inl e, s2)
     | Inr oc \<Rightarrow>
         and_then (bump_versions A m oc) (\<lambda>_. and_then (invalidate_caches schema A m oc) (\<lambda>_.
           lift_result (Inr (wrap_in_data_envelope
             (outcome_json (texts R) schema (mutation_return_type m) selections oc) name)))) s2)"
  using assms by (simp add: execute_mutation_query_with_security_def and_then_step)

section \<open>Arguments of the function\<close>

text \<open>Whether the client's values come from an input object, and how many there are.\<close>

definition takes_input :: "compiled_schema \<Rightarrow> mutation_definition \<Rightarrow> bool" where
  "takes_input schema m \<longleftrightarrow>
     (is_update m \<and> input_type_name m \<noteq> None) \<or> Option.bind (input_type_name m) (find_input_type schema) \<noteq> None"

definition client_arity :: "compiled_schema \<Rightarrow> mutation_definition \<Rightarrow> nat" where
  "client_arity schema m =
     (if is_update m \<and> input_type_name m \<noteq> None then 1
      else case Option.bind (input_type_name m) (find_input_type schema) of
             Some input \<Rightarrow> length (input_fields input)
           | None \<Rightarrow> length (mutation_arguments m))"

lemma client_args_arity:
  assumes "client_args schema m vars = ([], args)" and "takes_input schema m \<Longrightarrow> input_object vars \<noteq> None"
  shows "length args = client_arity schema m"
  using assms by (auto simp: client_args_def client_arity_def takes_input_def Let_def split: if_splits option.splits)

lemma injected_args_Inr:
  assumes "injected_args m name ctx = Inr ivs" "i < length (mutation_inject_params m)"
  shows "length ivs = length (mutation_inject_params m) \<and>
    (\<exists>c. ctx = Some c \<and> (case mutation_inject_params m ! i of (param, src) \<Rightarrow> resolve_inject_value param src c = Inr (ivs ! i)))"
  using assms
  by (auto simp: injected_args_def map_sum_def split: if_splits option.splits sum.splits prod.splits
      simp: collect_results_Inr_iff list_all2_conv_all_nth)

lemma injected_args_length: "injected_args m name ctx = Inr ivs \<Longrightarrow> length ivs = length (mutation_inject_params m)"
  by (auto simp: injected_args_def map_sum_def split: if_splits option.splits sum.splits simp: collect_results_Inr_iff list_all2_conv_all_nth)

lemma function_args_Inr:
  "function_args schema m name variables ctx = Inr args \<longleftrightarrow>
     (\<exists>client ivs. client_args schema m (Option.bind variables as_object) = ([], client) \<and>
        injected_args m name ctx = Inr ivs \<and> args = client @ ivs)"
  by (auto simp: function_args_def try_bind_def split: prod.splits sum.splits)

section \<open>A sample mutation\<close>

definition note_mutation :: "bool \<Rightarrow> mutation_definition" where
  "note_mutation may_be_null = \<lparr>mutation_name = ''createNote'', mutation_return_type = ''Note'',
     mutation_arguments = [\<lparr>arg_name = ''input'', arg_type = FT_Input ''NoteInput'', arg_nullable = may_be_null, default_value = None\<rparr>],
     mutation_operation = MInsert ''fn_create_note'', mutation_rest_path = None, mutation_rest_method = None,
     upsert_function = None, mutation_sql_source = None, mutation_inject_params = [(''owner'', Jwt ''sub'')],
     invalidates_fact_tables = [], invalidates_views = []\<rparr>"

definition note_schema :: "bool \<Rightarrow> compiled_schema" where
  "note_schema may_be_null = (sample_schema False)\<lparr>schema_mutations := [note_mutation may_be_null],
     schema_input_types := [\<lparr>input_name = ''NoteInput'', input_fields = [''title'']\<rparr>]\<rparr>"

definition note_readers :: row_readers where
  "note_readers = \<lparr>texts = no_parsers, parse_uuid = Some, row_error = (\<lambda>row. ''column''), json_text = (\<lambda>v. []), started_at = ''now''\<rparr>"

definition note_caller :: security_context where
  "note_caller = \<lparr>user_id = ''u1'', roles = [], tenant_id = None, scopes = [], attributes = Map.empty, expires_at = 0\<rparr>"

text \<open>The state is the log of the functions called.\<close>

definition note_adapter :: "function_row \<Rightarrow> string list mutation_adapter" where
  "note_adapter row = \<lparr>supports_mutations = True, set_session_variables = (\<lambda>vars. lift_result (Inr ())),
     execute_function_call = (\<lambda>f args s. (Inr [row], s @ [f])), bump_fact_table_versions = (\<lambda>tables. lift_result (Inr ())),
     invalidate_by_entity = (\<lambda>t i. lift_result (Inr ())), invalidate_list_queries = (\<lambda>views. lift_result (Inr ())),
     invalidate_view_entries = (\<lambda>views. lift_result (Inr ())), response_cache = None\<rparr>"

definition note_row :: function_row where
  "note_row = [''succeeded'' \<mapsto> JBool True, ''state_changed'' \<mapsto> JBool True, ''entity_id'' \<mapsto> JString ''n1'',
     ''entity'' \<mapsto> JObject [(''secret'', JString ''x''), (''title'', JString ''hi'')]]"

definition note_variables :: json where
  "note_variables = JObject [(''input'', JObject [(''title'', JString ''hi'')])]"

lemmas note_defs = note_mutation_def note_schema_def note_readers_def note_caller_def note_adapter_def note_row_def
  note_variables_def sample_schema_def

lemma note_located [simp]:
  "locate_mutation (note_schema b) ''createNote'' = Inr (note_mutation b)"
  "mutation_function (note_mutation b) ''createNote'' = Inr ''fn_create_note''"
  by (simp_all add: locate_mutation_def find_mutation_def mutation_function_def note_defs Let_def)

lemma note_takes_input [simp]: "takes_input (note_schema b) (note_mutation b)" "client_arity (note_schema b) (note_mutation b) = 1"
  by (simp_all add: takes_input_def client_arity_def input_type_name_def is_update_def find_input_type_def note_defs)

lemma note_injected [simp]: "injected_args (note_mutation b) ''createNote'' (Some note_caller) = Inr [JString ''u1'']"
  by (simp add: injected_args_def note_defs resolve_inject_value_def try_bind_def)

lemma note_args [simp]:
  "function_args (note_schema b) (note_mutation b) ''createNote'' (Some note_variables) (Some note_caller) =
     Inr [JString ''hi'', JString ''u1'']"
  using note_injected [of b]
  by (simp add: function_args_def client_args_def input_type_name_def is_update_def find_input_type_def input_object_def
      or_null_def note_defs Let_def try_bind_def)

lemma note_session [simp]: "apply_session_variables R (note_schema b) A ctx s = (Inr (), s)"
  by (simp add: apply_session_variables_def note_defs Let_def split: option.splits)

lemma note_call [simp]: "execute_function_call (note_adapter row) f args s = (Inr [row], s @ [f])"
  by (simp add: note_adapter_def)

lemma note_parsed [simp]:
  "parse_mutation_row note_readers note_row =
     Inr (Success (JObject [(''secret'', JString ''x''), (''title'', JString ''hi'')]) None (Some ''n1'') None)"
  by (simp add: parse_mutation_row_def deserialize_row_def note_defs de_optional_def de_string_vec_def de_json_def
      to_outcome_def try_bind_def filter_null_def)

lemma note_declares [simp]:
  "mutation_inject_params (note_mutation b) = [(''owner'', Jwt ''sub'')]"
  "invalidates_views (note_mutation b) = []" "invalidates_fact_tables (note_mutation b) = []"
  by (simp_all add: note_mutation_def)

section \<open>Injected values\<close>

text \<open>
  C25. Values of the token follow the client's arguments: when a mutation succeeds and the client sent
  the input object its mutation takes, the function was called with exactly the declared number
  of client values followed by one value per injected parameter, each the claim of the
  authenticated caller; no variable of the request changes those values or their places.
\<close>

theorem injected_arguments_last:
  assumes "execute_mutation_query_with_security R schema A name variables ctx selections s = (Inr v, s')"
    and "locate_mutation schema name = Inr m"
    and "takes_input schema m \<Longrightarrow> input_object (Option.bind variables as_object) \<noteq> None"
  shows "\<exists>f args s1 rows s2. mutation_function m name = Inr f \<and> function_args schema m name variables ctx = Inr args \<and>
    apply_session_variables R schema A ctx s = (Inr (), s1) \<and> execute_function_call A f args s1 = (Inr rows, s2) \<and>
    length args = client_arity schema m + length (mutation_inject_params m) \<and>
    (\<forall>i < length (mutation_inject_params m). \<exists>c. ctx = Some c \<and>
       (case mutation_inject_params m ! i of (param, src) \<Rightarrow>
          resolve_inject_value param src c = Inr (args ! (client_arity schema m + i))))"
proof -
  obtain f args s1 rows s2 where f: "mutation_function m name = Inr f"
    and args: "function_args schema m name variables ctx = Inr args"
    and session: "apply_session_variables R schema A ctx s = (Inr (), s1)"
    and call: "execute_function_call A f args s1 = (Inr rows, s2)"
    using mutation_succeeds [OF assms(1,2)] by blast
  obtain client ivs where client: "client_args schema m (Option.bind variables as_object) = ([], client)"
    and ivs: "injected_args m name ctx = Inr ivs" and eq: "args = client @ ivs"
    using args by (auto simp: function_args_Inr)
  have arity: "length client = client_arity schema m"
    using client_args_arity [OF client] assms(3) by blast
  have placed: "\<exists>c. ctx = Some c \<and> (case mutation_inject_params m ! i of (param, src) \<Rightarrow>
      resolve_inject_value param src c = Inr (args ! (client_arity schema m + i)))"
    if "i < length (mutation_inject_params m)" for i
    using injected_args_Inr [OF ivs that] by (simp add: eq arity [symmetric] nth_append)
  have "length args = client_arity schema m + length (mutation_inject_params m)"
    using injected_args_length [OF ivs] by (simp add: eq arity)
  then show ?thesis using f args session call placed by blast
qed

theorem injected_arguments_last_witness:
  "\<exists>args. function_args (note_schema False) (note_mutation False) ''createNote'' (Some note_variables) (Some note_caller) =
      Inr args \<and> length args = 2 \<and> resolve_inject_value ''owner'' (Jwt ''sub'') note_caller = Inr (args ! 1)"
proof -
  have "\<exists>v s'. execute_mutation_query_with_security note_readers (note_schema False) (note_adapter note_row) ''createNote''
      (Some note_variables) (Some note_caller) [] [] = (Inr v, s')"
    using mutation_called [OF note_located note_args note_session note_call]
    by (simp add: first_row_def try_bind_def bump_versions_def invalidate_caches_def invalidate_entity_def
        invalidate_declared_views_def and_then_step)
  then obtain v s' where run: "execute_mutation_query_with_security note_readers (note_schema False) (note_adapter note_row)
      ''createNote'' (Some note_variables) (Some note_caller) [] [] = (Inr v, s')" by blast
  have "input_object (Option.bind (Some note_variables) as_object) \<noteq> None"
    by (simp add: input_object_def note_variables_def)
  then show ?thesis
    using injected_arguments_last [OF run note_located(1)] by simp
qed

text \<open>
  A client moves the injected values: when the single input argument may be null and the client
  leaves it out, no placeholder takes its place, so the function is called with the injected
  values alone, from the first position on, where the client's own values belong.
\<close>

theorem omitted_input_shifts_injection:
  assumes "takes_input schema m" "list_all arg_nullable (mutation_arguments m)"
    and "input_object (Option.bind variables as_object) = None"
    and "injected_args m name ctx = Inr ivs" "0 < client_arity schema m"
  shows "function_args schema m name variables ctx = Inr ivs \<and>
    length ivs < client_arity schema m + length (mutation_inject_params m)"
proof -
  have "client_args schema m (Option.bind variables as_object) = ([], [])"
    using assms(1-3)
    by (auto simp: client_args_def takes_input_def Let_def split: option.splits list.splits)
  then show ?thesis
    using assms(4,5) injected_args_length [OF assms(4)] by (simp add: function_args_Inr)
qed

theorem omitted_input_shifts_injection_witness:
  "function_args (note_schema True) (note_mutation True) ''createNote'' None (Some note_caller) = Inr [JString ''u1'']"
  using omitted_input_shifts_injection [OF note_takes_input(1) _ _ note_injected, of True None]
  by (simp add: input_object_def) (simp add: note_mutation_def)

section \<open>Rows\<close>

text \<open>The combinations of columns that the documentation of \<open>app.mutation_response\<close> allows.\<close>

definition legal_row :: "mutation_response \<Rightarrow> bool" where
  "legal_row r \<longleftrightarrow>
     (succeeded r \<and> error_class r = None \<or> \<not> succeeded r \<and> error_class r \<noteq> None \<and> \<not> state_changed r) \<and>
     (case http_status r of None \<Rightarrow> True | Some st \<Rightarrow> 100 \<le> st \<and> st \<le> 599)"

lemma to_outcome_legal: "(\<exists>oc. to_outcome r = Inr oc) \<longleftrightarrow> legal_row r"
  by (auto simp: to_outcome_def legal_row_def try_bind_def HTTP_STATUS_MIN_def HTTP_STATUS_MAX_def split: option.splits)

lemma to_outcome_success: "to_outcome r = Inr oc \<Longrightarrow> is_success oc \<longleftrightarrow> succeeded r"
  by (auto simp: to_outcome_def is_success_def try_bind_def split: option.splits if_splits)

lemma to_outcome_metadata: "to_outcome (r\<lparr>row_metadata := x\<rparr>) = to_outcome r"
  by (simp add: to_outcome_def cong: option.case_cong)

lemma deserialize_metadata:
  "deserialize_row R (row(''metadata'' \<mapsto> x)) = map_option (\<lambda>r. r\<lparr>row_metadata := x\<rparr>) (deserialize_row R row)"
  by (simp add: deserialize_row_def de_json_def split: Option.bind_split)

text \<open>
  C26. The rows of a database function are accepted exactly when their columns have their types and
  the combination of \<open>succeeded\<close>, \<open>state_changed\<close>, \<open>error_class\<close> and the status is one the
  documentation allows; the outcome is a success exactly when the row says so, and the
  observability column \<open>metadata\<close> has no influence on it.
\<close>

theorem accepted_rows_legal:
  "((\<exists>oc. parse_mutation_row R row = Inr oc) \<longleftrightarrow> (\<exists>r. deserialize_row R row = Some r \<and> legal_row r)) \<and>
   (\<forall>oc. parse_mutation_row R row = Inr oc \<longrightarrow>
      (\<exists>r. deserialize_row R row = Some r \<and> (is_success oc \<longleftrightarrow> succeeded r)) \<and>
      (\<forall>x. parse_mutation_row R (row(''metadata'' \<mapsto> x)) = Inr oc))"
  using to_outcome_legal
  by (auto simp: parse_mutation_row_def deserialize_metadata to_outcome_metadata to_outcome_success split: option.splits)

theorem accepted_rows_legal_witness:
  "\<exists>r. deserialize_row note_readers note_row = Some r \<and> legal_row r \<and> succeeded r"
proof -
  have "is_success (Success (JObject [(''secret'', JString ''x''), (''title'', JString ''hi'')]) None (Some ''n1'') None)"
    by (simp add: is_success_def)
  then show ?thesis
    using accepted_rows_legal [of note_readers note_row] by (auto simp del: map_of.simps)
qed

section \<open>PostgreSQL rows\<close>

text \<open>
  \<open>updated_fields\<close> is a \<open>TEXT[]\<close>: for a column of that type the client library gives none of
  the types the adapter asks for.
\<close>

definition array_column :: "pg_column list \<Rightarrow> bool" where
  "array_column cols \<longleftrightarrow>
     list_ex (\<lambda>col. pg_name col = ''updated_fields'') cols \<and>
     list_all (\<lambda>col. pg_name col = ''updated_fields'' \<longrightarrow>
       get_i32 col = None \<and> get_i64 col = None \<and> get_f64 col = None \<and> get_string col = None \<and>
       get_bool col = None \<and> get_json col = None) cols"

definition mutation_response_rows :: "'s pg_client \<Rightarrow> bool" where
  "mutation_response_rows C \<longleftrightarrow> (\<forall>sql params s. case query_sql C sql params s of
     (Inr rows, s') \<Rightarrow> list_all array_column rows | (Inl e, s') \<Rightarrow> True)"

lemma row_to_map_column:
  assumes "list_all (\<lambda>col. pg_name col = k \<longrightarrow> column_value col = v) cols"
    and "list_ex (\<lambda>col. pg_name col = k) cols \<or> m k = Some v"
  shows "foldl (\<lambda>m col. m(pg_name col \<mapsto> column_value col)) m cols k = Some v"
  using assms by (induction cols arbitrary: m) auto

lemma array_column_null:
  assumes "array_column cols"
  shows "row_to_map cols ''updated_fields'' = Some JNull"
  unfolding row_to_map_def
  by (rule row_to_map_column) (use assms in \<open>auto simp: array_column_def list_all_iff column_value_def\<close>)

lemma null_fields_rejected:
  "row ''updated_fields'' = Some JNull \<Longrightarrow>
     parse_mutation_row R row = Inl (validation (''mutation_response row failed to deserialize: '' @ row_error R row))"
  by (simp add: parse_mutation_row_def deserialize_row_def de_string_vec_def bind_eq_None_conv cong: option.case_cong)

lemma pg_rows_null:
  assumes "mutation_response_rows C" and "pg_execute_function_call C print_json timing f args s = (Inr rows, s')"
  shows "list_all (\<lambda>row. row ''updated_fields'' = Some JNull) rows"
proof -
  obtain sql params s1 s2 cs where "query_sql C sql params s1 = (Inr cs, s2)" and rows: "rows = map row_to_map cs"
    using assms(2) by (auto simp: pg_execute_function_call_def Let_def and_then_Inr split: option.splits)
  then have "list_all array_column cs"
    using assms(1) unfolding mutation_response_rows_def by (metis (mono_tags, lifting) case_prod_conv sum.simps(6))
  then show ?thesis by (auto simp: rows list_all_iff array_column_null)
qed

text \<open>
  C27. On PostgreSQL no mutation succeeds: the adapter reads the \<open>TEXT[]\<close> column \<open>updated_fields\<close>
  of the documented row type as a JSON null, which the row parser does not take for an empty
  list. The database function has run by then and its effects stay; the client receives an error,
  and no cache is invalidated.
\<close>

theorem postgres_rows_rejected:
  assumes "mutation_response_rows C"
    and "locate_mutation schema name = Inr m" "mutation_function m name = Inr f"
    and "function_args schema m name variables ctx = Inr args"
    and "apply_session_variables R schema (A\<lparr>execute_function_call := pg_execute_function_call C (json_text R) timing\<rparr>) ctx s =
      (Inr (), s1)"
    and "pg_execute_function_call C (json_text R) timing f args s1 = (Inr rows, s2)"
  shows "\<exists>e. execute_mutation_query_with_security R schema
    (A\<lparr>execute_function_call := pg_execute_function_call C (json_text R) timing\<rparr>) name variables ctx selections s = (Inl e, s2)"
proof -
  have rows: "list_all (\<lambda>row. row ''updated_fields'' = Some JNull) rows"
    by (rule pg_rows_null [OF assms(1,6)])
  have "\<exists>e. try_bind (first_row name rows) (parse_mutation_row R) = Inl e"
    using rows by (auto simp: first_row_def try_bind_def null_fields_rejected split: list.splits)
  then show ?thesis
    using mutation_called [OF assms(2-5)] assms(6) by auto
qed

definition array_client :: "string list pg_client" where
  "array_client = \<lparr>acquire = lift_result (Inr ()), start_transaction = lift_result (Inr ()), commit_transaction = lift_result (Inr ()),
     execute_sql = (\<lambda>sql params. lift_result (Inr ())),
     query_sql = (\<lambda>sql params s. (Inr [[\<lparr>pg_name = ''succeeded'', get_i32 = None, get_i64 = None, get_f64 = None, get_string = None,
         get_bool = Some True, get_json = None\<rparr>,
       \<lparr>pg_name = ''updated_fields'', get_i32 = None, get_i64 = None, get_f64 = None, get_string = None,
         get_bool = None, get_json = None\<rparr>]], s @ [sql]))\<rparr>"

theorem postgres_rows_rejected_witness:
  "\<exists>e sql. execute_mutation_query_with_security note_readers (note_schema False)
     ((note_adapter note_row)\<lparr>execute_function_call := pg_execute_function_call array_client (json_text note_readers) None\<rparr>)
     ''createNote'' (Some note_variables) (Some note_caller) [] [] = (Inl e, [sql])"
proof -
  have rows: "mutation_response_rows array_client"
    by (simp add: mutation_response_rows_def array_client_def array_column_def)
  obtain found sql where call: "pg_execute_function_call array_client (json_text note_readers) None ''fn_create_note''
      [JString ''hi'', JString ''u1''] [] = (Inr found, [sql])"
    by (simp add: pg_execute_function_call_def array_client_def Let_def and_then_step)
  show ?thesis
    using postgres_rows_rejected [OF rows note_located note_args note_session call] by blast
qed

section \<open>Caches\<close>

text \<open>
  A row that names the changed entity but not its type leaves every cache as it is, unless the
  mutation declares views or fact tables: the entity is not evicted because its type is missing,
  and the view of the return type is not swept because the identifier is there. Later queries
  are answered with the old entity.
\<close>

theorem untyped_entity_keeps_caches:
  assumes "locate_mutation schema name = Inr m" "mutation_function m name = Inr f"
    and "function_args schema m name variables ctx = Inr args"
    and "apply_session_variables R schema A ctx s = (Inr (), s1)"
    and "execute_function_call A f args s1 = (Inr (row # rows), s2)"
    and "parse_mutation_row R row = Inr (Success entity None (Some i) cascade)"
    and "invalidates_views m = []" "invalidates_fact_tables m = []"
  shows "execute_mutation_query_with_security R schema A name variables ctx selections s =
    (Inr (wrap_in_data_envelope (success_json (texts R) schema (mutation_return_type m) selections entity None cascade) name), s2)"
  using assms(6-8)
  by (simp add: mutation_called [OF assms(1-5)] first_row_def try_bind_def bump_versions_def invalidate_caches_def
      invalidate_entity_def invalidate_declared_views_def outcome_json_def and_then_step)

theorem untyped_entity_keeps_caches_witness:
  "snd (execute_mutation_query_with_security note_readers (note_schema False) (note_adapter note_row) ''createNote''
     (Some note_variables) (Some note_caller) [] []) = [''fn_create_note'']"
  using untyped_entity_keeps_caches 
    [where s = "[]" and selections = "[]", OF note_located note_args note_session note_call note_parsed note_declares(2,3)] by simp

section \<open>What a response discloses\<close>

text \<open>A value as the projection of a plain field returns it.\<close>

definition plain_value :: "text_parsers \<Rightarrow> json \<Rightarrow> json" where
  "plain_value P v = (case v of JString t \<Rightarrow> (case reparse P t of Some w \<Rightarrow> w | None \<Rightarrow> v) | _ \<Rightarrow> v)"

lemma project_simple: "project_nested_value P v (simple_mapping k) = plain_value P v"
proof (cases v)
  case (JString t)
  have "project_nested_value P w (simple_mapping k) = w" if "reparse P t = Some w" for w
    using that by (auto simp: reparse_def simple_mapping_def split: option.splits json.splits if_splits)
  then show ?thesis using JString by (auto simp: plain_value_def split: option.splits)
qed (simp_all add: plain_value_def simple_mapping_def)

lemma project_simple_fields:
  "map_of (foldl (\<lambda>result f. case source_value es f of
       Some v \<Rightarrow> map_insert (fm_output f) (project_nested_value P v f) result | None \<Rightarrow> result) acc (map simple_mapping fs)) k =
     (if k \<in> set fs \<and> map_of es k \<noteq> None then map_option (plain_value P) (map_of es k) else map_of acc k)"
proof (induction fs arbitrary: acc)
  case (Cons g fs)
  have "source_value es (simple_mapping g) = map_of es g" "fm_output (simple_mapping g) = g"
    by (simp_all add: source_value_def simple_mapping_def split: option.splits)
  then show ?case
    using Cons by (auto simp: project_simple split: option.splits)
qed simp

lemma success_json_fields:
  "selection_for_type selections (success_typename schema ret etype) = Some fs \<Longrightarrow>
   \<exists>out. success_json P schema ret selections entity etype cascade = JObject out \<and>
     map_of out = (\<lambda>k. if k = ''cascade'' \<and> cascade \<noteq> None then cascade
       else if k \<in> set fs \<and> map_of (object_entries entity) k \<noteq> None
         then map_option (plain_value P) (map_of (object_entries entity) k)
       else map_of [(''__typename'', JString (success_typename schema ret etype))] k)"
  by (auto simp: success_json_def Let_def project_json_object_def with_typename_def mapper_with_mappings_def
      project_simple_fields fun_eq_iff split: option.splits)



text \<open>
  A text that reads as a JSON object or array does not come back as a text: a selected field of
  the entity that holds such a string is an object or array in the response, whatever its type.
\<close>

theorem text_field_reparsed:
  assumes "selection_for_type selections (success_typename schema ret etype) = Some fs"
    and "k \<in> set fs" "k \<noteq> ''cascade''" "map_of (object_entries entity) k = Some (JString t)"
    and "parses_no_larger P" "parse_json P t = Some (JObject es)"
  shows "json_get (success_json P schema ret selections entity etype cascade) k = Some (JObject es)"
proof -
  have "reparse P t = Some (JObject es)"
    using assms(5,6) by (auto simp: reparse_def parses_no_larger_def simp del: text_size.simps)
  then have "plain_value P (JString t) = JObject es" by (simp add: plain_value_def)
  then show ?thesis
    using success_json_fields [OF assms(1), of P entity cascade] assms(2-4) by (auto simp: json_get_def)
qed

section \<open>Nested objects\<close>

text \<open>
  The fallback to the other spelling of a key is not applied below the first level: when an
  object of the metadata has none of the camelCase keys, everything in it but its type is lost.
\<close>

theorem nested_fallback_ignored:
  assumes "nested_typename f = Some typename" "nested_fields f = Some fms"
    and "list_all (\<lambda>nf. map_of es (fm_source nf) = None) fms"
  shows "project_nested_value P (JObject es) f = JObject [(''__typename'', JString typename)]"
proof -
  have "foldl (\<lambda>result nf. case map_of es (fm_source nf) of
      Some v \<Rightarrow> map_insert (fm_output nf) (project_nested_value P v nf) result | None \<Rightarrow> result) acc fms = acc" for acc
    using assms(3) by (induction fms) auto
  then show ?thesis using assms(1,2) by simp
qed

text \<open>Federation mode changes nothing: \<open>__typename\<close> is added only when a type name is set.\<close>

theorem federation_mode_ignored: "project P (with_federation_mode b m) v = project P m v"
  by (simp add: project_def project_json_array_def project_json_object_def with_federation_mode_def cong: json.case_cong)

end
