(* ===== verification/Cache_Store.thy ===== *)
theory Cache_Store
  imports Prelude "HOL-Library.AList" "HOL-Library.Word"
begin

text \<open>
  What the row cache and the response cache share: the concurrent store of the \<open>moka\<close> crate,
  which both use as a black box, and the reverse indexes that both keep beside it because the
  store cannot be searched by value.

  The store is a record of operations on a state of unknown type. An operation returns, besides
  its result, the removals it reported to the eviction listener while it ran, in order.
  \<open>moka_laws\<close> states what the crate documents: what is visible (\<open>live\<close>) is physically there
  (\<open>stored\<close>), every removal of a stored entry (expired, explicit, replaced or for size) is
  reported once, with the key and the old value, \<open>insert\<close> replaces and reports a value that is
  still stored, \<open>invalidate\<close> removes one, and \<open>invalidate_all\<close> makes everything invisible at
  once and leaves the physical removal, and its report, to later operations. An expired entry is
  invisible and may be stored until a later operation removes it.

  The locale \<open>reverse_index\<close> is the contract of an index beside such a store: registering an
  entry adds its labels, unregistering it takes the same labels away.
\<close>

section \<open>The store\<close>

datatype 'v expiry = ExpireAfterCreate "'v \<Rightarrow> 64 word option" | TimeToLive "64 word" | NoExpiry

record ('k, 'v, 's) moka =
  m_build :: "64 word \<Rightarrow> 'v expiry \<Rightarrow> 's"
  m_get :: "'k \<Rightarrow> 's \<Rightarrow> 'v option \<times> ('k \<times> 'v) list \<times> 's"
  m_insert :: "'k \<Rightarrow> 'v \<Rightarrow> 's \<Rightarrow> ('k \<times> 'v) list \<times> 's"
  m_invalidate :: "'k \<Rightarrow> 's \<Rightarrow> ('k \<times> 'v) list \<times> 's"
  m_invalidate_all :: "'s \<Rightarrow> ('k \<times> 'v) list \<times> 's"
  m_entry_count :: "'s \<Rightarrow> 64 word"

text \<open>Removal of some entries, each reported once with its value.\<close>

definition evicted :: "('k \<rightharpoonup> 'v) \<Rightarrow> ('k \<times> 'v) list \<Rightarrow> ('k \<rightharpoonup> 'v) \<Rightarrow> bool" where
  "evicted E ns E' \<longleftrightarrow>
     distinct (map fst ns) \<and> (\<forall>(k, v) \<in> set ns. E k = Some v) \<and> E' = E |` (- fst ` set ns)"

definition replaced :: "('k \<rightharpoonup> 'v) \<Rightarrow> 'k \<Rightarrow> ('k \<times> 'v) list" where
  "replaced E k = (case E k of None \<Rightarrow> [] | Some v \<Rightarrow> [(k, v)])"

definition moka_laws :: "('k, 'v, 's) moka \<Rightarrow> ('s \<Rightarrow> 'k \<rightharpoonup> 'v) \<Rightarrow> ('s \<Rightarrow> 'k \<rightharpoonup> 'v) \<Rightarrow> bool" where
  "moka_laws m stored live \<longleftrightarrow>
     (\<forall>cap e. stored (m_build m cap e) = Map.empty) \<and>
     (\<forall>s. live s \<subseteq>\<^sub>m stored s) \<and>
     (\<forall>k s r ns s'. m_get m k s = (r, ns, s') \<longrightarrow>
        r = live s k \<and> evicted (stored s) ns (stored s') \<and> live s' \<subseteq>\<^sub>m live s) \<and>
     (\<forall>k v s ns s'. m_insert m k v s = (ns, s') \<longrightarrow>
        (\<exists>es E fs. ns = es @ replaced E k @ fs \<and> evicted (stored s) es E \<and>
           evicted (E(k \<mapsto> v)) fs (stored s')) \<and> live s' \<subseteq>\<^sub>m (live s)(k \<mapsto> v)) \<and>
     (\<forall>k s ns s'. m_invalidate m k s = (ns, s') \<longrightarrow>
        (\<exists>es E fs. ns = es @ replaced E k @ fs \<and> evicted (stored s) es E \<and>
           evicted (E(k := None)) fs (stored s')) \<and> live s' \<subseteq>\<^sub>m (live s)(k := None)) \<and>
     (\<forall>s ns s'. m_invalidate_all m s = (ns, s') \<longrightarrow>
        evicted (stored s) ns (stored s') \<and> live s' = Map.empty)"

lemma evicted_None: "evicted E ns E' \<Longrightarrow> k \<in> fst ` set ns \<Longrightarrow> E' k = None"
  by (auto simp: evicted_def restrict_map_def)

lemma evicted_keep: "evicted E ns E' \<Longrightarrow> k \<notin> fst ` set ns \<Longrightarrow> E' k = E k"
  by (auto simp: evicted_def restrict_map_def)

lemma evicted_mono: "evicted E ns E' \<Longrightarrow> E' k = Some v \<Longrightarrow> E k = Some v"
  by (auto simp: evicted_def restrict_map_def split: if_splits)

lemma evicted_reported: "evicted E ns E' \<Longrightarrow> E k = Some v \<Longrightarrow> E' k = None \<Longrightarrow> (k, v) \<in> set ns"
  by (force simp: evicted_def restrict_map_def split: if_splits)

lemma evicted_from: "evicted E ns E' \<Longrightarrow> (k, v) \<in> set ns \<Longrightarrow> E k = Some v"
  by (auto simp: evicted_def)

lemma evicted_dom: "evicted E ns E' \<Longrightarrow> dom E = dom E' \<union> fst ` set ns \<and> dom E' \<inter> fst ` set ns = {}"
  by (force simp: evicted_def dom_def restrict_map_def split: if_splits)

lemma evicted_card:
  assumes "evicted E ns E'" and "finite (dom E)"
  shows "finite (dom E') \<and> card (dom E) = card (dom E') + length ns"
proof -
  from assms(1) have "card (fst ` set ns) = length ns"
    by (metis evicted_def distinct_card length_map list.set_map)
  with evicted_dom [OF assms(1)] assms(2) show ?thesis
    by (auto simp: card_Un_disjoint)
qed

lemma replaced_simps: "E k = None \<Longrightarrow> replaced E k = []" "E k = Some v \<Longrightarrow> replaced E k = [(k, v)]"
  by (simp_all add: replaced_def)

lemma map_leD: "f \<subseteq>\<^sub>m g \<Longrightarrow> f k = Some v \<Longrightarrow> g k = Some v"
  by (auto simp: map_le_def dom_def)

section \<open>Laws of the operations, one by one\<close>

lemma laws_live: "moka_laws m stored live \<Longrightarrow> live s k = Some v \<Longrightarrow> stored s k = Some v"
  by (auto simp: moka_laws_def intro: map_leD)

lemma laws_build: "moka_laws m stored live \<Longrightarrow> stored (m_build m cap e) = Map.empty"
  by (simp add: moka_laws_def)

lemma laws_get:
  assumes "moka_laws m stored live" and "m_get m k s = (r, ns, s')"
  shows "r = live s k" and "evicted (stored s) ns (stored s')" and "live s' j = Some v \<Longrightarrow> live s j = Some v"
  using assms map_leD unfolding moka_laws_def by metis+

lemma laws_insert:
  assumes "moka_laws m stored live" and "m_insert m k v s = (ns, s')"
  obtains es E fs where "ns = es @ replaced E k @ fs" and "evicted (stored s) es E"
    and "evicted (E(k \<mapsto> v)) fs (stored s')"
  using assms unfolding moka_laws_def by metis

lemma laws_insert_live:
  assumes "moka_laws m stored live" and "m_insert m k v s = (ns, s')" and "live s' j = Some w"
  shows "((live s)(k \<mapsto> v)) j = Some w"
proof -
  from assms have "live s' \<subseteq>\<^sub>m (live s)(k \<mapsto> v)" unfolding moka_laws_def by metis
  then show ?thesis using assms(3) by (rule map_leD)
qed

lemma laws_invalidate:
  assumes "moka_laws m stored live" and "m_invalidate m k s = (ns, s')"
  obtains es E fs where "ns = es @ replaced E k @ fs" and "evicted (stored s) es E"
    and "evicted (E(k := None)) fs (stored s')"
  using assms unfolding moka_laws_def by metis

lemma laws_invalidate_live:
  assumes "moka_laws m stored live" and "m_invalidate m k s = (ns, s')" and "live s' j = Some w"
  shows "((live s)(k := None)) j = Some w"
proof -
  from assms have "live s' \<subseteq>\<^sub>m (live s)(k := None)" unfolding moka_laws_def by metis
  then show ?thesis using assms(3) by (rule map_leD)
qed

lemma laws_invalidate_all:
  assumes "moka_laws m stored live" and "m_invalidate_all m s = (ns, s')"
  shows "evicted (stored s) ns (stored s')" and "live s' = Map.empty"
  using assms unfolding moka_laws_def by metis+

text \<open>
  What an operation reports together: \<open>invalidate\<close> removes some of what was stored, \<open>insert\<close> for a
  key that was not stored removes some of what was stored with the new entry.
\<close>

lemma evicted_trans:
  assumes "evicted E es E1" and "evicted E1 fs E2"
  shows "evicted E (es @ fs) E2"
proof -
  have "fst ` set es \<inter> fst ` set fs = {}"
    using evicted_dom [OF assms(1)] evicted_dom [OF assms(2)] by blast
  moreover have "E2 = E |` (- fst ` set (es @ fs))"
    using assms by (simp add: evicted_def Compl_Un image_Un)
  moreover have "E k = Some v" if "(k, v) \<in> set (es @ fs)" for k v
    using that evicted_from [OF assms(1)] evicted_mono [OF assms(1)] evicted_from [OF assms(2)] by auto
  ultimately show ?thesis using assms by (auto simp: evicted_def)
qed

lemma evicted_replaced: "evicted E (replaced E k) (E(k := None))"
  by (auto simp: evicted_def replaced_def restrict_map_def fun_eq_iff split: option.splits)

lemma evicted_upd:
  assumes "evicted E es E'" and "E k = None"
  shows "evicted (E(k \<mapsto> v)) es (E'(k \<mapsto> v))"
proof -
  from assms have "k \<notin> fst ` set es" by (force simp: evicted_def)
  with assms show ?thesis by (force simp: evicted_def restrict_map_def fun_eq_iff)
qed

lemma invalidate_evicted:
  assumes "moka_laws m stored live" and "m_invalidate m k s = (ns, s')"
  shows "evicted (stored s) ns (stored s') \<and> stored s' k = None"
proof -
  from laws_invalidate [OF assms] obtain es E fs where
    ns: "ns = es @ replaced E k @ fs" and es: "evicted (stored s) es E"
    and fs: "evicted (E(k := None)) fs (stored s')" .
  have "evicted (stored s) (es @ replaced E k @ fs) (stored s')"
    by (rule evicted_trans [OF es evicted_trans [OF evicted_replaced fs]])
  moreover have "stored s' k = None" using evicted_mono [OF fs, of k] by (cases "stored s' k") auto
  ultimately show ?thesis by (simp add: ns)
qed

lemma insert_evicted:
  assumes "moka_laws m stored live" and "m_insert m k v s = (ns, s')" and "stored s k = None"
  shows "evicted ((stored s)(k \<mapsto> v)) ns (stored s')"
proof -
  from laws_insert [OF assms(1,2)] obtain es E fs where
    ns: "ns = es @ replaced E k @ fs" and es: "evicted (stored s) es E"
    and fs: "evicted (E(k \<mapsto> v)) fs (stored s')" .
  have "E k = None" using evicted_mono [OF es, of k] assms(3) by (cases "E k") auto
  then have "ns = es @ fs" by (simp add: ns replaced_simps)
  then show ?thesis using evicted_trans [OF evicted_upd [OF es assms(3)] fs] by simp
qed

text \<open>A value that is still stored when its key is inserted again is reported.\<close>

lemma insert_reports_old:
  assumes "moka_laws m stored live" and "m_insert m k v s = (ns, s')" and "stored s k = Some old"
  shows "(k, old) \<in> set ns"
proof -
  from laws_insert [OF assms(1,2)] obtain es E fs where
    ns: "ns = es @ replaced E k @ fs" and es: "evicted (stored s) es E" .
  show ?thesis
  proof (cases "E k")
    case None
    then have "(k, old) \<in> set es" using evicted_reported [OF es assms(3)] by simp
    then show ?thesis using ns by simp
  next
    case (Some w)
    then have "w = old" using evicted_mono [OF es Some] assms(3) by simp
    then show ?thesis using ns Some by (simp add: replaced_simps)
  qed
qed

section \<open>Reverse indexes\<close>

text \<open>
  \<open>DashMap<I, DashSet<K>>\<close>: \<open>entry(i).or_default().insert(k)\<close>, and
  \<open>if let Some(keys) = index.get(i) { keys.remove(k) }\<close>, which leaves an empty set behind.
\<close>

type_synonym ('i, 'k) index = "('i \<times> 'k list) list"

definition index_keys :: "('i, 'k) index \<Rightarrow> 'i \<Rightarrow> 'k list" where
  "index_keys m i = (case map_of m i of Some ks \<Rightarrow> ks | None \<Rightarrow> [])"

definition index_insert :: "'k \<Rightarrow> 'i \<Rightarrow> ('i, 'k) index \<Rightarrow> ('i, 'k) index" where
  "index_insert k i m = AList.update i (List.insert k (index_keys m i)) m"

definition index_remove :: "'k \<Rightarrow> 'i \<Rightarrow> ('i, 'k) index \<Rightarrow> ('i, 'k) index" where
  "index_remove k i m =
     (case map_of m i of Some ks \<Rightarrow> AList.update i (removeAll k ks) m | None \<Rightarrow> m)"

definition index_rel :: "('i, 'k) index \<Rightarrow> ('i \<times> 'k) set" where
  "index_rel m = {(i, k). k \<in> set (index_keys m i)}"

lemma index_keys_update: "index_keys (AList.update i ks m) j = (if j = i then ks else index_keys m j)"
  by (simp add: index_keys_def update_conv')

lemma index_rel_Nil [simp]: "index_rel [] = {}"
  by (simp add: index_rel_def index_keys_def)

lemma index_keys_iff: "k \<in> set (index_keys m i) \<longleftrightarrow> (i, k) \<in> index_rel m"
  by (simp add: index_rel_def)

lemma index_rel_insert: "index_rel (index_insert k i m) = insert (i, k) (index_rel m)"
  by (auto simp: index_rel_def index_insert_def index_keys_update split: if_splits)

lemma index_rel_remove: "index_rel (index_remove k i m) = index_rel m - {(i, k)}"
  by (auto simp: index_rel_def index_remove_def index_keys_update split: option.splits if_splits)
    (auto simp: index_keys_def)

lemma index_rel_inserts: "index_rel (fold (index_insert k) is m) = index_rel m \<union> set is \<times> {k}"
  by (induction "is" arbitrary: m) (auto simp: index_rel_insert)

lemma index_rel_removes: "index_rel (fold (index_remove k) is m) = index_rel m - set is \<times> {k}"
  by (induction "is" arbitrary: m) (auto simp: index_rel_remove)

text \<open>
  The contract. \<open>covers\<close> is what makes an index safe to invalidate from: every entry is found
  under each of its labels.
\<close>

locale reverse_index =
  fixes rel :: "'m \<Rightarrow> ('i \<times> 'k) set" and labels :: "'v \<Rightarrow> 'i set"
    and reg :: "'k \<Rightarrow> 'v \<Rightarrow> 'm \<Rightarrow> 'm" and unreg :: "'k \<times> 'v \<Rightarrow> 'm \<Rightarrow> 'm"
  assumes rel_reg: "rel (reg k v m) = rel m \<union> labels v \<times> {k}"
    and rel_unreg: "rel (unreg (k, v) m) = rel m - labels v \<times> {k}"
begin

definition covers :: "'m \<Rightarrow> ('k \<rightharpoonup> 'v) \<Rightarrow> bool" where
  "covers m E \<longleftrightarrow> (\<forall>k v. E k = Some v \<longrightarrow> labels v \<times> {k} \<subseteq> rel m)"

text \<open>\<open>sound\<close>: nothing else is found.\<close>

definition sound :: "'m \<Rightarrow> ('k \<rightharpoonup> 'v) \<Rightarrow> bool" where
  "sound m E \<longleftrightarrow> (\<forall>(i, k) \<in> rel m. \<exists>v. E k = Some v \<and> i \<in> labels v)"

lemma rel_unregs: "rel (fold unreg ns m) = rel m - (\<Union>(k, v) \<in> set ns. labels v \<times> {k})"
proof (induction ns arbitrary: m)
  case (Cons n ns)
  then show ?case by (cases n) (auto simp: rel_unreg)
qed simp

lemma covers_empty [simp]: "covers m Map.empty"
  by (simp add: covers_def)

lemma covers_mono: "covers m E \<Longrightarrow> (\<And>k v. E' k = Some v \<Longrightarrow> E k = Some v) \<Longrightarrow> covers m E'"
  unfolding covers_def by blast

lemma covers_reg: "covers m E \<Longrightarrow> covers (reg k v m) (E(k \<mapsto> v))"
  by (auto simp: covers_def rel_reg split: if_splits)

lemma covers_unregs:
  assumes "covers m E" and "\<And>k v. (k, v) \<in> set ns \<Longrightarrow> E k = None"
  shows "covers (fold unreg ns m) E"
  unfolding covers_def rel_unregs
proof (intro allI impI subsetI)
  fix k v x assume e: "E k = Some v" and x: "x \<in> labels v \<times> {k}"
  from assms(1) e x have "x \<in> rel m" by (auto simp: covers_def)
  moreover have "k \<notin> fst ` set ns" using assms(2) e by force
  ultimately show "x \<in> rel m - (\<Union>(k, v) \<in> set ns. labels v \<times> {k})" using x by force
qed

lemma sound_reg: "sound m E \<Longrightarrow> E k = None \<Longrightarrow> sound (reg k v m) (E(k \<mapsto> v))"
  by (fastforce simp: sound_def rel_reg)

lemma sound_empty: "rel m = {} \<Longrightarrow> sound m E"
  by (simp add: sound_def)

lemma sound_unregs:
  assumes "sound m E" and "evicted E ns E'"
  shows "sound (fold unreg ns m) E'"
  unfolding sound_def rel_unregs
proof (rule ballI, clarify)
  fix i k assume ik: "(i, k) \<in> rel m" and "(i, k) \<notin> (\<Union>(k, v) \<in> set ns. labels v \<times> {k})"
  from assms(1) ik obtain v where v: "E k = Some v" "i \<in> labels v" by (auto simp: sound_def)
  have "E' k \<noteq> None"
  proof
    assume "E' k = None"
    then have "(k, v) \<in> set ns" by (rule evicted_reported [OF assms(2) v(1)])
    with \<open>(i, k) \<notin> _\<close> v(2) show False by blast
  qed
  with v evicted_mono [OF assms(2), of k] show "\<exists>v. E' k = Some v \<and> i \<in> labels v" by auto
qed

lemma found: "covers m E \<Longrightarrow> E k = Some v \<Longrightarrow> i \<in> labels v \<Longrightarrow> (i, k) \<in> rel m"
  by (auto simp: covers_def)

lemma lost: "(k, v) \<in> set ns \<Longrightarrow> i \<in> labels v \<Longrightarrow> (i, k) \<notin> rel (fold unreg ns m)"
  by (auto simp: rel_unregs)

end

section \<open>A store that removes nothing on its own\<close>

text \<open>
  A store with the laws, for the concrete runs: entries with a visibility mark. It stores what
  it is given, reports what it replaces or invalidates, and hides everything on
  \<open>invalidate_all\<close>.
\<close>

type_synonym ('k, 'v) plain = "('k \<times> 'v \<times> bool) list"

definition hide_all :: "('k, 'v) plain \<Rightarrow> ('k, 'v) plain" where
  "hide_all s = map (\<lambda>(k, v, b). (k, v, False)) s"

definition plain_store :: "('k, 'v, ('k, 'v) plain) moka" where
  "plain_store =
     \<lparr>m_build = (\<lambda>cap e. []),
      m_get = (\<lambda>k s. (case map_of s k of Some (v, True) \<Rightarrow> Some v | _ \<Rightarrow> None, [], s)),
      m_insert = (\<lambda>k v s. (case map_of s k of Some (w, b) \<Rightarrow> [(k, w)] | None \<Rightarrow> [], AList.update k (v, True) s)),
      m_invalidate = (\<lambda>k s. (case map_of s k of Some (w, b) \<Rightarrow> [(k, w)] | None \<Rightarrow> [], AList.delete k s)),
      m_invalidate_all = (\<lambda>s. ([], hide_all s)),
      m_entry_count = (\<lambda>s. word_of_nat (length s))\<rparr>"

definition plain_stored :: "('k, 'v) plain \<Rightarrow> 'k \<rightharpoonup> 'v" where
  "plain_stored s k = map_option fst (map_of s k)"

definition plain_live :: "('k, 'v) plain \<Rightarrow> 'k \<rightharpoonup> 'v" where
  "plain_live s k = (case map_of s k of Some (v, True) \<Rightarrow> Some v | _ \<Rightarrow> None)"

lemma evicted_Nil: "evicted E [] E"
  by (simp add: evicted_def restrict_map_def)

lemma map_of_hide_all: "map_of (hide_all s) k = map_option (\<lambda>(v, b). (v, False)) (map_of s k)"
  by (induction s) (auto simp: hide_all_def)

lemma plain_step:
  assumes "plain_stored s = E"
  shows "\<exists>es E1 fs. (case map_of s k of Some (w, b) \<Rightarrow> [(k, w)] | None \<Rightarrow> []) = es @ replaced E1 k @ fs \<and>
    evicted E es E1 \<and> evicted (E1(k := x)) fs (E(k := x))"
  by (rule exI [of _ "[]"], rule exI [of _ E], rule exI [of _ "[]"])
    (auto simp: evicted_Nil replaced_def assms [symmetric] plain_stored_def split: option.splits)

lemma plain_upd:
  "plain_stored (AList.update k (v, True) s) = (plain_stored s)(k \<mapsto> v)"
  "plain_live (AList.update k (v, True) s) = (plain_live s)(k \<mapsto> v)"
  "plain_stored (AList.delete k s) = (plain_stored s)(k := None)"
  "plain_live (AList.delete k s) = (plain_live s)(k := None)"
  by (auto simp: fun_eq_iff plain_stored_def plain_live_def update_conv' delete_conv')

lemma plain_hide: "plain_stored (hide_all s) = plain_stored s" "plain_live (hide_all s) = Map.empty"
  by (auto simp: fun_eq_iff plain_stored_def plain_live_def map_of_hide_all option.map_comp comp_def
      case_prod_beta split: option.splits)

lemma plain_live_stored: "plain_live s \<subseteq>\<^sub>m plain_stored s"
  by (auto simp: map_le_def plain_live_def plain_stored_def split: option.splits bool.splits)

lemma plain_store_lawful: "moka_laws plain_store plain_stored plain_live"
proof -
  show ?thesis
    unfolding moka_laws_def
  proof (intro conjI)
    show "\<forall>k s r ns s'. m_get plain_store k s = (r, ns, s') \<longrightarrow>
        r = plain_live s k \<and> evicted (plain_stored s) ns (plain_stored s') \<and> plain_live s' \<subseteq>\<^sub>m plain_live s"
      by (auto simp: plain_store_def evicted_Nil plain_live_def)
    show "\<forall>s ns s'. m_invalidate_all plain_store s = (ns, s') \<longrightarrow>
        evicted (plain_stored s) ns (plain_stored s') \<and> plain_live s' = Map.empty"
      by (auto simp: plain_store_def evicted_Nil plain_hide)
    show "\<forall>cap e. plain_stored (m_build plain_store cap e) = Map.empty"
      by (simp add: plain_store_def plain_stored_def fun_eq_iff)
  qed (use plain_step [OF refl] plain_live_stored in \<open>auto simp: plain_store_def plain_upd\<close>)
qed

end
