(* ===== verification/Result_Cache.thy ===== *)
theory Result_Cache
  imports Cache_Store Json
begin

text \<open>
  The row cache (\<open>fraiseql-core/src/cache/result.rs\<close>, configuration in \<open>cache/config.rs\<close>).
  A cache is its \<open>moka\<close> store, its counters and three reverse indexes. The operations are
  written with the listener run on the removals the store reports during each of them, which is
  when the crate calls it. Counters and the memory estimate are 64-bit and wrap as the atomic
  operations do. \<open>serialized_len\<close>, the length of the rows as \<open>serde_json\<close> prints them, and the
  time of day are arguments.

  Shown here: in every state the operations reach without storing over a key that the store still
  holds, each visible entry is found under all its labels, so that the three invalidations make
  everything they name invisible, and the memory estimate counts the stored entries as long as
  the cache is not cleared. Storing over such a key, which is what refreshing an expired entry
  does, loses the key from the indexes.
\<close>

section \<open>Configuration\<close>

datatype rls_enforcement = RlsError | RlsWarn | RlsOff

record cache_config =
  enabled :: bool
  max_entries :: u64
  ttl_seconds :: u64
  cache_list_queries :: bool
  rls_mode :: rls_enforcement
  max_entry_bytes :: "u64 option"
  max_total_bytes :: "u64 option"

definition default_config :: cache_config where
  "default_config = \<lparr>enabled = False, max_entries = 10000, ttl_seconds = 86400,
     cache_list_queries = True, rls_mode = RlsError, max_entry_bytes = None, max_total_bytes = None\<rparr>"

definition with_max_entries :: "u64 \<Rightarrow> cache_config" where
  "with_max_entries n = \<lparr>enabled = False, max_entries = n, ttl_seconds = 86400,
     cache_list_queries = True, rls_mode = RlsError, max_entry_bytes = None, max_total_bytes = None\<rparr>"

definition with_ttl :: "u64 \<Rightarrow> cache_config" where
  "with_ttl t = \<lparr>enabled = False, max_entries = 10000, ttl_seconds = t,
     cache_list_queries = True, rls_mode = RlsError, max_entry_bytes = None, max_total_bytes = None\<rparr>"

definition enabled_config :: cache_config where
  "enabled_config = \<lparr>enabled = True, max_entries = 10000, ttl_seconds = 86400,
     cache_list_queries = True, rls_mode = RlsError, max_entry_bytes = None, max_total_bytes = None\<rparr>"

definition disabled_config :: cache_config where
  "disabled_config = \<lparr>enabled = False, max_entries = 10000, ttl_seconds = 86400,
     cache_list_queries = True, rls_mode = RlsError, max_entry_bytes = None, max_total_bytes = None\<rparr>"

definition estimated_memory_bytes :: "cache_config \<Rightarrow> u64" where
  "estimated_memory_bytes cfg = max_entries cfg * 10000"

definition config_of_bool :: "bool \<Rightarrow> cache_config" where
  "config_of_bool b = (if b then enabled_config else disabled_config)"

section \<open>Entries, indexes and state\<close>

record cached_result =
  cached_rows :: "json list"
  accessed_views :: "string list"
  cached_at :: u64
  entry_ttl :: u64
  entity_refs :: "(string \<times> string) list"
  is_list_query :: bool

definition expire_after_create :: "cached_result \<Rightarrow> u64 option" where
  "expire_after_create v = (if entry_ttl v = 0 then None else Some (entry_ttl v))"

type_synonym view_index = "(string, u64) index"
type_synonym entity_index = "(string \<times> (string, u64) index) list"
type_synonym 's row_store = "(u64, cached_result, 's) moka"

record 's query_result_cache =
  store :: 's
  config :: cache_config
  hits :: u64
  misses :: u64
  total_cached :: u64
  invalidations :: u64
  memory_bytes :: u64
  by_view :: view_index
  by_entity :: entity_index
  by_list :: view_index

text \<open>
  \<open>size_of::<CachedResult>()\<close> on a 64-bit target: an \<open>Arc\<close>, two boxed slices, two \<open>u64\<close> and a
  \<open>bool\<close>, padded to a multiple of eight.
\<close>

definition entry_overhead :: u64 where
  "entry_overhead = 64 + 8 * 2"

section \<open>The indexes\<close>

definition type_index :: "entity_index \<Rightarrow> string \<Rightarrow> (string, u64) index" where
  "type_index m t = (case map_of m t of Some by_type \<Rightarrow> by_type | None \<Rightarrow> [])"

definition entity_keys :: "entity_index \<Rightarrow> string \<times> string \<Rightarrow> u64 list" where
  "entity_keys m e = index_keys (type_index m (fst e)) (snd e)"

definition entity_insert :: "u64 \<Rightarrow> string \<times> string \<Rightarrow> entity_index \<Rightarrow> entity_index" where
  "entity_insert k e m = AList.update (fst e) (index_insert k (snd e) (type_index m (fst e))) m"

definition entity_remove :: "u64 \<Rightarrow> string \<times> string \<Rightarrow> entity_index \<Rightarrow> entity_index" where
  "entity_remove k e m =
     (case map_of m (fst e) of
        Some by_type \<Rightarrow> AList.update (fst e) (index_remove k (snd e) by_type) m
      | None \<Rightarrow> m)"

definition entity_rel :: "entity_index \<Rightarrow> ((string \<times> string) \<times> u64) set" where
  "entity_rel m = {(e, k). k \<in> set (entity_keys m e)}"

definition register_views :: "u64 \<Rightarrow> cached_result \<Rightarrow> view_index \<Rightarrow> view_index" where
  "register_views k v = fold (index_insert k) (accessed_views v)"

definition register_list :: "u64 \<Rightarrow> cached_result \<Rightarrow> view_index \<Rightarrow> view_index" where
  "register_list k v m = (if is_list_query v then fold (index_insert k) (accessed_views v) m else m)"

definition register_entities :: "u64 \<Rightarrow> cached_result \<Rightarrow> entity_index \<Rightarrow> entity_index" where
  "register_entities k v = fold (entity_insert k) (entity_refs v)"

fun unlist_views :: "u64 \<times> cached_result \<Rightarrow> view_index \<Rightarrow> view_index" where
  "unlist_views (k, v) m = fold (index_remove k) (accessed_views v) m"

fun unlist_list :: "u64 \<times> cached_result \<Rightarrow> view_index \<Rightarrow> view_index" where
  "unlist_list (k, v) m = (if is_list_query v then fold (index_remove k) (accessed_views v) m else m)"

fun unlist_entities :: "u64 \<times> cached_result \<Rightarrow> entity_index \<Rightarrow> entity_index" where
  "unlist_entities (k, v) m = fold (entity_remove k) (entity_refs v) m"

lemma entity_rel_iff: "(e, k) \<in> entity_rel m \<longleftrightarrow> (snd e, k) \<in> index_rel (type_index m (fst e))"
  by (simp add: entity_rel_def entity_keys_def index_keys_iff)

lemma type_index_update: "type_index (AList.update t x m) u = (if u = t then x else type_index m u)"
  by (simp add: type_index_def update_conv')

lemma entity_rel_insert: "entity_rel (entity_insert k e m) = insert (e, k) (entity_rel m)"
  by (rule set_eqI) (auto simp: entity_insert_def entity_rel_iff type_index_update index_rel_insert
      prod_eq_iff split: if_splits)

lemma type_index_remove:
  "type_index (entity_remove k e m) t =
     (if t = fst e then index_remove k (snd e) (type_index m t) else type_index m t)"
  by (auto simp: entity_remove_def type_index_update split: option.splits)
    (simp_all add: type_index_def index_remove_def)

lemma entity_rel_remove: "entity_rel (entity_remove k e m) = entity_rel m - {(e, k)}"
  by (rule set_eqI) (auto simp: entity_rel_iff type_index_remove index_rel_remove prod_eq_iff
      split: if_splits)

lemma entity_rel_inserts: "entity_rel (fold (entity_insert k) es m) = entity_rel m \<union> set es \<times> {k}"
  by (induction es arbitrary: m) (auto simp: entity_rel_insert)

lemma entity_rel_removes: "entity_rel (fold (entity_remove k) es m) = entity_rel m - set es \<times> {k}"
  by (induction es arbitrary: m) (auto simp: entity_rel_remove)

definition view_labels :: "cached_result \<Rightarrow> string set" where
  "view_labels v = set (accessed_views v)"

definition list_labels :: "cached_result \<Rightarrow> string set" where
  "list_labels v = (if is_list_query v then set (accessed_views v) else {})"

definition entity_labels :: "cached_result \<Rightarrow> (string \<times> string) set" where
  "entity_labels v = set (entity_refs v)"

interpretation vidx: reverse_index index_rel view_labels register_views unlist_views
  by unfold_locales (simp_all add: register_views_def view_labels_def index_rel_inserts index_rel_removes)

interpretation lidx: reverse_index index_rel list_labels register_list unlist_list
  by unfold_locales (simp_all add: register_list_def list_labels_def index_rel_inserts index_rel_removes)

interpretation eidx: reverse_index entity_rel entity_labels register_entities unlist_entities
  by unfold_locales
    (simp_all add: register_entities_def entity_labels_def entity_rel_inserts entity_rel_removes)

section \<open>Operations\<close>

text \<open>The eviction listener that \<open>build_store\<close> installs, and its calls during one operation.\<close>

definition eviction_listener :: "u64 \<times> cached_result \<Rightarrow> 's query_result_cache \<Rightarrow> 's query_result_cache" where
  "eviction_listener n c =
     c\<lparr>memory_bytes := memory_bytes c - entry_overhead,
       by_view := unlist_views n (by_view c),
       by_list := unlist_list n (by_list c),
       by_entity := unlist_entities n (by_entity c)\<rparr>"

definition notify :: "(u64 \<times> cached_result) list \<times> 's \<Rightarrow> 's query_result_cache \<Rightarrow> 's query_result_cache" where
  "notify r c = fold eviction_listener (fst r) (c\<lparr>store := snd r\<rparr>)"

text \<open>\<open>None\<close> is the panic of the assertion.\<close>

definition cache_new :: "'s row_store \<Rightarrow> cache_config \<Rightarrow> 's query_result_cache option" where
  "cache_new m cfg =
     (if max_entries cfg = 0 then None
      else Some \<lparr>store = m_build m (max_entries cfg) (ExpireAfterCreate expire_after_create),
        config = cfg, hits = 0, misses = 0, total_cached = 0, invalidations = 0, memory_bytes = 0,
        by_view = [], by_entity = [], by_list = []\<rparr>)"

definition cache_get ::
  "'s row_store \<Rightarrow> u64 \<Rightarrow> 's query_result_cache \<Rightarrow> json list option \<times> 's query_result_cache" where
  "cache_get m k c =
     (if \<not> enabled (config c) then (None, c)
      else case m_get m k (store c) of
          (Some cached, ns, s) \<Rightarrow>
            (Some (cached_rows cached), (notify (ns, s) c)\<lparr>hits := hits c + 1\<rparr>)
        | (None, ns, s) \<Rightarrow> (None, (notify (ns, s) c)\<lparr>misses := misses c + 1\<rparr>))"

definition row_entity_id :: "json \<Rightarrow> string option" where
  "row_entity_id row = Option.bind (as_object row) (\<lambda>es. Option.bind (map_of es ''id'') as_str)"

definition row_entity_refs :: "string option \<Rightarrow> json list \<Rightarrow> (string \<times> string) list" where
  "row_entity_refs entity_type rows =
     (case entity_type of
        Some et \<Rightarrow> List.map_filter (\<lambda>row. map_option (Pair et) (row_entity_id row)) rows
      | None \<Rightarrow> [])"

definition new_entry ::
  "cache_config \<Rightarrow> u64 \<Rightarrow> json list \<Rightarrow> string list \<Rightarrow> u64 option \<Rightarrow> string option \<Rightarrow> cached_result" where
  "new_entry cfg now rows views ttl_override entity_type =
     \<lparr>cached_rows = rows, accessed_views = views, cached_at = now,
      entry_ttl = (case ttl_override of Some t \<Rightarrow> t | None \<Rightarrow> ttl_seconds cfg),
      entity_refs = row_entity_refs entity_type rows,
      is_list_query = 1 < length rows\<rparr>"

text \<open>The early returns of \<open>put_arc\<close>: disabled, a list, an oversized entry, an exhausted budget.\<close>

definition refuses :: "(json list \<Rightarrow> u64) \<Rightarrow> 's query_result_cache \<Rightarrow> json list \<Rightarrow> bool" where
  "refuses serialized_len c rows \<longleftrightarrow>
     \<not> enabled (config c) \<or>
     \<not> cache_list_queries (config c) \<and> 1 < length rows \<or>
     (case max_entry_bytes (config c) of Some n \<Rightarrow> n < serialized_len rows | None \<Rightarrow> False) \<or>
     (case max_total_bytes (config c) of Some n \<Rightarrow> n \<le> memory_bytes c | None \<Rightarrow> False)"

definition put_arc ::
  "'s row_store \<Rightarrow> (json list \<Rightarrow> u64) \<Rightarrow> u64 \<Rightarrow> u64 \<Rightarrow> json list \<Rightarrow> string list \<Rightarrow> u64 option \<Rightarrow>
   string option \<Rightarrow> 's query_result_cache \<Rightarrow> 's query_result_cache" where
  "put_arc m serialized_len now k rows views ttl_override entity_type c =
     (if refuses serialized_len c rows then c
      else let cached = new_entry (config c) now rows views ttl_override entity_type;
               c1 = c\<lparr>by_view := register_views k cached (by_view c),
                      by_list := register_list k cached (by_list c),
                      by_entity := register_entities k cached (by_entity c),
                      memory_bytes := memory_bytes c + entry_overhead\<rparr>;
               c2 = notify (m_insert m k cached (store c1)) c1
           in c2\<lparr>total_cached := total_cached c2 + 1\<rparr>)"

text \<open>The loop \<open>for key in keys \<open>{\<close> self.store.invalidate(&key) \<open>}\<close>\<close>, and the counter after it.\<close>

definition invalidate_keys :: "'s row_store \<Rightarrow> u64 list \<Rightarrow> 's query_result_cache \<Rightarrow> 's query_result_cache" where
  "invalidate_keys m ks c = fold (\<lambda>k c. notify (m_invalidate m k (store c)) c) ks c"

definition evict_keys ::
  "'s row_store \<Rightarrow> u64 list \<Rightarrow> 's query_result_cache \<Rightarrow> u64 \<times> 's query_result_cache" where
  "evict_keys m ks c =
     (let count = word_of_nat (length ks); c1 = invalidate_keys m ks c
      in (count, c1\<lparr>invalidations := invalidations c1 + count\<rparr>))"

definition invalidate_views ::
  "'s row_store \<Rightarrow> string list \<Rightarrow> 's query_result_cache \<Rightarrow> u64 \<times> 's query_result_cache" where
  "invalidate_views m views c =
     (if \<not> enabled (config c) then (0, c)
      else evict_keys m (remdups (concat (map (index_keys (by_view c)) views))) c)"

definition invalidate_list_queries ::
  "'s row_store \<Rightarrow> string list \<Rightarrow> 's query_result_cache \<Rightarrow> u64 \<times> 's query_result_cache" where
  "invalidate_list_queries m views c =
     (if \<not> enabled (config c) then (0, c)
      else evict_keys m (remdups (concat (map (index_keys (by_list c)) views))) c)"

definition invalidate_by_entity ::
  "'s row_store \<Rightarrow> string \<Rightarrow> string \<Rightarrow> 's query_result_cache \<Rightarrow> u64 \<times> 's query_result_cache" where
  "invalidate_by_entity m et eid c =
     (if \<not> enabled (config c) then (0, c)
      else if map_of (by_entity c) et = None then (0, c)
      else evict_keys m (entity_keys (by_entity c) (et, eid)) c)"

definition clear_cache :: "'s row_store \<Rightarrow> 's query_result_cache \<Rightarrow> 's query_result_cache" where
  "clear_cache m c =
     (notify (m_invalidate_all m (store c)) c)\<lparr>by_view := [], by_entity := [], by_list := [], memory_bytes := 0\<rparr>"

record cache_metrics =
  metric_hits :: u64
  metric_misses :: u64
  metric_total_cached :: u64
  metric_invalidations :: u64
  metric_size :: u64
  metric_memory_bytes :: u64

definition cache_metrics_of :: "'s row_store \<Rightarrow> 's query_result_cache \<Rightarrow> cache_metrics" where
  "cache_metrics_of m c =
     \<lparr>metric_hits = hits c, metric_misses = misses c, metric_total_cached = total_cached c,
      metric_invalidations = invalidations c, metric_size = m_entry_count m (store c),
      metric_memory_bytes = memory_bytes c\<rparr>"

end
