(* ===== verification/Result_Safety.thy ===== *)
theory Result_Safety
  imports Result_Cache
begin

text \<open>
  What the row cache guarantees, for every store that keeps the laws of \<open>moka_laws\<close>: the
  invariant of the reverse indexes and of the memory estimate by rule induction over the
  operations, the correctness of the three invalidations, and the two situations in which the
  indexes and the estimate go wrong.
\<close>

section \<open>The listener and the fields of the state\<close>

lemma listener_fields [simp]:
  "by_view (fold eviction_listener ns c) = fold unlist_views ns (by_view c)"
  "by_list (fold eviction_listener ns c) = fold unlist_list ns (by_list c)"
  "by_entity (fold eviction_listener ns c) = fold unlist_entities ns (by_entity c)"
  "store (fold eviction_listener ns c) = store c"
  "config (fold eviction_listener ns c) = config c"
  "memory_bytes (fold eviction_listener ns c) = memory_bytes c - word_of_nat (length ns) * entry_overhead"
  by (induction ns arbitrary: c) (simp_all add: eviction_listener_def algebra_simps)

lemma notify_fields [simp]:
  "by_view (notify r c) = fold unlist_views (fst r) (by_view c)"
  "by_list (notify r c) = fold unlist_list (fst r) (by_list c)"
  "by_entity (notify r c) = fold unlist_entities (fst r) (by_entity c)"
  "store (notify r c) = snd r"
  "config (notify r c) = config c"
  "memory_bytes (notify r c) = memory_bytes c - word_of_nat (length (fst r)) * entry_overhead"
  by (simp_all add: notify_def)

section \<open>The invariant of the indexes\<close>

definition indexed :: "('s \<Rightarrow> u64 \<rightharpoonup> cached_result) \<Rightarrow> 's query_result_cache \<Rightarrow> bool" where
  "indexed live c \<longleftrightarrow> vidx.covers (by_view c) (live (store c)) \<and>
     lidx.covers (by_list c) (live (store c)) \<and> eidx.covers (by_entity c) (live (store c))"

text \<open>Running the listener is harmless when what it is told of is no longer visible.\<close>

lemma indexed_notify:
  assumes "vidx.covers (by_view c) (live s)" "lidx.covers (by_list c) (live s)"
    "eidx.covers (by_entity c) (live s)"
    and "\<And>k v. (k, v) \<in> set ns \<Longrightarrow> live s k = None"
  shows "indexed live (notify (ns, s) c)"
  using assms by (simp add: indexed_def vidx.covers_unregs lidx.covers_unregs eidx.covers_unregs)

lemma indexed_shrink:
  assumes "indexed live c" and "\<And>k v. live s k = Some v \<Longrightarrow> live (store c) k = Some v"
    and "\<And>k v. (k, v) \<in> set ns \<Longrightarrow> live s k = None"
  shows "indexed live (notify (ns, s) c)"
proof (rule indexed_notify)
  show "vidx.covers (by_view c) (live s)" "lidx.covers (by_list c) (live s)" "eidx.covers (by_entity c) (live s)"
    using assms(1,2) unfolding indexed_def
    by (blast intro: vidx.covers_mono lidx.covers_mono eidx.covers_mono)+
qed (rule assms(3))

lemma gone_not_live: "moka_laws m stored live \<Longrightarrow> stored s k = None \<Longrightarrow> live s k = None"
  by (cases "live s k") (auto dest: laws_live)

lemma reported_not_live:
  assumes "moka_laws m stored live" and "evicted E ns (stored s)" and "(k, v) \<in> set ns"
  shows "live s k = None"
proof (rule gone_not_live [OF assms(1)])
  show "stored s k = None" using evicted_None [OF assms(2), of k] assms(3) by force
qed

lemma indexed_get:
  assumes "moka_laws m stored live" and "indexed live c" and "cache_get m k c = (r, c')"
  shows "indexed live c'"
proof (cases "enabled (config c)")
  case True
  obtain v ns s where g: "m_get m k (store c) = (v, ns, s)" by (cases "m_get m k (store c)")
  have "indexed live (notify (ns, s) c)"
  proof (rule indexed_shrink [OF assms(2)])
    show "(j, w) \<in> set ns \<Longrightarrow> live s j = None" for j w
      by (rule reported_not_live [OF assms(1) laws_get(2) [OF assms(1) g]])
  qed (rule laws_get(3) [OF assms(1) g])
  with assms(3) True g show ?thesis
    by (auto simp: cache_get_def indexed_def split: option.splits)
qed (use assms in \<open>simp add: cache_get_def\<close>)

lemma indexed_put:
  assumes "moka_laws m stored live" and "indexed live c" and "stored (store c) k = None"
  shows "indexed live (put_arc m len now k rows views ttl et c)"
proof (cases "refuses len c rows")
  case False
  define cached where "cached = new_entry (config c) now rows views ttl et"
  obtain ns s where i: "m_insert m k cached (store c) = (ns, s)" by fastforce
  define c1 where "c1 = c\<lparr>by_view := register_views k cached (by_view c),
                      by_list := register_list k cached (by_list c),
                      by_entity := register_entities k cached (by_entity c),
                      memory_bytes := memory_bytes c + entry_overhead\<rparr>"
  have live: "live s j = Some w \<Longrightarrow> ((live (store c))(k \<mapsto> cached)) j = Some w" for j w
    by (rule laws_insert_live [OF assms(1) i])
  have "indexed live (notify (ns, s) c1)"
  proof (rule indexed_notify)
    show "vidx.covers (by_view c1) (live s)"
      using assms(2) unfolding c1_def indexed_def
      by (simp, blast intro: vidx.covers_mono vidx.covers_reg live)
    show "lidx.covers (by_list c1) (live s)"
      using assms(2) unfolding c1_def indexed_def
      by (simp, blast intro: lidx.covers_mono lidx.covers_reg live)
    show "eidx.covers (by_entity c1) (live s)"
      using assms(2) unfolding c1_def indexed_def
      by (simp, blast intro: eidx.covers_mono eidx.covers_reg live)
    show "live s j = None" if "(j, w) \<in> set ns" for j w
      using reported_not_live [OF assms(1) insert_evicted [OF assms(1) i assms(3)] that] .
  qed
  with False i show ?thesis by (simp add: put_arc_def Let_def cached_def c1_def indexed_def)
qed (use assms in \<open>simp add: put_arc_def\<close>)

lemma indexed_invalidate:
  assumes "moka_laws m stored live" and "indexed live c"
  shows "indexed live (notify (m_invalidate m k (store c)) c)"
proof -
  obtain ns s where i: "m_invalidate m k (store c) = (ns, s)" by fastforce
  have "indexed live (notify (ns, s) c)"
  proof (rule indexed_shrink [OF assms(2)])
    show "live s j = Some w \<Longrightarrow> live (store c) j = Some w" for j w
      using laws_invalidate_live [OF assms(1) i, of j w] by (auto split: if_splits)
    show "(j, w) \<in> set ns \<Longrightarrow> live s j = None" for j w
      using reported_not_live [OF assms(1)] invalidate_evicted [OF assms(1) i] by blast
  qed
  with i show ?thesis by simp
qed

lemma invalidate_keys_simps [simp]:
  "invalidate_keys m [] c = c"
  "invalidate_keys m (k # ks) c = invalidate_keys m ks (notify (m_invalidate m k (store c)) c)"
  by (simp_all add: invalidate_keys_def)

lemma indexed_invalidate_keys:
  "moka_laws m stored live \<Longrightarrow> indexed live c \<Longrightarrow> indexed live (invalidate_keys m ks c)"
  by (induction ks arbitrary: c) (simp_all add: indexed_invalidate)

lemma indexed_evict: "moka_laws m stored live \<Longrightarrow> indexed live c \<Longrightarrow> indexed live (snd (evict_keys m ks c))"
  using indexed_invalidate_keys [of m stored live c ks] by (simp add: evict_keys_def Let_def indexed_def)

text \<open>Invalidating a list of keys leaves none of them visible, and makes nothing visible.\<close>

lemma invalidate_keys_live:
  assumes "moka_laws m stored live" and "live (store (invalidate_keys m ks c)) j = Some v"
  shows "j \<notin> set ks \<and> live (store c) j = Some v"
  using assms(2)
proof (induction ks arbitrary: c)
  case (Cons k ks)
  obtain ns s where i: "m_invalidate m k (store c) = (ns, s)" by fastforce
  from Cons.IH [of "notify (m_invalidate m k (store c)) c"] Cons.prems
  have "j \<notin> set ks" "live s j = Some v" by (simp_all add: i)
  with laws_invalidate_live [OF assms(1) i] show ?case by (fastforce split: if_splits)
qed simp

lemma evict_keys_live:
  "moka_laws m stored live \<Longrightarrow> live (store (snd (evict_keys m ks c))) j = Some v \<Longrightarrow>
   j \<notin> set ks \<and> live (store c) j = Some v"
  using invalidate_keys_live [of m stored live ks c j v] by (simp add: evict_keys_def Let_def)

lemmas invalidation_defs = invalidate_views_def invalidate_list_queries_def invalidate_by_entity_def

lemma indexed_invalidations:
  assumes "moka_laws m stored live" and "indexed live c"
  shows "indexed live (snd (invalidate_views m views c))"
    and "indexed live (snd (invalidate_list_queries m views c))"
    and "indexed live (snd (invalidate_by_entity m et eid c))"
  using assms by (simp_all add: invalidation_defs indexed_evict)

lemma indexed_clear: "moka_laws m stored live \<Longrightarrow> indexed live (clear_cache m c)"
  using laws_invalidate_all(2) [of m stored live "store c"]
  by (cases "m_invalidate_all m (store c)") (simp add: clear_cache_def indexed_def)

section \<open>Reachable states\<close>

text \<open>
  The operations in any order, a \<open>put\<close> only for a key the store does not hold; \<open>time\<close> lets
  entries expire.
\<close>

inductive reach ::
  "bool \<Rightarrow> 's row_store \<Rightarrow> (json list \<Rightarrow> u64) \<Rightarrow> ('s \<Rightarrow> u64 \<rightharpoonup> cached_result) \<Rightarrow> ('s \<Rightarrow> u64 \<rightharpoonup> cached_result) \<Rightarrow>
   nat \<Rightarrow> 's query_result_cache \<Rightarrow> bool"
  for fresh m len stored live where
    start: "cache_new m cfg = Some c \<Longrightarrow> reach fresh m len stored live 0 c"
  | get: "reach fresh m len stored live d c \<Longrightarrow> cache_get m k c = (r, c') \<Longrightarrow>
      reach fresh m len stored live d c'"
  | put: "reach fresh m len stored live d c \<Longrightarrow> (fresh \<Longrightarrow> stored (store c) k = None) \<Longrightarrow>
      reach fresh m len stored live d (put_arc m len now k rows views ttl et c)"
  | views: "reach fresh m len stored live d c \<Longrightarrow>
      reach fresh m len stored live d (snd (invalidate_views m vs c))"
  | lists: "reach fresh m len stored live d c \<Longrightarrow>
      reach fresh m len stored live d (snd (invalidate_list_queries m vs c))"
  | entity: "reach fresh m len stored live d c \<Longrightarrow>
      reach fresh m len stored live d (snd (invalidate_by_entity m et eid c))"
  | clear: "reach fresh m len stored live d c \<Longrightarrow>
      reach fresh m len stored live (card (dom (stored (store (clear_cache m c))))) (clear_cache m c)"
  | time: "reach fresh m len stored live d c \<Longrightarrow> stored s = stored (store c) \<Longrightarrow>
      live s \<subseteq>\<^sub>m live (store c) \<Longrightarrow> reach fresh m len stored live d (c\<lparr>store := s\<rparr>)"

lemma build_live: "moka_laws m stored live \<Longrightarrow> live (m_build m cap e) = Map.empty"
  by (rule ext) (metis gone_not_live laws_build)

lemma reach_indexed:
  assumes "moka_laws m stored live" and "reach True m len stored live d c"
  shows "indexed live c"
  using assms(2)
proof (induction rule: reach.induct)
  case (start cfg c)
  then show ?case
    by (auto simp: cache_new_def indexed_def build_live [OF assms(1)] split: if_splits)
next
  case (time d c s)
  then show ?case
    by (simp add: indexed_def)
      (meson vidx.covers_mono lidx.covers_mono eidx.covers_mono map_leD)
next
  case (put d c k now rows views ttl et)
  then show ?case using indexed_put [OF assms(1)] by simp
qed (simp_all add: indexed_get [OF assms(1)] indexed_invalidations [OF assms(1)] indexed_clear [OF assms(1)])

section \<open>Soundness of the indexes\<close>

definition sound_indexes :: "('s \<Rightarrow> u64 \<rightharpoonup> cached_result) \<Rightarrow> 's query_result_cache \<Rightarrow> bool" where
  "sound_indexes stored c \<longleftrightarrow> vidx.sound (by_view c) (stored (store c)) \<and>
     lidx.sound (by_list c) (stored (store c)) \<and> eidx.sound (by_entity c) (stored (store c))"

lemma sound_notify:
  assumes "vidx.sound (by_view c) E" "lidx.sound (by_list c) E" "eidx.sound (by_entity c) E"
    and "evicted E ns (stored s)"
  shows "sound_indexes stored (notify (ns, s) c)"
  using assms by (simp add: sound_indexes_def vidx.sound_unregs lidx.sound_unregs eidx.sound_unregs)

lemma sound_get:
  assumes "moka_laws m stored live" and "sound_indexes stored c" and "cache_get m k c = (r, c')"
  shows "sound_indexes stored c'"
proof (cases "enabled (config c)")
  case True
  obtain v ns s where g: "m_get m k (store c) = (v, ns, s)" by (cases "m_get m k (store c)")
  have "sound_indexes stored (notify (ns, s) c)"
    using assms(2) unfolding sound_indexes_def [of _ c]
    by (blast intro: sound_notify laws_get(2) [OF assms(1) g])
  with assms(3) True g show ?thesis
    by (auto simp: cache_get_def sound_indexes_def split: option.splits)
qed (use assms in \<open>simp add: cache_get_def\<close>)

lemma sound_put:
  assumes "moka_laws m stored live" and "sound_indexes stored c" and "stored (store c) k = None"
  shows "sound_indexes stored (put_arc m len now k rows views ttl et c)"
proof (cases "refuses len c rows")
  case False
  define cached where "cached = new_entry (config c) now rows views ttl et"
  obtain ns s where i: "m_insert m k cached (store c) = (ns, s)" by fastforce
  define c1 where "c1 = c\<lparr>by_view := register_views k cached (by_view c),
                      by_list := register_list k cached (by_list c),
                      by_entity := register_entities k cached (by_entity c),
                      memory_bytes := memory_bytes c + entry_overhead\<rparr>"
  have "sound_indexes stored (notify (ns, s) c1)"
    using assms(2,3) unfolding sound_indexes_def [of _ c]
    by (intro sound_notify [where E = "(stored (store c))(k \<mapsto> cached)"])
      (simp_all add: c1_def vidx.sound_reg lidx.sound_reg eidx.sound_reg
        insert_evicted [OF assms(1) i assms(3)])
  with False i show ?thesis by (simp add: put_arc_def Let_def cached_def c1_def sound_indexes_def)
qed (use assms in \<open>simp add: put_arc_def\<close>)

lemma sound_invalidate_keys:
  assumes "moka_laws m stored live"
  shows "sound_indexes stored c \<Longrightarrow> sound_indexes stored (invalidate_keys m ks c)"
proof (induction ks arbitrary: c)
  case (Cons k ks)
  obtain ns s where i: "m_invalidate m k (store c) = (ns, s)" by fastforce
  have "sound_indexes stored (notify (ns, s) c)"
    using Cons.prems invalidate_evicted [OF assms i] unfolding sound_indexes_def [of _ c]
    by (blast intro: sound_notify)
  with Cons.IH i show ?case by simp
qed simp

lemma sound_evict:
  "moka_laws m stored live \<Longrightarrow> sound_indexes stored c \<Longrightarrow> sound_indexes stored (snd (evict_keys m ks c))"
  using sound_invalidate_keys [of m stored live c ks]
  by (simp add: evict_keys_def Let_def sound_indexes_def)

lemma entity_rel_Nil [simp]: "entity_rel [] = {}"
  by (simp add: entity_rel_def entity_keys_def type_index_def index_keys_def)

lemmas sound_empties = vidx.sound_empty lidx.sound_empty eidx.sound_empty

lemma reach_sound:
  assumes "moka_laws m stored live" and "reach True m len stored live d c"
  shows "sound_indexes stored c"
  using assms(2)
proof (induction rule: reach.induct)
  case (start cfg c)
  then show ?case by (auto simp: cache_new_def sound_indexes_def sound_empties split: if_splits)
next
  case (put d c k now rows views ttl et)
  then show ?case using sound_put [OF assms(1)] by simp
next
  case (clear d c)
  show ?case by (simp add: clear_cache_def sound_indexes_def sound_empties)
next
  case (time d c s)
  then show ?case by (simp add: sound_indexes_def)
qed (simp_all add: invalidation_defs sound_get [OF assms(1)] sound_evict [OF assms(1)])

section \<open>The memory estimate\<close>

text \<open>
  \<open>d\<close> counts the entries that were still stored when the cache was last cleared. The estimate is
  the overhead of the stored entries less that of those \<open>d\<close>, modulo \<open>2 ^ 64\<close>.
\<close>

definition accounts :: "('s \<Rightarrow> u64 \<rightharpoonup> cached_result) \<Rightarrow> nat \<Rightarrow> 's query_result_cache \<Rightarrow> bool" where
  "accounts stored d c \<longleftrightarrow> finite (dom (stored (store c))) \<and>
     memory_bytes c = (word_of_nat (card (dom (stored (store c)))) - word_of_nat d) * entry_overhead"

lemma accounts_report:
  assumes "accounts stored d c" and "finite (dom (stored s))"
    and "card (dom (stored (store c))) = card (dom (stored s)) + length ns"
  shows "accounts stored d (notify (ns, s) c)"
  using assms by (simp add: accounts_def algebra_simps)

lemma accounts_get:
  assumes "moka_laws m stored live" and "accounts stored d c" and "cache_get m k c = (r, c')"
  shows "accounts stored d c'"
proof (cases "enabled (config c)")
  case True
  obtain v ns s where g: "m_get m k (store c) = (v, ns, s)" by (cases "m_get m k (store c)")
  have "accounts stored d (notify (ns, s) c)"
    using evicted_card [OF laws_get(2) [OF assms(1) g]] assms(2)
    by (intro accounts_report) (simp_all add: accounts_def)
  with assms(3) True g show ?thesis
    by (auto simp: cache_get_def accounts_def split: option.splits)
qed (use assms in \<open>simp add: cache_get_def\<close>)

lemma card_replaced:
  "finite (dom E) \<Longrightarrow> card (dom (E(k \<mapsto> v))) + length (replaced E k) = Suc (card (dom E))"
  by (cases "E k") (auto simp: replaced_simps domIff insert_absorb)

lemma words_of_sum: "Suc a = b + n \<Longrightarrow> word_of_nat a + 1 = (word_of_nat b + word_of_nat n :: u64)"
  by (drule arg_cong [of _ _ "word_of_nat :: nat \<Rightarrow> u64"]) (simp add: add.commute)

lemma account_step:
  fixes a b :: "'a::comm_ring_1"
  assumes "a + 1 = b + n" and "x = (a - d) * e"
  shows "x + e - n * e = (b - d) * e"
proof -
  from assms(1) have "a = b + n - 1" by (simp add: algebra_simps)
  with assms(2) show ?thesis by (simp add: algebra_simps)
qed

lemma accounts_put:
  assumes "moka_laws m stored live" and "accounts stored d c"
  shows "accounts stored d (put_arc m len now k rows views ttl et c)"
proof (cases "refuses len c rows")
  case False
  define cached where "cached = new_entry (config c) now rows views ttl et"
  obtain ns s where i: "m_insert m k cached (store c) = (ns, s)" by fastforce
  from laws_insert [OF assms(1) i] obtain es E fs where
    ns: "ns = es @ replaced E k @ fs" and es: "evicted (stored (store c)) es E"
    and fs: "evicted (E(k \<mapsto> cached)) fs (stored s)" .
  from assms(2) have fin: "finite (dom (stored (store c)))" by (simp add: accounts_def)
  note E = evicted_card [OF es fin]
  then have "finite (dom (E(k \<mapsto> cached)))" by simp
  note F = evicted_card [OF fs this]
  have "Suc (card (dom (stored (store c)))) = card (dom (stored s)) + length ns"
    using E F card_replaced [of E k cached] by (simp add: ns)
  then have "word_of_nat (card (dom (stored (store c)))) + 1 =
      (word_of_nat (card (dom (stored s))) + word_of_nat (length ns) :: u64)"
    by (rule words_of_sum)
  moreover have "memory_bytes c = (word_of_nat (card (dom (stored (store c)))) - word_of_nat d) * entry_overhead"
    using assms(2) by (simp add: accounts_def)
  ultimately have "memory_bytes c + entry_overhead - word_of_nat (length ns) * entry_overhead =
      (word_of_nat (card (dom (stored s))) - word_of_nat d) * entry_overhead"
    by (rule account_step)
  with False F i show ?thesis
    by (simp add: put_arc_def Let_def accounts_def flip: cached_def)
qed (use assms in \<open>simp add: put_arc_def\<close>)

lemma accounts_invalidate:
  assumes "moka_laws m stored live" and "accounts stored d c"
  shows "accounts stored d (notify (m_invalidate m k (store c)) c)"
proof -
  obtain ns s where i: "m_invalidate m k (store c) = (ns, s)" by fastforce
  have "finite (dom (stored (store c)))" using assms(2) by (simp add: accounts_def)
  then show ?thesis
    unfolding i using evicted_card invalidate_evicted [OF assms(1) i]
    by (blast intro: accounts_report [OF assms(2)])
qed

lemma accounts_invalidate_keys:
  "moka_laws m stored live \<Longrightarrow> accounts stored d c \<Longrightarrow> accounts stored d (invalidate_keys m ks c)"
  by (induction ks arbitrary: c) (simp_all add: accounts_invalidate)

lemma accounts_evict:
  "moka_laws m stored live \<Longrightarrow> accounts stored d c \<Longrightarrow> accounts stored d (snd (evict_keys m ks c))"
  using accounts_invalidate_keys [of m stored live d c ks] by (simp add: evict_keys_def Let_def accounts_def)

lemma accounts_clear:
  assumes "moka_laws m stored live" and "accounts stored d c"
  shows "accounts stored (card (dom (stored (store (clear_cache m c))))) (clear_cache m c)"
proof -
  obtain ns s where i: "m_invalidate_all m (store c) = (ns, s)" by fastforce
  with evicted_card [OF laws_invalidate_all(1) [OF assms(1) i]] assms(2) show ?thesis
    by (simp add: clear_cache_def accounts_def)
qed

lemma reach_accounts:
  assumes "moka_laws m stored live" and "reach fresh m len stored live d c"
  shows "accounts stored d c"
  using assms(2)
proof (induction rule: reach.induct)
  case (start cfg c)
  then show ?case
    by (auto simp: cache_new_def accounts_def laws_build [OF assms(1)] split: if_splits)
next
  case (time d c s)
  then show ?case by (simp add: accounts_def)
qed (use assms(1) in \<open>auto simp: invalidation_defs intro: accounts_get accounts_put accounts_evict accounts_clear\<close>)

section \<open>Properties\<close>

lemma config_evict [simp]: "config (snd (evict_keys m ks c)) = config c"
proof -
  have "config (invalidate_keys m ks c) = config c" by (induction ks arbitrary: c) simp_all
  then show ?thesis by (simp add: evict_keys_def Let_def)
qed

lemma get_evicted:
  assumes "moka_laws m stored live" and "k \<in> set ks"
  shows "fst (cache_get m k (snd (evict_keys m ks c))) = None"
proof -
  let ?c = "snd (evict_keys m ks c)"
  obtain r ns s where g: "m_get m k (store ?c) = (r, ns, s)" by (cases "m_get m k (store ?c)")
  have "live (store ?c) k = None"
    using evict_keys_live [OF assms(1), of ks c k] assms(2) by (cases "live (store ?c) k") auto
  with laws_get(1) [OF assms(1) g] g show ?thesis by (simp add: cache_get_def)
qed

lemma get_disabled: "\<not> enabled (config c) \<Longrightarrow> fst (cache_get m k c) = None"
  by (simp add: cache_get_def)

text \<open>A concrete run: one key stored with two rows of an entity, on the store of \<open>plain_store\<close>.\<close>

definition user_row :: "string \<Rightarrow> json" where
  "user_row u = JObject [(''id'', JString u)]"

definition empty_cache :: "(u64, cached_result) plain query_result_cache" where
  "empty_cache = \<lparr>store = [], config = enabled_config, hits = 0, misses = 0, total_cached = 0,
     invalidations = 0, memory_bytes = 0, by_view = [], by_entity = [], by_list = []\<rparr>"

definition store_rows :: "json list \<Rightarrow> (u64, cached_result) plain query_result_cache \<Rightarrow>
    (u64, cached_result) plain query_result_cache" where
  "store_rows rows = put_arc plain_store (\<lambda>_. 0) 0 1 rows [''v_user''] None (Some ''User'')"

definition two_users :: "json list" where
  "two_users = [user_row ''a'', user_row ''b'']"

lemma empty_cache_reach: "reach fresh plain_store len stored live 0 empty_cache"
  by (rule reach.start [of _ enabled_config])
    (simp add: cache_new_def empty_cache_def plain_store_def enabled_config_def)

lemma stored_rows_reach: "reach True plain_store (\<lambda>_. 0) plain_stored live 0 (store_rows rows empty_cache)"
  unfolding store_rows_def
  by (rule reach.put [OF empty_cache_reach]) (simp add: empty_cache_def plain_stored_def)



text \<open>
  The memory estimate counts the overhead of the entries the store holds, less that of the
  entries it still held when the cache was last cleared: as long as the cache is not cleared
  (\<open>d = 0\<close>) the estimate is exact, and once fewer entries are stored than were held then it
  has wrapped around.
\<close>

theorem memory_estimate:
  assumes "moka_laws m stored live" and "reach fresh m len stored live d c"
  shows "memory_bytes c =
    (word_of_nat (card (dom (stored (store c)))) - word_of_nat d) * entry_overhead"
  using reach_accounts [OF assms] by (simp add: accounts_def)

theorem memory_estimate_witness:
  "memory_bytes (store_rows two_users empty_cache) =
    (word_of_nat (card (dom (plain_stored (store (store_rows two_users empty_cache))))) - word_of_nat 0) * entry_overhead \<and>
   memory_bytes (store_rows two_users empty_cache) = 80 \<and>
   memory_bytes (snd (invalidate_views plain_store [''v_post'']
     (put_arc plain_store (\<lambda>_. 0) 0 1 two_users [''v_post''] None None
       (clear_cache plain_store (store_rows two_users empty_cache))))) = - 80"
proof -
  have "memory_bytes (store_rows two_users empty_cache) = 80" by code_simp
  moreover have "memory_bytes (snd (invalidate_views plain_store [''v_post'']
     (put_arc plain_store (\<lambda>_. 0) 0 1 two_users [''v_post''] None None
       (clear_cache plain_store (store_rows two_users empty_cache))))) = - 80" by code_simp
  ultimately show ?thesis using memory_estimate [OF plain_store_lawful stored_rows_reach [of _ two_users]] by blast
qed

text \<open>
  C24. Storing a key whose previous entry the store still holds, visible or expired, ends with the
  key missing from the index of every view the previous entry read: \<open>invalidate_views\<close> on those
  views does not ask the store to drop the new entry.
\<close>

theorem refreshed_entry_not_invalidated:
  assumes "moka_laws m stored live" and "stored (store c) k = Some old"
    and "\<not> refuses len c rows" and "set vs \<subseteq> set (accessed_views old)"
    and c'_def: "c' = put_arc m len now k rows views ttl et c"
  shows "\<exists>ks. k \<notin> set ks \<and> invalidate_views m vs c' = evict_keys m ks c'"
proof -
  define cached where "cached = new_entry (config c) now rows views ttl et"
  obtain ns s where i: "m_insert m k cached (store c) = (ns, s)" by fastforce
  have old: "(k, old) \<in> set ns" by (rule insert_reports_old [OF assms(1) i assms(2)])
  have view: "by_view c' = fold unlist_views ns (register_views k cached (by_view c))"
    using assms(3) i by (simp add: c'_def put_arc_def Let_def flip: cached_def)
  have "(w, k) \<notin> index_rel (by_view c')" if "w \<in> set vs" for w
    unfolding view using vidx.lost [OF old, of w] assms(4) that by (auto simp: view_labels_def)
  then have "k \<notin> set (remdups (concat (map (index_keys (by_view c')) vs)))" (is "k \<notin> set ?ks")
    by (auto simp: index_keys_iff)
  moreover have "enabled (config c')"
    using assms(3) i by (simp add: c'_def put_arc_def Let_def refuses_def flip: cached_def)
  ultimately show ?thesis by (intro exI [of _ ?ks]) (simp add: invalidate_views_def)
qed

theorem refreshed_entry_not_invalidated_witness:
  "(\<exists>ks. (1 :: u64) \<notin> set ks \<and>
      invalidate_views plain_store [''v_user''] (store_rows [] (store_rows two_users empty_cache)) =
      evict_keys plain_store ks (store_rows [] (store_rows two_users empty_cache))) \<and>
   fst (cache_get plain_store 1
     (snd (invalidate_views plain_store [''v_user''] (store_rows [] (store_rows two_users empty_cache))))) = Some []"
proof -
  have st: "plain_stored (store (store_rows two_users empty_cache)) 1 =
      Some (new_entry enabled_config 0 two_users [''v_user''] None (Some ''User''))" by code_simp
  have open_: "\<not> refuses (\<lambda>_. 0) (store_rows two_users empty_cache) []" by code_simp
  have vs: "set [''v_user''] \<subseteq> set (accessed_views (new_entry enabled_config 0 two_users [''v_user''] None (Some ''User'')))"
    by (simp add: new_entry_def)
  have "fst (cache_get plain_store 1
     (snd (invalidate_views plain_store [''v_user''] (store_rows [] (store_rows two_users empty_cache))))) = Some []"
    by code_simp
  then show ?thesis
    using refreshed_entry_not_invalidated [OF plain_store_lawful st open_ vs refl,
        where now = 0 and views = "[''v_user'']" and ttl = None and et = "Some ''User''"] by (simp add: store_rows_def)
qed

text \<open>
  An entry with at most one row is not in the index of list entries, whatever query it
  answers: \<open>invalidate_list_queries\<close> does not ask the store to drop the cached result of a list
  query that had none or one row when it ran.
\<close>

theorem short_list_not_invalidated:
  assumes "moka_laws m stored live" and "reach True m len stored live d c"
    and "stored (store c) k = None" and "length rows \<le> 1" and "enabled (config c)"
    and c'_def: "c' = put_arc m len now k rows views ttl et c"
  shows "\<exists>ks. k \<notin> set ks \<and> invalidate_list_queries m vs c' = evict_keys m ks c'"
proof -
  have "index_rel (by_list c') \<subseteq> index_rel (by_list c) \<and> config c' = config c"
    using assms(4) by (auto simp: c'_def put_arc_def Let_def register_list_def new_entry_def lidx.rel_unregs)
  moreover have "(w, k) \<notin> index_rel (by_list c)" for w
    using reach_sound [OF assms(1,2)] assms(3) by (auto simp: sound_indexes_def lidx.sound_def)
  ultimately have "k \<notin> set (remdups (concat (map (index_keys (by_list c')) vs)))" (is "k \<notin> set ?ks")
    and "enabled (config c')"
    using assms(5) by (auto simp: index_keys_iff)
  then show ?thesis by (intro exI [of _ ?ks]) (simp add: invalidate_list_queries_def)
qed

theorem short_list_not_invalidated_witness:
  "(\<exists>ks. (1 :: u64) \<notin> set ks \<and>
      invalidate_list_queries plain_store [''v_user''] (store_rows [] empty_cache) =
      evict_keys plain_store ks (store_rows [] empty_cache)) \<and>
   fst (cache_get plain_store 1
     (snd (invalidate_list_queries plain_store [''v_user''] (store_rows [] empty_cache)))) = Some []"
proof -
  have none: "plain_stored (store empty_cache) 1 = None" by (simp add: empty_cache_def plain_stored_def)
  have len: "length ([] :: json list) \<le> 1" by simp
  have en: "enabled (config empty_cache)" by (simp add: empty_cache_def enabled_config_def)
  have "fst (cache_get plain_store 1
     (snd (invalidate_list_queries plain_store [''v_user''] (store_rows [] empty_cache)))) = Some []"
    by code_simp
  then show ?thesis
    using short_list_not_invalidated [OF plain_store_lawful empty_cache_reach none len en refl,
        where now = 0 and views = "[''v_user'']" and ttl = None and et = "Some ''User''"] by (simp add: store_rows_def)
qed

end

