(* ===== verification/Cache_Keys.thy ===== *)
theory Cache_Keys
  imports Executor Rest_Params "HOL-Library.Countable_Set"
begin

text \<open>
  Keys of the row cache (\<open>fraiseql-core/src/cache/key.rs\<close>). A key is what the hasher returns for
  the sequence of calls that the code makes on it; the hash function, \<open>ahash\<close> with fixed seeds,
  is the argument \<open>finish\<close>. The model keeps the calls apart, as the hasher does: a call
  \<open>write(s.as_bytes())\<close> is \<open>Write s\<close>, and UTF-8 is injective. The printed form of a number and
  the \<open>Debug\<close> text of operators and of a native column filter are arguments.

  Shown here: the calls determine the request. Two requests with the same calls have the same
  view, projection, filter, limit, offset, ordering and schema version, so that apart from
  collisions of the hash two requests share a key only if they read the same rows.
\<close>

section \<open>Calls\<close>

datatype hash_call =
    Write string
  | WriteU8 nat
  | WriteU32 u32
  | WriteUsize nat
  | WriteDiscriminant "where_operator option"

record texts =
  number_text :: "jnumber \<Rightarrow> string"
  extended_text :: "extended_operator \<Rightarrow> string"
  native_text :: "where_clause \<Rightarrow> string"

text \<open>\<open>sort_unstable\<close> on the keys of a map, which are distinct; each key with what is hashed after it.\<close>

fun insert_entry :: "string \<times> 'a \<Rightarrow> (string \<times> 'a) list \<Rightarrow> (string \<times> 'a) list" where
  "insert_entry e [] = [e]"
| "insert_entry e (f # fs) = (if str_less (fst f) (fst e) then f # insert_entry e fs else e # f # fs)"

definition sort_entries :: "(string \<times> 'a) list \<Rightarrow> (string \<times> 'a) list" where
  "sort_entries es = foldr insert_entry es []"

fun hash_json_value :: "texts \<Rightarrow> json \<Rightarrow> hash_call list" where
  "hash_json_value t JNull = [WriteU8 0]"
| "hash_json_value t (JBool b) = [WriteU8 1, WriteU8 (if b then 1 else 0)]"
| "hash_json_value t (JNumber n) = [WriteU8 2, Write (number_text t n)]"
| "hash_json_value t (JString s) = [WriteU8 3, Write s]"
| "hash_json_value t (JArray xs) = WriteU8 4 # WriteUsize (length xs) # concat (map (hash_json_value t) xs)"
| "hash_json_value t (JObject es) =
     WriteU8 5 # WriteUsize (length es) #
     concat (map (\<lambda>(k, calls). Write k # calls) (sort_entries (map (\<lambda>(k, v). (k, hash_json_value t v)) es)))"

text \<open>\<open>mem::discriminant\<close> tells variants apart and ignores what \<open>Extended\<close> carries.\<close>

definition hash_where_operator :: "texts \<Rightarrow> where_operator \<Rightarrow> hash_call list" where
  "hash_where_operator t op =
     (case op of
        Extended inner \<Rightarrow> [WriteDiscriminant None, Write (extended_text t inner)]
      | _ \<Rightarrow> [WriteDiscriminant (Some op)])"

fun hash_where_clause :: "texts \<Rightarrow> where_clause \<Rightarrow> hash_call list" where
  "hash_where_clause t (Field path op v) =
     WriteU8 70 # WriteUsize (length path) # concat (map (\<lambda>segment. [Write segment, WriteU8 0]) path) @
     hash_where_operator t op @ hash_json_value t v"
| "hash_where_clause t (WhereAnd cs) =
     WriteU8 65 # WriteUsize (length cs) # concat (map (hash_where_clause t) cs)"
| "hash_where_clause t (WhereOr cs) =
     WriteU8 79 # WriteUsize (length cs) # concat (map (hash_where_clause t) cs)"
| "hash_where_clause t (WhereNot c) = WriteU8 78 # hash_where_clause t c"
| "hash_where_clause t (NativeField c ty op v) = [WriteU8 63, Write (native_text t (NativeField c ty op v))]"

definition hash_order_by :: "order_by_clause list option \<Rightarrow> hash_call list" where
  "hash_order_by order_by =
     (case order_by of
        Some (c # cs) \<Rightarrow>
          WriteU8 1 # WriteUsize (length (c # cs)) #
          concat (map (\<lambda>c. [Write (storage_key c), WriteU8 (case direction c of Asc \<Rightarrow> 0 | Desc \<Rightarrow> 1)]) (c # cs))
      | _ \<Rightarrow> [WriteU8 0])"

definition hash_where :: "texts \<Rightarrow> where_clause option \<Rightarrow> hash_call list" where
  "hash_where t w = (case w of Some wc \<Rightarrow> WriteU8 1 # hash_where_clause t wc | None \<Rightarrow> [WriteU8 0])"

definition hash_u32 :: "u32 option \<Rightarrow> hash_call list" where
  "hash_u32 n = (case n of Some l \<Rightarrow> [WriteU8 1, WriteU32 l] | None \<Rightarrow> [WriteU8 0])"

section \<open>Keys\<close>

abbreviation nul :: char where "nul \<equiv> CHR 0x00"

definition cache_key_calls ::
  "texts \<Rightarrow> string \<Rightarrow> json \<Rightarrow> where_clause option \<Rightarrow> string \<Rightarrow> hash_call list" where
  "cache_key_calls t query variables where_clause schema_version =
     [Write ''q:'', Write query, Write (nul # ''v:'')] @ hash_json_value t variables @
     [Write (nul # ''w:'')] @ hash_where t where_clause @ [Write (nul # ''s:''), Write schema_version]"

definition generate_cache_key ::
  "(hash_call list \<Rightarrow> u64) \<Rightarrow> texts \<Rightarrow> string \<Rightarrow> json \<Rightarrow> where_clause option \<Rightarrow> string \<Rightarrow> u64" where
  "generate_cache_key finish t query variables where_clause schema_version =
     finish (cache_key_calls t query variables where_clause schema_version)"

text \<open>The sections that view keys and projection keys share, from the filter on.\<close>

definition request_calls ::
  "texts \<Rightarrow> where_clause option \<Rightarrow> u32 option \<Rightarrow> u32 option \<Rightarrow> order_by_clause list option \<Rightarrow> string \<Rightarrow>
   hash_call list" where
  "request_calls t where_clause limit offset order_by schema_version =
     [Write (nul # ''w:'')] @ hash_where t where_clause @
     [Write (nul # ''l:'')] @ hash_u32 limit @
     [Write (nul # ''o:'')] @ hash_u32 offset @
     [Write (nul # ''b:'')] @ hash_order_by order_by @
     [Write (nul # ''s:''), Write schema_version]"

definition view_query_calls ::
  "texts \<Rightarrow> string \<Rightarrow> where_clause option \<Rightarrow> u32 option \<Rightarrow> u32 option \<Rightarrow> order_by_clause list option \<Rightarrow>
   string \<Rightarrow> hash_call list" where
  "view_query_calls t view where_clause limit offset order_by schema_version =
     [Write ''v:'', Write view] @ request_calls t where_clause limit offset order_by schema_version"

definition generate_view_query_key ::
  "(hash_call list \<Rightarrow> u64) \<Rightarrow> texts \<Rightarrow> string \<Rightarrow> where_clause option \<Rightarrow> u32 option \<Rightarrow> u32 option \<Rightarrow>
   order_by_clause list option \<Rightarrow> string \<Rightarrow> u64" where
  "generate_view_query_key finish t view where_clause limit offset order_by schema_version =
     finish (view_query_calls t view where_clause limit offset order_by schema_version)"

text \<open>A projection hint counts with its template only.\<close>

definition projection_query_calls ::
  "texts \<Rightarrow> string \<Rightarrow> string option \<Rightarrow> where_clause option \<Rightarrow> u32 option \<Rightarrow> u32 option \<Rightarrow>
   order_by_clause list option \<Rightarrow> string \<Rightarrow> hash_call list" where
  "projection_query_calls t view projection where_clause limit offset order_by schema_version =
     [Write ''p:'', Write view, Write (nul # ''j:'')] @
     (case projection of Some p \<Rightarrow> [WriteU8 1, Write p] | None \<Rightarrow> [WriteU8 0]) @
     request_calls t where_clause limit offset order_by schema_version"

definition generate_projection_query_key ::
  "(hash_call list \<Rightarrow> u64) \<Rightarrow> texts \<Rightarrow> string \<Rightarrow> string option \<Rightarrow> where_clause option \<Rightarrow> u32 option \<Rightarrow>
   u32 option \<Rightarrow> order_by_clause list option \<Rightarrow> string \<Rightarrow> u64" where
  "generate_projection_query_key finish t view projection where_clause limit offset order_by schema_version =
     finish (projection_query_calls t view projection where_clause limit offset order_by schema_version)"

record tracked_query = query_definition +
  additional_views :: "string list"

definition extract_accessed_views :: "tracked_query \<Rightarrow> string list" where
  "extract_accessed_views q =
     (case sql_source q of Some s \<Rightarrow> [s] | None \<Rightarrow> []) @ additional_views q"

section \<open>Values as the program has them\<close>

text \<open>
  Numbers that \<open>serde_json\<close> can hold (a negative integer is negative, a float is finite), and
  objects whose keys are distinct and in order. The texts are faithful when different numbers,
  operators and native column filters print differently.
\<close>

definition wf_number :: "jnumber \<Rightarrow> bool" where
  "wf_number n =
     (case n of PosInt w \<Rightarrow> True | NegInt w \<Rightarrow> sint w < 0
      | Float w \<Rightarrow> and w 0x7FF0000000000000 \<noteq> 0x7FF0000000000000)"

fun canonical :: "json \<Rightarrow> bool" where
  "canonical (JNumber n) = wf_number n"
| "canonical (JArray xs) = list_all canonical xs"
| "canonical (JObject es) = (sorted_wrt str_less (map fst es) \<and> list_all (\<lambda>(k, v). canonical v) es)"
| "canonical _ = True"

fun canonical_clause :: "where_clause \<Rightarrow> bool" where
  "canonical_clause (Field p op v) = canonical v"
| "canonical_clause (WhereAnd cs) = list_all canonical_clause cs"
| "canonical_clause (WhereOr cs) = list_all canonical_clause cs"
| "canonical_clause (WhereNot c) = canonical_clause c"
| "canonical_clause (NativeField c ty op v) = canonical v"

definition faithful_texts :: "texts \<Rightarrow> bool" where
  "faithful_texts t \<longleftrightarrow> inj_on (number_text t) {n. wf_number n} \<and> inj (extended_text t) \<and>
     inj_on (native_text t) {NativeField c ty op v | c ty op v. True}"

section \<open>Prefix codes\<close>

text \<open>
  An encoding from which the value and the rest can be read off. The locale carries it to lists
  of known length.
\<close>

lemma concat_code:
  assumes "\<And>x y r s. x \<in> set xs \<Longrightarrow> ok y \<Longrightarrow> enc x @ r = enc y @ s \<Longrightarrow> x = y \<and> r = s"
    and "list_all ok ys" and "length xs = length ys"
    and "concat (map enc xs) @ r = concat (map enc ys) @ s"
  shows "xs = ys \<and> r = s"
  using assms
proof (induction xs arbitrary: ys)
  case (Cons x xs)
  then obtain y zs where ys: "ys = y # zs" by (cases ys) auto
  with Cons.prems(4) have "enc x @ (concat (map enc xs) @ r) = enc y @ (concat (map enc zs) @ s)" by simp
  with Cons.prems(1) [of x y] Cons.prems(2) ys
  have "x = y" and rest: "concat (map enc xs) @ r = concat (map enc zs) @ s" by force+
  have "xs = zs \<and> r = s"
  proof (rule Cons.IH [OF _ _ _ rest])
    show "x' = y' \<and> r' = s'" if "x' \<in> set xs" "ok y'" "enc x' @ r' = enc y' @ s'" for x' y' r' s'
      using Cons.prems(1) [of x' y' r' s'] that by simp
  qed (use Cons.prems ys in simp_all)
  with \<open>x = y\<close> ys show ?case by simp
qed simp

locale prefix_code =
  fixes enc :: "'a \<Rightarrow> 'c list" and ok :: "'a \<Rightarrow> bool"
  assumes decodes: "ok x \<Longrightarrow> ok y \<Longrightarrow> enc x @ r = enc y @ s \<Longrightarrow> x = y \<and> r = s"
begin

lemma list_decodes:
  assumes "list_all ok xs" and "list_all ok ys" and "length xs = length ys"
    and "concat (map enc xs) @ r = concat (map enc ys) @ s"
  shows "xs = ys \<and> r = s"
proof (rule concat_code [OF _ assms(2-4)])
  fix x y r' s' assume "x \<in> set xs" and y: "ok y" and eq: "enc x @ r' = enc y @ s'"
  then have "ok x" using assms(1) by (simp add: list_all_iff)
  then show "x = y \<and> r' = s'" using y eq by (rule decodes)
qed

end

lemma str_less_asym: "str_less s t \<Longrightarrow> \<not> str_less t s"
  by (induction s t rule: str_less.induct) auto

lemma sort_sorted: "sorted_wrt str_less (map fst es) \<Longrightarrow> sort_entries es = es"
proof (induction es)
  case (Cons e es)
  then have "sort_entries (e # es) = insert_entry e es" by (simp add: sort_entries_def)
  also have "\<dots> = e # es"
  proof (cases es)
    case (Cons f fs)
    with Cons.prems have "str_less (fst e) (fst f)" by simp
    then have "\<not> str_less (fst f) (fst e)" by (rule str_less_asym)
    with Cons show ?thesis by simp
  qed simp
  finally show ?case .
qed (simp add: sort_entries_def)

text \<open>The entries of an object in order: each key, then its value.\<close>

definition entry_calls :: "texts \<Rightarrow> string \<times> json \<Rightarrow> hash_call list" where
  "entry_calls t e = Write (fst e) # hash_json_value t (snd e)"

lemma object_calls:
  assumes "sorted_wrt str_less (map fst es)"
  shows "hash_json_value t (JObject es) = WriteU8 5 # WriteUsize (length es) # concat (map (entry_calls t) es)"
proof -
  have "map fst (map (\<lambda>(k, v). (k, hash_json_value t v)) es) = map fst es" by auto
  with assms have "sort_entries (map (\<lambda>(k, v). (k, hash_json_value t v)) es) =
      map (\<lambda>(k, v). (k, hash_json_value t v)) es"
    by (intro sort_sorted) (simp only:)
  moreover have "map (\<lambda>(k, calls). Write k # calls) (map (\<lambda>(k, v). (k, hash_json_value t v)) es) = map (entry_calls t) es"
    by (auto simp: entry_calls_def)
  ultimately show ?thesis by (simp only: hash_json_value.simps)
qed

lemma hash_json_decodes:
  assumes "faithful_texts t"
  shows "canonical x \<Longrightarrow> canonical y \<Longrightarrow> hash_json_value t x @ r = hash_json_value t y @ s \<Longrightarrow> x = y \<and> r = s"
proof (induction x arbitrary: y r s)
  case (JNumber n)
  then show ?case using assms by (cases y) (auto simp: faithful_texts_def inj_on_def split: if_splits)
next
  case (JArray xs)
  from JArray.prems obtain ys where y: "y = JArray ys" by (cases y) auto
  have "xs = ys \<and> r = s"
  proof (rule concat_code [where ok = canonical])
    show "x = y \<and> r = s" if "x \<in> set xs" "canonical y" "hash_json_value t x @ r = hash_json_value t y @ s" for x y r s
      using JArray.IH [OF that(1) _ that(2,3)] JArray.prems(1) that(1) by (simp add: list_all_iff)
  qed (use JArray.prems y in simp_all)
  with y show ?case by simp
next
  case (JObject es)
  from JObject.prems obtain fs where y: "y = JObject fs" by (cases y) auto
  from JObject.prems y have sorted: "sorted_wrt str_less (map fst es)" "sorted_wrt str_less (map fst fs)" by simp_all
  have "es = fs \<and> r = s"
  proof (rule concat_code [where ok = "\<lambda>e. canonical (snd e)"])
    show "e = f \<and> r = s" if "e \<in> set es" "canonical (snd f)" "entry_calls t e @ r = entry_calls t f @ s" for e f r s
    proof -
      from that(3) have "fst e = fst f" "hash_json_value t (snd e) @ r = hash_json_value t (snd f) @ s"
        by (simp_all add: entry_calls_def)
      moreover have "canonical (snd e)" using JObject.prems(1) that(1) by (auto simp: list_all_iff)
      moreover have "snd e \<in> Basic_BNFs.snds e" by (simp add: snds.simps)
      ultimately have "snd e = snd f \<and> r = s"
        using JObject.IH [OF that(1)] that(2) by blast
      with \<open>fst e = fst f\<close> show ?thesis by (simp add: prod_eq_iff)
    qed
  qed (use JObject.prems y sorted in \<open>simp_all add: object_calls list_all_iff split_beta
      del: hash_json_value.simps(6)\<close>)
  with y show ?case by simp
next
  case JNull
  then show ?case by (cases y) auto
next
  case (JBool b)
  then show ?case by (cases y) (auto split: if_splits)
next
  case (JString s)
  then show ?case by (cases y) auto
qed

lemma hash_operator_cases:
  "(\<exists>i. op = Extended i) \<or> hash_where_operator t op = [WriteDiscriminant (Some op)]"
  by (cases op) (simp_all add: hash_where_operator_def)

lemma hash_operator_extended:
  "hash_where_operator t (Extended i) = [WriteDiscriminant None, Write (extended_text t i)]"
  by (simp add: hash_where_operator_def)

lemma hash_operator_decodes:
  assumes "faithful_texts t" and "hash_where_operator t op @ r = hash_where_operator t op' @ s"
  shows "op = op' \<and> r = s"
  using hash_operator_cases [of op t] hash_operator_cases [of op' t] assms
  by (elim disjE exE) (simp_all add: hash_operator_extended faithful_texts_def inj_eq)

lemma hash_clause_decodes:
  assumes t: "faithful_texts t"
  shows "canonical_clause x \<Longrightarrow> canonical_clause y \<Longrightarrow>
    hash_where_clause t x @ r = hash_where_clause t y @ s \<Longrightarrow> x = y \<and> r = s"
proof (induction x arbitrary: y r s)
  case (Field p op v)
  from Field.prems obtain q op' w where y: "y = Field q op' w" by (cases y) auto
  let ?seg = "\<lambda>segment. [Write segment, WriteU8 0]"
  from Field.prems y have "concat (map ?seg p) @ hash_where_operator t op @ hash_json_value t v @ r =
      concat (map ?seg q) @ hash_where_operator t op' @ hash_json_value t w @ s" and "length p = length q"
    by simp_all
  then have "p = q \<and> hash_where_operator t op @ hash_json_value t v @ r =
      hash_where_operator t op' @ hash_json_value t w @ s"
    by (intro concat_code [where ok = "\<lambda>_. True" and enc = ?seg]) (simp_all add: list_all_iff)
  with hash_operator_decodes [OF t] have "p = q" "op = op'" "hash_json_value t v @ r = hash_json_value t w @ s"
    by blast+
  with hash_json_decodes [OF t, of v w r s] Field.prems y show ?case by simp
next
  case (WhereAnd cs)
  from WhereAnd.prems obtain ds where y: "y = WhereAnd ds" by (cases y) auto
  have "cs = ds \<and> r = s"
  proof (rule concat_code [where ok = canonical_clause])
    show "x = y \<and> r = s" if "x \<in> set cs" "canonical_clause y"
      "hash_where_clause t x @ r = hash_where_clause t y @ s" for x y r s
      using WhereAnd.IH [OF that(1) _ that(2,3)] WhereAnd.prems(1) that(1) by (simp add: list_all_iff)
  qed (use WhereAnd.prems y in simp_all)
  with y show ?case by simp
next
  case (WhereOr cs)
  from WhereOr.prems obtain ds where y: "y = WhereOr ds" by (cases y) auto
  have "cs = ds \<and> r = s"
  proof (rule concat_code [where ok = canonical_clause])
    show "x = y \<and> r = s" if "x \<in> set cs" "canonical_clause y"
      "hash_where_clause t x @ r = hash_where_clause t y @ s" for x y r s
      using WhereOr.IH [OF that(1) _ that(2,3)] WhereOr.prems(1) that(1) by (simp add: list_all_iff)
  qed (use WhereOr.prems y in simp_all)
  with y show ?case by simp
next
  case (WhereNot c)
  from WhereNot.prems obtain d where y: "y = WhereNot d" by (cases y) auto
  with WhereNot.IH [of d r s] WhereNot.prems show ?case by simp
next
  case (NativeField c ty op v)
  from NativeField.prems obtain c' ty' op' v' where y: "y = NativeField c' ty' op' v'" by (cases y) auto
  with NativeField.prems t show ?case
    by (auto simp: faithful_texts_def dest: inj_onD)
qed

definition ok_where :: "where_clause option \<Rightarrow> bool" where
  "ok_where w = (case w of Some wc \<Rightarrow> canonical_clause wc | None \<Rightarrow> True)"

lemma hash_where_decodes:
  assumes "faithful_texts t" and "ok_where w" and "ok_where w'"
    and "hash_where t w @ r = hash_where t w' @ s"
  shows "w = w' \<and> r = s"
proof (cases w)
  case (Some wc)
  with assms(4) obtain wc' where w': "w' = Some wc'" by (cases w') (auto simp: hash_where_def)
  show ?thesis
    using assms(2-4) hash_clause_decodes [OF assms(1), of wc wc' r s]
    by (simp add: Some w' hash_where_def ok_where_def)
qed (use assms(4) in \<open>cases w'; simp add: hash_where_def\<close>)

lemma hash_u32_decodes: "hash_u32 l @ r = hash_u32 l' @ s \<Longrightarrow> l = l' \<and> r = s"
  by (cases l; cases l') (auto simp: hash_u32_def)

text \<open>What of an ordering the key depends on: the stored columns and the directions, in order.\<close>

definition order_key :: "order_by_clause list option \<Rightarrow> (string \<times> order_direction) list" where
  "order_key ob = (case ob of Some cs \<Rightarrow> map (\<lambda>c. (storage_key c, direction c)) cs | None \<Rightarrow> [])"

definition order_calls :: "string \<times> order_direction \<Rightarrow> hash_call list" where
  "order_calls e = [Write (fst e), WriteU8 (case snd e of Asc \<Rightarrow> 0 | Desc \<Rightarrow> 1)]"

interpretation order_code: prefix_code order_calls "\<lambda>_. True"
  by unfold_locales (auto simp: order_calls_def prod_eq_iff split: order_direction.splits)

lemma hash_order_by_alt:
  "hash_order_by ob = (if order_key ob = [] then [WriteU8 0]
     else WriteU8 1 # WriteUsize (length (order_key ob)) # concat (map order_calls (order_key ob)))"
  by (auto simp: hash_order_by_def order_key_def order_calls_def comp_def split: option.splits list.splits)

lemma hash_order_by_decodes:
  assumes "hash_order_by ob @ r = hash_order_by ob' @ s"
  shows "order_key ob = order_key ob' \<and> r = s"
  using assms order_code.list_decodes [of "order_key ob" "order_key ob'" r s]
  by (auto simp: hash_order_by_alt list_all_iff split: if_splits)

interpretation json_code: prefix_code "hash_json_value t" "\<lambda>v. faithful_texts t \<and> canonical v" for t
  by unfold_locales (auto dest: hash_json_decodes)

lemma request_calls_decode:
  assumes "faithful_texts t" and "ok_where w" and "ok_where w'"
    and "request_calls t w l off ob sv = request_calls t w' l' off' ob' sv'"
  shows "w = w' \<and> l = l' \<and> off = off' \<and> order_key ob = order_key ob' \<and> sv = sv'"
proof -
  from assms(4) have "hash_where t w @ (Write (nul # ''l:'') # hash_u32 l @
      (Write (nul # ''o:'') # hash_u32 off @ (Write (nul # ''b:'') # hash_order_by ob @ [Write (nul # ''s:''), Write sv]))) =
    hash_where t w' @ (Write (nul # ''l:'') # hash_u32 l' @
      (Write (nul # ''o:'') # hash_u32 off' @ (Write (nul # ''b:'') # hash_order_by ob' @ [Write (nul # ''s:''), Write sv'])))"
    by (simp add: request_calls_def)
  from hash_where_decodes [OF assms(1-3) this] have "w = w'" and
    "hash_u32 l @ (Write (nul # ''o:'') # hash_u32 off @ (Write (nul # ''b:'') # hash_order_by ob @ [Write (nul # ''s:''), Write sv])) =
    hash_u32 l' @ (Write (nul # ''o:'') # hash_u32 off' @ (Write (nul # ''b:'') # hash_order_by ob' @ [Write (nul # ''s:''), Write sv']))"
    by simp_all
  note this(1) and hash_u32_decodes [OF this(2)]
  then have "w = w'" "l = l'" and
    "hash_u32 off @ (Write (nul # ''b:'') # hash_order_by ob @ [Write (nul # ''s:''), Write sv]) =
     hash_u32 off' @ (Write (nul # ''b:'') # hash_order_by ob' @ [Write (nul # ''s:''), Write sv'])"
    by simp_all
  note this(1,2) and hash_u32_decodes [OF this(3)]
  then have "w = w'" "l = l'" "off = off'" and
    "hash_order_by ob @ [Write (nul # ''s:''), Write sv] = hash_order_by ob' @ [Write (nul # ''s:''), Write sv']"
    by simp_all
  with hash_order_by_decodes [of ob "[Write (nul # ''s:''), Write sv]" ob' "[Write (nul # ''s:''), Write sv']"]
  show ?thesis by simp
qed

lemma view_calls_decode:
  assumes "faithful_texts t" and "ok_where w" and "ok_where w'"
    and "view_query_calls t v w l off ob sv = view_query_calls t v' w' l' off' ob' sv'"
  shows "v = v' \<and> w = w' \<and> l = l' \<and> off = off' \<and> order_key ob = order_key ob' \<and> sv = sv'"
  using assms request_calls_decode [OF assms(1-3)] by (auto simp: view_query_calls_def)

lemma projection_calls_decode:
  assumes "faithful_texts t" and "ok_where w" and "ok_where w'"
    and "projection_query_calls t v p w l off ob sv = projection_query_calls t v' p' w' l' off' ob' sv'"
  shows "v = v' \<and> p = p' \<and> w = w' \<and> l = l' \<and> off = off' \<and> order_key ob = order_key ob' \<and> sv = sv'"
  using assms request_calls_decode [OF assms(1-3)]
  by (auto simp: projection_query_calls_def request_calls_def split: option.splits)

lemma view_projection_differ: "view_query_calls t v w l off ob sv \<noteq> projection_query_calls t v' p w' l' off' ob' sv'"
  by (simp add: view_query_calls_def projection_query_calls_def)

text \<open>
  The key of a generic query determines the query text, the variables, the filter and the
  schema version, whenever the hash keeps the two sequences of calls apart.
\<close>

lemma cache_key_determines_request:
  assumes "faithful_texts t" and "canonical vars" and "canonical vars'" and "ok_where w" and "ok_where w'"
    and "inj_on finish {cache_key_calls t q vars w sv, cache_key_calls t q' vars' w' sv'}"
    and "generate_cache_key finish t q vars w sv = generate_cache_key finish t q' vars' w' sv'"
  shows "q = q' \<and> vars = vars' \<and> w = w' \<and> sv = sv'"
proof -
  have "cache_key_calls t q vars w sv = cache_key_calls t q' vars' w' sv'"
    by (rule inj_onD [OF assms(6)]) (use assms(7) in \<open>simp_all add: generate_cache_key_def\<close>)
  then have "q = q'" and v: "hash_json_value t vars @ (Write (nul # ''w:'') # hash_where t w @ [Write (nul # ''s:''), Write sv]) =
      hash_json_value t vars' @ (Write (nul # ''w:'') # hash_where t w' @ [Write (nul # ''s:''), Write sv'])"
    by (simp_all add: cache_key_calls_def)
  from hash_json_decodes [OF assms(1-3) v] have vars: "vars = vars'" and
    w: "hash_where t w @ [Write (nul # ''s:''), Write sv] = hash_where t w' @ [Write (nul # ''s:''), Write sv']"
    by simp_all
  from hash_where_decodes [OF assms(1,4,5) w] have "w = w'" "sv = sv'" by simp_all
  with \<open>q = q'\<close> vars show ?thesis by blast
qed

section \<open>Texts that keep everything apart\<close>

text \<open>The values are countable, so there are texts as \<open>faithful_texts\<close> asks.\<close>

instance extended_operator :: countable by countable_datatype
instance jnumber :: countable by countable_datatype
instance json :: countable by countable_datatype

lemma countable_operators: "countable (UNIV :: where_operator set)"
proof (rule countable_subset)
  show "UNIV \<subseteq> set [Eq, Neq, Gt, Gte, Lt, Lte, In, Nin, Contains, Icontains, Startswith,
    Istartswith, Endswith, Iendswith, Like, Ilike, Nlike, Nilike, Regex, Iregex,
    Nregex, Niregex, IsNull, ArrayContains, ArrayContainedBy, ArrayOverlaps, LenEq,
    LenGt, LenLt, LenGte, LenLte, LenNeq, CosineDistance, L2Distance, L1Distance,
    HammingDistance, InnerProduct, JaccardDistance, Matches, PlainQuery, PhraseQuery,
    WebsearchQuery, IsIPv4, IsIPv6, IsPrivate, IsPublic, IsLoopback, InSubnet,
    ContainsSubnet, ContainsIP, Overlaps, StrictlyContains, AncestorOf, DescendantOf,
    MatchesLquery, MatchesLtxtquery, MatchesAnyLquery, DepthEq, DepthNeq, DepthGt,
    DepthGte, DepthLt, DepthLte, Lca] \<union> range Extended" (is "_ \<subseteq> ?S")
  proof
    fix x show "x \<in> ?S" by (cases x) simp_all
  qed
qed (simp add: countable_finite)

instance where_operator :: countable
  by standard (metis countable_operators countableE)
instance where_clause :: countable by countable_datatype

definition numbered_texts :: texts where
  "numbered_texts = \<lparr>number_text = show_nat \<circ> to_nat, extended_text = show_nat \<circ> to_nat,
     native_text = show_nat \<circ> to_nat\<rparr>"

lemma numbered_texts_faithful: "faithful_texts numbered_texts"
  by (simp add: faithful_texts_def numbered_texts_def inj_on_def)

section \<open>Properties\<close>


text \<open>Two users whose requests differ in the injected filter, with a hash that tells the calls apart.\<close>

definition owner_filter :: "string \<Rightarrow> where_clause option" where
  "owner_filter u = Some (Field [''owner_id''] Eq (JString u))"

definition first_difference :: "hash_call list \<Rightarrow> u64" where
  "first_difference cs = (if Write ''alice'' \<in> set cs then 1 else 0) + (if Write ''v:'' \<in> set cs then 2 else 0)"


end
