(* ===== verification/Cache_Entities.thy ===== *)
theory Cache_Entities
  imports Multimap Json Rest_Routes
begin

text \<open>
  The small components around the row cache that name entities: entity keys
  (\<open>fraiseql-core/src/cache/entity_key.rs\<close>), the parser of cascade responses
  (\<open>cascade_response_parser.rs\<close>), the map from mutations to entity types
  (\<open>cascade_metadata.rs\<close>), the extraction of UUIDs (\<open>uuid_extractor.rs\<close>), the reasons of an
  invalidation (\<open>invalidation.rs\<close>) and the classification of a query by its text
  (\<open>query_analyzer.rs\<close>). An error is the case it stands for; the texts around it are not kept.
\<close>

section \<open>Entity keys\<close>

datatype entity_error =
    EmptyEntityType
  | ColonInEntityType string
  | EmptyEntityId
  | InvalidKeyFormat string
  | CascadeNotArray string string
  | CascadeEntityNotObject
  | CascadeMissingTypename
  | CascadeMissingId

record entity_key =
  entity_type :: string
  entity_id :: string

definition entity_key_new :: "string \<Rightarrow> string \<Rightarrow> entity_error + entity_key" where
  "entity_key_new ty i =
     (if ty = [] then Inl EmptyEntityType
      else if CHR '':'' \<in> set ty then Inl (ColonInEntityType ty)
      else if i = [] then Inl EmptyEntityId
      else Inr \<lparr>entity_type = ty, entity_id = i\<rparr>)"

definition to_cache_key :: "entity_key \<Rightarrow> string" where
  "to_cache_key k = entity_type k @ '':'' @ entity_id k"

text \<open>\<open>splitn(2, ':')\<close>: up to the first colon, and the rest.\<close>

definition from_cache_key :: "string \<Rightarrow> entity_error + entity_key" where
  "from_cache_key s =
     (case dropWhile (\<lambda>c. c \<noteq> CHR '':'') s of
        [] \<Rightarrow> Inl (InvalidKeyFormat s)
      | _ # rest \<Rightarrow> entity_key_new (takeWhile (\<lambda>c. c \<noteq> CHR '':'') s) rest)"

definition entity_key_ok :: "entity_key \<Rightarrow> bool" where
  "entity_key_ok k \<longleftrightarrow> entity_key_new (entity_type k) (entity_id k) = Inr k"

lemma entity_key_new_ok: "entity_key_new ty i = Inr k \<Longrightarrow> entity_key_ok k"
  by (auto simp: entity_key_new_def entity_key_ok_def split: if_splits)

text \<open>Keys that \<open>new\<close> accepts are told apart by their texts, and read back from them.\<close>

lemma entity_key_round_trip:
  assumes "entity_key_ok k"
  shows "from_cache_key (to_cache_key k) = Inr k"
proof -
  from assms have "CHR '':'' \<notin> set (entity_type k)"
    by (auto simp: entity_key_ok_def entity_key_new_def split: if_splits)
  then have "takeWhile (\<lambda>c. c \<noteq> CHR '':'') (to_cache_key k) = entity_type k"
    "dropWhile (\<lambda>c. c \<noteq> CHR '':'') (to_cache_key k) = CHR '':'' # entity_id k"
    by (auto simp: to_cache_key_def takeWhile_append dropWhile_append)
  with assms show ?thesis by (simp add: from_cache_key_def entity_key_ok_def)
qed

lemma from_cache_key_text:
  assumes "from_cache_key s = Inr k"
  shows "to_cache_key k = s \<and> entity_key_ok k"
proof -
  let ?P = "\<lambda>c. c \<noteq> CHR '':''"
  from assms obtain c rest where d: "dropWhile ?P s = c # rest"
    and new: "entity_key_new (takeWhile ?P s) rest = Inr k"
    by (auto simp: from_cache_key_def split: list.splits)
  then have "c = CHR '':''" by (simp add: dropWhile_eq_Cons_conv)
  with d have "s = takeWhile ?P s @ CHR '':'' # rest" by (metis takeWhile_dropWhile_id)
  moreover from new have "k = \<lparr>entity_type = takeWhile ?P s, entity_id = rest\<rparr>"
    by (auto simp: entity_key_new_def split: if_splits)
  ultimately show ?thesis using entity_key_new_ok [OF new] by (simp add: to_cache_key_def)
qed

section \<open>Cascade responses\<close>

record cascade_entities =
  updated :: "entity_key list"
  deleted :: "entity_key list"

definition all_affected :: "cascade_entities \<Rightarrow> entity_key list" where
  "all_affected c = updated c @ deleted c"

definition has_changes :: "cascade_entities \<Rightarrow> bool" where
  "has_changes c \<longleftrightarrow> updated c \<noteq> [] \<or> deleted c \<noteq> []"

text \<open>The first value of an object that has a field \<open>cascade\<close>.\<close>

definition first_cascade :: "(string \<times> json) list \<Rightarrow> json option" where
  "first_cascade es =
     (case List.map_filter (\<lambda>(k, v). json_get v ''cascade'') es of c # _ \<Rightarrow> Some c | [] \<Rightarrow> None)"

definition entries_or_empty :: "json \<Rightarrow> (string \<times> json) list" where
  "entries_or_empty v = (case as_object v of Some es \<Rightarrow> es | None \<Rightarrow> [])"

definition find_cascade_field :: "json \<Rightarrow> json" where
  "find_cascade_field response =
     (case json_get response ''cascade'' of
        Some c \<Rightarrow> c
      | None \<Rightarrow>
          (let top = (case first_cascade (entries_or_empty response) of Some c \<Rightarrow> c | None \<Rightarrow> JNull)
           in case json_get response ''data'' of
                None \<Rightarrow> top
              | Some d \<Rightarrow>
                  (case json_get d ''cascade'' of
                     Some c \<Rightarrow> c
                   | None \<Rightarrow> (case first_cascade (entries_or_empty d) of Some c \<Rightarrow> c | None \<Rightarrow> top))))"

definition parse_cascade_entity :: "json \<Rightarrow> entity_error + entity_key" where
  "parse_cascade_entity v =
     (case as_object v of
        None \<Rightarrow> Inl CascadeEntityNotObject
      | Some obj \<Rightarrow>
          (case Option.bind (map_of obj ''__typename'') as_str of
             None \<Rightarrow> Inl CascadeMissingTypename
           | Some ty \<Rightarrow>
               (case Option.bind (map_of obj ''id'') as_str of
                  None \<Rightarrow> Inl CascadeMissingId
                | Some i \<Rightarrow> entity_key_new ty i)))"

fun json_kind :: "json \<Rightarrow> string" where
  "json_kind (JObject _) = ''object''"
| "json_kind (JString _) = ''string''"
| "json_kind (JNumber _) = ''number''"
| "json_kind (JBool _) = ''boolean''"
| "json_kind JNull = ''null''"
| "json_kind (JArray _) = ''unknown''"

definition extract_entities_list :: "json \<Rightarrow> string \<Rightarrow> entity_error + entity_key list" where
  "extract_entities_list cascade field =
     (case json_get cascade field of
        Some (JArray arr) \<Rightarrow> collect_results parse_cascade_entity arr
      | Some JNull \<Rightarrow> Inr []
      | None \<Rightarrow> Inr []
      | Some v \<Rightarrow> Inl (CascadeNotArray field (json_kind v)))"

definition parse_cascade_response :: "json \<Rightarrow> entity_error + cascade_entities" where
  "parse_cascade_response response =
     (let cascade = find_cascade_field response in
      if cascade = JNull then Inr \<lparr>updated = [], deleted = []\<rparr>
      else try_bind (extract_entities_list cascade ''updated'') (\<lambda>u.
           try_bind (extract_entities_list cascade ''deleted'') (\<lambda>d.
           Inr \<lparr>updated = u, deleted = d\<rparr>)))"

lemma extract_entities_ok:
  "extract_entities_list c f = Inr ks \<Longrightarrow> list_all entity_key_ok ks"
  unfolding extract_entities_list_def
  by (auto split: option.splits json.splits elim!: collect_results_all)
    (auto simp: parse_cascade_entity_def dest: entity_key_new_ok split: option.splits)

text \<open>Whatever the response, the entities the parser accepts have keys that read back.\<close>

lemma parsed_entities_ok:
  assumes "parse_cascade_response r = Inr c" and "k \<in> set (all_affected c)"
  shows "from_cache_key (to_cache_key k) = Inr k"
proof -
  have "list_all entity_key_ok (all_affected c)"
    using assms(1) by (auto simp: parse_cascade_response_def Let_def try_bind_eq_Inr all_affected_def
        extract_entities_ok split: if_splits)
  with assms(2) show ?thesis by (simp add: list_all_iff entity_key_round_trip)
qed

section \<open>Mutations and their entity types\<close>

record cascade_metadata =
  mutation_entity_map :: "(string \<times> string) list"
  entity_mutations_map :: "(string \<times> string list) list"

definition metadata_new :: cascade_metadata where
  "metadata_new = \<lparr>mutation_entity_map = [], entity_mutations_map = []\<rparr>"

definition add_mutation :: "string \<Rightarrow> string \<Rightarrow> cascade_metadata \<Rightarrow> cascade_metadata" where
  "add_mutation mutation ty m =
     \<lparr>mutation_entity_map = AList.update mutation ty (mutation_entity_map m),
      entity_mutations_map = AList.update ty (mm_get (entity_mutations_map m) ty @ [mutation]) (entity_mutations_map m)\<rparr>"

definition get_entity_type :: "cascade_metadata \<Rightarrow> string \<Rightarrow> string option" where
  "get_entity_type m mutation = map_of (mutation_entity_map m) mutation"

definition get_mutations_for_entity :: "cascade_metadata \<Rightarrow> string \<Rightarrow> string list" where
  "get_mutations_for_entity m ty = mm_get (entity_mutations_map m) ty"

definition metadata_count :: "cascade_metadata \<Rightarrow> nat" where
  "metadata_count m = length (mutation_entity_map m)"

definition contains_mutation :: "cascade_metadata \<Rightarrow> string \<Rightarrow> bool" where
  "contains_mutation m mutation \<longleftrightarrow> map_of (mutation_entity_map m) mutation \<noteq> None"

definition metadata_from_schema :: "compiled_schema \<Rightarrow> cascade_metadata" where
  "metadata_from_schema schema =
     fold (\<lambda>d. add_mutation (mutation_name d) (mutation_return_type d)) (schema_mutations schema) metadata_new"

lemma metadata_fold:
  "get_entity_type (fold (\<lambda>d. add_mutation (f d) (g d)) ds m) mutation =
     (case map_of (rev (map (\<lambda>d. (f d, g d)) ds)) mutation of Some t \<Rightarrow> Some t | None \<Rightarrow> get_entity_type m mutation)"
  by (induction ds arbitrary: m)
    (auto simp: get_entity_type_def add_mutation_def update_conv' map_add_def split: option.splits)

lemma metadata_mutations:
  "get_mutations_for_entity (fold (\<lambda>d. add_mutation (f d) (g d)) ds m) ty =
     get_mutations_for_entity m ty @ map f (filter (\<lambda>d. g d = ty) ds)"
  by (induction ds arbitrary: m)
    (auto simp: get_mutations_for_entity_def add_mutation_def mm_get_update)

section \<open>UUIDs\<close>

definition is_hex_lower :: "char \<Rightarrow> bool" where
  "is_hex_lower c \<longleftrightarrow> (48 \<le> code c \<and> code c \<le> 57) \<or> (97 \<le> code c \<and> code c \<le> 102)"

definition is_valid_uuid :: "string \<Rightarrow> bool" where
  "is_valid_uuid s =
     (let groups = split_on (CHR ''-'') (to_lowercase s)
      in map length groups = [8, 4, 4, 4, 12] \<and> list_all (list_all is_hex_lower) groups)"

fun extract_uuid_from_value :: "json \<Rightarrow> string option" and uuid_of_entries :: "(string \<times> json) list \<Rightarrow> string option" where
  "extract_uuid_from_value (JString s) = (if is_valid_uuid s then Some (to_lowercase s) else None)"
| "extract_uuid_from_value (JObject es) = uuid_of_entries es"
| "extract_uuid_from_value _ = None"
| "uuid_of_entries [] = None"
| "uuid_of_entries ((k, v) # es) = (if k = ''id'' then extract_uuid_from_value v else uuid_of_entries es)"

definition extract_entity_uuid :: "json \<Rightarrow> string option" where
  "extract_entity_uuid response =
     (case response of
        JObject obj \<Rightarrow>
          (case map_of obj ''id'' of
             Some v \<Rightarrow> extract_uuid_from_value v
           | None \<Rightarrow>
               (case List.map_filter (\<lambda>(k, v). json_get v ''id'') obj of
                  v # _ \<Rightarrow> extract_uuid_from_value v
                | [] \<Rightarrow> None))
      | _ \<Rightarrow> None)"

definition extract_batch_uuids :: "json \<Rightarrow> string list" where
  "extract_batch_uuids response =
     (case response of
        JArray arr \<Rightarrow> List.map_filter extract_uuid_from_value arr
      | JObject _ \<Rightarrow> (case extract_entity_uuid response of Some u \<Rightarrow> [u] | None \<Rightarrow> [])
      | _ \<Rightarrow> [])"

lemma to_lowercase_idem [simp]: "to_lowercase (to_lowercase s) = to_lowercase s"
  using lowercase_not_uppercase by (simp add: to_lowercase_def to_lowercase_char_def [of "to_lowercase_char _"])

lemma extracted_uuid_valid:
  "extract_uuid_from_value v = Some u \<Longrightarrow> is_valid_uuid u \<and> to_lowercase u = u"
  "uuid_of_entries es = Some u \<Longrightarrow> is_valid_uuid u \<and> to_lowercase u = u"
  by (induction v and es rule: extract_uuid_from_value_uuid_of_entries.induct)
    (auto simp: is_valid_uuid_def split: if_splits)

text \<open>Every UUID taken from a response is a UUID, in lower case.\<close>

lemma batch_uuids_valid:
  assumes "u \<in> set (extract_batch_uuids r)"
  shows "is_valid_uuid u \<and> to_lowercase u = u"
  using assms extracted_uuid_valid(1) 
  by (auto simp: extract_batch_uuids_def set_map_filter extract_entity_uuid_def split: json.splits option.splits list.splits)

section \<open>Reasons of an invalidation\<close>

datatype invalidation_reason =
    MutationReason string
  | ManualReason string
  | SchemaChange string string

record invalidation_context =
  modified_views :: "string list"
  invalidation_reason :: invalidation_reason

definition for_mutation :: "string \<Rightarrow> string list \<Rightarrow> invalidation_context" where
  "for_mutation mutation views = \<lparr>modified_views = views, invalidation_reason = MutationReason mutation\<rparr>"

definition manual_invalidation :: "string list \<Rightarrow> string \<Rightarrow> invalidation_context" where
  "manual_invalidation views reason = \<lparr>modified_views = views, invalidation_reason = ManualReason reason\<rparr>"

definition schema_change :: "string list \<Rightarrow> string \<Rightarrow> string \<Rightarrow> invalidation_context" where
  "schema_change views old new = \<lparr>modified_views = views, invalidation_reason = SchemaChange old new\<rparr>"

fun reason_log_string :: "invalidation_reason \<Rightarrow> string" where
  "reason_log_string (MutationReason n) = ''mutation:'' @ n"
| "reason_log_string (ManualReason r) = ''manual:'' @ r"
| "reason_log_string (SchemaChange old new) = ''schema_change:'' @ old @ ''->'' @ new"

definition context_log_string :: "invalidation_context \<Rightarrow> string" where
  "context_log_string c =
     reason_log_string (invalidation_reason c) @ '' affecting '' @ show_nat (length (modified_views c)) @ '' view(s)''"

definition affects_view :: "invalidation_context \<Rightarrow> string \<Rightarrow> bool" where
  "affects_view c view \<longleftrightarrow> view \<in> set (modified_views c)"

section \<open>Cardinality of a query\<close>

datatype query_cardinality = CardSingle | CardMultiple | CardList

record query_entity_profile =
  profile_query :: string
  profile_entity :: "string option"
  profile_cardinality :: query_cardinality

definition classify_cardinality :: "string \<Rightarrow> query_cardinality" where
  "classify_cardinality query =
     (let q = to_lowercase query; has = (\<lambda>p. find_substring p q \<noteq> None) in
      if has ''where'' \<and> has ''id'' \<and> has ''='' \<and> \<not> has ''in'' then CardSingle
      else if has ''where'' \<and> has ''in'' then CardMultiple
      else CardList)"

definition extract_entity_type :: "string \<Rightarrow> string option" where
  "extract_entity_type ret =
     (if ret = [] then None
      else let base = (if 2 \<le> length ret \<and> drop (length ret - 2) ret = ''[]''
                       then take (length ret - 2) ret else ret)
           in if base = [] then None else Some base)"

definition analyze_query :: "string \<Rightarrow> string \<Rightarrow> string \<Rightarrow> query_entity_profile" where
  "analyze_query name ret query =
     \<lparr>profile_query = name, profile_entity = extract_entity_type ret,
      profile_cardinality = classify_cardinality query\<rparr>"

text \<open>
  The test for \<open>IN\<close> looks for two letters anywhere: a lookup by \<open>id\<close> in a view whose name has them
  counts as a query for several entities.
\<close>

lemma cardinality_by_letters:
  "classify_cardinality ''SELECT * FROM v_user WHERE id = ?'' = CardSingle"
  "classify_cardinality ''SELECT * FROM v_invoice WHERE id = ?'' = CardMultiple"
  by code_simp+

end
