(* ===== verification/Cached_Adapter.thy ===== *)
theory Cached_Adapter
  imports Result_Safety Cache_Keys Cache_Entities Cascade_Invalidator
begin

text \<open>
  The adapter that puts the row cache in front of a database adapter
  (\<open>fraiseql-core/src/cache/adapter/mod.rs\<close>, \<open>adapter/query.rs\<close>, \<open>adapter/mutation.rs\<close>,
  \<open>invalidation_api.rs\<close>, \<open>fact_table_cache.rs\<close>, \<open>fact_table_version.rs\<close>).

  The adapter is generic in the database: \<open>database\<close> is a record of its operations on a state of
  unknown type, reads leave that state alone. \<open>cache_env\<close> holds what the cache uses from outside:
  the store, the length of printed rows, the hash function, the texts of \<open>Cache_Keys\<close> and the
  iteration order of a hash set. Times are arguments. A panic is \<open>None\<close>.
\<close>

section \<open>Interfaces\<close>

record sql_projection_hint =
  hint_database :: string
  projection_template :: string
  estimated_reduction_percent :: u32

type_synonym raw_row = "(string \<times> json) list"

record ('w, 'e) database =
  db_projection :: "string \<Rightarrow> sql_projection_hint option \<Rightarrow> where_clause option \<Rightarrow> u32 option \<Rightarrow> u32 option \<Rightarrow>
    order_by_clause list option \<Rightarrow> 'w \<Rightarrow> 'e + json list"
  db_where :: "string \<Rightarrow> where_clause option \<Rightarrow> u32 option \<Rightarrow> u32 option \<Rightarrow>
    order_by_clause list option \<Rightarrow> 'w \<Rightarrow> 'e + json list"
  db_raw :: "string \<Rightarrow> 'w \<Rightarrow> 'e + raw_row list"
  db_call :: "string \<Rightarrow> json list \<Rightarrow> 'w \<Rightarrow> ('e + raw_row list) \<times> 'w"

record 's cache_env =
  env_store :: "'s row_store"
  env_len :: "json list \<Rightarrow> u64"
  env_hash :: "hash_call list \<Rightarrow> u64"
  env_texts :: texts
  env_order :: "string set \<Rightarrow> string list"

section \<open>Versions of fact tables\<close>

datatype version_strategy = Disabled | VersionTable | TimeBased u64 | SchemaVersion

definition is_caching_enabled :: "version_strategy \<Rightarrow> bool" where
  "is_caching_enabled s \<longleftrightarrow> s \<noteq> Disabled"

definition strategy_ttl :: "version_strategy \<Rightarrow> u64 option" where
  "strategy_ttl s = (case s of TimeBased t \<Rightarrow> Some t | _ \<Rightarrow> None)"

record fact_table_config =
  default_strategy :: version_strategy
  table_strategies :: "(string \<times> version_strategy) list"

definition fact_config_with_default :: "version_strategy \<Rightarrow> fact_table_config" where
  "fact_config_with_default s = \<lparr>default_strategy = s, table_strategies = []\<rparr>"

definition set_strategy :: "string \<Rightarrow> version_strategy \<Rightarrow> fact_table_config \<Rightarrow> fact_table_config" where
  "set_strategy table s cfg = cfg\<lparr>table_strategies := AList.update table s (table_strategies cfg)\<rparr>"

definition get_strategy :: "fact_table_config \<Rightarrow> string \<Rightarrow> version_strategy" where
  "get_strategy cfg table =
     (case map_of (table_strategies cfg) table of Some s \<Rightarrow> s | None \<Rightarrow> default_strategy cfg)"

text \<open>The provider keeps each version with the instant at which it was fetched, in nanoseconds.\<close>

record version_provider =
  cached_versions :: "(string \<times> int \<times> nat) list"
  version_cache_ttl :: nat

definition provider_new :: "nat \<Rightarrow> version_provider" where
  "provider_new ttl = \<lparr>cached_versions = [], version_cache_ttl = ttl\<rparr>"

definition get_cached_version :: "nat \<Rightarrow> version_provider \<Rightarrow> string \<Rightarrow> int option" where
  "get_cached_version now p table =
     (case map_of (cached_versions p) table of
        Some (version, fetched_at) \<Rightarrow> if now - fetched_at < version_cache_ttl p then Some version else None
      | None \<Rightarrow> None)"

definition set_cached_version :: "nat \<Rightarrow> string \<Rightarrow> int \<Rightarrow> version_provider \<Rightarrow> version_provider" where
  "set_cached_version now table version p =
     p\<lparr>cached_versions := AList.update table (version, now) (cached_versions p)\<rparr>"

definition clear_cached_version :: "string \<Rightarrow> version_provider \<Rightarrow> version_provider" where
  "clear_cached_version table p = p\<lparr>cached_versions := AList.delete table (cached_versions p)\<rparr>"

definition clear_all_versions :: "version_provider \<Rightarrow> version_provider" where
  "clear_all_versions p = p\<lparr>cached_versions := []\<rparr>"

definition version_text :: "int \<Rightarrow> string" where
  "version_text i = (if i < 0 then ''-'' @ show_nat (nat (- i)) else show_nat (nat i))"

text \<open>The outer option is the panic of a division by zero; the inner one is the code's.\<close>

definition generate_version_key_component ::
  "u64 \<Rightarrow> version_strategy \<Rightarrow> int option \<Rightarrow> string \<Rightarrow> string option option" where
  "generate_version_key_component now_secs strategy table_version schema_version =
     (case strategy of
        Disabled \<Rightarrow> Some None
      | VersionTable \<Rightarrow> Some (map_option (\<lambda>v. ''tv:'' @ version_text v) table_version)
      | TimeBased ttl \<Rightarrow> if ttl = 0 then None else Some (Some (''tb:'' @ show_nat (unat (now_secs div ttl))))
      | SchemaVersion \<Rightarrow> Some (Some (''sv:'' @ schema_version)))"

section \<open>The adapter\<close>

record 's cached_adapter =
  row_cache :: "'s query_result_cache"
  adapter_schema_version :: string
  view_ttl_overrides :: "(string \<times> u64) list"
  cacheable_views :: "string list"
  opt_in_mode :: bool
  fact_tables :: fact_table_config
  adapter_versions :: version_provider
  adapter_cascade :: "cascade_invalidator option"

definition with_fact_table_config ::
  "'s query_result_cache \<Rightarrow> string \<Rightarrow> fact_table_config \<Rightarrow> 's cached_adapter" where
  "with_fact_table_config c version cfg =
     \<lparr>row_cache = c, adapter_schema_version = version, view_ttl_overrides = [], cacheable_views = [],
      opt_in_mode = False, fact_tables = cfg, adapter_versions = provider_new 1000000000,
      adapter_cascade = None\<rparr>"

definition cached_adapter_new :: "'s query_result_cache \<Rightarrow> string \<Rightarrow> 's cached_adapter" where
  "cached_adapter_new c version = with_fact_table_config c version (fact_config_with_default Disabled)"

definition with_view_ttl_overrides :: "(string \<times> u64) list \<Rightarrow> 's cached_adapter \<Rightarrow> 's cached_adapter" where
  "with_view_ttl_overrides overrides a =
     a\<lparr>cacheable_views := map fst overrides, view_ttl_overrides := overrides, opt_in_mode := True\<rparr>"

definition with_cascade_invalidator :: "cascade_invalidator \<Rightarrow> 's cached_adapter \<Rightarrow> 's cached_adapter" where
  "with_cascade_invalidator ci a = a\<lparr>adapter_cascade := Some ci\<rparr>"

definition with_ttl_overrides_from_schema :: "compiled_schema \<Rightarrow> 's cached_adapter \<Rightarrow> 's cached_adapter" where
  "with_ttl_overrides_from_schema schema a =
     (fold (\<lambda>q a. case (sql_source q, cache_ttl_seconds q) of
                (Some view, Some ttl) \<Rightarrow>
                  a\<lparr>cacheable_views := List.insert view (cacheable_views a),
                    view_ttl_overrides := AList.update view (word_of_nat ttl) (view_ttl_overrides a)\<rparr>
              | _ \<Rightarrow> a) (schema_queries schema) a)\<lparr>opt_in_mode := True\<rparr>"

text \<open>
  \<open>first.to_uppercase()\<close> for U+0000 to U+00FF; the upper case of U+00B5 and U+00FF lies outside of
  that range, and the two stay as they are.
\<close>

definition to_uppercase_char :: "char \<Rightarrow> string" where
  "to_uppercase_char c =
     (if code c = 223 then ''SS''
      else if (97 \<le> code c \<and> code c \<le> 122) \<or> (224 \<le> code c \<and> code c \<le> 254 \<and> code c \<noteq> 247)
      then [char_of (code c - 32)] else [c])"

definition capitalize :: "string \<Rightarrow> string" where
  "capitalize s = (case s of [] \<Rightarrow> [] | c # cs \<Rightarrow> to_uppercase_char c @ cs)"

definition view_name_to_entity_type :: "string \<Rightarrow> string option" where
  "view_name_to_entity_type view =
     (case dropWhile (\<lambda>c. c \<noteq> CHR ''_'') view of
        [] \<Rightarrow> None
      | _ # after_prefix \<Rightarrow>
          if after_prefix = [] then None
          else Some (concat (map capitalize (split_on (CHR ''_'') after_prefix))))"

definition rls_query :: string where
  "rls_query = ''SELECT current_setting('' @ [squote] @ ''row_security'' @ [squote] @ '', true) AS rls_setting''"

text \<open>The error of the check is \<open>Configuration\<close> with a fixed message.\<close>

datatype rls_error = RlsNotActive

definition validate_rls_active :: "('w, 'e) database \<Rightarrow> 'w \<Rightarrow> rls_error + unit" where
  "validate_rls_active db w =
     (let rls_active =
        (case db_raw db rls_query w of
           Inr (row # rows) \<Rightarrow>
             (case Option.bind (map_of row ''rls_setting'') as_str of
                Some s \<Rightarrow> s = ''on'' \<or> s = ''force''
              | None \<Rightarrow> False)
         | _ \<Rightarrow> False)
      in if rls_active then Inr () else Inl RlsNotActive)"

definition enforce_rls :: "('w, 'e) database \<Rightarrow> rls_enforcement \<Rightarrow> 'w \<Rightarrow> rls_error + unit" where
  "enforce_rls db enforcement w =
     (if enforcement = RlsOff then Inr ()
      else case validate_rls_active db w of
          Inr _ \<Rightarrow> Inr ()
        | Inl e \<Rightarrow> (case enforcement of RlsError \<Rightarrow> Inl e | _ \<Rightarrow> Inr ()))"

section \<open>Reads\<close>

definition bypasses :: "'s cached_adapter \<Rightarrow> string \<Rightarrow> bool" where
  "bypasses a view \<longleftrightarrow>
     \<not> enabled (config (row_cache a)) \<or> opt_in_mode a \<and> view \<notin> set (cacheable_views a)"

text \<open>The part both reads share: look the key up, or ask the database and store the answer.\<close>

definition cached_read ::
  "'s cache_env \<Rightarrow> u64 \<Rightarrow> u64 \<Rightarrow> string \<Rightarrow> 'e + json list \<Rightarrow> 's cached_adapter \<Rightarrow>
   ('e + json list) \<times> 's cached_adapter" where
  "cached_read env now cache_key view answer a =
     (case cache_get (env_store env) cache_key (row_cache a) of
        (Some rows, c) \<Rightarrow> (Inr rows, a\<lparr>row_cache := c\<rparr>)
      | (None, c) \<Rightarrow>
          (case answer of
             Inl e \<Rightarrow> (Inl e, a\<lparr>row_cache := c\<rparr>)
           | Inr rows \<Rightarrow>
               (Inr rows,
                a\<lparr>row_cache := put_arc (env_store env) (env_len env) now cache_key rows [view]
                    (map_of (view_ttl_overrides a) view) (view_name_to_entity_type view) c\<rparr>)))"

definition execute_with_projection_impl ::
  "'s cache_env \<Rightarrow> ('w, 'e) database \<Rightarrow> u64 \<Rightarrow> string \<Rightarrow> sql_projection_hint option \<Rightarrow> where_clause option \<Rightarrow>
   u32 option \<Rightarrow> u32 option \<Rightarrow> order_by_clause list option \<Rightarrow> 'w \<Rightarrow> 's cached_adapter \<Rightarrow>
   ('e + json list) \<times> 's cached_adapter" where
  "execute_with_projection_impl env db now view projection where_clause limit offset order_by w a =
     (let answer = db_projection db view projection where_clause limit offset order_by w in
      if bypasses a view then (answer, a)
      else cached_read env now
             (generate_projection_query_key (env_hash env) (env_texts env) view
                (map_option projection_template projection) where_clause limit offset order_by
                (adapter_schema_version a))
             view answer a)"

definition execute_where_query_impl ::
  "'s cache_env \<Rightarrow> ('w, 'e) database \<Rightarrow> u64 \<Rightarrow> string \<Rightarrow> where_clause option \<Rightarrow>
   u32 option \<Rightarrow> u32 option \<Rightarrow> order_by_clause list option \<Rightarrow> 'w \<Rightarrow> 's cached_adapter \<Rightarrow>
   ('e + json list) \<times> 's cached_adapter" where
  "execute_where_query_impl env db now view where_clause limit offset order_by w a =
     (let answer = db_where db view where_clause limit offset order_by w in
      if bypasses a view then (answer, a)
      else cached_read env now
             (generate_view_query_key (env_hash env) (env_texts env) view where_clause limit offset order_by
                (adapter_schema_version a))
             view answer a)"

section \<open>Invalidation\<close>

text \<open>
  The views with their transitive dependents when a cascade invalidator is configured; the
  invalidator counts each call.
\<close>

fun expand_views :: "string list \<Rightarrow> cascade_invalidator \<Rightarrow> string set \<times> cascade_invalidator" where
  "expand_views [] ci = ({}, ci)"
| "expand_views (v # vs) ci =
     (let (transitive, ci1) = cascade_invalidate ci v; (rest, ci2) = expand_views vs ci1
      in (transitive \<union> rest, ci2))"

definition expanded_views ::
  "'s cache_env \<Rightarrow> string list \<Rightarrow> 's cached_adapter \<Rightarrow> string list \<times> 's cached_adapter" where
  "expanded_views env views a =
     (case adapter_cascade a of
        None \<Rightarrow> (views, a)
      | Some ci \<Rightarrow>
          (let (transitive, ci') = expand_views views ci
           in (env_order env (set views \<union> transitive), a\<lparr>adapter_cascade := Some ci'\<rparr>)))"

definition adapter_invalidate_views ::
  "'s cache_env \<Rightarrow> string list \<Rightarrow> 's cached_adapter \<Rightarrow> u64 \<times> 's cached_adapter" where
  "adapter_invalidate_views env views a =
     (if \<not> enabled (config (row_cache a)) then (0, a)
      else let (expanded, a1) = expanded_views env views a;
               (n, c) = invalidate_views (env_store env) expanded (row_cache a1)
           in (n, a1\<lparr>row_cache := c\<rparr>))"

definition adapter_invalidate_list_queries ::
  "'s cache_env \<Rightarrow> string list \<Rightarrow> 's cached_adapter \<Rightarrow> u64 \<times> 's cached_adapter" where
  "adapter_invalidate_list_queries env views a =
     (if \<not> enabled (config (row_cache a)) then (0, a)
      else let (expanded, a1) = expanded_views env views a;
               (n, c) = invalidate_list_queries (env_store env) expanded (row_cache a1)
           in (n, a1\<lparr>row_cache := c\<rparr>))"

definition adapter_invalidate_by_entity ::
  "'s cache_env \<Rightarrow> string \<Rightarrow> string \<Rightarrow> 's cached_adapter \<Rightarrow> u64 \<times> 's cached_adapter" where
  "adapter_invalidate_by_entity env et eid a =
     (let (n, c) = invalidate_by_entity (env_store env) et eid (row_cache a)
      in (n, a\<lparr>row_cache := c\<rparr>))"

definition cascade_view_name :: "string \<Rightarrow> string" where
  "cascade_view_name et = ''v_'' @ to_lowercase et"

definition invalidate_cascade_entities ::
  "'s cache_env \<Rightarrow> json \<Rightarrow> 's cached_adapter \<Rightarrow> (entity_error + u64) \<times> 's cached_adapter" where
  "invalidate_cascade_entities env response a =
     (case parse_cascade_response response of
        Inl e \<Rightarrow> (Inl e, a)
      | Inr entities \<Rightarrow>
          if \<not> has_changes entities then (Inr 0, a)
          else let views = env_order env (set (map (\<lambda>k. cascade_view_name (entity_type k)) (all_affected entities)));
                   (n, c) = invalidate_views (env_store env) views (row_cache a)
               in (Inr n, a\<lparr>row_cache := c\<rparr>))"

section \<open>Aggregates on fact tables\<close>

definition extract_fact_table_from_sql :: "string \<Rightarrow> string option" where
  "extract_fact_table_from_sql sql =
     (let sql_lower = to_lowercase sql in
      case find_substring ''from '' sql_lower of
        None \<Rightarrow> None
      | Some i \<Rightarrow>
          (let trimmed = trim_start (drop (i + 5) sql_lower) in
           if starts_with ''tf_'' trimmed
           then Some (takeWhile (\<lambda>c. \<not> (is_whitespace c \<or> c = CHR '','' \<or> c = CHR '')'')) trimmed)
           else None))"

definition aggregation_calls :: "string \<Rightarrow> string \<Rightarrow> string option \<Rightarrow> hash_call list" where
  "aggregation_calls sql schema_version version_component =
     [WriteU8 65, Write sql, Write schema_version] @
     (case version_component of Some vc \<Rightarrow> [WriteU8 1, Write vc] | None \<Rightarrow> [WriteU8 0])"

text \<open>The hasher of these keys has seeds of its own: another function of the calls.\<close>

definition generate_aggregation_cache_key ::
  "(hash_call list \<Rightarrow> u64) \<Rightarrow> string \<Rightarrow> string \<Rightarrow> string option \<Rightarrow> u64" where
  "generate_aggregation_cache_key finish sql schema_version version_component =
     finish (aggregation_calls sql schema_version version_component)"

definition version_query :: "string \<Rightarrow> string" where
  "version_query table =
     ''SELECT version FROM tf_versions WHERE table_name = '' @ [squote] @
     replace_char squote [squote, squote] table @ [squote]"

definition fetch_table_version ::
  "('w, 'e) database \<Rightarrow> nat \<Rightarrow> string \<Rightarrow> 'w \<Rightarrow> version_provider \<Rightarrow> int option \<times> version_provider" where
  "fetch_table_version db now table w p =
     (case get_cached_version now p table of
        Some v \<Rightarrow> (Some v, p)
      | None \<Rightarrow>
          (case db_raw db (version_query table) w of
             Inr (row # rows) \<Rightarrow>
               (case map_of row ''version'' of
                  Some (JNumber n) \<Rightarrow>
                    (case as_i64 (JNumber n) of
                       Some v \<Rightarrow> (Some v, set_cached_version now table v p)
                     | None \<Rightarrow> (None, p))
                | _ \<Rightarrow> (None, p))
           | _ \<Rightarrow> (None, p)))"

text \<open>Rows go into the cache as objects and come back as maps.\<close>

definition row_to_value :: "raw_row \<Rightarrow> json" where
  "row_to_value row = JObject (sort_entries row)"

definition rows_of_values :: "json list \<Rightarrow> raw_row list" where
  "rows_of_values vs = List.map_filter as_object vs"

definition execute_aggregation_query ::
  "'s cache_env \<Rightarrow> (hash_call list \<Rightarrow> u64) \<Rightarrow> ('w, 'e) database \<Rightarrow> u64 \<Rightarrow> nat \<Rightarrow> string \<Rightarrow> 'w \<Rightarrow>
   's cached_adapter \<Rightarrow> (('e + raw_row list) \<times> 's cached_adapter) option" where
  "execute_aggregation_query env finish db now_secs now sql w a =
     (case extract_fact_table_from_sql sql of
        None \<Rightarrow> Some (db_raw db sql w, a)
      | Some table \<Rightarrow>
          (let strategy = get_strategy (fact_tables a) table in
           if \<not> is_caching_enabled strategy then Some (db_raw db sql w, a)
           else let (version, p) = (if strategy = VersionTable
                                    then fetch_table_version db now table w (adapter_versions a)
                                    else (None, adapter_versions a));
                    a1 = a\<lparr>adapter_versions := p\<rparr>
                in case generate_version_key_component now_secs strategy version (adapter_schema_version a) of
                     None \<Rightarrow> None
                   | Some None \<Rightarrow> Some (db_raw db sql w, a1)
                   | Some (Some vc) \<Rightarrow>
                       (let key = generate_aggregation_cache_key finish sql (adapter_schema_version a) (Some vc) in
                        Some (case cache_get (env_store env) key (row_cache a1) of
                          (Some rows, c) \<Rightarrow> (Inr (rows_of_values rows), a1\<lparr>row_cache := c\<rparr>)
                        | (None, c) \<Rightarrow>
                            (case db_raw db sql w of
                               Inl e \<Rightarrow> (Inl e, a1\<lparr>row_cache := c\<rparr>)
                             | Inr rows \<Rightarrow>
                                 (Inr rows,
                                  a1\<lparr>row_cache := put_arc (env_store env) (env_len env) now_secs key
                                      (map row_to_value rows) [table] None None c\<rparr>))))))"

fun bump_fact_table_versions_impl ::
  "('w, 'e) database \<Rightarrow> nat \<Rightarrow> string list \<Rightarrow> 'w \<Rightarrow> 's cached_adapter \<Rightarrow> ('e + unit) \<times> 'w \<times> 's cached_adapter" where
  "bump_fact_table_versions_impl db now [] w a = (Inr (), w, a)"
| "bump_fact_table_versions_impl db now (table # tables) w a =
     (if get_strategy (fact_tables a) table \<noteq> VersionTable
      then bump_fact_table_versions_impl db now tables w a
      else case db_call db ''bump_tf_version'' [JString table] w of
          (Inl e, w1) \<Rightarrow> (Inl e, w1, a)
        | (Inr rows, w1) \<Rightarrow>
            (let new_version = (case rows of
                 [] \<Rightarrow> None
               | row # _ \<Rightarrow> (case List.map_filter (\<lambda>(k, v). as_i64 v) row of v # _ \<Rightarrow> Some v | [] \<Rightarrow> None));
                 a1 = (case new_version of
                         Some v \<Rightarrow> a\<lparr>adapter_versions := set_cached_version now table v (adapter_versions a)\<rparr>
                       | None \<Rightarrow> a)
             in bump_fact_table_versions_impl db now tables w1 a1))"

end
