(* ===== verification/Adapter_Safety.thy ===== *)
theory Adapter_Safety
  imports Cached_Adapter
begin

text \<open>
  What the caching adapter guarantees to its callers: in every run of reads and of writes that are
  followed by \<open>invalidate_views\<close> on the views they change, each read returns what the database
  itself would return at that moment. The run may contain expiry and evictions by the store.
\<close>

section \<open>Requests\<close>

datatype row_request =
    ProjectionRequest string "sql_projection_hint option" "where_clause option" "u32 option" "u32 option"
      "order_by_clause list option"
  | WhereRequest string "where_clause option" "u32 option" "u32 option" "order_by_clause list option"

fun request_view :: "row_request \<Rightarrow> string" where
  "request_view (ProjectionRequest v p w l off ob) = v"
| "request_view (WhereRequest v w l off ob) = v"

fun request_answer :: "('w, 'e) database \<Rightarrow> row_request \<Rightarrow> 'w \<Rightarrow> 'e + json list" where
  "request_answer db (ProjectionRequest v p w l off ob) = db_projection db v p w l off ob"
| "request_answer db (WhereRequest v w l off ob) = db_where db v w l off ob"

fun request_key :: "'s cache_env \<Rightarrow> string \<Rightarrow> row_request \<Rightarrow> u64" where
  "request_key env sv (ProjectionRequest v p w l off ob) =
     generate_projection_query_key (env_hash env) (env_texts env) v (map_option projection_template p) w l off ob sv"
| "request_key env sv (WhereRequest v w l off ob) =
     generate_view_query_key (env_hash env) (env_texts env) v w l off ob sv"

fun execute_request ::
  "'s cache_env \<Rightarrow> ('w, 'e) database \<Rightarrow> u64 \<Rightarrow> row_request \<Rightarrow> 'w \<Rightarrow> 's cached_adapter \<Rightarrow>
   ('e + json list) \<times> 's cached_adapter" where
  "execute_request env db now (ProjectionRequest v p w l off ob) world a =
     execute_with_projection_impl env db now v p w l off ob world a"
| "execute_request env db now (WhereRequest v w l off ob) world a =
     execute_where_query_impl env db now v w l off ob world a"

lemma execute_request_alt:
  "execute_request env db now r w a =
     (if bypasses a (request_view r) then (request_answer db r w, a)
      else cached_read env now (request_key env (adapter_schema_version a) r) (request_view r)
             (request_answer db r w) a)"
  by (cases r) (simp_all add: execute_with_projection_impl_def execute_where_query_impl_def Let_def)

section \<open>Views that an invalidation reaches\<close>

definition affected_views :: "string list \<Rightarrow> 's cached_adapter \<Rightarrow> string set" where
  "affected_views vs a =
     (case adapter_cascade a of
        None \<Rightarrow> set vs
      | Some ci \<Rightarrow> {w. \<exists>v \<in> set vs. (w, v) \<in> (edges ci)\<^sup>*})"

lemma cascade_step:
  assumes "invalidator_ok ci" and "cascade_invalidate ci v = (S, ci')"
  shows "S = {w. (w, v) \<in> (edges ci)\<^sup>*} \<and> invalidator_ok ci' \<and> edges ci' = edges ci \<and> finite S"
proof -
  have S: "S = (mm_rel (dependents ci))\<^sup>* `` {v}" and ci': "ci' = ci\<lparr>inv_stats := update_stats (card S) (inv_stats ci)\<rparr>"
    using assms(2) by (auto simp: cascade_invalidate_def Let_def mark_from_view)
  have "finite (mm_rel (dependents ci))" using assms(1) by (simp add: invalidator_ok_def)
  moreover have "S \<subseteq> insert v (Range (mm_rel (dependents ci)))"
    by (auto simp: S elim: rtranclE)
  ultimately have "finite S" by (meson finite_Range finite_insert finite_subset)
  moreover have "edges ci' = edges ci" by (simp add: ci' edges_def)
  moreover have "invalidator_ok ci'" using assms(1) \<open>edges ci' = edges ci\<close> by (simp add: ci' invalidator_ok_def)
  ultimately show ?thesis using dependents_reach [OF assms(1), of v] by (simp add: S)
qed

lemma expand_views_spec:
  "invalidator_ok ci \<Longrightarrow> expand_views vs ci = (S, ci') \<Longrightarrow>
     S = {w. \<exists>v \<in> set vs. (w, v) \<in> (edges ci)\<^sup>*} \<and> invalidator_ok ci' \<and> finite S"
proof (induction vs arbitrary: ci S ci')
  case (Cons v vs)
  obtain S1 ci1 where c: "cascade_invalidate ci v = (S1, ci1)" by fastforce
  obtain S2 ci2 where e: "expand_views vs ci1 = (S2, ci2)" by fastforce
  note one = cascade_step [OF Cons.prems(1) c]
  then have "invalidator_ok ci1" by blast
  note rest = Cons.IH [OF this e]
  from Cons.prems(2) c e have "S = S1 \<union> S2" "ci' = ci2" by auto
  with one rest show ?case by auto
qed auto

definition cascade_ok :: "'s cached_adapter \<Rightarrow> bool" where
  "cascade_ok a \<longleftrightarrow> (case adapter_cascade a of None \<Rightarrow> True | Some ci \<Rightarrow> invalidator_ok ci)"

definition set_iteration :: "'s cache_env \<Rightarrow> bool" where
  "set_iteration env \<longleftrightarrow> (\<forall>S. finite S \<longrightarrow> set (env_order env S) = S)"

lemma expanded_views_spec:
  assumes "cascade_ok a" and "set_iteration env" and "expanded_views env vs a = (es, a')"
  shows "set es = affected_views vs a \<and> cascade_ok a' \<and> row_cache a' = row_cache a \<and>
    adapter_schema_version a' = adapter_schema_version a"
proof (cases "adapter_cascade a")
  case (Some ci)
  obtain S ci' where e: "expand_views vs ci = (S, ci')" by fastforce
  from assms(1) Some have "invalidator_ok ci" by (simp add: cascade_ok_def)
  note spec = expand_views_spec [OF this e]
  then have "set vs \<union> S = S" "finite S" by auto
  with assms(2) have "set (env_order env (set vs \<union> S)) = S" by (simp add: set_iteration_def)
  with assms(3) Some e spec show ?thesis
    by (auto simp: expanded_views_def affected_views_def cascade_ok_def)
qed (use assms in \<open>auto simp: expanded_views_def affected_views_def cascade_ok_def\<close>)

section \<open>The invariant\<close>

definition current ::
  "('s \<Rightarrow> u64 \<rightharpoonup> cached_result) \<Rightarrow> (row_request \<Rightarrow> 'e + json list) \<Rightarrow> (row_request \<Rightarrow> u64) \<Rightarrow> row_request set \<Rightarrow>
   's query_result_cache \<Rightarrow> bool" where
  "current live answer key R c \<longleftrightarrow> indexed live c \<and> (\<not> enabled (config c) \<longrightarrow> live (store c) = Map.empty) \<and>
     (\<forall>k v. live (store c) k = Some v \<longrightarrow>
        (\<exists>r \<in> R. key r = k \<and> accessed_views v = [request_view r] \<and> answer r = Inr (cached_rows v)))"

lemma current_shrink:
  assumes "current live answer key R c" and "indexed live c'" and "config c' = config c"
    and "\<And>k v. live (store c') k = Some v \<Longrightarrow> live (store c) k = Some v"
  shows "current live answer key R c'"
proof -
  have "live (store c') = Map.empty" if "\<not> enabled (config c')"
    using assms(1,3,4) that by (fastforce simp: current_def)
  with assms show ?thesis unfolding current_def by blast
qed

lemma config_notify_get: "cache_get m k c = (r, c') \<Longrightarrow> config c' = config c"
  by (auto simp: cache_get_def split: if_splits prod.splits option.splits)

lemma get_live:
  assumes "moka_laws m stored live" and "enabled (config c)" and "cache_get m k c = (r, c')"
  shows "r = map_option cached_rows (live (store c) k)"
    and "live (store c') j = Some v \<Longrightarrow> live (store c) j = Some v"
    and "stored (store c') j = Some v \<Longrightarrow> stored (store c) j = Some v"
proof -
  obtain x ns s where g: "m_get m k (store c) = (x, ns, s)" by (cases "m_get m k (store c)")
  from assms(2,3) g have r: "r = map_option cached_rows x" and s: "store c' = s"
    by (auto simp: cache_get_def split: option.splits)
  show "r = map_option cached_rows (live (store c) k)" using r laws_get(1) [OF assms(1) g] by simp
  show "live (store c') j = Some v \<Longrightarrow> live (store c) j = Some v"
    using laws_get(3) [OF assms(1) g] s by simp
  show "stored (store c') j = Some v \<Longrightarrow> stored (store c) j = Some v"
    using evicted_mono [OF laws_get(2) [OF assms(1) g]] s by simp
qed

lemma put_live:
  assumes "moka_laws m stored live"
    and "live (store (put_arc m len now k rows views ttl et c)) j = Some v"
  shows "live (store c) j = Some v \<or>
    j = k \<and> v = new_entry (config c) now rows views ttl et \<and> enabled (config c)"
proof (cases "refuses len c rows")
  case False
  obtain ns s where i: "m_insert m k (new_entry (config c) now rows views ttl et) (store c) = (ns, s)" by fastforce
  from assms(2) False i have "live s j = Some v" by (simp add: put_arc_def Let_def)
  from laws_insert_live [OF assms(1) i this] False show ?thesis
    by (auto simp: refuses_def split: if_splits)
qed (use assms(2) in \<open>simp add: put_arc_def\<close>)

lemma config_put: "config (put_arc m len now k rows views ttl et c) = config c"
  by (simp add: put_arc_def Let_def)

text \<open>
  A read that finds nothing although the store still holds the key would store over it; the guard
  says that this does not happen for the key of the read.
\<close>

definition served :: "('s \<Rightarrow> u64 \<rightharpoonup> cached_result) \<Rightarrow> ('s \<Rightarrow> u64 \<rightharpoonup> cached_result) \<Rightarrow> u64 \<Rightarrow> 's \<Rightarrow> bool" where
  "served stored live k s \<longleftrightarrow> (live s k = None \<longrightarrow> stored s k = None)"

lemma cached_read_current:
  assumes "moka_laws (env_store env) stored live" and "enabled (config (row_cache a))" and "r \<in> R"
    and "current live answer key R (row_cache a)" and "served stored live (key r) (store (row_cache a))"
    and "inj_on key R" and "cached_read env now (key r) (request_view r) (answer r) a = (res, a')"
  shows "res = answer r \<and> current live answer key R (row_cache a') \<and>
    adapter_schema_version a' = adapter_schema_version a \<and> adapter_cascade a' = adapter_cascade a"
proof -
  let ?m = "env_store env" and ?c = "row_cache a"
  obtain x c1 where g: "cache_get ?m (key r) ?c = (x, c1)" by fastforce
  note gl = get_live [OF assms(1,2) g]
  have idx: "indexed live c1" using assms(4) indexed_get [OF assms(1) _ g] by (simp add: current_def)
  have cur: "current live answer key R c1"
    by (rule current_shrink [OF assms(4) idx config_notify_get [OF g] gl(2)])
  show ?thesis
  proof (cases x)
    case (Some rows)
    with gl(1) obtain v where v: "live (store ?c) (key r) = Some v" "rows = cached_rows v"
      by (metis map_option_eq_Some)
    with assms(4) obtain r' where "r' \<in> R" "key r' = key r" "answer r' = Inr rows"
      unfolding current_def by blast
    with assms(3,6) have "answer r = Inr rows" by (metis inj_onD)
    with assms(7) g Some cur show ?thesis by (auto simp: cached_read_def)
  next
    case None
    then have "live (store ?c) (key r) = None" using gl(1) by simp
    then have free: "stored (store c1) (key r) = None"
      using assms(5) gl(3) [of "key r"] by (cases "stored (store c1) (key r)") (auto simp: served_def)
    show ?thesis
    proof (cases "answer r")
      case (Inl e)
      with assms(7) g None cur show ?thesis by (auto simp: cached_read_def)
    next
      case (Inr rows)
      let ?c2 = "put_arc ?m (env_len env) now (key r) rows [request_view r]
          (map_of (view_ttl_overrides a) (request_view r)) (view_name_to_entity_type (request_view r)) c1"
      have "current live answer key R ?c2"
        unfolding current_def
      proof (intro conjI allI impI)
        show "indexed live ?c2" by (rule indexed_put [OF assms(1) idx free])
        show "live (store ?c2) = Map.empty" if "\<not> enabled (config ?c2)"
          using assms(2) that config_notify_get [OF g] by (simp add: config_put)
        fix k v assume "live (store ?c2) k = Some v"
        from put_live [OF assms(1) this] cur Inr assms(3)
        show "\<exists>r\<in>R. key r = k \<and> accessed_views v = [request_view r] \<and> answer r = Inr (cached_rows v)"
          unfolding current_def by (fastforce simp: new_entry_def)
      qed
      with assms(7) g None Inr show ?thesis by (auto simp: cached_read_def)
    qed
  qed
qed

lemma execute_request_current:
  assumes "moka_laws (env_store env) stored live" and "r \<in> R"
    and "current live (\<lambda>r. request_answer db r w) (request_key env (adapter_schema_version a)) R (row_cache a)"
    and "served stored live (request_key env (adapter_schema_version a) r) (store (row_cache a))"
    and "inj_on (request_key env (adapter_schema_version a)) R"
    and "execute_request env db now r w a = (res, a')"
  shows "res = request_answer db r w \<and>
    current live (\<lambda>r. request_answer db r w) (request_key env (adapter_schema_version a)) R (row_cache a') \<and>
    adapter_schema_version a' = adapter_schema_version a \<and> adapter_cascade a' = adapter_cascade a"
proof (cases "bypasses a (request_view r)")
  case False
  then have "enabled (config (row_cache a))" by (simp add: bypasses_def)
  then show ?thesis
    using cached_read_current [OF assms(1) _ assms(2-5)] assms(6) False
    by (simp add: execute_request_alt)
qed (use assms in \<open>auto simp: execute_request_alt\<close>)

text \<open>A write that changes answers on the affected views only, and the invalidation after it.\<close>

lemma invalidation_current:
  assumes "moka_laws (env_store env) stored live" and "cascade_ok a" and "set_iteration env"
    and "current live answer key R (row_cache a)"
    and "\<And>r. request_view r \<notin> affected_views vs a \<Longrightarrow> answer' r = answer r"
    and "adapter_invalidate_views env vs a = (n, a')"
  shows "current live answer' key R (row_cache a') \<and> cascade_ok a' \<and>
    adapter_schema_version a' = adapter_schema_version a"
proof (cases "enabled (config (row_cache a))")
  case True
  obtain es a1 where e: "expanded_views env vs a = (es, a1)" by fastforce
  note spec = expanded_views_spec [OF assms(2,3) e]
  let ?c = "row_cache a" and ?m = "env_store env"
  let ?ks = "remdups (concat (map (index_keys (by_view ?c)) es))"
  have a': "row_cache a' = snd (evict_keys ?m ?ks ?c)" "cascade_ok a'"
    "adapter_schema_version a' = adapter_schema_version a"
    using assms(6) True e spec by (auto simp: adapter_invalidate_views_def invalidate_views_def
        cascade_ok_def split: prod.splits)
  from assms(4) have idx: "indexed live ?c" by (simp add: current_def)
  have "current live answer' key R (snd (evict_keys ?m ?ks ?c))"
    unfolding current_def
  proof (intro conjI allI impI)
    show "indexed live (snd (evict_keys ?m ?ks ?c))" by (rule indexed_evict [OF assms(1) idx])
    show "live (store (snd (evict_keys ?m ?ks ?c))) = Map.empty" if "\<not> enabled (config (snd (evict_keys ?m ?ks ?c)))"
      using that True by simp
    fix k v assume "live (store (snd (evict_keys ?m ?ks ?c))) k = Some v"
    then have k: "k \<notin> set ?ks" and v: "live (store ?c) k = Some v"
      using evict_keys_live [OF assms(1)] by blast+
    from assms(4) v obtain r where r: "r \<in> R" "key r = k" "accessed_views v = [request_view r]"
      "answer r = Inr (cached_rows v)" unfolding current_def by blast
    have "(request_view r, k) \<in> index_rel (by_view ?c)"
      using idx v r(3) vidx.found [of "by_view ?c" "live (store ?c)" k v "request_view r"]
      by (simp add: indexed_def view_labels_def)
    with k have "request_view r \<notin> set es" by (auto simp: index_keys_iff)
    with spec assms(5) r show "\<exists>r\<in>R. key r = k \<and> accessed_views v = [request_view r] \<and> answer' r = Inr (cached_rows v)"
      by auto
  qed
  with a' show ?thesis by simp
next
  case False
  with assms(4) have "live (store (row_cache a)) = Map.empty" "indexed live (row_cache a)"
    by (simp_all add: current_def)
  with False assms(2,6) show ?thesis by (auto simp: adapter_invalidate_views_def current_def)
qed

section \<open>Runs\<close>

inductive adapter_run ::
  "'s cache_env \<Rightarrow> ('w, 'e) database \<Rightarrow> ('s \<Rightarrow> u64 \<rightharpoonup> cached_result) \<Rightarrow> ('s \<Rightarrow> u64 \<rightharpoonup> cached_result) \<Rightarrow>
   row_request set \<Rightarrow> string \<Rightarrow> 'w \<Rightarrow> 's cached_adapter \<Rightarrow> bool"
  for env db stored live R sv where
    start: "cache_new (env_store env) cfg = Some (row_cache a) \<Longrightarrow> adapter_schema_version a = sv \<Longrightarrow>
      cascade_ok a \<Longrightarrow> adapter_run env db stored live R sv w a"
  | read: "adapter_run env db stored live R sv w a \<Longrightarrow> r \<in> R \<Longrightarrow>
      served stored live (request_key env sv r) (store (row_cache a)) \<Longrightarrow>
      execute_request env db now r w a = (res, a') \<Longrightarrow> adapter_run env db stored live R sv w a'"
  | changed: "adapter_run env db stored live R sv w a \<Longrightarrow>
      (\<And>r. request_view r \<notin> affected_views vs a \<Longrightarrow> request_answer db r w' = request_answer db r w) \<Longrightarrow>
      adapter_invalidate_views env vs a = (n, a') \<Longrightarrow> adapter_run env db stored live R sv w' a'"
  | time: "adapter_run env db stored live R sv w a \<Longrightarrow> stored s = stored (store (row_cache a)) \<Longrightarrow>
      live s \<subseteq>\<^sub>m live (store (row_cache a)) \<Longrightarrow>
      adapter_run env db stored live R sv w (a\<lparr>row_cache := (row_cache a)\<lparr>store := s\<rparr>\<rparr>)"

lemma adapter_run_current:
  assumes "moka_laws (env_store env) stored live" and "set_iteration env"
    and "inj_on (request_key env sv) R" and "adapter_run env db stored live R sv w a"
  shows "current live (\<lambda>r. request_answer db r w) (request_key env sv) R (row_cache a) \<and>
    adapter_schema_version a = sv \<and> cascade_ok a"
  using assms(4)
proof (induction rule: adapter_run.induct)
  case (start cfg a w)
  then have "row_cache a = \<lparr>store = m_build (env_store env) (max_entries cfg) (ExpireAfterCreate expire_after_create),
        config = cfg, hits = 0, misses = 0, total_cached = 0, invalidations = 0, memory_bytes = 0,
        by_view = [], by_entity = [], by_list = []\<rparr>"
    by (simp add: cache_new_def split: if_splits)
  with start show ?case by (simp add: current_def indexed_def build_live [OF assms(1)])
next
  case (read w a r now res a')
  then show ?case
    using execute_request_current [OF assms(1) read.hyps(2), of db w a now res a'] assms(3)
    by (simp add: cascade_ok_def)
next
  case (changed w a vs w' n a')
  then show ?case
    using invalidation_current [OF assms(1) _ assms(2), of a "\<lambda>r. request_answer db r w" "request_key env sv" R vs
        "\<lambda>r. request_answer db r w'" n a'] by simp
next
  case (time w a s)
  have live: "live s k = Some v \<Longrightarrow> live (store (row_cache a)) k = Some v" for k v
    by (rule map_leD [OF time.hyps(3)])
  have "indexed live (notify ([], s) (row_cache a))"
    using time.IH live by (intro indexed_shrink) (simp_all add: current_def)
  then have "indexed live ((row_cache a)\<lparr>store := s\<rparr>)" by (simp add: notify_def)
  moreover have "current live (\<lambda>r. request_answer db r w) (request_key env sv) R (row_cache a)"
    using time.IH by blast
  ultimately have "current live (\<lambda>r. request_answer db r w) (request_key env sv) R ((row_cache a)\<lparr>store := s\<rparr>)"
    by (elim current_shrink) (simp_all add: live)
  with time.IH show ?case by (simp add: cascade_ok_def)
qed

section \<open>Properties\<close>


text \<open>
  A concrete run: the database is the list of users, the cache holds the answer from before a
  write, and the write invalidates \<open>v_user\<close>.
\<close>

definition users_db :: "(json list, string) database" where
  "users_db = \<lparr>db_projection = (\<lambda>v p w l off ob rows. Inr (if v = ''v_user'' then rows else [])),
     db_where = (\<lambda>v w l off ob rows. Inr (if v = ''v_user'' then rows else [])),
     db_raw = (\<lambda>sql rows. Inl ''unsupported''), db_call = (\<lambda>f args rows. (Inl ''unsupported'', rows))\<rparr>"

definition any_order :: "string set \<Rightarrow> string list" where
  "any_order S = (SOME xs. set xs = S)"

definition sample_env :: "(u64, cached_result) plain cache_env" where
  "sample_env = \<lparr>env_store = plain_store, env_len = (\<lambda>_. 0), env_hash = (\<lambda>cs. 7),
     env_texts = \<lparr>number_text = (\<lambda>_. []), extended_text = (\<lambda>_. []), native_text = (\<lambda>_. [])\<rparr>,
     env_order = any_order\<rparr>"

definition all_users :: row_request where
  "all_users = WhereRequest ''v_user'' None None None None"

definition sample_adapter :: "(u64, cached_result) plain cached_adapter" where
  "sample_adapter = cached_adapter_new empty_cache ''1''"

lemma sample_env_order: "set_iteration sample_env"
proof -
  have "set (SOME xs. set xs = S) = S" if "finite S" for S :: "string set"
    using someI_ex [OF finite_list [OF that]] .
  then show ?thesis by (simp add: set_iteration_def sample_env_def any_order_def)
qed

definition after_read :: "(u64, cached_result) plain cached_adapter" where
  "after_read = snd (execute_request sample_env users_db 0 all_users two_users sample_adapter)"

definition after_write :: "(u64, cached_result) plain cached_adapter" where
  "after_write = snd (adapter_invalidate_views sample_env [''v_user''] after_read)"

lemma sample_run:
  "adapter_run sample_env users_db plain_stored plain_live {all_users} ''1'' [user_row ''c''] after_write"
proof (rule adapter_run.changed [where w = two_users and n = "fst (adapter_invalidate_views sample_env [''v_user''] after_read)"
    and vs = "[''v_user'']"])
  have run: "adapter_run sample_env users_db plain_stored plain_live {all_users} ''1'' two_users sample_adapter"
    by (rule adapter_run.start [of _ enabled_config])
      (simp_all add: sample_adapter_def cached_adapter_new_def with_fact_table_config_def cascade_ok_def
        cache_new_def sample_env_def plain_store_def empty_cache_def enabled_config_def)
  have ex: "execute_request sample_env users_db 0 all_users two_users sample_adapter =
      (fst (execute_request sample_env users_db 0 all_users two_users sample_adapter), after_read)"
    by (simp add: after_read_def)
  have sv: "served plain_stored plain_live (request_key sample_env ''1'' all_users) (store (row_cache sample_adapter))"
    by (simp add: served_def plain_stored_def sample_adapter_def cached_adapter_new_def with_fact_table_config_def empty_cache_def)
  show "adapter_run sample_env users_db plain_stored plain_live {all_users} ''1'' two_users after_read"
    by (rule adapter_run.read [OF run insertI1 sv ex])
  have "adapter_cascade after_read = None"
    by (simp add: after_read_def execute_request_alt cached_read_def sample_adapter_def cached_adapter_new_def
        with_fact_table_config_def split: prod.splits option.splits sum.splits)
  then show "request_answer users_db r [user_row ''c''] = request_answer users_db r two_users"
    if "request_view r \<notin> affected_views [''v_user''] after_read" for r
    using that by (cases r) (simp_all add: affected_views_def users_db_def)
qed (simp add: after_write_def)

lemma sample_env_sel: "env_store sample_env = plain_store" "env_len sample_env = (\<lambda>_. 0)"
  by (simp_all add: sample_env_def)

lemma all_users_key: "request_key sample_env sv all_users = 7"
  by (simp add: all_users_def sample_env_def generate_view_query_key_def)

lemma sample_execute:
  "execute_request sample_env users_db now all_users rows a =
     (if bypasses a ''v_user'' then (Inr rows, a) else cached_read sample_env now 7 ''v_user'' (Inr rows) a)"
proof -
  have "request_view all_users = ''v_user''" "request_answer users_db all_users rows = Inr rows"
    by (simp_all add: all_users_def users_db_def)
  then show ?thesis by (simp add: execute_request_alt all_users_key)
qed

definition users_cache :: "(u64, cached_result) plain query_result_cache" where
  "users_cache = put_arc plain_store (\<lambda>_. 0) 0 7 two_users [''v_user''] None (Some ''User'')
     (empty_cache\<lparr>misses := 1\<rparr>)"

lemma users_cache_eval:
  "cache_get plain_store 7 empty_cache = (None, empty_cache\<lparr>misses := 1\<rparr>)"
  "fst (cache_get plain_store 7 users_cache) = Some two_users"
  "enabled (config users_cache)" "enabled (config empty_cache)"
  "plain_stored (store (snd (invalidate_views plain_store [''v_user''] users_cache))) 7 = None"
  "view_name_to_entity_type ''v_user'' = Some ''User''"
  by code_simp+

lemma after_read_eq: "after_read = sample_adapter\<lparr>row_cache := users_cache\<rparr>"
proof -
  have "\<not> bypasses sample_adapter ''v_user''" "row_cache sample_adapter = empty_cache" "view_ttl_overrides sample_adapter = []"
    by (simp_all add: bypasses_def sample_adapter_def cached_adapter_new_def with_fact_table_config_def users_cache_eval)
  then show ?thesis
    by (simp add: after_read_def sample_execute cached_read_def users_cache_def users_cache_eval sample_env_sel)
qed

lemma after_read_stale:
  "fst (execute_request sample_env users_db 5 all_users [user_row ''c''] after_read) = Inr two_users"
proof -
  have "\<not> bypasses after_read ''v_user''"
    by (simp add: after_read_eq bypasses_def sample_adapter_def cached_adapter_new_def with_fact_table_config_def users_cache_eval)
  then show ?thesis
    using users_cache_eval(2)
    by (auto simp: sample_execute cached_read_def after_read_eq sample_env_sel split: prod.splits option.splits)
qed

lemma after_write_gone: "plain_stored (store (row_cache after_write)) 7 = None"
  using users_cache_eval(5)
  by (auto simp: after_write_def adapter_invalidate_views_def expanded_views_def after_read_eq sample_adapter_def
      cached_adapter_new_def with_fact_table_config_def users_cache_eval(3) sample_env_sel split: prod.splits)


section \<open>Entity types and view names\<close>

lemma uppercase_no_underscore: "c \<noteq> CHR ''_'' \<Longrightarrow> CHR ''_'' \<notin> set (to_uppercase_char c)"
proof
  assume c: "c \<noteq> CHR ''_''" and "CHR ''_'' \<in> set (to_uppercase_char c)"
  then have "CHR ''_'' = char_of (code c - 32)" and r: "(97 \<le> code c \<and> code c \<le> 122) \<or> 224 \<le> code c"
    by (auto simp: to_uppercase_char_def split: if_splits)
  then have "code (CHR ''_'') = code (char_of (code c - 32))" by (simp only:)
  then have "code (CHR ''_'') = (code c - 32) mod 256" by (simp only: of_char_of)
  moreover have "code c - 32 < 256" using code_less_256 [of c] by linarith
  ultimately show False using r by auto
qed

lemma entity_type_no_underscore:
  assumes "view_name_to_entity_type v = Some et"
  shows "CHR ''_'' \<notin> set et"
proof -
  have "CHR ''_'' \<notin> set (capitalize p)" if "CHR ''_'' \<notin> set p" for p
    using that uppercase_no_underscore [of "hd p"] by (cases p) (simp_all add: capitalize_def eq_commute)
  moreover from assms obtain rest where "et = concat (map capitalize (split_on (CHR ''_'') rest))"
    by (auto simp: view_name_to_entity_type_def split: list.splits if_splits)
  ultimately show ?thesis using split_on_no_sep by fastforce
qed

lemma lowercase_no_underscore:
  assumes "CHR ''_'' \<notin> set s"
  shows "CHR ''_'' \<notin> set (to_lowercase s)"
proof
  assume "CHR ''_'' \<in> set (to_lowercase s)"
  then obtain d where "d \<in> set s" and d: "CHR ''_'' = to_lowercase_char d"
    unfolding to_lowercase_def set_map by (rule imageE)
  then have "d \<noteq> CHR ''_''" using assms by blast
  moreover have "to_lowercase_char c \<noteq> CHR ''_''" if "c \<noteq> CHR ''_''" for c
  proof
    assume "to_lowercase_char c = CHR ''_''"
    with that have "char_of (code c + 32) = CHR ''_''" and r: "is_uppercase c"
      by (auto simp: to_lowercase_char_def split: if_splits)
    then have "code (char_of (code c + 32)) = code (CHR ''_'')" by (simp only:)
    then have "(code c + 32) mod 256 = code (CHR ''_'')" by (simp only: of_char_of)
    then show False using r code_less_256 [of c] by (auto simp: is_uppercase_def)
  qed
  ultimately have "to_lowercase_char d \<noteq> CHR ''_''" by blast
  then show False using d by (rule notE [OF _ sym])
qed

text \<open>
  The view name that cascade invalidation builds from an entity type is \<open>v_\<close> and the type in
  lower case. When every affected entity has the type that the cache derives from some view, a
  view whose name has more than one underscore, such as \<open>v_order_item\<close> of type \<open>OrderItem\<close>, is
  never among the views it invalidates.
\<close>

theorem cascade_entities_miss_view:
  assumes "parse_cascade_response response = Inr entities" and "set_iteration env"
    and "\<And>k. k \<in> set (all_affected entities) \<Longrightarrow> \<exists>u. view_name_to_entity_type u = Some (entity_type k)"
    and "1 < count_list v (CHR ''_'')"
  shows "row_cache (snd (invalidate_cascade_entities env response a)) = row_cache a \<or>
    (\<exists>vs. v \<notin> set vs \<and>
       row_cache (snd (invalidate_cascade_entities env response a)) = snd (invalidate_views (env_store env) vs (row_cache a)))"
proof -
  let ?names = "map (\<lambda>k. cascade_view_name (entity_type k)) (all_affected entities)"
  have "count_list (cascade_view_name (entity_type k)) (CHR ''_'') \<le> 1" if "k \<in> set (all_affected entities)" for k
  proof -
    from assms(3) [OF that] have "CHR ''_'' \<notin> set (entity_type k)" using entity_type_no_underscore by blast
    then have "CHR ''_'' \<notin> set (to_lowercase (entity_type k))" by (rule lowercase_no_underscore)
    then show ?thesis by (simp add: cascade_view_name_def count_notin)
  qed
  then have "v \<notin> set ?names" using assms(4) by (metis (no_types, lifting) ex_map_conv image_iff in_set_conv_nth leD list.set_map)
  then have "v \<notin> set (env_order env (set ?names))" using assms(2) by (simp add: set_iteration_def)
  then show ?thesis
    by (cases "has_changes entities")
      (auto simp: invalidate_cascade_entities_def assms(1) Let_def split: prod.splits)
qed

text \<open>A cascade response that reports an order item, on a cache that holds a list of them.\<close>

definition order_response :: json where
  "order_response = JObject [(''updateOrder'', JObject [(''cascade'', JObject [(''updated'',
     JArray [JObject [(''__typename'', JString ''OrderItem''), (''id'', JString ''1'')]])])])]"

theorem cascade_entities_miss_view_witness:
  "view_name_to_entity_type ''v_order_item'' = Some ''OrderItem'' \<and>
   (row_cache (snd (invalidate_cascade_entities sample_env order_response after_read)) = row_cache after_read \<or>
    (\<exists>vs. ''v_order_item'' \<notin> set vs \<and>
       row_cache (snd (invalidate_cascade_entities sample_env order_response after_read)) =
       snd (invalidate_views (env_store sample_env) vs (row_cache after_read))))"
proof -
  let ?e = "\<lparr>updated = [\<lparr>entity_type = ''OrderItem'', entity_id = ''1''\<rparr>], deleted = []\<rparr>"
  have p: "parse_cascade_response order_response = Inr ?e" by code_simp
  have v: "view_name_to_entity_type ''v_order_item'' = Some ''OrderItem''" by code_simp
  have t: "\<exists>u. view_name_to_entity_type u = Some (entity_type k)" if "k \<in> set (all_affected ?e)" for k
    using that v by (auto simp: all_affected_def)
  have c: "1 < count_list ''v_order_item'' (CHR ''_'')" by simp
  from cascade_entities_miss_view [OF p sample_env_order t c] v show ?thesis by blast
qed

section \<open>Fact tables\<close>

text \<open>Different versions of a fact table make different keys, unless the hash makes them collide.\<close>

lemma version_text_inj: "version_text i = version_text j \<longleftrightarrow> i = j"
proof -
  have "CHR ''-'' \<notin> set (show_nat n)" for n using show_nat_digits [of "CHR ''-''" n] by auto
  then have "show_nat n \<noteq> CHR ''-'' # s" for n s by (metis list.set_intros(1))
  then show ?thesis by (auto simp: version_text_def) metis+
qed

lemma versions_separate:
  assumes "inj_on finish {aggregation_calls sql sv (Some (''tv:'' @ version_text i)), aggregation_calls sql sv (Some (''tv:'' @ version_text j))}"
    and "i \<noteq> j"
  shows "generate_aggregation_cache_key finish sql sv (Some (''tv:'' @ version_text i)) \<noteq>
    generate_aggregation_cache_key finish sql sv (Some (''tv:'' @ version_text j))"
proof
  assume "generate_aggregation_cache_key finish sql sv (Some (''tv:'' @ version_text i)) =
    generate_aggregation_cache_key finish sql sv (Some (''tv:'' @ version_text j))"
  then have "aggregation_calls sql sv (Some (''tv:'' @ version_text i)) = aggregation_calls sql sv (Some (''tv:'' @ version_text j))"
    by (intro inj_onD [OF assms(1)]) (simp_all add: generate_aggregation_cache_key_def)
  with assms(2) show False by (simp add: aggregation_calls_def version_text_inj)
qed

text \<open>
  A fact table whose strategy is \<open>TimeBased\<close> with a duration of zero makes every aggregate on it
  panic, and no other configuration panics.
\<close>

lemma zero_ttl_panics:
  "execute_aggregation_query env finish db now_secs now sql w a = None \<longleftrightarrow>
     (\<exists>table. extract_fact_table_from_sql sql = Some table \<and> get_strategy (fact_tables a) table = TimeBased 0)"
  by (auto simp: execute_aggregation_query_def generate_version_key_component_def is_caching_enabled_def Let_def
      split: option.splits version_strategy.splits prod.splits if_splits)

lemma enforce_rls_error_mode:
  "enforce_rls db RlsError w = Inr () \<longleftrightarrow>
     (\<exists>row rows s. db_raw db rls_query w = Inr (row # rows) \<and> map_of row ''rls_setting'' = Some (JString s) \<and>
        s \<in> {''on'', ''force''})"
  by (auto simp: enforce_rls_def validate_rls_active_def Let_def Option.bind_eq_Some_conv
      split: sum.splits list.splits option.splits if_splits)

end
