(* ===== verification/Query_Matcher.thy ===== *)
theory Query_Matcher
  imports Mutation_Executor Rest_Paging "HOL-Library.AList"
begin

text \<open>
  From a parsed GraphQL query to a matched query: the AST (\<open>fraiseql-core/src/graphql/types.rs\<close>),
  fragment resolution (\<open>graphql/fragment_resolver.rs\<close>), the directives \<open>@skip\<close> and \<open>@include\<close>
  (\<open>graphql/directive_evaluator/evaluator.rs\<close>), the matcher (\<open>runtime/matcher.rs\<close>) and the planner
  (\<open>runtime/planner.rs\<close>). The parser is the \<open>graphql-parser\<close> crate behind a thin layer: a parsed
  query is an argument. Variables are the entries of the object in the request.
\<close>

section \<open>The AST\<close>

record graphql_argument =
  argument_name :: string
  argument_value_type :: string
  argument_value_json :: string

record directive =
  directive_name :: string
  directive_arguments :: "graphql_argument list"

datatype field_selection =
  FieldSelection (sel_name: string) (sel_alias: "string option") (sel_arguments: "graphql_argument list")
    (sel_nested: "field_selection list") (sel_directives: "directive list")

definition response_key :: "field_selection \<Rightarrow> string" where
  "response_key f = (case sel_alias f of Some a \<Rightarrow> a | None \<Rightarrow> sel_name f)"

record fragment_definition =
  fragment_name :: string
  type_condition :: string
  fragment_selections :: "field_selection list"
  fragment_spreads :: "string list"

record parsed_query =
  operation_type :: string
  operation_name :: "string option"
  root_field :: string
  parsed_selections :: "field_selection list"
  variable_defaults :: "(string \<times> string option) list"
  parsed_fragments :: "fragment_definition list"
  query_source :: string

definition query_signature :: "parsed_query \<Rightarrow> string" where
  "query_signature p = operation_type p @ ''::'' @ root_field p"

definition is_cacheable :: "parsed_query \<Rightarrow> bool" where
  "is_cacheable p \<longleftrightarrow> variable_defaults p = []"

section \<open>Fragments\<close>

datatype fragment_error =
    FragmentNotFound string
  | FragmentDepthExceeded nat
  | CircularFragmentReference

text \<open>Of fragments with one name the last counts.\<close>

definition find_fragment :: "fragment_definition list \<Rightarrow> string \<Rightarrow> fragment_definition option" where
  "find_fragment fragments name = map_of (rev (map (\<lambda>f. (fragment_name f, f)) fragments)) name"

text \<open>
  The fields of a selection are resolved one by one and the results appended. \<open>visited\<close> holds the
  named fragments on the path from the root, so the loop gives it back as it got it.
\<close>

definition with_nested :: "field_selection \<Rightarrow> field_selection list \<Rightarrow> field_selection" where
  "with_nested f ns = FieldSelection (sel_name f) (sel_alias f) (sel_arguments f) ns (sel_directives f)"

function resolve_selections ::
  "fragment_definition list \<Rightarrow> nat \<Rightarrow> field_selection list \<Rightarrow> nat \<Rightarrow> string set \<Rightarrow>
   fragment_error + field_selection list" where
  "resolve_selections fragments max_depth selections depth visited =
     (if max_depth < depth then Inl (FragmentDepthExceeded max_depth)
      else try_bind (collect_results (\<lambda>selection.
             let keep = (if sel_nested selection = [] then Inr [selection]
                         else try_bind (resolve_selections fragments max_depth (sel_nested selection) (Suc depth) visited)
                                (\<lambda>ns. Inr [with_nested selection ns]))
             in case strip_prefix ''...'' (sel_name selection) of
                  None \<Rightarrow> keep
                | Some name \<Rightarrow>
                    if starts_with ''on '' name then keep
                    else if name \<in> visited then Inl CircularFragmentReference
                    else case find_fragment fragments name of
                        None \<Rightarrow> Inl (FragmentNotFound name)
                      | Some fragment \<Rightarrow>
                          resolve_selections fragments max_depth (fragment_selections fragment) (Suc depth)
                            (insert name visited)) selections)
             (\<lambda>parts. Inr (concat parts)))"
  by pat_completeness auto
termination
  by (relation "measure (\<lambda>(fragments, max_depth, selections, depth, visited). Suc max_depth - depth)") auto

declare resolve_selections.simps [simp del]

definition resolve_spreads :: "fragment_definition list \<Rightarrow> field_selection list \<Rightarrow> fragment_error + field_selection list" where
  "resolve_spreads fragments selections = resolve_selections fragments 10 selections 0 {}"

definition evaluate_inline_fragment ::
  "field_selection list \<Rightarrow> string option \<Rightarrow> string \<Rightarrow> field_selection list" where
  "evaluate_inline_fragment selections cond actual =
     (if cond = None then selections else if cond = Some actual then selections else [])"

fun deduplicate_loop :: "string set \<Rightarrow> field_selection list \<Rightarrow> field_selection list" where
  "deduplicate_loop seen [] = []"
| "deduplicate_loop seen (f # fs) =
     (if response_key f \<in> seen then deduplicate_loop seen fs
      else f # deduplicate_loop (insert (response_key f) seen) fs)"

definition deduplicate_fields :: "field_selection list \<Rightarrow> field_selection list" where
  "deduplicate_fields fs = deduplicate_loop {} fs"

text \<open>The values of the map by response key, in the order of insertion.\<close>

definition merge_field ::
  "field_selection \<Rightarrow> (string \<times> field_selection) list \<Rightarrow> (string \<times> field_selection) list" where
  "merge_field field by_key =
     (case map_of by_key (response_key field) of
        Some existing \<Rightarrow>
          if sel_nested field = [] then by_key
          else AList.update (response_key field)
                 (with_nested existing (deduplicate_fields (sel_nested existing @ sel_nested field))) by_key
      | None \<Rightarrow> AList.update (response_key field) field by_key)"

definition merge_selections :: "field_selection list \<Rightarrow> field_selection list \<Rightarrow> field_selection list" where
  "merge_selections base additional =
     map snd (fold merge_field additional (fold (\<lambda>f. AList.update (response_key f) f) base []))"

section \<open>Directives\<close>

datatype directive_error =
    MissingDirectiveArgument string
  | UndefinedVariable string
  | VariableTypeMismatch string
  | InvalidDirectiveArgument

type_synonym variables = "(string \<times> json) list"

definition boolean_variable :: "variables \<Rightarrow> string \<Rightarrow> directive_error + bool" where
  "boolean_variable vars name =
     (case map_of vars name of
        None \<Rightarrow> Inl (UndefinedVariable name)
      | Some (JBool b) \<Rightarrow> Inr b
      | Some _ \<Rightarrow> Inl (VariableTypeMismatch name))"

definition resolve_boolean_condition :: "text_parsers \<Rightarrow> string \<Rightarrow> variables \<Rightarrow> directive_error + bool" where
  "resolve_boolean_condition P value_json vars =
     (case parse_json P value_json of
        Some (JBool b) \<Rightarrow> Inr b
      | Some (JString s) \<Rightarrow>
          (case strip_prefix ''$'' s of
             Some name \<Rightarrow> boolean_variable vars name
           | None \<Rightarrow> Inl InvalidDirectiveArgument)
      | Some _ \<Rightarrow> Inl InvalidDirectiveArgument
      | None \<Rightarrow>
          (case strip_prefix ''$'' value_json of
             Some name \<Rightarrow> boolean_variable vars name
           | None \<Rightarrow> Inl InvalidDirectiveArgument))"

definition directive_condition :: "text_parsers \<Rightarrow> directive \<Rightarrow> variables \<Rightarrow> directive_error + bool" where
  "directive_condition P d vars =
     (case List.find (\<lambda>a. argument_name a = ''if'') (directive_arguments d) of
        None \<Rightarrow> Inl (MissingDirectiveArgument ''if'')
      | Some a \<Rightarrow> resolve_boolean_condition P (argument_value_json a) vars)"

fun evaluate_directives :: "text_parsers \<Rightarrow> directive list \<Rightarrow> variables \<Rightarrow> directive_error + bool" where
  "evaluate_directives P [] vars = Inr True"
| "evaluate_directives P (d # ds) vars =
     (if directive_name d = ''skip'' then
        try_bind (directive_condition P d vars) (\<lambda>b. if b then Inr False else evaluate_directives P ds vars)
      else if directive_name d = ''include'' then
        try_bind (directive_condition P d vars) (\<lambda>b. if \<not> b then Inr False else evaluate_directives P ds vars)
      else evaluate_directives P ds vars)"

fun filter_selections :: "text_parsers \<Rightarrow> variables \<Rightarrow> field_selection list \<Rightarrow> directive_error + field_selection list"
  and filter_nested :: "text_parsers \<Rightarrow> variables \<Rightarrow> field_selection \<Rightarrow> directive_error + field_selection" where
  "filter_selections P vars [] = Inr []"
| "filter_selections P vars (f # fs) =
     try_bind (evaluate_directives P (sel_directives f) vars) (\<lambda>included.
       if included then
         try_bind (filter_nested P vars f) (\<lambda>g.
         try_bind (filter_selections P vars fs) (\<lambda>gs. Inr (g # gs)))
       else filter_selections P vars fs)"
| "filter_nested P vars (FieldSelection n al args ns ds) =
     (if ns = [] then Inr (FieldSelection n al args ns ds)
      else try_bind (filter_selections P vars ns) (\<lambda>ms. Inr (FieldSelection n al args ms ds)))"

definition resolve_argument_value :: "text_parsers \<Rightarrow> string \<Rightarrow> variables \<Rightarrow> directive_error + json" where
  "resolve_argument_value P value_json vars =
     (let lookup = (\<lambda>name. case map_of vars name of Some v \<Rightarrow> Inr v | None \<Rightarrow> Inl (UndefinedVariable name)) in
      case parse_json P value_json of
        Some (JString s) \<Rightarrow>
          (case strip_prefix ''$'' s of Some name \<Rightarrow> lookup name | None \<Rightarrow> Inr (JString s))
      | Some v \<Rightarrow> Inr v
      | None \<Rightarrow>
          (case strip_prefix ''$'' value_json of
             Some name \<Rightarrow> lookup name
           | None \<Rightarrow> Inr (JString value_json)))"

definition parse_directive_args :: "text_parsers \<Rightarrow> directive \<Rightarrow> variables \<Rightarrow> directive_error + (string \<times> json) list" where
  "parse_directive_args P d vars =
     try_bind (collect_results (\<lambda>a. try_bind (resolve_argument_value P (argument_value_json a) vars)
                 (\<lambda>v. Inr (argument_name a, v))) (directive_arguments d))
       (\<lambda>es. Inr (fold (\<lambda>(k, v). AList.update k v) es []))"

section \<open>The matcher\<close>

record matched = query_match +
  match_fields :: "string list"
  match_selections :: "field_selection list"
  match_operation_name :: "string option"

fun fragment_error_text :: "fragment_error \<Rightarrow> string" where
  "fragment_error_text (FragmentNotFound n) = ''Fragment not found: '' @ n"
| "fragment_error_text (FragmentDepthExceeded m) = ''Fragment depth exceeded (max: '' @ show_nat m @ '')''"
| "fragment_error_text CircularFragmentReference = ''Circular fragment reference detected''"

fun directive_error_text :: "directive_error \<Rightarrow> string" where
  "directive_error_text (MissingDirectiveArgument n) = ''Missing directive argument: '' @ n"
| "directive_error_text (UndefinedVariable n) = ''Undefined variable: '' @ n"
| "directive_error_text (VariableTypeMismatch n) = ''Variable type mismatch: '' @ n @ '' should be Boolean''"
| "directive_error_text InvalidDirectiveArgument = ''Invalid directive argument''"

definition map_error :: "('e \<Rightarrow> string) \<Rightarrow> 'e + 'a \<Rightarrow> db_error + 'a" where
  "map_error text r = (case r of Inl e \<Rightarrow> Inl (Validation (text e)) | Inr v \<Rightarrow> Inr v)"

text \<open>\<open>build_variables_map\<close> and \<open>extract_arguments\<close>, which are the same.\<close>

definition extract_arguments :: "json option \<Rightarrow> variables" where
  "extract_arguments vars = (case vars of Some (JObject es) \<Rightarrow> es | _ \<Rightarrow> [])"

definition resolve_inline_arg :: "text_parsers \<Rightarrow> graphql_argument \<Rightarrow> (string \<rightharpoonup> json) \<Rightarrow> json option" where
  "resolve_inline_arg P arg args =
     (case strip_prefix ''$'' (argument_value_json arg) of
        Some name \<Rightarrow> args name
      | None \<Rightarrow>
          (case parse_json P (argument_value_json arg) of
             None \<Rightarrow> None
           | Some (JString s) \<Rightarrow>
               (case strip_prefix ''$'' s of Some name \<Rightarrow> args name | None \<Rightarrow> Some (JString s))
           | Some v \<Rightarrow> Some v))"

definition merge_inline_arg :: "text_parsers \<Rightarrow> graphql_argument \<Rightarrow> (string \<rightharpoonup> json) \<Rightarrow> string \<rightharpoonup> json" where
  "merge_inline_arg P arg args =
     (if args (argument_name arg) = None
      then (case resolve_inline_arg P arg args of Some v \<Rightarrow> args(argument_name arg \<mapsto> v) | None \<Rightarrow> args)
      else args)"

definition query_missing :: "compiled_schema \<Rightarrow> string \<Rightarrow> db_error" where
  "query_missing schema name =
     Validation (''Query '' @ quoted name @ '' not found in schema'' @
       (case suggest_similar name (map (\<lambda>q. display_name schema (query_name q)) (schema_queries schema)) of
          [] \<Rightarrow> []
        | [s] \<Rightarrow> ''. Did you mean '' @ quoted s @ ''?''
        | [a, b] \<Rightarrow> ''. Did you mean '' @ quoted a @ '' or '' @ quoted b @ ''?''
        | a # b # c # _ \<Rightarrow> ''. Did you mean '' @ quoted a @ '', '' @ quoted b @ '', or '' @ quoted c @ ''?''))"

text \<open>The query text is parsed; what \<open>parse_query\<close> returned is the argument.\<close>

definition match_query :: "text_parsers \<Rightarrow> compiled_schema \<Rightarrow> parsed_query \<Rightarrow> json option \<Rightarrow> db_error + matched" where
  "match_query P schema parsed vars =
     try_bind (map_error fragment_error_text (resolve_spreads (parsed_fragments parsed) (parsed_selections parsed))) (\<lambda>resolved.
     try_bind (map_error directive_error_text (filter_selections P (extract_arguments vars) resolved)) (\<lambda>final.
     case find_query (schema_queries schema) (root_field parsed) of
       None \<Rightarrow> Inl (query_missing schema (root_field parsed))
     | Some q \<Rightarrow>
         (let args = map_of (extract_arguments vars);
              merged = (case final of root # _ \<Rightarrow> fold (merge_inline_arg P) (sel_arguments root) args | [] \<Rightarrow> args)
          in Inr \<lparr>query_def = q, match_arguments = merged, match_fields = map sel_name final,
                  match_selections = final, match_operation_name = operation_name parsed\<rparr>)))"

definition from_operation :: "query_definition \<Rightarrow> string list \<Rightarrow> (string \<rightharpoonup> json) \<Rightarrow> matched" where
  "from_operation q fs args =
     \<lparr>query_def = q, match_arguments = args, match_fields = fs,
      match_selections = map (\<lambda>f. FieldSelection f None [] [] []) fs, match_operation_name = None\<rparr>"

section \<open>The planner\<close>

text \<open>The parameters of a plan are the arguments of the match; its cost is a function of its own.\<close>

datatype jsonb_strategy = Project | Stream

record execution_plan =
  plan_sql :: string
  plan_projection_fields :: "string list"
  plan_strategy :: jsonb_strategy

definition extract_projection_fields :: "field_selection list \<Rightarrow> string list" where
  "extract_projection_fields selections =
     (case selections of
        [] \<Rightarrow> []
      | root # _ \<Rightarrow> map response_key (filter (\<lambda>f. sel_name f \<noteq> ''__typename'') (sel_nested root)))"

definition choose_jsonb_strategy :: "jsonb_strategy \<Rightarrow> string list \<Rightarrow> jsonb_strategy" where
  "choose_jsonb_strategy dflt fs = (if fs = [] then dflt else Project)"

definition plan_query :: "jsonb_strategy \<Rightarrow> matched \<Rightarrow> execution_plan" where
  "plan_query dflt qm =
     (let fs = extract_projection_fields (match_selections qm)
      in \<lparr>plan_sql = ''SELECT data FROM '' @ (case sql_source (query_def qm) of Some t \<Rightarrow> t | None \<Rightarrow> ''unknown''),
          plan_projection_fields = fs,
          plan_strategy = choose_jsonb_strategy dflt fs\<rparr>)"

definition estimate_cost :: "matched \<Rightarrow> nat" where
  "estimate_cost qm = 100 + length (match_fields qm) * 10 + card (dom (match_arguments qm)) * 5"

section \<open>Resolution leaves no spread\<close>

definition spread_name :: "string \<Rightarrow> bool" where
  "spread_name n \<longleftrightarrow> (case strip_prefix ''...'' n of Some name \<Rightarrow> \<not> starts_with ''on '' name | None \<Rightarrow> False)"

abbreviation is_spread :: "field_selection \<Rightarrow> bool" where
  "is_spread f \<equiv> spread_name (sel_name f)"

primrec spread_free :: "field_selection \<Rightarrow> bool" where
  "spread_free (FieldSelection n al args ns ds) \<longleftrightarrow>
     \<not> spread_name n \<and> list_all (\<lambda>b. b) (map spread_free ns)"

lemma spread_free_with_nested: "spread_free (with_nested f ns) \<longleftrightarrow> \<not> is_spread f \<and> list_all spread_free ns"
  by (simp add: with_nested_def list_all_iff)

lemma spread_free_leaf: "\<not> is_spread f \<Longrightarrow> sel_nested f = [] \<Longrightarrow> spread_free f"
  by (cases f) simp

text \<open>What one field resolves to, and the loop over the fields.\<close>

definition resolve_field ::
  "fragment_definition list \<Rightarrow> nat \<Rightarrow> nat \<Rightarrow> string set \<Rightarrow> field_selection \<Rightarrow> fragment_error + field_selection list" where
  "resolve_field fragments max_depth depth visited selection =
     (if \<not> is_spread selection then
        (if sel_nested selection = [] then Inr [selection]
         else try_bind (resolve_selections fragments max_depth (sel_nested selection) (Suc depth) visited)
                (\<lambda>ns. Inr [with_nested selection ns]))
      else let name = drop (length (''...'' :: string)) (sel_name selection) in
        if name \<in> visited then Inl CircularFragmentReference
        else case find_fragment fragments name of
            None \<Rightarrow> Inl (FragmentNotFound name)
          | Some fragment \<Rightarrow>
              resolve_selections fragments max_depth (fragment_selections fragment) (Suc depth) (insert name visited))"

lemma resolve_selections_alt:
  "resolve_selections fragments max_depth selections depth visited =
     (if max_depth < depth then Inl (FragmentDepthExceeded max_depth)
      else try_bind (collect_results (resolve_field fragments max_depth depth visited) selections)
             (\<lambda>parts. Inr (concat parts)))"
proof -
  have "(\<lambda>selection.
             let keep = (if sel_nested selection = [] then Inr [selection]
                         else try_bind (resolve_selections fragments max_depth (sel_nested selection) (Suc depth) visited)
                                (\<lambda>ns. Inr [with_nested selection ns]))
             in case strip_prefix ''...'' (sel_name selection) of
                  None \<Rightarrow> keep
                | Some name \<Rightarrow>
                    if starts_with ''on '' name then keep
                    else if name \<in> visited then Inl CircularFragmentReference
                    else case find_fragment fragments name of
                        None \<Rightarrow> Inl (FragmentNotFound name)
                      | Some fragment \<Rightarrow>
                          resolve_selections fragments max_depth (fragment_selections fragment) (Suc depth)
                            (insert name visited)) = resolve_field fragments max_depth depth visited"
    by (rule ext) (simp add: resolve_field_def spread_name_def strip_prefix_def Let_def del: list.size split: option.splits)
  then show ?thesis by (subst resolve_selections.simps) simp
qed

lemma resolve_selections_induct [case_names step]:
  assumes "\<And>selections depth visited.
      (\<And>ss d v. depth \<le> max_depth \<Longrightarrow> d = Suc depth \<Longrightarrow> P ss d v) \<Longrightarrow> P selections depth visited"
  shows "P selections depth visited"
proof (induction "Suc max_depth - depth" arbitrary: selections depth visited rule: less_induct)
  case less
  show ?case
    by (rule assms) (rule less, simp)
qed

lemma resolved_spread_free:
  "resolve_selections fragments max_depth selections depth visited = Inr out \<Longrightarrow> list_all spread_free out"
proof (induction selections depth visited arbitrary: out rule: resolve_selections_induct [where max_depth = max_depth])
  case (step selections depth visited)
  from step.prems obtain parts where d: "depth \<le> max_depth"
    and parts: "collect_results (resolve_field fragments max_depth depth visited) selections = Inr parts"
    and out: "out = concat parts"
    by (auto simp: resolve_selections_alt [of _ _ selections] try_bind_eq_Inr split: if_splits)
  have "list_all (list_all spread_free) parts"
  proof (rule collect_results_all [OF parts])
    fix f part assume "resolve_field fragments max_depth depth visited f = Inr part"
    then show "list_all spread_free part"
      using step.IH [OF d refl]
      by (auto simp: resolve_field_def Let_def try_bind_eq_Inr spread_free_with_nested spread_free_leaf
          split: if_splits option.splits)
  qed
  then show ?case by (auto simp: out list_all_iff)
qed

section \<open>Resolution is the expansion of fragments\<close>

abbreviation spread_of :: "field_selection \<Rightarrow> string" where
  "spread_of f \<equiv> drop (length (''...'' :: string)) (sel_name f)"

text \<open>
  The specification: a spread stands for the expansion of its fragment, every other field keeps
  its place with its own fields expanded. The number bounds the nesting of fields and fragments.
\<close>

inductive expands :: "fragment_definition list \<Rightarrow> nat \<Rightarrow> field_selection list \<Rightarrow> field_selection list \<Rightarrow> bool"
  for fragments :: "fragment_definition list" where
  none: "expands fragments h [] []"
| plain: "expands fragments h (f # fs) (f # out)"
    if "\<not> is_spread f" "sel_nested f = []" "expands fragments h fs out"
| nested: "expands fragments (Suc h) (f # fs) (with_nested f ns # out)"
    if "\<not> is_spread f" "sel_nested f \<noteq> []" "expands fragments h (sel_nested f) ns" "expands fragments (Suc h) fs out"
| spread: "expands fragments (Suc h) (f # fs) (part @ out)"
    if "is_spread f" "find_fragment fragments (spread_of f) = Some fragment"
      "expands fragments h (fragment_selections fragment) part" "expands fragments (Suc h) fs out"

inductive_simps expands_Nil: "expands fragments h [] out"
inductive_simps expands_Cons: "expands fragments h (f # fs) out"

definition expands_field :: "fragment_definition list \<Rightarrow> nat \<Rightarrow> field_selection \<Rightarrow> field_selection list \<Rightarrow> bool" where
  "expands_field fragments h f part \<longleftrightarrow>
     (if \<not> is_spread f then
        if sel_nested f = [] then part = [f]
        else \<exists>k ns. h = Suc k \<and> expands fragments k (sel_nested f) ns \<and> part = [with_nested f ns]
      else \<exists>k fragment. h = Suc k \<and> find_fragment fragments (spread_of f) = Some fragment \<and>
             expands fragments k (fragment_selections fragment) part)"

lemma expands_by_field:
  "expands fragments h fs out \<longleftrightarrow> (\<exists>parts. list_all2 (expands_field fragments h) fs parts \<and> out = concat parts)"
proof (induction fs arbitrary: out)
  case Nil
  then show ?case by (simp add: expands_Nil)
next
  case (Cons f fs)
  have "expands fragments h (f # fs) out \<longleftrightarrow>
      (\<exists>part rest. expands_field fragments h f part \<and> expands fragments h fs rest \<and> out = part @ rest)"
    unfolding expands_Cons expands_field_def by (cases "is_spread f"; cases "sel_nested f = []") force+
  also have "\<dots> \<longleftrightarrow> (\<exists>parts. list_all2 (expands_field fragments h) (f # fs) parts \<and> out = concat parts)"
  proof (intro iffI; elim exE conjE)
    fix part rest assume "expands_field fragments h f part" "expands fragments h fs rest" "out = part @ rest"
    then show "\<exists>parts. list_all2 (expands_field fragments h) (f # fs) parts \<and> out = concat parts"
      unfolding Cons.IH by (metis concat.simps(2) list_all2_Cons)
  qed (auto simp: Cons.IH list_all2_Cons1, blast)
  finally show ?case .
qed

lemma collect_results_list_all2:
  "collect_results g xs = Inr ys \<longleftrightarrow> list_all2 (\<lambda>x y. g x = Inr y) xs ys"
  by (induction xs arbitrary: ys) (auto simp: try_bind_eq_Inr list_all2_Cons1)

lemma resolve_selections_Inr:
  "resolve_selections fragments max_depth fs depth visited = Inr out \<longleftrightarrow>
     depth \<le> max_depth \<and>
     (\<exists>parts. list_all2 (\<lambda>f part. resolve_field fragments max_depth depth visited f = Inr part) fs parts \<and>
        out = concat parts)"
  by (auto simp: resolve_selections_alt [of _ _ fs] try_bind_eq_Inr collect_results_list_all2)

lemma resolve_sound:
  "resolve_selections fragments max_depth fs depth visited = Inr out \<Longrightarrow> expands fragments (max_depth - depth) fs out"
proof (induction fs depth visited arbitrary: out rule: resolve_selections_induct [where max_depth = max_depth])
  case (step fs depth visited)
  from step.prems obtain parts where d: "depth \<le> max_depth" and out: "out = concat parts"
    and parts: "list_all2 (\<lambda>f part. resolve_field fragments max_depth depth visited f = Inr part) fs parts"
    by (auto simp: resolve_selections_Inr [of _ _ fs])
  have deeper: "\<exists>k. max_depth - depth = Suc k \<and> expands fragments k ss o'"
    if r: "resolve_selections fragments max_depth ss (Suc depth) v = Inr o'" for ss v o'
  proof -
    from r have "Suc depth \<le> max_depth" by (simp add: resolve_selections_Inr)
    with step.IH [OF d refl r] show ?thesis by (intro exI [of _ "max_depth - Suc depth"]) simp
  qed
  have "expands_field fragments (max_depth - depth) f part"
    if "resolve_field fragments max_depth depth visited f = Inr part" for f part
    using that deeper
    by (fastforce simp: resolve_field_def expands_field_def Let_def try_bind_eq_Inr split: if_splits option.splits)
  with parts have "list_all2 (expands_field fragments (max_depth - depth)) fs parts" by (auto elim: list_all2_mono)
  then show ?case by (auto simp: expands_by_field [of _ _ fs] out)
qed

text \<open>
  A fragment on the path to a selection cannot be smaller than the selection, so a selection that
  has an expansion meets no fragment twice on one path.
\<close>

definition below :: "fragment_definition list \<Rightarrow> field_selection list \<Rightarrow> string \<Rightarrow> bool" where
  "below fragments fs name \<longleftrightarrow>
     (\<forall>fragment k out. find_fragment fragments name = Some fragment \<longrightarrow>
        expands fragments k (fragment_selections fragment) out \<longrightarrow> (\<exists>j\<le>k. \<exists>out. expands fragments j fs out))"

lemma expands_member: "expands fragments h fs out \<Longrightarrow> f \<in> set fs \<Longrightarrow> \<exists>part. expands_field fragments h f part"
  by (auto simp: expands_by_field in_set_conv_nth list_all2_conv_all_nth)

lemma below_member:
  assumes "below fragments fs name" and "f \<in> set fs"
    and "\<And>h part. expands_field fragments h f part \<Longrightarrow> \<exists>k out. h = Suc k \<and> expands fragments k gs out"
  shows "below fragments gs name"
  unfolding below_def
proof (intro allI impI)
  fix fragment k out
  assume "find_fragment fragments name = Some fragment" "expands fragments k (fragment_selections fragment) out"
  with assms(1) obtain j out' where j: "j \<le> k" "expands fragments j fs out'" unfolding below_def by blast
  from expands_member [OF j(2) assms(2)] assms(3) obtain i out'' where "j = Suc i" "expands fragments i gs out''"
    by blast
  with j(1) show "\<exists>j\<le>k. \<exists>out. expands fragments j gs out" by (intro exI [of _ i]) auto
qed

lemma no_repeated_fragment:
  assumes "below fragments fs (spread_of f)" and "f \<in> set fs" and "is_spread f"
    and "expands fragments h fs out"
  shows False
proof -
  from expands_member [OF assms(4,2)] assms(3) obtain fragment k part where
    frag: "find_fragment fragments (spread_of f) = Some fragment"
    and "expands fragments k (fragment_selections fragment) part"
    by (auto simp: expands_field_def)
  then have ex: "\<exists>k part. expands fragments k (fragment_selections fragment) part" by blast
  define m where "m = (LEAST k. \<exists>part. expands fragments k (fragment_selections fragment) part)"
  have "\<exists>part. expands fragments m (fragment_selections fragment) part"
    unfolding m_def using ex by (rule LeastI_ex)
  with assms(1) frag obtain j out' where j: "j \<le> m" "expands fragments j fs out'" unfolding below_def by blast
  from expands_member [OF j(2) assms(2)] assms(3) frag obtain i part where
    "j = Suc i" "expands fragments i (fragment_selections fragment) part"
    by (auto simp: expands_field_def)
  then have "m \<le> i" unfolding m_def by (intro Least_le) blast
  with j(1) \<open>j = Suc i\<close> show False by simp
qed

lemma resolve_complete:
  assumes "expands fragments h fs out" and "depth + h = max_depth" and "\<And>name. name \<in> visited \<Longrightarrow> below fragments fs name"
  shows "resolve_selections fragments max_depth fs depth visited = Inr out"
  using assms
proof (induction h arbitrary: fs out depth visited)
  case 0
  have "resolve_field fragments max_depth depth visited f = Inr part" if "expands_field fragments 0 f part" for f part
    using that by (auto simp: expands_field_def resolve_field_def split: if_splits)
  then have "list_all2 (expands_field fragments 0) fs parts \<Longrightarrow>
      list_all2 (\<lambda>f part. resolve_field fragments max_depth depth visited f = Inr part) fs parts" for parts
    by (auto elim: list_all2_mono)
  with 0 show ?case by (auto simp: expands_by_field [of _ _ fs] resolve_selections_Inr [of _ _ fs])
next
  case (Suc h)
  have field: "resolve_field fragments max_depth depth visited f = Inr part"
    if f: "f \<in> set fs" and e: "expands_field fragments (Suc h) f part" for f part
  proof (cases "is_spread f")
    case True
    with e obtain fragment where frag: "find_fragment fragments (spread_of f) = Some fragment"
      and body: "expands fragments h (fragment_selections fragment) part"
      by (auto simp: expands_field_def)
    have "spread_of f \<notin> visited"
      using no_repeated_fragment [OF _ f True Suc.prems(1)] Suc.prems(3) by blast
    moreover have "below fragments (fragment_selections fragment) name" if "name \<in> insert (spread_of f) visited" for name
    proof (cases "name = spread_of f")
      case True
      with frag show ?thesis unfolding below_def by auto
    next
      case False
      with that Suc.prems(3) have "below fragments fs name" by simp
      then show ?thesis by (rule below_member [OF _ f]) (use True frag in \<open>auto simp: expands_field_def\<close>)
    qed
    moreover have "Suc depth + h = max_depth" using Suc.prems(2) by simp
    ultimately have "resolve_selections fragments max_depth (fragment_selections fragment) (Suc depth)
        (insert (spread_of f) visited) = Inr part"
      using Suc.IH [OF body] by blast
    then show ?thesis
      using True frag \<open>spread_of f \<notin> visited\<close> by (simp add: resolve_field_def Let_def del: list.size)
  next
    case False
    show ?thesis
    proof (cases "sel_nested f = []")
      case True
      with False e show ?thesis by (simp add: expands_field_def resolve_field_def)
    next
      case nonempty: False
      with False e obtain ns where ns: "expands fragments h (sel_nested f) ns" "part = [with_nested f ns]"
        by (auto simp: expands_field_def)
      have "below fragments (sel_nested f) name" if "name \<in> visited" for name
        by (rule below_member [OF Suc.prems(3) [OF that] f]) (use False nonempty in \<open>auto simp: expands_field_def\<close>)
      then show ?thesis
        using Suc.IH [OF ns(1), of "Suc depth" visited] Suc.prems(2) False nonempty ns(2)
        by (simp add: resolve_field_def)
    qed
  qed
  from Suc.prems(1) obtain parts where out: "out = concat parts"
    and parts: "list_all2 (expands_field fragments (Suc h)) fs parts"
    by (auto simp: expands_by_field [of _ _ fs])
  from parts have "list_all2 (\<lambda>f part. resolve_field fragments max_depth depth visited f = Inr part) fs parts"
    by (auto simp: list_all2_conv_all_nth field)
  with out Suc.prems(2) show ?case by (auto simp: resolve_selections_Inr [of _ _ fs])
qed

lemma resolve_spreads_expands: "resolve_spreads fragments fs = Inr out \<longleftrightarrow> expands fragments 10 fs out"
  using resolve_sound [of fragments 10 fs 0 "{}" out] resolve_complete [of fragments 10 fs out 0 10 "{}"]
  by (auto simp: resolve_spreads_def)

section \<open>Directives of spreads\<close>

text \<open>The same selections without the directives of named spreads, at every depth.\<close>

primrec drop_spread_directives :: "field_selection \<Rightarrow> field_selection" where
  "drop_spread_directives (FieldSelection n al args ns ds) =
     FieldSelection n al args (map drop_spread_directives ns)
       (if spread_name n then [] else ds)"

lemma drop_spread_sel [simp]:
  "sel_name (drop_spread_directives f) = sel_name f"
  "sel_nested (drop_spread_directives f) = map drop_spread_directives (sel_nested f)"
  by (cases f; simp)+

lemma drop_spread_with_nested: "\<not> is_spread f \<Longrightarrow> with_nested (drop_spread_directives f) ns = with_nested f ns"
  by (cases f) (simp add: with_nested_def)

lemma drop_spread_leaf: "\<not> is_spread f \<Longrightarrow> sel_nested f = [] \<Longrightarrow> drop_spread_directives f = f"
  by (cases f) simp

lemma collect_results_map: "collect_results f (map g xs) = collect_results (f \<circ> g) xs"
  by (induction xs) simp_all

lemma resolve_ignores_spread_directives:
  "resolve_selections fragments max_depth (map drop_spread_directives selections) depth visited =
     resolve_selections fragments max_depth selections depth visited"
proof (induction selections depth visited rule: resolve_selections_induct [where max_depth = max_depth])
  case (step selections depth visited)
  show ?case
  proof (cases "depth \<le> max_depth")
    case True
    have "resolve_field fragments max_depth depth visited (drop_spread_directives f) =
        resolve_field fragments max_depth depth visited f" for f
      using step.IH [OF True refl, of "sel_nested f" visited]
      by (auto simp: resolve_field_def drop_spread_with_nested drop_spread_leaf Let_def)
    then show ?thesis
      by (simp add: resolve_selections_alt [of _ _ selections] resolve_selections_alt [of _ _ "map _ selections"]
          collect_results_map comp_def)
  qed (simp add: resolve_selections_alt)
qed

section \<open>Properties\<close>

lemma merge_keeps_one: "args n = Some v \<Longrightarrow> merge_inline_arg P a args n = Some v"
  by (auto simp: merge_inline_arg_def split: option.splits)

lemma merge_keeps: "args n = Some v \<Longrightarrow> fold (merge_inline_arg P) as args n = Some v"
  by (induction as arbitrary: args) (simp_all add: merge_keeps_one)

fun is_error_result :: "'e + 'a \<Rightarrow> bool" where
  "is_error_result (Inl e) = True"
| "is_error_result (Inr v) = False"

text \<open>
  A concrete query: \<open>users(limit: 3) { id ...Contact @skip(if: true) }\<close> with a fragment for the
  e-mail address.
\<close>

definition three_parser :: text_parsers where
  "three_parser = \<lparr>parse_json = (\<lambda>s. if s = ''3'' then Some (json_int 3) else if s = ''true'' then Some (JBool True) else None),
     parse_f64 = (\<lambda>_. None)\<rparr>"

definition leaf :: "string \<Rightarrow> field_selection" where
  "leaf n = FieldSelection n None [] [] []"

definition skip_true :: directive where
  "skip_true = \<lparr>directive_name = ''skip'', directive_arguments =
     [\<lparr>argument_name = ''if'', argument_value_type = ''Boolean'', argument_value_json = ''true''\<rparr>]\<rparr>"

definition contact_fragment :: fragment_definition where
  "contact_fragment = \<lparr>fragment_name = ''Contact'', type_condition = ''User'',
     fragment_selections = [leaf ''email''], fragment_spreads = []\<rparr>"

definition users_query :: parsed_query where
  "users_query = \<lparr>operation_type = ''query'', operation_name = None, root_field = ''users'',
     parsed_selections = [FieldSelection ''users'' None
       [\<lparr>argument_name = ''limit'', argument_value_type = ''Int'', argument_value_json = ''3''\<rparr>]
       [leaf ''id'', FieldSelection ''...Contact'' None [] [] [skip_true]] []],
     variable_defaults = [], parsed_fragments = [contact_fragment], query_source = []\<rparr>"

lemma users_query_resolved:
  "resolve_spreads (parsed_fragments users_query) (parsed_selections users_query) =
     Inr [FieldSelection ''users'' None
       [\<lparr>argument_name = ''limit'', argument_value_type = ''Int'', argument_value_json = ''3''\<rparr>]
       [leaf ''id'', leaf ''email''] []]"
  by code_simp

text \<open>
  C22. A query that matches has exactly the selections the expansion of its fragments gives, filtered
  by its directives, with no named spread left at any depth; the resolution returns for every list
  of fragments, and it succeeds exactly on selections whose expansion is nested at most ten deep,
  so fragments that refer to each other in a cycle are rejected.
\<close>

theorem matched_selections_expanded:
  "(resolve_spreads fragments selections = Inr out \<longleftrightarrow> expands fragments 10 selections out) \<and>
   (match_query P schema p vars = Inr m \<longrightarrow>
      (\<exists>full. expands (parsed_fragments p) 10 (parsed_selections p) full \<and> list_all spread_free full \<and>
         filter_selections P (extract_arguments vars) full = Inr (match_selections m)))"
proof (intro conjI impI)
  assume "match_query P schema p vars = Inr m"
  then obtain full where full: "resolve_spreads (parsed_fragments p) (parsed_selections p) = Inr full"
    and "filter_selections P (extract_arguments vars) full = Inr (match_selections m)"
    by (auto simp: match_query_def map_error_def try_bind_eq_Inr Let_def split: option.splits sum.splits)
  moreover have "list_all spread_free full" using full by (auto simp: resolve_spreads_def resolved_spread_free)
  ultimately show "\<exists>full. expands (parsed_fragments p) 10 (parsed_selections p) full \<and> list_all spread_free full \<and>
      filter_selections P (extract_arguments vars) full = Inr (match_selections m)"
    by (auto simp flip: resolve_spreads_expands)
qed (rule resolve_spreads_expands)

theorem matched_selections_expanded_witness:
  "\<exists>m full. match_query three_parser (sample_schema False) users_query None = Inr m \<and>
     expands [contact_fragment] 10 (parsed_selections users_query) full \<and> list_all spread_free full \<and>
     filter_selections three_parser [] full = Inr (match_selections m)"
proof -
  let ?r = "match_query three_parser (sample_schema False) users_query None"
  have "\<not> is_error_result ?r" by code_simp
  then obtain m where "?r = Inr m" by (cases ?r) auto
  with matched_selections_expanded [of "[]" "[]" "[]" three_parser "sample_schema False" users_query None m]
  show ?thesis by (auto simp: users_query_def extract_arguments_def)
qed

text \<open>
  Directives on a named fragment spread have no effect: with every \<open>@skip\<close>, \<open>@include\<close> or other
  directive on such spreads removed, at any depth, the query matches in the same way.
\<close>

theorem spread_directives_ignored:
  "match_query P schema (p\<lparr>parsed_selections := map drop_spread_directives (parsed_selections p)\<rparr>) vars =
   match_query P schema p vars"
  by (cases p) (simp add: match_query_def resolve_spreads_def resolve_ignores_spread_directives cong: option.case_cong)

text \<open>
  Every variable of the request is an argument of the matched query under its own name, whether
  the query declares it or not, and it takes precedence over an argument written in the query.
\<close>

theorem variables_override_arguments:
  assumes "match_query P schema p (Some (JObject vars)) = Inr m" and "map_of vars n = Some v"
  shows "match_arguments m n = Some v"
  using assms merge_keeps [of "map_of vars" n v]
  by (auto simp: match_query_def try_bind_eq_Inr extract_arguments_def Let_def split: option.splits list.splits)

theorem variables_override_arguments_witness:
  "\<exists>m. match_query three_parser (sample_schema False) users_query (Some (JObject [(''limit'', json_int 100)])) = Inr m \<and>
     match_arguments m ''limit'' = Some (json_int 100)"
proof -
  let ?r = "match_query three_parser (sample_schema False) users_query (Some (JObject [(''limit'', json_int 100)]))"
  have "\<not> is_error_result ?r" by code_simp
  then obtain m where m: "?r = Inr m" by (cases ?r) auto
  from variables_override_arguments [OF m, of "''limit''" "json_int 100"] m show ?thesis by simp
qed

end
