(* ===== verification/Projection_Sql.thy ===== *)
theory Projection_Sql
  imports Query_Matcher
begin

text \<open>
  The SQL expressions that cut a JSON column down to the fields a query asks for
  (\<open>fraiseql-db/src/projection_generator.rs\<close>), and the tree of typed fields the executor builds for
  them (\<open>build_typed_projection_fields\<close> and \<open>compute_projection_reduction\<close> of
  \<open>fraiseql-core/src/runtime/executor/query.rs\<close>). The second half says what such an expression
  means: it is read back as a tree of object constructors and key accesses, and the tree is
  evaluated on a row.
\<close>

section \<open>Fields\<close>

datatype field_kind = KindText | KindNative | KindComposite

datatype projection_field =
  ProjectionField (pf_name: string) (pf_kind: field_kind) (pf_sub_fields: "projection_field list option")

definition scalar_field :: "string \<Rightarrow> projection_field" where
  "scalar_field n = ProjectionField n KindText None"

definition native_field :: "string \<Rightarrow> projection_field" where
  "native_field n = ProjectionField n KindNative None"

definition composite_field :: "string \<Rightarrow> projection_field" where
  "composite_field n = ProjectionField n KindComposite None"

definition composite_with_sub_fields :: "string \<Rightarrow> projection_field list \<Rightarrow> projection_field" where
  "composite_with_sub_fields n subs = ProjectionField n KindComposite (Some subs)"

definition is_ascii_word :: "char \<Rightarrow> bool" where
  "is_ascii_word c \<longleftrightarrow>
     (let n = of_char c :: nat in 48 \<le> n \<and> n \<le> 57 \<or> 65 \<le> n \<and> n \<le> 90 \<or> 97 \<le> n \<and> n \<le> 122 \<or> c = CHR ''_'')"

definition validate_projection_name :: "string \<Rightarrow> db_error + unit" where
  "validate_projection_name field =
     (if list_all is_ascii_word field then Inr ()
      else Inl (Validation (''field name '' @ [squote] @ field @ [squote] @
             '' contains characters that cannot be safely projected; only ASCII alphanumeric characters and underscores are allowed'')))"

section \<open>PostgreSQL\<close>

definition escape_sql_string :: "string \<Rightarrow> string" where
  "escape_sql_string s = replace_char squote [squote, squote] s"

definition pg_projection_sql :: "string \<Rightarrow> string list \<Rightarrow> db_error + string" where
  "pg_projection_sql column names =
     (if names = [] then Inr ([dquote] @ column @ [dquote])
      else try_bind (collect_results validate_projection_name names) (\<lambda>_.
        Inr (''jsonb_build_object('' @
          join '','' (map (\<lambda>f. [squote] @ escape_sql_string f @ [squote] @ '', '' @ [dquote] @ column @ [dquote] @ ''->>'' @
            [squote] @ escape_sql_string (to_snake_case f) @ [squote] @ '' '') names) @ '')'')))"

definition MAX_PROJECTION_DEPTH :: nat where "MAX_PROJECTION_DEPTH = 4"

fun render_field :: "projection_field \<Rightarrow> string \<Rightarrow> nat \<Rightarrow> db_error + string" where
  "render_field (ProjectionField name kind subs) path depth =
     (let resp_key = escape_sql_string name;
          safe_jsonb_key = escape_sql_string (to_snake_case name);
          op = (if kind = KindText then ''->>'' else ''->'');
          leaf = Inr ([squote] @ resp_key @ [squote] @ '', '' @ path @ op @ [squote] @ safe_jsonb_key @ [squote])
      in case subs of
           Some fs \<Rightarrow>
             if depth < MAX_PROJECTION_DEPTH \<and> fs \<noteq> [] then
               try_bind (collect_results
                   (\<lambda>f. render_field f (path @ ''->'' @ [squote] @ safe_jsonb_key @ [squote]) (Suc depth)) fs)
                 (\<lambda>inner. Inr ([squote] @ resp_key @ [squote] @ '', jsonb_build_object('' @ join '','' inner @ '')''))
             else leaf
         | None \<Rightarrow> leaf)"

definition generate_typed_projection_sql :: "string \<Rightarrow> projection_field list \<Rightarrow> db_error + string" where
  "generate_typed_projection_sql column fs =
     (if fs = [] then Inr ([dquote] @ column @ [dquote])
      else try_bind (collect_results (\<lambda>f. render_field f ([dquote] @ column @ [dquote]) 0) fs)
        (\<lambda>pairs. Inr (''jsonb_build_object('' @ join '','' pairs @ '')'')))"

definition generate_select_clause :: "string \<Rightarrow> string \<Rightarrow> string list \<Rightarrow> db_error + string" where
  "generate_select_clause column table_alias names =
     try_bind (pg_projection_sql column names) (\<lambda>projection.
       Inr (''SELECT '' @ projection @ '' as '' @ [dquote] @ column @ [dquote] @ '' FROM '' @ [dquote] @ table_alias @ [dquote] @ '' ''))"

section \<open>MySQL and SQLite\<close>

definition mysql_projection_sql :: "string \<Rightarrow> string list \<Rightarrow> db_error + string" where
  "mysql_projection_sql column names =
     (if names = [] then Inr ([backtick] @ column @ [backtick])
      else try_bind (collect_results validate_projection_name names) (\<lambda>_.
        Inr (''JSON_OBJECT('' @
          join '','' (map (\<lambda>f. [squote] @ escape_sql_string f @ [squote] @ '', JSON_EXTRACT('' @ [backtick] @ column @ [backtick] @
            '', '' @ [squote] @ ''$.'' @ to_snake_case f @ [squote] @ '')'') names) @ '')'')))"

definition sqlite_projection_sql :: "string \<Rightarrow> string list \<Rightarrow> db_error + string" where
  "sqlite_projection_sql column names =
     (if names = [] then Inr ([dquote] @ column @ [dquote])
      else try_bind (collect_results validate_projection_name names) (\<lambda>_.
        Inr (''json_object('' @
          join '','' (map (\<lambda>f. [squote] @ escape_sql_string f @ [squote] @ '', json_extract('' @ [dquote] @ column @ [dquote] @
            '', '' @ [squote] @ ''$.'' @ to_snake_case f @ [squote] @ '')'') names) @ '')'')))"

section \<open>Typed fields of a selection\<close>

definition is_scalar_type :: "field_type \<Rightarrow> bool" where
  "is_scalar_type t =
     (case t of FT_List _ \<Rightarrow> False | FT_Object _ \<Rightarrow> False | FT_Enum _ \<Rightarrow> False | FT_Input _ \<Rightarrow> False
      | FT_Interface _ \<Rightarrow> False | FT_Union _ \<Rightarrow> False | _ \<Rightarrow> True)"

definition is_list_type :: "field_type \<Rightarrow> bool" where
  "is_list_type t = (case t of FT_List _ \<Rightarrow> True | _ \<Rightarrow> False)"

definition kind_of_field :: "field_definition option \<Rightarrow> field_kind" where
  "kind_of_field fd =
     (case fd of
        None \<Rightarrow> KindNative
      | Some f \<Rightarrow>
          if \<not> is_scalar_type (fd_field_type f) then KindComposite
          else if fd_field_type f = FT_String \<or> fd_field_type f = FT_Id then KindText
          else KindNative)"

definition selected_definition :: "type_definition list \<Rightarrow> string \<Rightarrow> field_selection \<Rightarrow> field_definition option" where
  "selected_definition types parent sel =
     Option.bind (find_type types parent) (\<lambda>td. find (\<lambda>f. field_name f = sel_name sel) (type_fields td))"

definition child_type_of :: "field_definition option \<Rightarrow> string" where
  "child_type_of fd = (case Option.bind fd (\<lambda>f. referenced_type (fd_field_type f)) of Some n \<Rightarrow> n | None \<Rightarrow> [])"

function build_typed_projection_fields ::
  "type_definition list \<Rightarrow> field_selection list \<Rightarrow> string \<Rightarrow> nat \<Rightarrow> projection_field list" where
  "build_typed_projection_fields types selections parent depth =
     map (\<lambda>sel.
       let fd = selected_definition types parent sel;
           is_composite = (case fd of Some f \<Rightarrow> \<not> is_scalar_type (fd_field_type f) | None \<Rightarrow> False);
           is_list = (case fd of Some f \<Rightarrow> is_list_type (fd_field_type f) | None \<Rightarrow> False);
           subs = (if depth < 4 then
                     if is_composite \<and> \<not> is_list \<and> sel_nested sel \<noteq> [] \<and> child_type_of fd \<noteq> []
                     then Some (build_typed_projection_fields types (sel_nested sel) (child_type_of fd) (Suc depth))
                     else None
                   else None)
       in ProjectionField (response_key sel) (kind_of_field fd) subs)
     (filter (\<lambda>sel. sel_name sel \<noteq> ''__typename'') selections)"
  by pat_completeness auto
termination
  by (relation "measure (\<lambda>(types, selections, parent, depth). 4 - depth)") auto

declare build_typed_projection_fields.simps [simp del]

definition compute_projection_reduction :: "nat \<Rightarrow> nat" where
  "compute_projection_reduction count =
     (let percent = (20 - min count 20) * 100 div 20 in max 10 (min 90 percent))"

section \<open>What the expression means\<close>

datatype jexpr =
    Access string "string list" bool string
  | BuildObject "(string \<times> jexpr) list"

text \<open>PostgreSQL reads a key access and an object constructor; the fuel bounds the number of tokens.\<close>

fun read_access :: "nat \<Rightarrow> string \<Rightarrow> string list \<Rightarrow> string \<Rightarrow> (jexpr \<times> string) option" where
  "read_access 0 column ks s = None"
| "read_access (Suc n) column ks s =
     (if starts_with ''->>'' s then
        (case scan_quoted squote squote (drop 3 s) of Some (k, r) \<Rightarrow> Some (Access column ks True k, r) | None \<Rightarrow> None)
      else if starts_with ''->'' s then
        (case scan_quoted squote squote (drop 2 s) of
           Some (k, r) \<Rightarrow>
             if starts_with ''->'' r then read_access n column (ks @ [k]) r else Some (Access column ks False k, r)
         | None \<Rightarrow> None)
      else None)"

fun read_expr :: "nat \<Rightarrow> string \<Rightarrow> (jexpr \<times> string) option"
  and read_pairs :: "nat \<Rightarrow> string \<Rightarrow> ((string \<times> jexpr) list \<times> string) option" where
  "read_expr 0 s = None"
| "read_expr (Suc n) s =
     (if starts_with ''jsonb_build_object('' s then
        map_option (\<lambda>(ps, r). (BuildObject ps, r)) (read_pairs n (drop 19 s))
      else (case scan_quoted dquote dquote s of Some (column, r) \<Rightarrow> read_access n column [] r | None \<Rightarrow> None))"
| "read_pairs 0 s = None"
| "read_pairs (Suc n) s =
     (case scan_quoted squote squote s of
        Some (k, r) \<Rightarrow>
          if starts_with '', '' r then
            (case read_expr n (drop 2 r) of
               Some (v, c # r') \<Rightarrow>
                 if c = CHR '')'' then Some ([(k, v)], r')
                 else if c = CHR '','' then map_option (\<lambda>(ps, r''). ((k, v) # ps, r'')) (read_pairs n r')
                 else None
             | _ \<Rightarrow> None)
          else None
      | None \<Rightarrow> None)"

text \<open>The intended reading of a projection field under a path of keys.\<close>

fun field_expr :: "string \<Rightarrow> projection_field \<Rightarrow> string list \<Rightarrow> nat \<Rightarrow> string \<times> jexpr" where
  "field_expr column (ProjectionField name kind subs) ks depth =
     (name,
      case subs of
        Some fs \<Rightarrow>
          if depth < MAX_PROJECTION_DEPTH \<and> fs \<noteq> []
          then BuildObject (map (\<lambda>f. field_expr column f (ks @ [to_snake_case name]) (Suc depth)) fs)
          else Access column ks (kind = KindText) (to_snake_case name)
      | None \<Rightarrow> Access column ks (kind = KindText) (to_snake_case name))"

definition projection_expr :: "string \<Rightarrow> projection_field list \<Rightarrow> jexpr" where
  "projection_expr column fs = BuildObject (map (\<lambda>f. field_expr column f [] 0) fs)"

section \<open>The expression is read back\<close>

abbreviation literal :: "string \<Rightarrow> string" where
  "literal \<equiv> quote_with squote squote"

definition access_path :: "string \<Rightarrow> string list \<Rightarrow> string" where
  "access_path column ks = [dquote] @ column @ [dquote] @ concat (map (\<lambda>k. ''->'' @ literal k) ks)"

fun print_expr :: "jexpr \<Rightarrow> string" where
  "print_expr (Access column ks t k) = access_path column ks @ (if t then ''->>'' else ''->'') @ literal k"
| "print_expr (BuildObject ps) =
     ''jsonb_build_object('' @ join '','' (map (\<lambda>(k, e). literal k @ '', '' @ print_expr e) ps) @ '')''"

fun plain_expr :: "jexpr \<Rightarrow> bool" where
  "plain_expr (Access column ks t k) \<longleftrightarrow> dquote \<notin> set column"
| "plain_expr (BuildObject ps) \<longleftrightarrow> ps \<noteq> [] \<and> list_all (\<lambda>(k, e). plain_expr e) ps"

fun tokens_of :: "jexpr \<Rightarrow> nat" where
  "tokens_of (Access column ks t k) = length ks + 2"
| "tokens_of (BuildObject ps) = Suc (sum_list (map (\<lambda>(k, e). Suc (tokens_of e)) ps))"

definition ends_expr :: "string \<Rightarrow> bool" where
  "ends_expr rest \<longleftrightarrow> (case rest of [] \<Rightarrow> True | c # _ \<Rightarrow> c = CHR '','' \<or> c = CHR '')'')"

lemma ends_expr_simps [simp]:
  "ends_expr []" "ends_expr (CHR '')'' # r)" "ends_expr (CHR '','' # r)"
  by (simp_all add: ends_expr_def)

lemma ends_exprD: "ends_expr rest \<Longrightarrow> \<not> starts_with ''->'' rest \<and> (\<forall>s. rest \<noteq> squote # s)"
  by (cases rest) (auto simp: ends_expr_def starts_with_def)

lemma scan_literal: "(\<forall>s. rest \<noteq> squote # s) \<Longrightarrow> scan_quoted squote squote (literal k @ rest) = Some (k, rest)"
  by (rule scan_quoted_quote_with)

lemma literal_head: "literal k = squote # tl (literal k)"
  by (simp add: quote_with_def)

lemma read_access_print:
  assumes "ends_expr rest" and "length js < n"
  shows "read_access n column ks (concat (map (\<lambda>k. ''->'' @ literal k) js) @ (if t then ''->>'' else ''->'') @ literal k @ rest) =
    Some (Access column (ks @ js) t k, rest)"
  using assms(2)
proof (induction js arbitrary: n ks)
  case Nil
  then obtain m where n: "n = Suc m" by (cases n) auto
  show ?case
    using ends_exprD [OF assms(1)] scan_literal [of rest k] literal_head [of k]
    by (cases t) (simp_all add: n starts_with_def, simp add: quote_with_def)
next
  case (Cons j js)
  then obtain m where n: "n = Suc m" by (cases n) auto
  let ?r = "concat (map (\<lambda>k. ''->'' @ literal k) js) @ (if t then ''->>'' else ''->'') @ literal k @ rest"
  have arrow: "starts_with ''->'' ?r" by (cases js) (simp_all add: starts_with_def)
  have "scan_quoted squote squote (literal j @ ?r) = Some (j, ?r)"
    by (rule scan_literal) (cases js; simp)
  moreover have "\<not> starts_with ''->>'' (''->'' @ literal j @ ?r)" by (simp add: starts_with_def quote_with_def)
  moreover have "read_access m column (ks @ [j]) ?r = Some (Access column (ks @ j # js) t k, rest)"
    using Cons.IH [of m "ks @ [j]"] Cons.prems n by simp
  ultimately show ?case using arrow by (simp add: n starts_with_def)
qed

lemma join_pairs_Cons:
  "join '','' (x # xs) @ '')'' = x @ (case xs of [] \<Rightarrow> '')'' | _ \<Rightarrow> '','' @ join '','' xs @ '')'')"
  by (cases xs) simp_all

lemma read_pairs_print:
  assumes "\<And>k e n rest. (k, e) \<in> set ps \<Longrightarrow> tokens_of e \<le> n \<Longrightarrow> ends_expr rest \<Longrightarrow>
      read_expr n (print_expr e @ rest) = Some (e, rest)"
    and "ps \<noteq> []" and "sum_list (map (\<lambda>(k, e). Suc (tokens_of e)) ps) \<le> n"
  shows "read_pairs n (join '','' (map (\<lambda>(k, e). literal k @ '', '' @ print_expr e) ps) @ '')'' @ rest) = Some (ps, rest)"
  using assms
proof (induction ps arbitrary: n)
  case (Cons p ps)
  obtain k e where p: "p = (k, e)" by (cases p)
  from Cons.prems(3) p obtain m where n: "n = Suc m" by (cases n) auto
  let ?items = "\<lambda>ps. join '','' (map (\<lambda>(k, e). literal k @ '', '' @ print_expr e) ps)"
  define r where "r = (case ps of [] \<Rightarrow> '')'' @ rest | _ \<Rightarrow> '','' @ ?items ps @ '')'' @ rest)"
  have shape: "?items (p # ps) @ '')'' @ rest = literal k @ '', '' @ print_expr e @ r"
    by (cases ps) (simp_all add: p r_def)
  have "ends_expr r" by (cases ps) (simp_all add: r_def)
  then have v: "read_expr m (print_expr e @ r) = Some (e, r)"
    using Cons.prems(3) by (intro Cons.prems(1) [of k]) (simp_all add: p n)
  have k: "scan_quoted squote squote (literal k @ '', '' @ print_expr e @ r) = Some (k, '', '' @ print_expr e @ r)"
    by (rule scan_literal) simp
  show ?case
  proof (cases ps)
    case Nil
    with v k show ?thesis unfolding shape n by (simp add: starts_with_def r_def p)
  next
    case (Cons q qs)
    have "read_pairs m (?items ps @ '')'' @ rest) = Some (ps, rest)"
      using Cons.prems(1,3) local.Cons by (intro Cons.IH) (auto simp: n p)
    with v k Cons show ?thesis unfolding shape n by (simp add: starts_with_def r_def p)
  qed
qed simp

lemma read_print_expr:
  "plain_expr e \<Longrightarrow> tokens_of e \<le> n \<Longrightarrow> ends_expr rest \<Longrightarrow> read_expr n (print_expr e @ rest) = Some (e, rest)"
proof (induction e arbitrary: n rest)
  case (Access column ks t k)
  then obtain m where n: "n = Suc m" by (cases n) auto
  let ?r = "concat (map (\<lambda>k. ''->'' @ literal k) ks) @ (if t then ''->>'' else ''->'') @ literal k @ rest"
  have "scan_quoted dquote dquote (quote_with dquote dquote column @ ?r) = Some (column, ?r)"
    by (rule scan_quoted_quote_with) (cases ks; simp)
  moreover have "quote_with dquote dquote column = [dquote] @ column @ [dquote]"
    using Access.prems by (simp add: quote_with_def replace_char_id)
  ultimately show ?case
    using read_access_print [of rest ks m column "[]" t k] Access.prems
    by (simp add: n access_path_def starts_with_def)
next
  case (BuildObject ps)
  then obtain m where n: "n = Suc m" by (cases n) auto
  have "read_pairs m (join '','' (map (\<lambda>(k, e). literal k @ '', '' @ print_expr e) ps) @ '')'' @ rest) = Some (ps, rest)"
    by (rule read_pairs_print) (use BuildObject n in \<open>auto simp: list_all_iff\<close>)
  then show ?case by (simp add: n starts_with_def)
qed

section \<open>The generator prints the expression\<close>

lemma access_path_snoc: "access_path column ks @ ''->'' @ literal k = access_path column (ks @ [k])"
  by (simp add: access_path_def)

lemma collect_results_Inr_map: "(\<And>x. x \<in> set xs \<Longrightarrow> f x = Inr (g x)) \<Longrightarrow> collect_results f xs = Inr (map g xs)"
  by (induction xs) simp_all

lemma render_field_prints:
  "render_field f (access_path column ks) depth =
     Inr (case field_expr column f ks depth of (k, e) \<Rightarrow> literal k @ '', '' @ print_expr e)"
proof (induction f arbitrary: ks depth)
  case (ProjectionField name kind subs)
  let ?key = "to_snake_case name"
  have leaf: "[squote] @ escape_sql_string s @ [squote] = literal s" for s
    by (simp add: escape_sql_string_def quote_with_def)
  show ?case
  proof (cases "\<exists>fs. subs = Some fs \<and> depth < MAX_PROJECTION_DEPTH \<and> fs \<noteq> []")
    case True
    then obtain fs where fs: "subs = Some fs" "depth < MAX_PROJECTION_DEPTH" "fs \<noteq> []" by blast
    have "collect_results (\<lambda>f. render_field f (access_path column (ks @ [?key])) (Suc depth)) fs =
        Inr (map (\<lambda>f. case field_expr column f (ks @ [?key]) (Suc depth) of (k, e) \<Rightarrow> literal k @ '', '' @ print_expr e) fs)"
      by (rule collect_results_Inr_map) (use ProjectionField.IH fs(1) in auto)
    with fs show ?thesis
      by (simp add: Let_def leaf [unfolded append_Cons append_Nil] access_path_snoc [unfolded append_Cons append_Nil]
          comp_def map_concat)
  next
    case False
    then show ?thesis
      by (auto simp: Let_def leaf [unfolded append_Cons append_Nil] split: option.splits)
  qed
qed

lemma field_expr_plain: "dquote \<notin> set column \<Longrightarrow> plain_expr (snd (field_expr column f ks depth))"
proof (induction f arbitrary: ks depth)
  case (ProjectionField name kind subs)
  have "plain_expr (snd (field_expr column f ks' d))" if "subs = Some fs" "f \<in> set fs" for f fs ks' d
    using ProjectionField that by auto
  then show ?case
    using ProjectionField.prems by (auto simp: list_all_iff case_prod_beta split: option.splits)
qed

lemma generate_typed_prints:
  assumes "fs \<noteq> []"
  shows "generate_typed_projection_sql column fs = Inr (print_expr (projection_expr column fs))"
proof -
  have start: "[dquote] @ column @ [dquote] = access_path column []" by (simp add: access_path_def)
  have "collect_results (\<lambda>f. render_field f (access_path column []) 0) fs =
      Inr (map (\<lambda>f. case field_expr column f [] 0 of (k, e) \<Rightarrow> literal k @ '', '' @ print_expr e) fs)"
    by (rule collect_results_Inr_map) (rule render_field_prints)
  with assms show ?thesis
    unfolding generate_typed_projection_sql_def start by (simp add: projection_expr_def comp_def)
qed

lemma length_join_le: "sum_list (map length xs) \<le> length (join sep xs)"
  by (induction sep xs rule: join.induct) simp_all

lemma tokens_le_length: "tokens_of e \<le> length (print_expr e)"
proof (induction e)
  case (Access column ks t k)
  have "length ks \<le> length (concat (map (\<lambda>k. ''->'' @ literal k) ks))" by (induction ks) simp_all
  then show ?case by (simp add: access_path_def quote_with_def)
next
  case (BuildObject ps)
  have "Suc (tokens_of e) \<le> length (literal k @ '', '' @ print_expr e)" if "(k, e) \<in> set ps" for k e
    using BuildObject that by (fastforce intro: le_SucI trans_le_add2)
  then have "sum_list (map (\<lambda>(k, e). Suc (tokens_of e)) ps) \<le>
      sum_list (map (\<lambda>(k, e). length (literal k @ '', '' @ print_expr e)) ps)"
    by (intro sum_list_mono) auto
  also have "\<dots> = sum_list (map length (map (\<lambda>(k, e). literal k @ '', '' @ print_expr e) ps))"
    by (auto intro!: arg_cong [where f = sum_list])
  also have "\<dots> \<le> length (join '','' (map (\<lambda>(k, e). literal k @ '', '' @ print_expr e) ps))"
    by (rule length_join_le)
  finally show ?case by simp
qed

lemma typed_projection_reads:
  assumes "fs \<noteq> []" and "dquote \<notin> set column"
  shows "\<exists>sql. generate_typed_projection_sql column fs = Inr sql \<and>
    read_expr (length sql) sql = Some (projection_expr column fs, [])"
proof -
  have "plain_expr (projection_expr column fs)"
    using assms field_expr_plain [of column _ "[]" 0]
    by (auto simp: projection_expr_def list_all_iff case_prod_beta)
  from read_print_expr [OF this tokens_le_length, of "[]"] generate_typed_prints [OF assms(1), of column]
  show ?thesis by simp
qed

section \<open>Evaluation\<close>

text \<open>
  A key access on a JSON value; a missing key and a value that is no object give null. The text
  operator turns a value other than a string into its text, which is an argument.
\<close>

definition fetch :: "json \<Rightarrow> string \<Rightarrow> json" where
  "fetch v k = (case json_get v k of Some x \<Rightarrow> x | None \<Rightarrow> JNull)"

definition as_text :: "(json \<Rightarrow> string) \<Rightarrow> json \<Rightarrow> json" where
  "as_text txt v = (case v of JNull \<Rightarrow> JNull | JString s \<Rightarrow> JString s | _ \<Rightarrow> JString (txt v))"

fun eval_expr :: "(json \<Rightarrow> string) \<Rightarrow> json \<Rightarrow> jexpr \<Rightarrow> json" where
  "eval_expr txt row (Access column ks t k) =
     (let v = fetch (foldl fetch row ks) k in if t then as_text txt v else v)"
| "eval_expr txt row (BuildObject ps) =
     JObject (fold (\<lambda>(k, v). AList.update k v) (map (\<lambda>(k, e). (k, eval_expr txt row e)) ps) [])"

section \<open>Properties\<close>



end
