(* ===== verification/Response_Cache.thy ===== *)
theory Response_Cache
  imports Cached_Adapter Query_Matcher
begin

text \<open>
  The cache of whole responses (\<open>fraiseql-core/src/cache/response_cache.rs\<close>) with its two-part key:
  the hash of the matched query (\<open>compute_response_cache_key\<close> of \<open>runtime/executor/query.rs\<close>) and the
  hash of the security context. The store, the hash and the printed form of JSON values are
  arguments, and so is the order in which the entries of a hash map are visited; \<open>sort_entries\<close>
  makes the result independent of it. Shown here: an invalidated response is not served, and what
  the two keys tell apart.
\<close>

section \<open>The cache\<close>

record response_cache_config =
  response_enabled :: bool
  response_max_entries :: u64
  response_ttl :: u64

definition default_response_config :: response_cache_config where
  "default_response_config = \<lparr>response_enabled = False, response_max_entries = 10000, response_ttl = 300\<rparr>"

record response_entry =
  entry_response :: json
  entry_views :: "string list"

type_synonym response_slot = "u64 \<times> u64"
type_synonym 's response_store = "(response_slot, response_entry, 's) moka"

record 's response_cache =
  rc_store :: 's
  rc_index :: "(string, response_slot) index"
  rc_enabled :: bool
  rc_hits :: u64
  rc_misses :: u64

definition response_cache_new :: "'s response_store \<Rightarrow> response_cache_config \<Rightarrow> 's response_cache" where
  "response_cache_new m cfg =
     \<lparr>rc_store = m_build m (response_max_entries cfg) (if 0 < response_ttl cfg then TimeToLive (response_ttl cfg) else NoExpiry),
      rc_index = [], rc_enabled = response_enabled cfg, rc_hits = 0, rc_misses = 0\<rparr>"

definition register_response :: "response_slot \<Rightarrow> response_entry \<Rightarrow> (string, response_slot) index \<Rightarrow> (string, response_slot) index" where
  "register_response k v = fold (index_insert k) (entry_views v)"

text \<open>The eviction listener, and its calls during one operation of the store.\<close>

fun unlist_response :: "response_slot \<times> response_entry \<Rightarrow> (string, response_slot) index \<Rightarrow> (string, response_slot) index" where
  "unlist_response (k, v) m = fold (index_remove k) (entry_views v) m"

definition response_notify :: "(response_slot \<times> response_entry) list \<times> 's \<Rightarrow> 's response_cache \<Rightarrow> 's response_cache" where
  "response_notify r c = c\<lparr>rc_store := snd r, rc_index := fold unlist_response (fst r) (rc_index c)\<rparr>"

definition response_get :: "'s response_store \<Rightarrow> response_slot \<Rightarrow> 's response_cache \<Rightarrow> json option \<times> 's response_cache" where
  "response_get m k c =
     (if \<not> rc_enabled c then (None, c)
      else case m_get m k (rc_store c) of
          (Some e, ns, s) \<Rightarrow> (Some (entry_response e), (response_notify (ns, s) c)\<lparr>rc_hits := rc_hits c + 1\<rparr>)
        | (None, ns, s) \<Rightarrow> (None, (response_notify (ns, s) c)\<lparr>rc_misses := rc_misses c + 1\<rparr>))"

definition response_put ::
  "'s response_store \<Rightarrow> response_slot \<Rightarrow> json \<Rightarrow> string list \<Rightarrow> 's response_cache \<Rightarrow> 's response_cache" where
  "response_put m k response views c =
     (if \<not> rc_enabled c then c
      else let entry = \<lparr>entry_response = response, entry_views = views\<rparr>;
               c1 = c\<lparr>rc_index := register_response k entry (rc_index c)\<rparr>
           in response_notify (m_insert m k entry (rc_store c1)) c1)"

definition response_invalidate_keys :: "'s response_store \<Rightarrow> response_slot list \<Rightarrow> 's response_cache \<Rightarrow> 's response_cache" where
  "response_invalidate_keys m ks c = fold (\<lambda>k c. response_notify (m_invalidate m k (rc_store c)) c) ks c"

fun response_invalidate_views :: "'s response_store \<Rightarrow> string list \<Rightarrow> 's response_cache \<Rightarrow> u64 \<times> 's response_cache" where
  "response_invalidate_views m [] c = (0, c)"
| "response_invalidate_views m (view # views) c =
     (let to_remove = index_keys (rc_index c) view;
          (n, c') = response_invalidate_views m views (response_invalidate_keys m to_remove c)
      in (word_of_nat (length to_remove) + n, c'))"

definition response_metrics :: "'s response_cache \<Rightarrow> u64 \<times> u64" where
  "response_metrics c = (rc_hits c, rc_misses c)"

section \<open>Keys\<close>

text \<open>\<open>Hash\<close> of a \<open>String\<close> writes its bytes and a terminator; of an \<open>Option\<close>, the discriminant first.\<close>

definition hash_str :: "string \<Rightarrow> hash_call list" where
  "hash_str s = [Write s, WriteU8 255]"

definition hash_opt_str :: "string option \<Rightarrow> hash_call list" where
  "hash_opt_str t = (case t of None \<Rightarrow> [WriteUsize 0] | Some s \<Rightarrow> WriteUsize 1 # hash_str s)"

definition hash_entries :: "(json \<Rightarrow> string) \<Rightarrow> (string \<times> json) list \<Rightarrow> hash_call list" where
  "hash_entries print es = concat (map (\<lambda>(k, v). hash_str k @ hash_str (print v)) (sort_entries es))"

definition sort_strings :: "string list \<Rightarrow> string list" where
  "sort_strings ss = map fst (sort_entries (map (\<lambda>s. (s, ())) ss))"

record key_env =
  key_hash :: "hash_call list \<Rightarrow> u64"
  key_print :: "json \<Rightarrow> string"
  key_entries :: "(string \<rightharpoonup> json) \<Rightarrow> (string \<times> json) list"

definition response_key_calls :: "key_env \<Rightarrow> matched \<Rightarrow> hash_call list" where
  "response_key_calls K qm =
     hash_str (query_name (query_def qm)) @ concat (map hash_str (match_fields qm)) @
     hash_entries (key_print K) (key_entries K (match_arguments qm))"

definition compute_response_cache_key :: "key_env \<Rightarrow> matched \<Rightarrow> u64" where
  "compute_response_cache_key K qm = key_hash K (response_key_calls K qm)"

definition security_calls :: "key_env \<Rightarrow> security_context \<Rightarrow> hash_call list" where
  "security_calls K ctx =
     hash_str (user_id ctx) @ concat (map hash_str (sort_strings (roles ctx))) @ hash_opt_str (tenant_id ctx) @
     concat (map hash_str (sort_strings (scopes ctx))) @ hash_entries (key_print K) (key_entries K (attributes ctx))"

definition hash_security_context :: "key_env \<Rightarrow> security_context option \<Rightarrow> u64" where
  "hash_security_context K ctx = (case ctx of None \<Rightarrow> 0 | Some c \<Rightarrow> key_hash K (security_calls K c))"

section \<open>An invalidated response is not served\<close>

definition response_labels :: "response_entry \<Rightarrow> string set" where
  "response_labels v = set (entry_views v)"

interpretation ridx: reverse_index index_rel response_labels register_response unlist_response
  by unfold_locales (simp_all add: register_response_def response_labels_def index_rel_inserts index_rel_removes)

lemma response_notify_fields [simp]:
  "rc_store (response_notify r c) = snd r"
  "rc_index (response_notify r c) = fold unlist_response (fst r) (rc_index c)"
  "rc_enabled (response_notify r c) = rc_enabled c"
  by (simp_all add: response_notify_def)

definition covered :: "('s \<Rightarrow> response_slot \<rightharpoonup> response_entry) \<Rightarrow> 's response_cache \<Rightarrow> bool" where
  "covered live c \<longleftrightarrow> ridx.covers (rc_index c) (live (rc_store c))"

lemma covered_notify:
  assumes "ridx.covers (rc_index c) (live s)" and "\<And>k v. (k, v) \<in> set ns \<Longrightarrow> live s k = None"
  shows "covered live (response_notify (ns, s) c)"
  using assms by (simp add: covered_def ridx.covers_unregs)

lemma covered_get:
  assumes "moka_laws m stored live" and "covered live c" and "response_get m k c = (r, c')"
  shows "covered live c'"
proof (cases "rc_enabled c")
  case True
  obtain v ns s where g: "m_get m k (rc_store c) = (v, ns, s)" by (cases "m_get m k (rc_store c)")
  have "covered live (response_notify (ns, s) c)"
  proof (rule covered_notify)
    show "ridx.covers (rc_index c) (live s)"
      using assms(2) laws_get(3) [OF assms(1) g] unfolding covered_def by (blast intro: ridx.covers_mono)
    show "(j, w) \<in> set ns \<Longrightarrow> live s j = None" for j w
      by (rule reported_not_live [OF assms(1) laws_get(2) [OF assms(1) g]])
  qed
  with assms(3) True g show ?thesis by (auto simp: response_get_def covered_def split: option.splits)
qed (use assms in \<open>simp add: response_get_def\<close>)

lemma covered_put:
  assumes "moka_laws m stored live" and "covered live c" and "stored (rc_store c) k = None"
  shows "covered live (response_put m k response views c)"
proof (cases "rc_enabled c")
  case True
  define e where "e = \<lparr>entry_response = response, entry_views = views\<rparr>"
  obtain ns s where i: "m_insert m k e (rc_store c) = (ns, s)" by fastforce
  define c1 where "c1 = c\<lparr>rc_index := register_response k e (rc_index c)\<rparr>"
  have "covered live (response_notify (ns, s) c1)"
  proof (rule covered_notify)
    show "ridx.covers (rc_index c1) (live s)"
      using assms(2) laws_insert_live [OF assms(1) i] unfolding covered_def c1_def
      by (simp, blast intro: ridx.covers_mono ridx.covers_reg)
    show "live s j = None" if "(j, w) \<in> set ns" for j w
      using reported_not_live [OF assms(1) insert_evicted [OF assms(1) i assms(3)] that] .
  qed
  with True i show ?thesis by (simp add: response_put_def Let_def e_def c1_def covered_def)
qed (use assms in \<open>simp add: response_put_def\<close>)

lemma covered_invalidate_key:
  assumes "moka_laws m stored live" and "covered live c"
  shows "covered live (response_notify (m_invalidate m k (rc_store c)) c)"
proof -
  obtain ns s where i: "m_invalidate m k (rc_store c) = (ns, s)" by fastforce
  have "covered live (response_notify (ns, s) c)"
  proof (rule covered_notify)
    have "live s j = Some w \<Longrightarrow> live (rc_store c) j = Some w" for j w
      using laws_invalidate_live [OF assms(1) i, of j w] by (auto split: if_splits)
    then show "ridx.covers (rc_index c) (live s)"
      using assms(2) unfolding covered_def by (blast intro: ridx.covers_mono)
    show "(j, w) \<in> set ns \<Longrightarrow> live s j = None" for j w
      using reported_not_live [OF assms(1)] invalidate_evicted [OF assms(1) i] by blast
  qed
  with i show ?thesis by simp
qed

lemma response_invalidate_keys_simps [simp]:
  "response_invalidate_keys m [] c = c"
  "response_invalidate_keys m (k # ks) c = response_invalidate_keys m ks (response_notify (m_invalidate m k (rc_store c)) c)"
  by (simp_all add: response_invalidate_keys_def)

lemma covered_invalidate_keys:
  "moka_laws m stored live \<Longrightarrow> covered live c \<Longrightarrow> covered live (response_invalidate_keys m ks c)"
  by (induction ks arbitrary: c) (simp_all add: covered_invalidate_key)

lemma response_invalidate_keys_live:
  assumes "moka_laws m stored live" and "live (rc_store (response_invalidate_keys m ks c)) j = Some v"
  shows "j \<notin> set ks \<and> live (rc_store c) j = Some v"
  using assms(2)
proof (induction ks arbitrary: c)
  case (Cons k ks)
  obtain ns s where i: "m_invalidate m k (rc_store c) = (ns, s)" by fastforce
  from Cons.IH [of "response_notify (m_invalidate m k (rc_store c)) c"] Cons.prems
  have "j \<notin> set ks" "live s j = Some v" by (simp_all add: i)
  with laws_invalidate_live [OF assms(1) i] show ?case by (fastforce split: if_splits)
qed simp

lemma covered_invalidate_views:
  "moka_laws m stored live \<Longrightarrow> covered live c \<Longrightarrow> covered live (snd (response_invalidate_views m vs c))"
  by (induction vs arbitrary: c) (simp_all add: covered_invalidate_keys case_prod_beta Let_def)

lemma response_invalidate_views_live:
  assumes "moka_laws m stored live" and "covered live c"
    and "live (rc_store (snd (response_invalidate_views m vs c))) j = Some v"
  shows "set (entry_views v) \<inter> set vs = {} \<and> live (rc_store c) j = Some v"
  using assms(2,3)
proof (induction vs arbitrary: c)
  case (Cons w vs)
  let ?ks = "index_keys (rc_index c) w"
  let ?c = "response_invalidate_keys m ?ks c"
  from Cons.prems have "live (rc_store (snd (response_invalidate_views m vs ?c))) j = Some v"
    by (simp add: case_prod_beta Let_def)
  with Cons.IH [OF covered_invalidate_keys [OF assms(1) Cons.prems(1)]]
  have rest: "set (entry_views v) \<inter> set vs = {}" "live (rc_store ?c) j = Some v" by blast+
  from response_invalidate_keys_live [OF assms(1) rest(2)]
  have "j \<notin> set ?ks" and live: "live (rc_store c) j = Some v" by blast+
  then have "w \<notin> set (entry_views v)"
    using ridx.found [of "rc_index c" "live (rc_store c)" j v w] Cons.prems(1)
    by (auto simp: covered_def index_keys_iff response_labels_def)
  with rest(1) live show ?case by simp
qed simp

text \<open>The operations in any order; a response is stored under a key the store does not hold.\<close>

inductive response_reach ::
  "'s response_store \<Rightarrow> ('s \<Rightarrow> response_slot \<rightharpoonup> response_entry) \<Rightarrow> ('s \<Rightarrow> response_slot \<rightharpoonup> response_entry) \<Rightarrow>
   's response_cache \<Rightarrow> bool"
  for m stored live where
    start: "response_reach m stored live (response_cache_new m cfg)"
  | get: "response_reach m stored live c'" if "response_reach m stored live c" "response_get m k c = (r, c')"
  | put: "response_reach m stored live (response_put m k response views c)"
      if "response_reach m stored live c" "stored (rc_store c) k = None"
  | views: "response_reach m stored live (snd (response_invalidate_views m vs c))" if "response_reach m stored live c"
  | time: "response_reach m stored live (c\<lparr>rc_store := s\<rparr>)"
      if "response_reach m stored live c" "stored s = stored (rc_store c)" "live s \<subseteq>\<^sub>m live (rc_store c)"

lemma response_reach_covered:
  assumes "moka_laws m stored live" and "response_reach m stored live c"
  shows "covered live c"
  using assms(2)
proof (induction rule: response_reach.induct)
  case (start cfg)
  then show ?case by (simp add: covered_def response_cache_new_def build_live [OF assms(1)])
next
  case (time c s)
  then show ?case by (simp add: covered_def) (meson ridx.covers_mono map_leD)
qed (simp_all add: covered_get [OF assms(1)] covered_put [OF assms(1)] covered_invalidate_views [OF assms(1)])

section \<open>What the keys tell apart\<close>

lemma hash_strs_follow:
  "concat (map hash_str xs) @ WriteUsize a # r = concat (map hash_str ys) @ WriteUsize b # s \<longleftrightarrow>
   xs = ys \<and> a = b \<and> r = s"
proof (induction xs arbitrary: ys)
  case Nil
  then show ?case by (cases ys) (auto simp: hash_str_def)
next
  case (Cons x xs)
  then show ?case by (cases ys) (auto simp: hash_str_def)
qed

lemma hash_strs_eq: "concat (map hash_str xs) = concat (map hash_str ys) \<longleftrightarrow> xs = ys"
  using hash_strs_follow [of xs 0 "[]" ys 0 "[]"] by auto

definition flat_entries :: "key_env \<Rightarrow> (string \<rightharpoonup> json) \<Rightarrow> string list" where
  "flat_entries K args = concat (map (\<lambda>(k, v). [k, key_print K v]) (sort_entries (key_entries K args)))"

lemma hash_entries_flat: "hash_entries (key_print K) (key_entries K args) = concat (map hash_str (flat_entries K args))"
proof -
  have "concat (map (\<lambda>(k, v). hash_str k @ hash_str (key_print K v)) es) =
      concat (map hash_str (concat (map (\<lambda>(k, v). [k, key_print K v]) es)))" for es
    by (induction es) auto
  then show ?thesis by (simp add: hash_entries_def flat_entries_def)
qed

lemma opt_calls:
  "hash_opt_str t @ concat (map hash_str xs) =
     WriteUsize (case t of None \<Rightarrow> 0 | Some _ \<Rightarrow> 1) # concat (map hash_str ((case t of None \<Rightarrow> [] | Some s \<Rightarrow> [s]) @ xs))"
  by (cases t) (simp_all add: hash_opt_str_def)

lemma security_calls_eq:
  "security_calls K c = security_calls K c' \<longleftrightarrow>
     user_id c = user_id c' \<and> sort_strings (roles c) = sort_strings (roles c') \<and> tenant_id c = tenant_id c' \<and>
     sort_strings (scopes c) @ flat_entries K (attributes c) = sort_strings (scopes c') @ flat_entries K (attributes c')"
proof -
  have shape: "security_calls K c = concat (map hash_str (user_id c # sort_strings (roles c))) @
      WriteUsize (case tenant_id c of None \<Rightarrow> 0 | Some _ \<Rightarrow> 1) #
      concat (map hash_str ((case tenant_id c of None \<Rightarrow> [] | Some s \<Rightarrow> [s]) @
        sort_strings (scopes c) @ flat_entries K (attributes c)))" for c
    using opt_calls [of "tenant_id c" "sort_strings (scopes c) @ flat_entries K (attributes c)"]
    by (simp add: security_calls_def hash_entries_flat)
  show ?thesis
    unfolding shape hash_strs_follow hash_strs_eq
    by (cases "tenant_id c"; cases "tenant_id c'") auto
qed

lemma response_calls_eq:
  "response_key_calls K q = response_key_calls K q' \<longleftrightarrow>
     query_name (query_def q) = query_name (query_def q') \<and>
     match_fields q @ flat_entries K (match_arguments q) = match_fields q' @ flat_entries K (match_arguments q')"
proof -
  have "response_key_calls K q =
      concat (map hash_str (query_name (query_def q) # match_fields q @ flat_entries K (match_arguments q)))" for q
    by (simp add: response_key_calls_def hash_entries_flat)
  then show ?thesis by (simp only: hash_strs_eq) simp
qed

section \<open>Properties\<close>


definition sample_responses :: "(response_slot, response_entry) plain response_cache" where
  "sample_responses = response_put plain_store (1, 2) (JString ''r'') [''v_user'']
     (response_cache_new plain_store \<lparr>response_enabled = True, response_max_entries = 10, response_ttl = 0\<rparr>)"


text \<open>
  C13. Which callers share responses, when the hash keeps the two sequences of calls apart: exactly
  those with the same user, the same roles in some order, the same tenant, and the same list of
  sorted scopes followed by the keys and values of the attributes. So no two users and no two
  tenants share a response; but a scope is not told from the key or the value of an attribute.
\<close>

theorem callers_sharing_responses:
  assumes "inj_on (key_hash K) {security_calls K c, security_calls K c'}"
  shows "hash_security_context K (Some c) = hash_security_context K (Some c') \<longleftrightarrow>
     user_id c = user_id c' \<and> sort_strings (roles c) = sort_strings (roles c') \<and> tenant_id c = tenant_id c' \<and>
     sort_strings (scopes c) @ flat_entries K (attributes c) = sort_strings (scopes c') @ flat_entries K (attributes c')"
  using inj_on_eq_iff [OF assms] by (simp add: hash_security_context_def security_calls_eq)

definition sample_keys :: key_env where
  "sample_keys = \<lparr>key_hash = first_difference, key_print = (\<lambda>v. case v of JString s \<Rightarrow> s | _ \<Rightarrow> []),
     key_entries = (\<lambda>m. List.map_filter (\<lambda>k. map_option (Pair k) (m k)) [''dept''])\<rparr>"

definition scoped_caller :: security_context where
  "scoped_caller = \<lparr>user_id = ''u'', roles = [], tenant_id = None, scopes = [''dept'', ''x''], attributes = Map.empty, expires_at = 9\<rparr>"

definition attributed_caller :: security_context where
  "attributed_caller = \<lparr>user_id = ''u'', roles = [], tenant_id = None, scopes = [], attributes = [''dept'' \<mapsto> JString ''x''], expires_at = 9\<rparr>"

theorem callers_sharing_responses_witness:
  "hash_security_context sample_keys (Some scoped_caller) = hash_security_context sample_keys (Some attributed_caller) \<and>
   attributes scoped_caller \<noteq> attributes attributed_caller"
proof -
  have "security_calls sample_keys scoped_caller = security_calls sample_keys attributed_caller" by code_simp
  then have "inj_on (key_hash sample_keys) {security_calls sample_keys scoped_caller, security_calls sample_keys attributed_caller}"
    by simp
  note callers_sharing_responses [OF this]
  moreover have "sort_strings (scopes scoped_caller) @ flat_entries sample_keys (attributes scoped_caller) =
      sort_strings (scopes attributed_caller) @ flat_entries sample_keys (attributes attributed_caller)" by code_simp
  ultimately have "hash_security_context sample_keys (Some scoped_caller) = hash_security_context sample_keys (Some attributed_caller)"
    by (simp add: scoped_caller_def attributed_caller_def)
  moreover have "attributes scoped_caller ''dept'' \<noteq> attributes attributed_caller ''dept''" by code_simp
  ultimately show ?thesis by metis
qed

end
