(* ===== verification/Query_Execution.thy ===== *)
theory Query_Execution
  imports Projection_Sql Response_Cache Field_Access
begin

text \<open>
  The authenticated query from request to response:
  \<open>execute_regular_query_with_security\<close> of \<open>fraiseql-core/src/runtime/executor/query.rs\<close> with all its
  steps, composed of the theories of the parts: matching, session variables, response cache, plan,
  row-level security and filters, projection, field access control, response.

  The adapter is a record of operations on a state of unknown type; the handler of relay queries
  (\<open>Relay\<close>) is an argument. The parsed query stands for its text.
\<close>

section \<open>State and environment\<close>

datatype exec_error = QueryError db_error | AccessError access_error

record 'w query_adapter =
  fetch_rows :: "sql_projection_hint option \<Rightarrow> adapter_query \<Rightarrow> 'w \<Rightarrow> (db_error + json list) \<times> 'w"
  set_variables :: "(string \<times> string) list \<Rightarrow> 'w \<Rightarrow> (db_error + unit) \<times> 'w"
  adapter_kind :: string

record ('w, 's) executor =
  ex_adapter :: "'w query_adapter"
  ex_readers :: row_readers
  ex_schema :: compiled_schema
  ex_policy :: "rls_policy option"
  ex_access :: "security_config option"
  ex_strategy :: jsonb_strategy
  ex_keys :: key_env
  ex_store :: "'s response_store"
  ex_relay :: "matched \<Rightarrow> json option \<Rightarrow> security_context \<Rightarrow> 'w \<Rightarrow> (exec_error + json) \<times> 'w"

record ('w, 's) exec_state =
  adapter_state :: 'w
  responses :: "'s response_cache option"

section \<open>Steps\<close>

definition set_query_variables ::
  "('w, 's) executor \<Rightarrow> security_context \<Rightarrow> 'w \<Rightarrow> (db_error + unit) \<times> 'w" where
  "set_query_variables X ctx w =
     (let sv = session_variables (ex_schema X) in
      if session_mappings sv \<noteq> [] \<or> inject_started_at sv then
        (let vars = resolve_session_variables (ex_readers X) sv ctx
         in if vars \<noteq> [] then set_variables (ex_adapter X) vars w else (Inr (), w))
      else (Inr (), w))"

definition response_cache_key :: "('w, 's) executor \<Rightarrow> matched \<Rightarrow> security_context \<Rightarrow> response_slot" where
  "response_cache_key X qm ctx =
     (compute_response_cache_key (ex_keys X) qm, hash_security_context (ex_keys X) (Some ctx))"

definition lookup_response ::
  "('w, 's) executor \<Rightarrow> matched \<Rightarrow> security_context \<Rightarrow> 's response_cache option \<Rightarrow> json option \<times> 's response_cache option" where
  "lookup_response X qm ctx rc =
     (case rc of
        Some c \<Rightarrow>
          if rc_enabled c then
            (case response_get (ex_store X) (response_cache_key X qm ctx) c of (r, c') \<Rightarrow> (r, Some c'))
          else (None, rc)
      | None \<Rightarrow> (None, rc))"

definition store_response ::
  "('w, 's) executor \<Rightarrow> matched \<Rightarrow> security_context \<Rightarrow> json \<Rightarrow> 's response_cache option \<Rightarrow> 's response_cache option" where
  "store_response X qm ctx response rc =
     (case rc of
        Some c \<Rightarrow>
          if rc_enabled c then
            Some (response_put (ex_store X) (response_cache_key X qm ctx) response
              [case sql_source (query_def qm) of Some s \<Rightarrow> s | None \<Rightarrow> []] c)
          else rc
      | None \<Rightarrow> rc)"

definition projection_hint :: "('w, 's) executor \<Rightarrow> matched \<Rightarrow> sql_projection_hint option" where
  "projection_hint X qm =
     (let plan = plan_query (ex_strategy X) qm in
      if plan_projection_fields plan \<noteq> [] \<and> plan_strategy plan = Project then
        (let root_fields = (case match_selections qm of s # _ \<Rightarrow> sel_nested s | [] \<Rightarrow> []);
             typed = build_typed_projection_fields (schema_types (ex_schema X)) root_fields (return_type (query_def qm)) 0
         in Some \<lparr>hint_database = adapter_kind (ex_adapter X),
              projection_template = (case generate_typed_projection_sql ''data'' typed of Inr sql \<Rightarrow> sql | Inl _ \<Rightarrow> ''data''),
              estimated_reduction_percent = word_of_nat (compute_projection_reduction (length (plan_projection_fields plan)))\<rparr>)
      else None)"

text \<open>Steps 10 to 12: field access, projection, masking, envelope.\<close>

definition respond ::
  "('w, 's) executor \<Rightarrow> matched \<Rightarrow> security_context \<Rightarrow> json list \<Rightarrow> exec_error + json" where
  "respond X qm ctx rows =
     (let q = query_def qm; plan = plan_query (ex_strategy X) qm in
      case apply_field_rbac_filtering (ex_access X) (schema_types (ex_schema X)) (return_type q)
             (plan_projection_fields plan) ctx of
        Inl e \<Rightarrow> Inl (AccessError e)
      | Inr (allowed, masked) \<Rightarrow>
          (let projector = configure_typename_from_selections
                 (map (\<lambda>s. map sel_name (sel_nested s)) (match_selections qm)) (return_type q)
                 (mapper_new (allowed @ masked));
               projected = project_results (texts (ex_readers X)) projector rows (returns_list q);
               final = (if masked \<noteq> [] then null_masked_fields masked projected else projected)
           in Inr (wrap_in_data_envelope final (query_name q))))"

text \<open>Steps 3 to 13, after a miss of the response cache.\<close>

definition run_query ::
  "('w, 's) executor \<Rightarrow> matched \<Rightarrow> security_context \<Rightarrow> ('w, 's) exec_state \<Rightarrow> (exec_error + json) \<times> ('w, 's) exec_state" where
  "run_query X qm ctx st =
     (case regular_query_with_security (schema_types (ex_schema X)) (ex_policy X) (query_match.truncate qm) ctx of
        Inl e \<Rightarrow> (Inl (QueryError e), st)
      | Inr aq \<Rightarrow>
          (case fetch_rows (ex_adapter X) (projection_hint X qm) aq (adapter_state st) of
             (Inl e, w) \<Rightarrow> (Inl (QueryError e), st\<lparr>adapter_state := w\<rparr>)
           | (Inr rows, w) \<Rightarrow>
               (case respond X qm ctx rows of
                  Inl e \<Rightarrow> (Inl e, st\<lparr>adapter_state := w\<rparr>)
                | Inr response \<Rightarrow>
                    (Inr response,
                     \<lparr>adapter_state = w, responses = store_response X qm ctx response (responses st)\<rparr>))))"

definition execute_regular_query_with_security ::
  "('w, 's) executor \<Rightarrow> int \<Rightarrow> parsed_query \<Rightarrow> json option \<Rightarrow> security_context \<Rightarrow> ('w, 's) exec_state \<Rightarrow>
   (exec_error + json) \<times> ('w, 's) exec_state" where
  "execute_regular_query_with_security X now parsed variables ctx st =
     (if is_expired now ctx then (Inl (QueryError (Validation ''Security token has expired'')), st)
      else case match_query (texts (ex_readers X)) (ex_schema X) parsed variables of
        Inl e \<Rightarrow> (Inl (QueryError e), st)
      | Inr qm \<Rightarrow>
          (case authenticated_guards now (query_def qm) ctx of
             Inl e \<Rightarrow> (Inl (QueryError e), st)
           | Inr is_relay \<Rightarrow>
               (case set_query_variables X ctx (adapter_state st) of
                  (Inl e, w) \<Rightarrow> (Inl (QueryError e), st\<lparr>adapter_state := w\<rparr>)
                | (Inr _, w) \<Rightarrow>
                    if is_relay then
                      (case ex_relay X qm variables ctx w of (r, w') \<Rightarrow> (r, st\<lparr>adapter_state := w'\<rparr>))
                    else
                      (case lookup_response X qm ctx (responses st) of
                         (Some cached, rc) \<Rightarrow> (Inr cached, \<lparr>adapter_state = w, responses = rc\<rparr>)
                       | (None, rc) \<Rightarrow> run_query X qm ctx \<lparr>adapter_state = w, responses = rc\<rparr>))))"

text \<open>The anonymous entry point \<open>execute_regular_query\<close>.\<close>

definition respond_anonymous :: "('w, 's) executor \<Rightarrow> matched \<Rightarrow> json list \<Rightarrow> json" where
  "respond_anonymous X qm rows =
     (let q = query_def qm; plan = plan_query (ex_strategy X) qm;
          projector = configure_typename_from_selections
            (map (\<lambda>s. map sel_name (sel_nested s)) (match_selections qm)) (return_type q)
            (mapper_new (plan_projection_fields plan))
      in wrap_in_data_envelope (project_results (texts (ex_readers X)) projector rows (returns_list q)) (query_name q))"

definition execute_regular_query ::
  "('w, 's) executor \<Rightarrow> (matched \<Rightarrow> json option \<Rightarrow> 'w \<Rightarrow> (exec_error + json) \<times> 'w) \<Rightarrow> parsed_query \<Rightarrow> json option \<Rightarrow> 'w \<Rightarrow>
   (exec_error + json) \<times> 'w" where
  "execute_regular_query X relay_query parsed variables w =
     (case match_query (texts (ex_readers X)) (ex_schema X) parsed variables of
        Inl e \<Rightarrow> (Inl (QueryError e), w)
      | Inr qm \<Rightarrow>
          (case anonymous_guards (query_def qm) of
             Inl e \<Rightarrow> (Inl (QueryError e), w)
           | Inr is_relay \<Rightarrow>
               if is_relay then relay_query qm variables w
               else
                 (case regular_query (schema_types (ex_schema X)) (query_match.truncate qm) of
                    Inl e \<Rightarrow> (Inl (QueryError e), w)
                  | Inr aq \<Rightarrow>
                      (case fetch_rows (ex_adapter X) (projection_hint X qm) aq w of
                         (Inl e, w') \<Rightarrow> (Inl (QueryError e), w')
                       | (Inr rows, w') \<Rightarrow> (Inr (respond_anonymous X qm rows), w')))))"

end
