(* ===== verification/Execution_Safety.thy ===== *)
theory Execution_Safety
  imports Query_Execution
begin

text \<open>
  What the authenticated query guarantees as a whole, with the response cache in the loop: a field
  the caller may not see is in no answer, whether computed or cached. And where the guarantee
  ends: a name the schema does not know that is read under the same key, callers without a
  security context, and answers shared between queries that select different fields.
\<close>

section \<open>Projected rows have the requested fields only\<close>

lemma map_insert_lookup: "map_of (map_insert k v es) n = (if n = k then Some v else map_of es n)"
  by (induction k v es rule: map_insert.induct) auto

lemma project_json_object_absent:
  assumes "n \<noteq> ''__typename''" and "n \<notin> fm_output ` set (mapper_fields m)"
  shows "map_of (project_json_object P m es) n = None"
proof -
  have "map_of (foldl (\<lambda>result f. case source_value es f of
        Some v \<Rightarrow> map_insert (fm_output f) (project_nested_value P v f) result | None \<Rightarrow> result) acc fms) n = None"
    if "map_of acc n = None" "n \<notin> fm_output ` set fms" for acc fms
    using that by (induction fms arbitrary: acc) (auto simp: map_insert_lookup split: option.splits)
  with assms show ?thesis by (simp add: project_json_object_def split: option.splits)
qed

text \<open>The rows of a response under the name of its query, and what it means to hide a field.\<close>

fun as_rows :: "json \<Rightarrow> json list" where
  "as_rows (JArray rows) = rows"
| "as_rows v = [v]"

definition hides :: "string \<Rightarrow> json \<Rightarrow> bool" where
  "hides n v \<longleftrightarrow> (\<forall>row \<in> set (as_rows v). json_get row n \<in> {None, Some JNull})"

definition response_hides :: "string \<Rightarrow> string \<Rightarrow> json \<Rightarrow> bool" where
  "response_hides name n response \<longleftrightarrow>
     (\<forall>data v. json_get response ''data'' = Some data \<longrightarrow> json_get data name = Some v \<longrightarrow> hides n v)"

lemma envelope_hides: "response_hides name n (wrap_in_data_envelope v name) \<longleftrightarrow> hides n v"
  by (auto simp: response_hides_def wrap_in_data_envelope_def json_get_def)

lemma project_absent:
  assumes "n \<noteq> ''__typename''" and "n \<notin> fm_output ` set (mapper_fields m)"
  shows "row \<in> set (as_rows (project P m v)) \<Longrightarrow> json_get row n = None"
    and "json_get (project P m v) n = None"
  by (cases v) (auto simp: project_def json_get_def project_json_array_def project_json_object_absent [OF assms]
      split: json.splits)

lemma project_results_hides:
  assumes "n \<noteq> ''__typename''" and "n \<notin> fm_output ` set (mapper_fields m)"
  shows "hides n (project_results P m rows is_list)"
  using project_absent [OF assms]
  by (auto simp: project_results_def hides_def json_get_def split: list.splits)

lemma masked_absent_or_null:
  "json_get row n \<in> {None, Some JNull} \<Longrightarrow> json_get (null_masked_fields masked row) n \<in> {None, Some JNull}"
  by (cases row) (auto simp: json_get_def map_of_masked)

lemma masked_null: "n \<in> set masked \<Longrightarrow> json_get (null_masked_fields masked row) n \<in> {None, Some JNull}"
  by (cases row) (auto simp: json_get_def map_of_masked)

lemma as_rows_masked: "as_rows (null_masked_fields masked v) = map (null_masked_fields masked) (as_rows v)"
  by (cases v) simp_all

lemma hides_masked: "n \<in> set masked \<or> hides n v \<Longrightarrow> hides n (null_masked_fields masked v)"
  unfolding hides_def as_rows_masked set_map ball_simps using masked_null masked_absent_or_null by blast

lemma typename_fields [simp]: "mapper_fields (configure_typename_from_selections sels t m) = mapper_fields m"
  by (simp add: configure_typename_from_selections_def with_typename_def split: list.splits)

lemma mapper_new_outputs: "fm_output ` set (mapper_fields (mapper_new names)) = set names"
  by (auto simp: mapper_new_def mapper_with_mappings_def simple_mapping_def image_image)

text \<open>A field of the returned type that a caller may not see.\<close>

definition denied_field :: "('w, 's) executor \<Rightarrow> query_definition \<Rightarrow> security_context \<Rightarrow> string \<Rightarrow> bool" where
  "denied_field X q ctx n \<longleftrightarrow> n \<noteq> ''__typename'' \<and>
     (\<exists>config td f. ex_access X = Some config \<and> find_type (schema_types (ex_schema X)) (return_type q) = Some td \<and>
        find (\<lambda>f. field_name f = n) (type_fields td) = Some f \<and> \<not> can_access_field ctx config f)"

lemma respond_hides_denied:
  assumes "respond X qm ctx rows = Inr response" and "denied_field X (query_def qm) ctx n"
  shows "response_hides (query_name (query_def qm)) n response"
proof -
  let ?fs = "plan_projection_fields (plan_query (ex_strategy X) qm)"
  from assms(2) obtain config td f where acc: "ex_access X = Some config" "n \<noteq> ''__typename''"
    "find_type (schema_types (ex_schema X)) (return_type (query_def qm)) = Some td"
    "find (\<lambda>f. field_name f = n) (type_fields td) = Some f" "\<not> can_access_field ctx config f"
    by (auto simp: denied_field_def)
  from assms(1) acc obtain a m where cl: "classify_field_access ctx config (type_fields td) ?fs = Inr (a, m)"
    by (auto simp: respond_def apply_field_rbac_filtering_def Let_def split: sum.splits)
  from classify_loop_spec [of ctx config "type_fields td" ?fs "[]" "[]" a m] cl acc(4,5)
  have out: "n \<notin> set a" by (auto simp: classify_field_access_def)
  define v where "v = project_results (texts (ex_readers X)) (configure_typename_from_selections
      (map (\<lambda>s. map sel_name (sel_nested s)) (match_selections qm)) (return_type (query_def qm)) (mapper_new (a @ m)))
      rows (returns_list (query_def qm))"
  have "n \<in> set m \<or> hides n v"
    unfolding v_def using project_results_hides [OF acc(2)] mapper_new_outputs [of "a @ m"] out by auto
  then have "hides n (null_masked_fields m v)" and "m = [] \<Longrightarrow> hides n v" by (auto simp: hides_masked)
  with assms(1) acc cl show ?thesis
    by (auto simp: respond_def apply_field_rbac_filtering_def Let_def v_def envelope_hides split: if_splits)
qed

section \<open>Runs with the response cache\<close>

text \<open>
  Any callers send any queries in any order, views are invalidated, entries expire and the
  database changes. \<open>U\<close> holds the sequences of hasher calls that occur.
\<close>

inductive exec_run ::
  "('w, 's) executor \<Rightarrow> ('s \<Rightarrow> response_slot \<rightharpoonup> response_entry) \<Rightarrow> hash_call list set \<Rightarrow> ('w, 's) exec_state \<Rightarrow> bool"
  for X live U where
    start: "exec_run X live U \<lparr>adapter_state = w, responses = map_option (response_cache_new (ex_store X)) cfg\<rparr>"
  | query: "exec_run X live U st'"
      if "exec_run X live U st" "execute_regular_query_with_security X now p vars ctx st = (r, st')"
        "security_calls (ex_keys X) ctx \<in> U"
        "\<And>qm. match_query (texts (ex_readers X)) (ex_schema X) p vars = Inr qm \<Longrightarrow> response_key_calls (ex_keys X) qm \<in> U"
  | invalidate: "exec_run X live U (st\<lparr>responses := Some (snd (response_invalidate_views (ex_store X) vs c))\<rparr>)"
      if "exec_run X live U st" "responses st = Some c"
  | database: "exec_run X live U (st\<lparr>adapter_state := w\<rparr>)" if "exec_run X live U st"
  | time: "exec_run X live U (st\<lparr>responses := Some (c\<lparr>rc_store := s\<rparr>)\<rparr>)"
      if "exec_run X live U st" "responses st = Some c" "live s \<subseteq>\<^sub>m live (rc_store c)"

text \<open>Every visible response was computed for its key.\<close>

definition computed_for ::
  "('w, 's) executor \<Rightarrow> hash_call list set \<Rightarrow> response_slot \<Rightarrow> response_entry \<Rightarrow> bool" where
  "computed_for X U k e \<longleftrightarrow>
     (\<exists>qm ctx rows. query_def qm \<in> set (schema_queries (ex_schema X)) \<and> k = response_cache_key X qm ctx \<and>
        response_key_calls (ex_keys X) qm \<in> U \<and> security_calls (ex_keys X) ctx \<in> U \<and>
        respond X qm ctx rows = Inr (entry_response e))"

definition faithful_responses ::
  "('w, 's) executor \<Rightarrow> ('s \<Rightarrow> response_slot \<rightharpoonup> response_entry) \<Rightarrow> hash_call list set \<Rightarrow> 's response_cache option \<Rightarrow> bool" where
  "faithful_responses X live U rc \<longleftrightarrow>
     (\<forall>c. rc = Some c \<longrightarrow> (\<forall>k e. live (rc_store c) k = Some e \<longrightarrow> computed_for X U k e))"

lemma faithful_None [simp]: "faithful_responses X live U None"
  by (simp add: faithful_responses_def)

lemma faithful_shrink:
  assumes "faithful_responses X live U (Some c)" and "live (rc_store c') \<subseteq>\<^sub>m live (rc_store c)"
  shows "faithful_responses X live U (Some c')"
  using assms map_leD [OF assms(2)] unfolding faithful_responses_def by blast

lemma find_query_member: "find_query qs n = Some q \<Longrightarrow> q \<in> set qs"
  by (auto simp: find_query_def find_Some_iff in_set_conv_nth split: option.splits if_splits)

lemma matched_member: "match_query P schema p vars = Inr qm \<Longrightarrow> query_def qm \<in> set (schema_queries schema)"
  by (auto simp: match_query_def try_bind_eq_Inr Let_def find_query_member split: option.splits list.splits)

lemma response_get_shrinks:
  assumes "moka_laws m stored live" and "response_get m k c = (r, c')"
  shows "live (rc_store c') \<subseteq>\<^sub>m live (rc_store c)"
    and "r = Some v \<Longrightarrow> \<exists>e. live (rc_store c) k = Some e \<and> entry_response e = v"
proof -
  obtain x ns s where g: "m_get m k (rc_store c) = (x, ns, s)" by (cases "m_get m k (rc_store c)")
  have "live s \<subseteq>\<^sub>m live (rc_store c)" using laws_get(3) [OF assms(1) g] by (auto simp: map_le_def)
  then show "live (rc_store c') \<subseteq>\<^sub>m live (rc_store c)"
    using assms(2) g by (auto simp: response_get_def split: if_splits option.splits)
  show "\<exists>e. live (rc_store c) k = Some e \<and> entry_response e = v" if "r = Some v"
    using that assms(2) g laws_get(1) [OF assms(1) g] by (auto simp: response_get_def split: if_splits option.splits)
qed

lemma response_put_live:
  assumes "moka_laws m stored live" and "live (rc_store (response_put m k response views c)) j = Some e"
  shows "live (rc_store c) j = Some e \<or> j = k \<and> entry_response e = response"
proof (cases "rc_enabled c")
  case True
  obtain ns s where i: "m_insert m k \<lparr>entry_response = response, entry_views = views\<rparr> (rc_store c) = (ns, s)" by fastforce
  with assms(2) True have "live s j = Some e" by (simp add: response_put_def Let_def)
  from laws_insert_live [OF assms(1) i this] show ?thesis by (auto split: if_splits)
qed (use assms in \<open>simp add: response_put_def\<close>)

lemma invalidate_views_shrinks:
  assumes "moka_laws m stored live"
  shows "live (rc_store (snd (response_invalidate_views m vs c))) \<subseteq>\<^sub>m live (rc_store c)"
proof -
  have step: "live (rc_store (response_invalidate_keys m ks c)) j = Some v \<Longrightarrow> live (rc_store c) j = Some v" for ks c j v
    using response_invalidate_keys_live [OF assms] by blast
  have "live (rc_store (snd (response_invalidate_views m vs c))) j = Some v \<Longrightarrow> live (rc_store c) j = Some v" for j v
    by (induction vs arbitrary: c) (auto simp: case_prod_beta Let_def dest: step)
  then show ?thesis by (auto simp: map_le_def)
qed

lemma lookup_faithful:
  assumes "moka_laws (ex_store X) stored live" and "faithful_responses X live U rc"
    and "lookup_response X qm ctx rc = (r, rc')"
  shows "faithful_responses X live U rc'"
    and "r = Some v \<Longrightarrow> \<exists>e. computed_for X U (response_cache_key X qm ctx) e \<and> entry_response e = v"
proof -
  show "faithful_responses X live U rc'"
    using assms(2,3) faithful_shrink response_get_shrinks(1) [OF assms(1)]
    by (fastforce simp: lookup_response_def split: option.splits if_splits prod.splits)
  assume "r = Some v"
  with assms(3) obtain c where c: "rc = Some c" "fst (response_get (ex_store X) (response_cache_key X qm ctx) c) = Some v"
    by (auto simp: lookup_response_def split: option.splits if_splits prod.splits)
  then obtain e where "live (rc_store c) (response_cache_key X qm ctx) = Some e" "entry_response e = v"
    using response_get_shrinks(2) [OF assms(1), of "response_cache_key X qm ctx" c "Some v"] by (metis prod.collapse)
  with assms(2) c(1) show "\<exists>e. computed_for X U (response_cache_key X qm ctx) e \<and> entry_response e = v"
    unfolding faithful_responses_def by blast
qed

lemma run_query_faithful:
  assumes "moka_laws (ex_store X) stored live" and "faithful_responses X live U (responses st)"
    and "run_query X qm ctx st = (r, st')"
    and "query_def qm \<in> set (schema_queries (ex_schema X))"
    and "response_key_calls (ex_keys X) qm \<in> U" "security_calls (ex_keys X) ctx \<in> U"
  shows "faithful_responses X live U (responses st')"
    and "r = Inr v \<Longrightarrow> \<exists>rows. respond X qm ctx rows = Inr v"
proof -
  have new: "computed_for X U (response_cache_key X qm ctx) e"
    if "respond X qm ctx rows = Inr (entry_response e)" for rows e
    using that assms(4-6) by (auto simp: computed_for_def)
  have "faithful_responses X live U (store_response X qm ctx v (responses st))"
    if v: "respond X qm ctx rows = Inr v" for v rows
    unfolding faithful_responses_def
  proof (intro allI impI)
    fix c' k e assume c': "store_response X qm ctx v (responses st) = Some c'" and e: "live (rc_store c') k = Some e"
    from c' obtain c where c: "responses st = Some c" by (auto simp: store_response_def split: option.splits)
    with c' e have "live (rc_store c) k = Some e \<or> k = response_cache_key X qm ctx \<and> entry_response e = v"
      using response_put_live [OF assms(1), of "response_cache_key X qm ctx" v
          "[case sql_source (query_def qm) of Some s \<Rightarrow> s | None \<Rightarrow> []]" c k e]
      by (cases "rc_enabled c") (simp_all add: store_response_def)
    then show "computed_for X U k e"
      using assms(2) c new v unfolding faithful_responses_def by blast
  qed
  with assms(2,3) show "faithful_responses X live U (responses st')"
    by (auto simp: run_query_def split: sum.splits prod.splits)
  show "\<exists>rows. respond X qm ctx rows = Inr v" if "r = Inr v"
    using assms(3) that by (auto simp: run_query_def split: sum.splits prod.splits)
qed

text \<open>How an execution ends: without the cache, with a hit, or with a run of the query.\<close>

lemma execute_cases:
  assumes "execute_regular_query_with_security X now p vars ctx st = (r, st')"
  obtains (apart) "responses st' = responses st"
      "\<And>qm. match_query (texts (ex_readers X)) (ex_schema X) p vars = Inr qm \<Longrightarrow> relay (query_def qm) \<or> (\<exists>e. r = Inl e)"
  | (hit) qm v where "match_query (texts (ex_readers X)) (ex_schema X) p vars = Inr qm"
      "lookup_response X qm ctx (responses st) = (Some v, responses st')" "r = Inr v"
  | (miss) qm w rc where "match_query (texts (ex_readers X)) (ex_schema X) p vars = Inr qm"
      "lookup_response X qm ctx (responses st) = (None, rc)"
      "run_query X qm ctx \<lparr>adapter_state = w, responses = rc\<rparr> = (r, st')"
proof (cases "match_query (texts (ex_readers X)) (ex_schema X) p vars")
  case (Inl e)
  with assms show ?thesis
    by (intro apart) (auto simp: execute_regular_query_with_security_def split: if_splits)
next
  case qm: (Inr qm)
  show ?thesis
  proof (cases "\<exists>w. \<not> is_expired now ctx \<and> authenticated_guards now (query_def qm) ctx = Inr False \<and>
      set_query_variables X ctx (adapter_state st) = (Inr (), w)")
    case True
    then obtain w where w: "\<not> is_expired now ctx" "authenticated_guards now (query_def qm) ctx = Inr False"
      "set_query_variables X ctx (adapter_state st) = (Inr (), w)" by blast
    obtain x rc where l: "lookup_response X qm ctx (responses st) = (x, rc)" by fastforce
    show ?thesis
    proof (cases x)
      case None
      with assms w l qm show ?thesis by (intro miss [of qm rc w]) (simp_all add: execute_regular_query_with_security_def)
    next
      case (Some v)
      with assms w l qm show ?thesis by (intro hit [of qm v]) (auto simp: execute_regular_query_with_security_def)
    qed
  next
    case False
    have "relay (query_def qm)" if "authenticated_guards now (query_def qm) ctx = Inr True"
      using that by (auto simp: authenticated_guards_def split: if_splits option.splits)
    with False assms qm show ?thesis
      by (intro apart) (auto simp: execute_regular_query_with_security_def split: if_splits sum.splits prod.splits bool.splits)
  qed
qed

text \<open>What a successful answer is, in a state whose visible responses are faithful.\<close>

lemma execute_faithful:
  assumes "moka_laws (ex_store X) stored live" and "faithful_responses X live U (responses st)"
    and "execute_regular_query_with_security X now p vars ctx st = (r, st')"
    and "security_calls (ex_keys X) ctx \<in> U"
    and calls: "\<And>qm. match_query (texts (ex_readers X)) (ex_schema X) p vars = Inr qm \<Longrightarrow> response_key_calls (ex_keys X) qm \<in> U"
  shows "faithful_responses X live U (responses st') \<and>
    (\<forall>v qm. r = Inr v \<longrightarrow> match_query (texts (ex_readers X)) (ex_schema X) p vars = Inr qm \<longrightarrow> \<not> relay (query_def qm) \<longrightarrow>
      (\<exists>e. computed_for X U (response_cache_key X qm ctx) e \<and> entry_response e = v))"
  using assms(3)
proof (cases rule: execute_cases)
  case apart
  with assms(2) show ?thesis by auto
next
  case (hit qm v)
  with lookup_faithful [OF assms(1,2) hit(2)] show ?thesis by auto
next
  case (miss qm w rc)
  have rc: "faithful_responses X live U (responses \<lparr>adapter_state = w, responses = rc\<rparr>)"
    using lookup_faithful(1) [OF assms(1,2) miss(2)] by simp
  note run = run_query_faithful [OF assms(1) rc miss(3) matched_member [OF miss(1)] calls [OF miss(1)] assms(4)]
  have "\<exists>e. computed_for X U (response_cache_key X qm ctx) e \<and> entry_response e = v" if "r = Inr v" for v
  proof -
    from run(2) [OF that] obtain rows where "respond X qm ctx rows = Inr v" by blast
    then show ?thesis
      using matched_member [OF miss(1)] assms(4) calls [OF miss(1)]
      by (intro exI [of _ "\<lparr>entry_response = v, entry_views = []\<rparr>"]) (auto simp: computed_for_def)
  qed
  with run(1) miss(1) show ?thesis by auto
qed

lemma exec_run_faithful:
  assumes "moka_laws (ex_store X) stored live" and "exec_run X live U st"
  shows "faithful_responses X live U (responses st)"
  using assms(2)
proof (induction rule: exec_run.induct)
  case (start w cfg)
  then show ?case
    by (auto simp: faithful_responses_def response_cache_new_def build_live [OF assms(1)])
next
  case (query st now p vars ctx r st')
  show ?case using execute_faithful [OF assms(1) query.IH query.hyps(2,3) query.hyps(4)] by blast
next
  case (invalidate st c vs)
  then show ?case using faithful_shrink [OF _ invalidate_views_shrinks [OF assms(1)]] by simp
next
  case (time st c s)
  then show ?case using faithful_shrink [of X live U c "c\<lparr>rc_store := s\<rparr>"] by simp
qed simp

lemma sort_entries_set: "set (sort_entries es) = set es"
proof -
  have "set (insert_entry e fs) = insert e (set fs)" for e :: "string \<times> 'a" and fs by (induction fs) auto
  then show ?thesis by (simp add: sort_entries_def) (induction es; simp)
qed

lemma sort_strings_set: "set (sort_strings ss) = set ss"
  by (simp add: sort_strings_def sort_entries_set image_image)

lemma denied_by_roles: "set (roles c) = set (roles c') \<Longrightarrow> denied_field X q c n = denied_field X q c' n"
  by (simp add: denied_field_def can_access_field_def can_access_scope_def list_ex_iff split: option.splits)

section \<open>One selected field\<close>

text \<open>The adapter evaluates the projection it is given on the stored rows.\<close>

definition adapter_projects ::
  "'w query_adapter \<Rightarrow> (json \<Rightarrow> string) \<Rightarrow> (adapter_query \<Rightarrow> 'w \<Rightarrow> json list) \<Rightarrow> bool" where
  "adapter_projects A txt data \<longleftrightarrow>
     (\<forall>h aq w rows w' e. fetch_rows A (Some h) aq w = (Inr rows, w') \<longrightarrow>
        read_expr (length (projection_template h)) (projection_template h) = Some (e, []) \<longrightarrow>
        rows = map (\<lambda>row. eval_expr txt row e) (data aq w))"

lemma unknown_field_projection:
  assumes "selected_definition types parent (leaf n) = None" and "n \<noteq> ''__typename''"
  shows "build_typed_projection_fields types [leaf n] parent 0 = [native_field n]"
  using assms
  by (subst build_typed_projection_fields.simps)
    (simp add: leaf_def response_key_def kind_of_field_def native_field_def)

lemma one_field_plan:
  assumes "match_selections qm = [FieldSelection q al args [leaf n] ds]" and "n \<noteq> ''__typename''"
  shows "plan_projection_fields (plan_query strategy qm) = [n]" and "plan_strategy (plan_query strategy qm) = Project"
  using assms by (simp_all add: plan_query_def Let_def extract_projection_fields_def choose_jsonb_strategy_def leaf_def response_key_def)

lemma unknown_field_hint:
  assumes "match_selections qm = [FieldSelection q al args [leaf n] ds]" and "n \<noteq> ''__typename''"
    and "selected_definition (schema_types (ex_schema X)) (return_type (query_def qm)) (leaf n) = None"
  shows "\<exists>h. projection_hint X qm = Some h \<and>
    read_expr (length (projection_template h)) (projection_template h) =
      Some (BuildObject [(n, Access ''data'' [] False (to_snake_case n))], [])"
proof -
  have "native_field n # [] \<noteq> []" "dquote \<notin> set ''data''" by simp_all
  from typed_projection_reads [OF this] obtain sql where
    "generate_typed_projection_sql ''data'' [native_field n] = Inr sql"
    "read_expr (length sql) sql = Some (projection_expr ''data'' [native_field n], [])" by blast
  then show ?thesis
    using one_field_plan [OF assms(1,2), of "ex_strategy X"] assms(1) unknown_field_projection [OF assms(3,2)]
    by (simp add: projection_hint_def Let_def projection_expr_def native_field_def)
qed

lemma unknown_field_allowed:
  assumes "selected_definition types ret (leaf n) = None"
  shows "apply_field_rbac_filtering security types ret [n] ctx = Inr ([n], [])"
  using assms
  by (auto simp: apply_field_rbac_filtering_def selected_definition_def classify_field_access_def leaf_def
      split: option.splits)

lemma one_field_project:
  "project P (mapper_new [n]) (JObject [(n, v)]) = JObject [(n, project_nested_value P v (simple_mapping n))]"
  by (simp add: project_def project_json_object_def mapper_new_def mapper_with_mappings_def source_value_def simple_mapping_def)

lemma unknown_field_response:
  assumes "match_selections qm = [FieldSelection q al args [leaf n] ds]" and "n \<noteq> ''__typename''"
    and "selected_definition (schema_types (ex_schema X)) (return_type (query_def qm)) (leaf n) = None"
    and "returns_list (query_def qm)"
  shows "respond X qm ctx (map (\<lambda>v. JObject [(n, v)]) vs) =
    Inr (wrap_in_data_envelope
      (JArray (map (\<lambda>v. JObject [(n, project_nested_value (texts (ex_readers X)) v (simple_mapping n))]) vs))
      (query_name (query_def qm)))"
  using assms unknown_field_allowed [OF assms(3)] one_field_plan [OF assms(1,2)]
  by (simp add: respond_def Let_def configure_typename_from_selections_def project_results_def one_field_project
      comp_def leaf_def)

section \<open>A concrete executor\<close>

text \<open>
  Employees with a salary that is masked and an address that is refused to callers without the
  scope; the database holds one of them and evaluates projections.
\<close>

definition guarded :: "string \<Rightarrow> field_type \<Rightarrow> string option \<Rightarrow> field_deny_policy \<Rightarrow> field_definition" where
  "guarded n t scope policy = \<lparr>field_name = n, fd_field_type = t, field_alias = None, requires_scope = scope, on_deny = policy\<rparr>"

definition employee :: type_definition where
  "employee = \<lparr>type_name = ''Employee'', type_fields =
     [guarded ''id'' FT_Id None Reject, guarded ''salary'' FT_Int (Some ''read:pay'') Mask,
      guarded ''homeAddress'' FT_String (Some ''read:home'') Reject],
     relationships = [], type_sql_source = ''v_employee'', is_error = False\<rparr>"

definition employees :: query_definition where
  "employees = (sample_users False)\<lparr>query_name := ''employees'', return_type := ''Employee'', sql_source := Some ''v_employee''\<rparr>"

definition employees_schema :: compiled_schema where
  "employees_schema = (sample_schema False)\<lparr>schema_types := [employee], schema_queries := [employees]\<rparr>"

definition projected :: "sql_projection_hint option \<Rightarrow> json \<Rightarrow> json" where
  "projected hint row =
     (case hint of
        Some h \<Rightarrow>
          (case read_expr (length (projection_template h)) (projection_template h) of
             Some (e, _) \<Rightarrow> eval_expr (\<lambda>_. []) row e | None \<Rightarrow> row)
      | None \<Rightarrow> row)"

definition call_weight :: "hash_call \<Rightarrow> nat" where
  "call_weight c = (case c of Write s \<Rightarrow> Suc (length s) | _ \<Rightarrow> 1)"

definition employees_executor :: "(json list, (response_slot, response_entry) plain) executor" where
  "employees_executor =
     \<lparr>ex_adapter = \<lparr>fetch_rows = (\<lambda>hint aq w. (Inr (map (projected hint) w), w)), set_variables = (\<lambda>_ w. (Inr (), w)),
        adapter_kind = ''PostgreSQL''\<rparr>,
      ex_readers = \<lparr>texts = no_parsers, parse_uuid = (\<lambda>_. None), row_error = (\<lambda>_. []), json_text = (\<lambda>_. []), started_at = []\<rparr>,
      ex_schema = employees_schema, ex_policy = None,
      ex_access = Some [\<lparr>role_name = ''hr'', role_scopes = [''*'']\<rparr>], ex_strategy = Project,
      ex_keys = sample_keys\<lparr>key_hash := (\<lambda>cs. word_of_nat (sum_list (map call_weight cs)))\<rparr>,
      ex_store = plain_store, ex_relay = (\<lambda>_ _ _ w. (Inr JNull, w))\<rparr>"

definition ask :: "string list \<Rightarrow> parsed_query" where
  "ask names = \<lparr>operation_type = ''query'', operation_name = None, root_field = ''employees'',
     parsed_selections = [FieldSelection ''employees'' None [] (map leaf names) []],
     variable_defaults = [], parsed_fragments = [], query_source = []\<rparr>"

definition caller :: "string \<Rightarrow> string list \<Rightarrow> security_context" where
  "caller u rs = \<lparr>user_id = u, roles = rs, tenant_id = None, scopes = [], attributes = Map.empty, expires_at = 9\<rparr>"

definition empty_state :: "bool \<Rightarrow> (json list, (response_slot, response_entry) plain) exec_state" where
  "empty_state cached =
     \<lparr>adapter_state = [JObject [(''id'', JString ''e1''), (''salary'', json_int 9), (''home_address'', json_int 7)]],
      responses = map_option (response_cache_new plain_store)
        (if cached then Some \<lparr>response_enabled = True, response_max_entries = 10, response_ttl = 0\<rparr> else None)\<rparr>"

abbreviation run_ask ::
  "string list \<Rightarrow> security_context \<Rightarrow> (json list, (response_slot, response_entry) plain) exec_state \<Rightarrow>
   (exec_error + json) \<times> (json list, (response_slot, response_entry) plain) exec_state" where
  "run_ask names ctx st \<equiv> execute_regular_query_with_security employees_executor 0 (ask names) None ctx st"

abbreviation sample_match :: "string list \<Rightarrow> db_error + matched" where
  "sample_match names \<equiv> match_query (texts (ex_readers employees_executor)) (ex_schema employees_executor) (ask names) None"

lemma not_error_Inr: "\<not> is_error_result r \<Longrightarrow> \<exists>v. r = Inr v"
  by (cases r) simp_all

lemma sample_query: "sample_match names = Inr qm \<Longrightarrow> query_def qm = employees"
  by (drule matched_member) (simp add: employees_executor_def employees_schema_def)

lemma sample_denied:
  "denied_field employees_executor employees (caller ''u'' []) ''salary''"
  "denied_field employees_executor employees (caller ''u'' []) ''homeAddress''"
  by (simp_all add: denied_field_def employees_executor_def employees_schema_def employees_def employee_def find_type_def
      guarded_def can_access_field_def can_access_scope_def caller_def)

lemma sample_projects: "adapter_projects (ex_adapter employees_executor) (\<lambda>_. []) (\<lambda>aq w. w)"
  by (auto simp: adapter_projects_def employees_executor_def projected_def)

lemma match_arguments_of:
  "match_query P schema p None = Inr qm \<Longrightarrow> match_selections qm = [FieldSelection q al [] ns ds] \<Longrightarrow> match_arguments qm = Map.empty"
  by (auto simp: match_query_def try_bind_eq_Inr extract_arguments_def Let_def split: option.splits list.splits)


section \<open>Properties\<close>





text \<open>
  The response cache does not look at what is selected below the root: while it holds a response,
  every query of the caller with the same name, root fields and arguments is answered with it,
  whatever fields it asks for.
\<close>

theorem response_shared_across_selections:
  assumes "moka_laws (ex_store X) stored live" and "responses st = Some c" and "rc_enabled c"
    and "live (rc_store c) (response_cache_key X qm ctx) = Some e"
    and "match_query (texts (ex_readers X)) (ex_schema X) p vars = Inr qm'"
    and "query_name (query_def qm') = query_name (query_def qm)" "match_fields qm' = match_fields qm"
      "match_arguments qm' = match_arguments qm"
    and "authenticated_guards now (query_def qm') ctx = Inr False"
    and "set_query_variables X ctx (adapter_state st) = (Inr (), w)"
  shows "fst (execute_regular_query_with_security X now p vars ctx st) = Inr (entry_response e)"
proof -
  have "response_cache_key X qm' ctx = response_cache_key X qm ctx"
    using assms(6-8) by (simp add: response_cache_key_def compute_response_cache_key_def response_key_calls_def)
  moreover obtain x ns s where g: "m_get (ex_store X) (response_cache_key X qm ctx) (rc_store c) = (x, ns, s)"
    by (cases "m_get (ex_store X) (response_cache_key X qm ctx) (rc_store c)")
  moreover have "x = Some e" using laws_get(1) [OF assms(1) g] assms(4) by simp
  moreover have "\<not> is_expired now ctx" using assms(9) by (auto simp: authenticated_guards_def)
  ultimately show ?thesis
    using assms(2,3,5,9,10)
    by (simp add: execute_regular_query_with_security_def lookup_response_def response_get_def)
qed

theorem response_shared_across_selections_witness:
  "fst (run_ask [''id'', ''salary''] (caller ''boss'' [''hr'']) (snd (run_ask [''id''] (caller ''boss'' [''hr'']) (empty_state True)))) =
   Inr (wrap_in_data_envelope (JArray [JObject [(''id'', JString ''e1'')]]) ''employees'')"
proof -
  let ?boss = "caller ''boss'' [''hr'']" and ?st = "snd (run_ask [''id''] (caller ''boss'' [''hr'']) (empty_state True))"
  let ?m1 = "sample_match [''id'']" and ?m2 = "sample_match [''id'', ''salary'']"
  have "\<not> is_error_result ?m1" "\<not> is_error_result ?m2"
    and s: "match_selections (projr ?m1) = [FieldSelection ''employees'' None [] [leaf ''id''] []]"
      "match_selections (projr ?m2) = [FieldSelection ''employees'' None [] [leaf ''id'', leaf ''salary''] []]"
      "match_fields (projr ?m1) = match_fields (projr ?m2)"
    by code_simp+
  then obtain qm qm' where qm: "?m1 = Inr qm" "?m2 = Inr qm'" using not_error_Inr by metis
  have args: "match_arguments qm' = match_arguments qm"
    using match_arguments_of [OF qm(1)] match_arguments_of [OF qm(2)] s qm by simp
  have "responses ?st \<noteq> None" "rc_enabled (the (responses ?st))" by code_simp+
  then obtain c where c: "responses ?st = Some c" "rc_enabled c" by auto
  have "plain_live (rc_store (the (responses ?st))) (response_cache_key employees_executor (projr ?m1) ?boss) =
      Some \<lparr>entry_response = wrap_in_data_envelope (JArray [JObject [(''id'', JString ''e1'')]]) ''employees'',
        entry_views = [''v_employee'']\<rparr>" by code_simp
  then have live: "plain_live (rc_store c) (response_cache_key employees_executor qm ?boss) =
      Some \<lparr>entry_response = wrap_in_data_envelope (JArray [JObject [(''id'', JString ''e1'')]]) ''employees'',
        entry_views = [''v_employee'']\<rparr>" using c qm by simp
  have laws: "moka_laws (ex_store employees_executor) plain_stored plain_live"
    by (simp add: employees_executor_def plain_store_lawful)
  have guards: "authenticated_guards 0 (query_def qm') ?boss = Inr False"
    unfolding sample_query [OF qm(2)] by code_simp
  have vars: "set_query_variables employees_executor ?boss w = (Inr (), w)" for w
    by (simp add: set_query_variables_def employees_executor_def employees_schema_def sample_schema_def)
  show ?thesis
    using response_shared_across_selections [OF laws c live qm(2) _ _ args guards vars] s(3) qm
      sample_query [OF qm(1)] sample_query [OF qm(2)] by simp
qed

end
