(* ===== verification/Spec2Isabelle.thy ===== *)
theory Spec2Isabelle
  imports Where_Safety Wire_Safety Cascade_Invalidator Dependency_Tracker Condition_Eval
    Condition_Grammar Breaker_Safety Query_Limits Rate_Safety Checksum Wire_Operator_Safety
    Relay_Paging Field_Access Rest_Selection Rest_Routing Mutation_Safety Adapter_Safety Execution_Safety
begin

text \<open>
  A verification of core parts of FraiseQL, a GraphQL engine that compiles queries to SQL over
  JSON views (Rust crates under \<open>src/crates/\<close>).

  \<^bold>\<open>The program and its parts.\<close> A request arrives at the HTTP server (\<open>fraiseql-server\<close>), which
  limits the rate of authentication attempts, rejects queries that are too deep or too complex,
  guards federation queries by circuit breakers and hands the query to the runtime
  (\<open>fraiseql-core\<close>); its REST transport derives routes from the schema and turns requests into
  queries and mutations of that runtime. The runtime adds the conditions of row-level security and
  of injected token claims, filters the fields a caller may see, pages relay connections, turns GraphQL filters into a WHERE clause and the clause into
  parameterised SQL of one of four dialects (\<open>fraiseql-db\<close>), caches results and tracks which
  views they depend on (\<open>fraiseql-core/src/cache\<close>). Streaming queries speak the PostgreSQL wire
  protocol directly (\<open>fraiseql-wire\<close>). Observers react to entity changes when a condition
  written in a small language holds (\<open>fraiseql-observers\<close>).

  \<^bold>\<open>Theories, sources and correspondence.\<close>

  \<^item> \<open>Prelude\<close>: results (\<open>Result\<close> as a sum, \<open>?\<close> as \<open>try_bind\<close>) and the string functions used
    everywhere. \<open>Json\<close>: \<open>serde_json::Value\<close>. \<open>Utf8\<close>: \<open>as_bytes\<close> and \<open>from_utf8_lossy\<close> on code
    points.
  \<^item> \<open>Sql_Escape\<close>: \<open>fraiseql-db/src/identifier.rs\<close>, \<open>path_escape.rs\<close> and \<open>escape_like_literal\<close>,
    with the scanners that define what a database reads back.
  \<^item> \<open>Where_Clause\<close>: \<open>fraiseql-db/src/where_clause.rs\<close> (AST, operator names, the parser
    \<open>from_graphql_json\<close>), \<open>to_snake_case\<close> of \<open>utils.rs\<close>.
  \<^item> \<open>Sql_Dialect\<close>, \<open>Dialects\<close>: the trait of \<open>dialect/trait_def.rs\<close> as a record of its methods with
    the default methods, and the implementations in \<open>postgres.rs\<close>, \<open>mysql.rs\<close>, \<open>sqlite.rs\<close> and
    \<open>sqlserver.rs\<close>.
  \<^item> \<open>Where_Generator\<close>: \<open>where_generator/generic.rs\<close> and \<open>counter.rs\<close>; the \<open>Cell\<close> counter and the
    parameter vector are passed as state. \<open>Where_Safety\<close> holds its properties.
  \<^item> \<open>Multimap\<close>, \<open>Cascade_Invalidator\<close>, \<open>Dependency_Tracker\<close>: \<open>cascade_invalidator.rs\<close> and
    \<open>dependency_tracker.rs\<close> of \<open>fraiseql-core/src/cache\<close>; their breadth-first loops are total
    functions with a measure on the unvisited nodes.
  \<^item> \<open>Wire_Protocol\<close>, \<open>Wire_Safety\<close>: \<open>protocol/constants.rs\<close>, \<open>message.rs\<close>, \<open>encode.rs\<close> and
    \<open>decode.rs\<close> of \<open>fraiseql-wire\<close>, on bytes and machine integers; an index out of range is the
    explicit value for a panic.
  \<^item> \<open>Condition_Parser\<close>, \<open>Condition_Grammar\<close>, \<open>Condition_Eval\<close>: \<open>condition/lexer.rs\<close>, \<open>parser.rs\<close>,
    \<open>mod.rs\<close>, \<open>evaluator.rs\<close> and \<open>event.rs\<close> of \<open>fraiseql-observers\<close>.
  \<^item> \<open>Circuit_Breaker\<close>, \<open>Breaker_Safety\<close>: \<open>federation/circuit_breaker.rs\<close> of \<open>fraiseql-server\<close>, its
    configuration in \<open>fraiseql-core/src/schema/config_types.rs\<close>, and the section of
    \<open>routes/graphql/handler.rs\<close> that checks the breakers and records outcomes. \<open>Machines\<close> holds the
    generic theory of runs that the breaker and the rate limiter share.
  \<^item> \<open>Query_Complexity\<close>, \<open>Query_Limits\<close>: \<open>graphql/complexity.rs\<close> of \<open>fraiseql-core\<close> on 64-bit wrapping
    arithmetic, against the depth and cost of the expanded query.
  \<^item> \<open>Rate_Limiter\<close>, \<open>Rate_Safety\<close>: \<open>fraiseql-auth/src/rate_limiting.rs\<close>.
  \<^item> \<open>Checksum\<close>: \<open>validation/checksum.rs\<close> of \<open>fraiseql-core\<close>.
  \<^item> \<open>Wire_Operators\<close>, \<open>Wire_Operator_Safety\<close>: \<open>operators/\<close> of \<open>fraiseql-wire\<close> (fields, values, operators,
    their SQL and ORDER BY clauses).
  \<^item> \<open>Order_By\<close>: \<open>types/sql_hints.rs\<close> of \<open>fraiseql-db\<close> and the part of the schema
    (\<open>schema/field_type.rs\<close>, \<open>graphql_type_defs.rs\<close>) the other theories read. \<open>Operator_Registry\<close>:
    \<open>utils/operators.rs\<close>.
  \<^item> \<open>Executor\<close>, \<open>Executor_Security\<close>: \<open>runtime/executor/query.rs\<close> and \<open>mod.rs\<close>, from a matched query to the
    call of the adapter, with a three-valued semantics of clauses to say which rows pass.
    \<open>Field_Access\<close>: \<open>runtime/field_filter.rs\<close>, \<open>executor/security.rs\<close>, \<open>schema/security_config.rs\<close>.
  \<^item> \<open>Relay\<close>, \<open>Relay_Paging\<close>: \<open>runtime/relay.rs\<close>, the relay entry point of the executor and the page
    query of \<open>postgres/adapter/relay.rs\<close>.
  \<^item> \<open>Rest_Params\<close>, \<open>Rest_Routes\<close>, \<open>Rest_Handler\<close>, \<open>Rest_Embedding\<close>, \<open>Rest_Bulk\<close>, \<open>Rest_Mutations\<close>: the files
    \<open>params.rs\<close>, \<open>resource.rs\<close>, \<open>handler.rs\<close>, \<open>cache_control.rs\<close>, \<open>embedding.rs\<close>, \<open>bulk.rs\<close> and
    \<open>idempotency.rs\<close> of \<open>fraiseql-server/src/routes/rest\<close>. Handlers that write pass on the state of
    the database and of the idempotency store; a panic is an outcome of its own. Their properties
    are in \<open>Rest_Paging\<close>, \<open>Rest_Related\<close>, \<open>Rest_Selection\<close>, \<open>Rest_Writes\<close> and \<open>Rest_Routing\<close>.
  \<^item> \<open>Projection\<close>, \<open>Mutation_Result\<close>, \<open>Mutation_Executor\<close>, \<open>Mutation_Safety\<close>: \<open>runtime/projection.rs\<close>,
    \<open>mutation_result.rs\<close>, \<open>cascade.rs\<close> and \<open>executor/mutation.rs\<close> of \<open>fraiseql-core\<close>, from the name and the
    variables of a mutation to the call of its database function, the invalidation of caches and
    the response, and the function call of \<open>postgres/adapter/database.rs\<close>; the adapter and the
    client are records of effects. \<open>Suggestions\<close>: \<open>suggest_similar\<close> and \<open>levenshtein\<close> of \<open>runtime/matcher.rs\<close>.
  \<^item> \<open>Query_Matcher\<close>: the rest of \<open>runtime/matcher.rs\<close>, \<open>runtime/planner.rs\<close>, \<open>graphql/fragment_resolver.rs\<close> and
    \<open>directive_evaluator/evaluator.rs\<close>, from a parsed query to a matched and planned one.
  \<^item> \<open>Cache_Store\<close>, \<open>Result_Cache\<close>, \<open>Result_Safety\<close>: \<open>cache/result.rs\<close> and \<open>config.rs\<close>. The concurrent store is
    code of a third party: a record of its operations with the laws \<open>moka_laws\<close> (it may evict and
    expire at any time and reports every entry it drops), which a concrete store is shown to meet.
    \<open>Cache_Keys\<close>: \<open>cache/key.rs\<close>, a key as the sequence of calls of the hasher under an unknown hash.
    \<open>Cache_Entities\<close>: \<open>entity_key.rs\<close>, \<open>cascade_response_parser.rs\<close>, \<open>cascade_metadata.rs\<close>,
    \<open>uuid_extractor.rs\<close>, \<open>invalidation.rs\<close> and \<open>query_analyzer.rs\<close>.
  \<^item> \<open>Cached_Adapter\<close>, \<open>Adapter_Safety\<close>: \<open>cache/adapter\<close>, \<open>invalidation_api.rs\<close>, \<open>fact_table_cache.rs\<close> and
    \<open>fact_table_version.rs\<close>, over a database that is a record of its operations.
  \<^item> \<open>Projection_Sql\<close>: \<open>projection_generator.rs\<close> of \<open>fraiseql-db\<close> and the typed fields of a selection in
    \<open>executor/query.rs\<close>, with a reader and an evaluator of the expressions. \<open>Response_Cache\<close>:
    \<open>cache/response_cache.rs\<close>. \<open>Query_Execution\<close>, \<open>Execution_Safety\<close>: \<open>execute_regular_query\<close> and
    \<open>execute_regular_query_with_security\<close> as a whole, composed of the theories of their parts.

  \<^bold>\<open>Interfaces.\<close> The locales \<open>sql_dialect_contract\<close> (\<open>Dialects\<close>) and \<open>bound_dialect\<close> (\<open>Where_Safety\<close>) are
  what the generator needs of a dialect; all four dialects are instances. \<open>identifier_quoting\<close> is
  the law of the four quoting functions. \<open>multimap\<close> is what the cache components need of a map of
  sets. \<open>guarded_machine\<close>, \<open>keyed_machines\<close> and \<open>keyed_simulation\<close> (\<open>Machines\<close>) relate one state machine
  to its runs and a table of keyed machines to single ones; the breaker, its manager and the rate
  limiter are instances. \<open>enforcing_path\<close> (\<open>Executor_Security\<close>) is an entry point that enforces the
  injected conditions; the authenticated query, the row count and the relay query are instances.
  \<open>response_store\<close> (\<open>Rest_Writes\<close>) is the store of responses the POST handler relies on.
  \<open>reverse_index\<close> (\<open>Cache_Store\<close>) is an index beside a store that its eviction listener maintains; the
  three indexes of the row cache and that of the response cache are instances. \<open>prefix_code\<close> (\<open>Cache_Keys\<close>) is a family of call sequences
  of which none is a proper prefix of another; JSON values and orderings are instances.

  \<^bold>\<open>What the theorems show.\<close>

  \<^item> SQL generation: the SQL text does not depend on the bound values, and with the extended
    operators set aside the placeholders are numbered consecutively and match the bound values
    one to one; substring operators mean what their names say under LIKE; identifiers and JSON
    paths are read back as written; the parser inverts the JSON form of clauses and yields only
    clauses the generator can handle; the regular expression guard refuses nested quantifiers of
    the documented form. Where the guarantee stops is stated too: the numbering of extended
    operators, patterns the guard lets pass, and backslashes in MySQL paths.
  \<^item> Cache invalidation: the dependency graph stays acyclic with consistent converse maps, an
    invalidation returns exactly the transitive dependents, path queries decide reachability and
    always return; the tracker refines a map from cache keys to sets of views and leaks nothing.
  \<^item> Result cache: a read through the caching adapter returns what the database returns as long as
    every write invalidates views from which the changed answers can be reached and no key is
    stored again while its expired entry is still held; keys determine requests; an invalidated
    entry is not served; the memory counter. Where the code stops short: an entry stored again
    under a key still held, lists of fewer than two rows, cascades for types of several words, a
    counter that wraps after a clear.
  \<^item> Query execution: no answer discloses a field the caller lacks the scope for, computed or cached;
    an invalidated response is not served; which callers share responses; projections are read
    back as the selected fields. Where the code stops short: a name that is no field but is read
    under the key of one passes the access check, the response cache ignores the selected
    fields, and callers without a security context are not checked at all.
  \<^item> Query matching: fragment resolution returns exactly the expansion of the fragments when it is
    nested at most ten deep; directives of spreads are lost and variables override arguments.
  \<^item> Wire protocol: decoding never panics, inverts the protocol's encoding, consumes exactly one
    frame, is independent of what follows it, reports an incomplete frame as such and respects
    the limits; every encoded message carries its own length.
  \<^item> Condition language: the parser accepts exactly the grammar, printing and parsing are inverse
    on printable conditions, the size and depth limits hold, and evaluation returns a truth value
    for comparable operands, is exact on integers and reads only the fields mentioned.
  \<^item> Circuit breaker: counting and tripping, rejection for the whole recovery time, the number of
    probes against recorded outcomes, recovery, absence of counter overflow, isolation of
    entities, agreement of the two constructors; and two ways in which outcomes that are lost or
    late defeat the single-probe rule.
  \<^item> Limits on requests: an accepted query stays within the limits once its fragments are expanded, a
    cycle of fragments is rejected, and the wrap-around that defeats the complexity limit; a key
    gets at most twice its number of requests through in a window.
  \<^item> Checksums and wire operators: Luhn and MOD-97 decide their remainders and catch the usual
    errors; wire operators bind consecutive parameters and keep values out of the text.
  \<^item> Executor: a row passes the clause of an authenticated query exactly if it passes the policy, the
    injected conditions, the filter and the explicit arguments; the guards reject before the
    database is reached; denied fields are not disclosed; the direct entry point of the REST
    transport drops the injected conditions.
  \<^item> Relay: cursors are read back, walking forward returns every row once and ends; a backward page
    loses the nearest row.
  \<^item> REST: routing is first fit on a table without duplicates that exposes only allowed operations;
    page sizes are bounded; accepted selections exist in the schema; a retry under an idempotency
    key changes nothing and the store is bounded. Where the code stops short: relay pagination and
    search by relevance, role checks of embedded listings, filters on the join field of an
    embedding, bulk operations whose filter is not applied and which are not atomic, keys of a
    body that reach a GraphQL document, and the panic of the selection parser beyond ASCII.
  \<^item> Mutations: token claims are the last arguments of the function and depend on the caller only;
    rows are accepted exactly as their documentation says; a response has the selected fields
    and no others; suggestions are the nearest names. Where the code stops short: an omitted
    input object moves the claims, rows read from PostgreSQL are rejected after the function has
    run, an entity without a type leaves the caches stale, texts that are JSON lose their type,
    and nested keys are found in one spelling only.

  \<^bold>\<open>Bounds and fuel.\<close> The functions that model code are total without fuel: structural recursion, or a
  measure that the loop decreases (input length, JSON size, unvisited nodes). The fuel of the
  scanners \<open>scan_qualified\<close> and \<open>scan_path\<close>, which belong to the specification, is the number of
  parts, that of \<open>read_expr\<close> the length of the text, and the theorems show that this is enough. Limits of the source (regular expression
  length, field counts, condition size and depth, argument count) are constants with the source's
  values.

  \<^bold>\<open>Abstractions.\<close> A \<open>String\<close> is a list of HOL characters (code points up to U+00FF) except in the wire
  protocol, where text is a list of code points with its UTF-8 encoding. One error message of the
  regular expression guard loses two ellipsis characters for that reason, and one message of the
  condition parser is kept as the token it prints. The extended operators that no dialect
  translates are one constructor. Hash maps are association lists; no property depends on their
  order. The average in the invalidation statistics is the pair of integers it divides. A float
  is its bit pattern and is read as the rational number it stands for. Time, generated
  identifiers, \<open>serde_json::from_str\<close>, UUID parsing and, but for mutation rows, whose columns are read
  one by one, \<open>serde_json::from_value\<close> are arguments. Each operation
  under a lock is one step. Log output is left out.

  \<^bold>\<open>Not modelled.\<close> The database adapters (input and output through drivers), the routers and the
  streaming responses of the HTTP server, the generated OpenAPI document and the command line
  tool, which are glue around the modelled parts or documentation. Of the PostgreSQL adapter the
  function call and the page query are modelled. Not modelled yet: the parser and the classification
  of a GraphQL document (what runs one is an argument of \<open>Rest_Bulk\<close>), the aggregate and window queries,
  queries with several root fields, conditional REST responses, the Redis idempotency store, the observers' retry, lease and deduplication logic.
\<close>

end
